(* ===== verification/Prelude.thy ===== *)
theory Prelude
  imports Main "HOL-Library.Word" "HOL-Library.List_Lexorder" "HOL-Library.Option_ord"
begin

text \<open>
  What every component of the development shares: the names of the machine integers, the
  \<open>Result\<close> values of the Rust code as sums (\<open>Inl\<close> the error, \<open>Inr\<close> the
  value) with the combinators the code uses on them (the \<open>?\<close> operator, loops that return
  early, \<open>collect\<close> into a \<open>Result\<close>, \<open>ok_or\<close>), and generic lemmas on
  lists and on the lexicographic order of byte strings.
\<close>

type_synonym u8 = "8 word"
type_synonym u16 = "16 word"
type_synonym u32 = "32 word"
type_synonym u64 = "64 word"
type_synonym u128 = "128 word"
type_synonym bytes = "8 word list"

text \<open>A panic (\<open>expect\<close>, slice out of range) or an error value with its message.\<close>

datatype rust_error = Panic string | Fail string

named_theorems result_simps \<open>inversion of successful results\<close>
named_theorems key_simps \<open>lengths and injectivity of store keys\<close>
named_theorems store_simps \<open>look-ups after writes\<close>

text \<open>\<open>to_string\<close> of an unsigned integer.\<close>

fun dec_string :: "nat \<Rightarrow> string" where
  "dec_string n = (if n < 10 then [char_of (48 + n)] else dec_string (n div 10) @ [char_of (48 + n mod 10)])"

declare dec_string.simps [simp del]

section \<open>Results\<close>

text \<open>The \<open>?\<close> operator: go on with the value, or return the error.\<close>

definition and_then :: "'e + 'a \<Rightarrow> ('a \<Rightarrow> 'e + 'b) \<Rightarrow> 'e + 'b" where
  "and_then r f = (case r of Inl e \<Rightarrow> Inl e | Inr a \<Rightarrow> f a)"

lemma and_then_simps [simp]:
  "and_then (Inl e) f = Inl e"
  "and_then (Inr a) f = f a"
  by (simp_all add: and_then_def)

lemma and_then_Inr_iff [result_simps]:
  "and_then r f = Inr b \<longleftrightarrow> (\<exists>a. r = Inr a \<and> f a = Inr b)"
  by (cases r) auto

lemma and_then_cong [fundef_cong]:
  "r = r' \<Longrightarrow> (\<And>a. r' = Inr a \<Longrightarrow> f a = f' a) \<Longrightarrow> and_then r f = and_then r' f'"
  by (cases r') auto

lemma and_then_InrE:
  assumes "and_then r f = Inr b"
  obtains a where "r = Inr a" and "f a = Inr b"
  using assms by (auto simp: and_then_Inr_iff)

definition ok_or :: "'e \<Rightarrow> 'a option \<Rightarrow> 'e + 'a" where
  "ok_or e x = (case x of None \<Rightarrow> Inl e | Some a \<Rightarrow> Inr a)"

lemma ok_or_simps [simp]:
  "ok_or e None = Inl e"
  "ok_or e (Some a) = Inr a"
  by (simp_all add: ok_or_def)

lemma ok_or_Inr_iff [result_simps]: "ok_or e x = Inr a \<longleftrightarrow> x = Some a"
  by (cases x) auto

text \<open>An early error return guarded by a condition (\<open>bail!\<close>, \<open>ensure!\<close>).\<close>

definition ensure :: "bool \<Rightarrow> 'e \<Rightarrow> 'e + unit" where
  "ensure b e = (if b then Inr () else Inl e)"

lemma ensure_simps [simp]:
  "ensure True e = Inr ()"
  "ensure False e = Inl e"
  by (simp_all add: ensure_def)

lemma ensure_Inr_iff [result_simps]: "ensure b e = Inr u \<longleftrightarrow> b"
  by (cases b) auto

definition map_err :: "('e \<Rightarrow> 'f) \<Rightarrow> 'e + 'a \<Rightarrow> 'f + 'a" where
  "map_err f r = (case r of Inl e \<Rightarrow> Inl (f e) | Inr a \<Rightarrow> Inr a)"

lemma map_err_simps [simp]:
  "map_err f (Inl e) = Inl (f e)"
  "map_err f (Inr a) = Inr a"
  by (simp_all add: map_err_def)

lemma map_err_Inr_iff [result_simps]: "map_err f r = Inr a \<longleftrightarrow> r = Inr a"
  by (cases r) auto

text \<open>A \<open>for\<close> loop whose body may return early with an error.\<close>

fun try_fold :: "('s \<Rightarrow> 'a \<Rightarrow> 'e + 's) \<Rightarrow> 's \<Rightarrow> 'a list \<Rightarrow> 'e + 's" where
  "try_fold f s [] = Inr s"
| "try_fold f s (x # xs) = and_then (f s x) (\<lambda>s'. try_fold f s' xs)"

lemma try_fold_append:
  "try_fold f s (xs @ ys) = and_then (try_fold f s xs) (\<lambda>s'. try_fold f s' ys)"
proof (induction xs arbitrary: s)
  case (Cons x xs)
  then show ?case by (cases "f s x") auto
qed simp

lemma try_fold_invariant:
  assumes "try_fold f s xs = Inr t" and "P s"
    and "\<And>s x s'. P s \<Longrightarrow> x \<in> set xs \<Longrightarrow> f s x = Inr s' \<Longrightarrow> P s'"
  shows "P t"
  using assms
proof (induction xs arbitrary: s)
  case (Cons x xs)
  from Cons.prems(1) obtain s' where s': "f s x = Inr s'" and rest: "try_fold f s' xs = Inr t"
    by (auto elim: and_then_InrE)
  have "P s'" by (rule Cons.prems(3) [OF Cons.prems(2) _ s']) simp
  with rest show ?case
  proof (rule Cons.IH)
    fix u y u' assume "P u" "y \<in> set xs" "f u y = Inr u'"
    then show "P u'" by (intro Cons.prems(3) [of u y u']) auto
  qed
qed simp

text \<open>An iterator of results collected into a \<open>Result<Vec<_>, _>\<close>.\<close>

fun try_map :: "('a \<Rightarrow> 'e + 'b) \<Rightarrow> 'a list \<Rightarrow> 'e + 'b list" where
  "try_map f [] = Inr []"
| "try_map f (x # xs) = and_then (f x) (\<lambda>y. and_then (try_map f xs) (\<lambda>ys. Inr (y # ys)))"

lemma try_map_Inr_iff:
  "try_map f xs = Inr ys \<longleftrightarrow> list_all2 (\<lambda>x y. f x = Inr y) xs ys"
  by (induction xs arbitrary: ys) (auto simp: result_simps list_all2_Cons1)

lemma try_map_length: "try_map f xs = Inr ys \<Longrightarrow> length ys = length xs"
  by (auto simp: try_map_Inr_iff dest: list_all2_lengthD)

lemma try_map_total:
  "(\<And>x. x \<in> set xs \<Longrightarrow> f x = Inr (g x)) \<Longrightarrow> try_map f xs = Inr (map g xs)"
  by (induction xs) auto

section \<open>Byte strings in lexicographic order\<close>

lemma list_less_append_same_length:
  assumes "length xs = length ys"
  shows "((xs :: 'a::linorder list) @ us < ys @ vs) \<longleftrightarrow> xs < ys \<or> xs = ys \<and> us < vs"
  using assms
proof (induction xs ys rule: list_induct2)
  case Nil
  then show ?case by simp
next
  case (Cons x xs y ys)
  then show ?case by auto
qed

lemma list_le_append_same_length:
  assumes "length xs = length ys"
  shows "((xs :: 'a::linorder list) @ us \<le> ys @ vs) \<longleftrightarrow> xs < ys \<or> xs = ys \<and> us \<le> vs"
  using list_less_append_same_length [OF assms, of us vs] assms
  by (auto simp: le_less)

lemma list_le_prefix: "(xs :: 'a::linorder list) \<le> xs @ ys"
  by (induction xs) simp_all

lemma sorted_wrt_less_distinct: "sorted_wrt (<) (xs :: 'a::order list) \<Longrightarrow> distinct xs"
  by (induction xs) auto

lemma sorted_wrt_less_unique:
  assumes "sorted_wrt (<) xs" "sorted_wrt (<) ys" "set xs = set ys"
  shows "(xs :: 'a::linorder list) = ys"
  using assms by (meson sorted_distinct_set_unique strict_sorted_iff)

end
