(* ===== verification/Bytes.thy ===== *)
theory Bytes
  imports Prelude
begin

text \<open>
  Bytes and store keys: the fixed-size byte arrays of \<open>domain/bytes.rs\<close>, the big-endian
  encodings \<open>to_be_bytes\<close>/\<open>from_be_bytes\<close>, and the composite keys of
  \<open>store.rs\<close> and \<open>pipeline.rs\<close>. A \<open>[u8; 32]\<close> is a \<open>256 word\<close>
  (its big-endian value), so that its length is part of its type. The locale
  \<open>fixed_codec\<close> is the contract the keys rely on: a fixed width, a decoder that undoes
  the encoder, and lexicographic order of the bytes equal to the order of the values.
\<close>

section \<open>Big-endian digits\<close>

fun be_bytes :: "nat \<Rightarrow> nat \<Rightarrow> bytes" where
  "be_bytes 0 v = []"
| "be_bytes (Suc n) v = be_bytes n (v div 256) @ [word_of_nat (v mod 256)]"

definition of_be_bytes :: "bytes \<Rightarrow> nat" where
  "of_be_bytes bs = foldl (\<lambda>a b. a * 256 + unat b) 0 bs"

lemma be_bytes_numeral [simp]:
  "be_bytes (numeral k) v = be_bytes (pred_numeral k) (v div 256) @ [word_of_nat (v mod 256)]"
  by (simp only: numeral_eq_Suc [of k] be_bytes.simps)

lemma length_be_bytes [simp]: "length (be_bytes n v) = n"
  by (induction n arbitrary: v) auto

lemma of_be_bytes_snoc [simp]: "of_be_bytes (bs @ [b]) = of_be_bytes bs * 256 + unat b"
  by (simp add: of_be_bytes_def)

lemma of_be_bytes_Nil [simp]: "of_be_bytes [] = 0"
  by (simp add: of_be_bytes_def)

lemma unat_byte [simp]: "unat (word_of_nat (v mod 256) :: u8) = v mod 256"
  by (simp add: unat_of_nat)

lemma of_be_bytes_be_bytes: "of_be_bytes (be_bytes n v) = v mod 256 ^ n"
proof (induction n arbitrary: v)
  case (Suc n)
  have "(v div 256) mod 256 ^ n * 256 + v mod 256 = v mod (256 * 256 ^ n)"
    by (simp add: mod_mult2_eq mult.commute)
  with Suc show ?case by simp
qed simp

lemma of_be_bytes_bound: "of_be_bytes bs < 256 ^ length bs"
proof (induction bs rule: rev_induct)
  case (snoc b bs)
  have "unat b < 256" using unsigned_less [of b] by simp
  with snoc show ?case by simp
qed simp

lemma be_bytes_of_be_bytes: "be_bytes (length bs) (of_be_bytes bs) = bs"
proof (induction bs rule: rev_induct)
  case (snoc b bs)
  have "unat b < 256" using unsigned_less [of b] by simp
  with snoc show ?case by simp
qed simp

lemma div_mod_less_iff:
  "a div m < b div m \<or> a div m = b div m \<and> a mod m < b mod m \<longleftrightarrow> a < (b::nat)"
proof (cases "a div m" "b div m" rule: linorder_cases)
  case less
  then have "a < b" by (meson div_le_mono leD leI)
  with less show ?thesis by simp
next
  case equal
  have "a = (b div m) * m + a mod m" "b = (b div m) * m + b mod m"
    using equal by (metis div_mult_mod_eq)+
  then have "a < b \<longleftrightarrow> a mod m < b mod m" by linarith
  with equal show ?thesis by simp
next
  case greater
  then have "b < a" by (meson div_le_mono leD leI)
  with greater show ?thesis by simp
qed

lemma be_bytes_less_iff:
  assumes "a < 256 ^ n" and "b < 256 ^ n"
  shows "be_bytes n a < be_bytes n b \<longleftrightarrow> a < b"
  using assms
proof (induction n arbitrary: a b)
  case (Suc n)
  have inj: "be_bytes n x = be_bytes n y \<longleftrightarrow> x = y" if "x < 256 ^ n" "y < 256 ^ n" for x y
    by (metis mod_less of_be_bytes_be_bytes that)
  have d: "a div 256 < 256 ^ n" "b div 256 < 256 ^ n"
    by (rule less_mult_imp_div_less, use Suc.prems in \<open>simp only: power_Suc2\<close>)+
  have "be_bytes (Suc n) a < be_bytes (Suc n) b \<longleftrightarrow>
      a div 256 < b div 256 \<or> a div 256 = b div 256 \<and> a mod 256 < b mod 256"
    using Suc.IH [OF d] inj [OF d]
    by (simp add: list_less_append_same_length word_less_nat_alt)
  also have "\<dots> \<longleftrightarrow> a < b"
    by (rule div_mod_less_iff)
  finally show ?case .
qed simp

section \<open>Fixed-width codecs\<close>

text \<open>The contract of an integer or array that is stored as bytes of a fixed width.\<close>

locale fixed_codec =
  fixes enc :: "'a::linorder \<Rightarrow> bytes"
    and dec :: "bytes \<Rightarrow> 'a option"
    and width :: nat
  assumes length_enc: "length (enc x) = width"
    and dec_enc: "dec (enc x) = Some x"
    and dec_width: "dec bs = Some x \<Longrightarrow> bs = enc x"
    and enc_less_iff: "enc x < enc y \<longleftrightarrow> x < y"
begin

lemma enc_inject: "enc x = enc y \<longleftrightarrow> x = y"
  by (metis dec_enc option.inject)

lemma enc_le_iff: "enc x \<le> enc y \<longleftrightarrow> x \<le> y"
  by (simp add: enc_less_iff enc_inject order_le_less)

text \<open>A composite key is its prefix and its value: the parts are recovered from the bytes.\<close>

lemma prefix_key_inject: "p @ enc x = q @ enc y \<longleftrightarrow> p = q \<and> x = y"
  by (metis append_eq_append_conv enc_inject length_enc)

lemma suffix_of_key: "drop (length (p @ enc x) - width) (p @ enc x) = enc x"
  by (simp add: length_enc)

lemma dec_suffix: "dec (drop (length (p @ enc x) - width) (p @ enc x)) = Some x"
  by (simp only: suffix_of_key dec_enc)

lemma prefix_key_less_iff: "p @ enc x < p @ enc y \<longleftrightarrow> x < y"
  by (simp add: list_less_append_same_length enc_less_iff)

lemma enc_append_less_iff:
  "enc x @ us < enc y @ vs \<longleftrightarrow> x < y \<or> x = y \<and> us < vs"
  by (simp add: list_less_append_same_length length_enc enc_less_iff enc_inject)

lemma enc_append_inject: "enc x @ us = enc y @ vs \<longleftrightarrow> x = y \<and> us = vs"
  by (simp add: append_eq_append_conv length_enc enc_inject)

end

text \<open>\<open>to_be_bytes\<close> and \<open>from_be_bytes\<close> at the widths the code uses. Decoding is
  \<open>try_into\<close> to the array followed by \<open>from_be_bytes\<close>: it fails on any other length.\<close>

definition u16_to_be_bytes :: "u16 \<Rightarrow> bytes" where
  "u16_to_be_bytes x = be_bytes 2 (unat x)"

definition u16_from_be_bytes :: "bytes \<Rightarrow> u16 option" where
  "u16_from_be_bytes bs = (if length bs = 2 then Some (word_of_nat (of_be_bytes bs)) else None)"

definition u32_to_be_bytes :: "u32 \<Rightarrow> bytes" where
  "u32_to_be_bytes x = be_bytes 4 (unat x)"

definition u32_from_be_bytes :: "bytes \<Rightarrow> u32 option" where
  "u32_from_be_bytes bs = (if length bs = 4 then Some (word_of_nat (of_be_bytes bs)) else None)"

definition u64_to_be_bytes :: "u64 \<Rightarrow> bytes" where
  "u64_to_be_bytes x = be_bytes 8 (unat x)"

definition u64_from_be_bytes :: "bytes \<Rightarrow> u64 option" where
  "u64_from_be_bytes bs = (if length bs = 8 then Some (word_of_nat (of_be_bytes bs)) else None)"

definition u128_to_be_bytes :: "u128 \<Rightarrow> bytes" where
  "u128_to_be_bytes x = be_bytes 16 (unat x)"

definition u128_from_be_bytes :: "bytes \<Rightarrow> u128 option" where
  "u128_from_be_bytes bs = (if length bs = 16 then Some (word_of_nat (of_be_bytes bs)) else None)"

text \<open>\<open>[u8; 32]\<close> and \<open>[u8; 29]\<close> as words, with their bytes.\<close>

type_synonym hash32 = "256 word"
type_synonym bytes29 = "232 word"

definition hash_bytes :: "hash32 \<Rightarrow> bytes" where
  "hash_bytes h = be_bytes 32 (unat h)"

definition hash_of_bytes :: "bytes \<Rightarrow> hash32 option" where
  "hash_of_bytes bs = (if length bs = 32 then Some (word_of_nat (of_be_bytes bs)) else None)"

definition bytes29_bytes :: "bytes29 \<Rightarrow> bytes" where
  "bytes29_bytes h = be_bytes 29 (unat h)"

definition bytes29_of_bytes :: "bytes \<Rightarrow> bytes29 option" where
  "bytes29_of_bytes bs = (if length bs = 29 then Some (word_of_nat (of_be_bytes bs)) else None)"

lemma fixed_codec_word:
  assumes "LENGTH('n::len) = 8 * n"
  shows "fixed_codec (\<lambda>x::'n word. be_bytes n (unat x))
    (\<lambda>bs. if length bs = n then Some (word_of_nat (of_be_bytes bs)) else None) n"
proof
  have lt: "unat x < 256 ^ n" for x :: "'n word"
    using unsigned_less [of x] assms by (simp add: power_mult)
  fix x y :: "'n word" and bs
  show "length (be_bytes n (unat x)) = n" by simp
  show "(if length (be_bytes n (unat x)) = n
      then Some (word_of_nat (of_be_bytes (be_bytes n (unat x)))) else None) = Some x"
    using lt [of x] by (simp add: of_be_bytes_be_bytes)
  show "bs = be_bytes n (unat x)"
    if "(if length bs = n then Some (word_of_nat (of_be_bytes bs)) else None) = Some x"
  proof -
    from that have l: "length bs = n" and x: "x = word_of_nat (of_be_bytes bs)"
      by (auto split: if_splits)
    have "of_be_bytes bs < 2 ^ LENGTH('n)"
      using of_be_bytes_bound [of bs] l assms by (simp add: power_mult)
    then have "unat x = of_be_bytes bs" by (simp add: x unat_of_nat take_bit_nat_eq_self_iff)
    then show ?thesis using be_bytes_of_be_bytes [of bs] l by simp
  qed
  show "be_bytes n (unat x) < be_bytes n (unat y) \<longleftrightarrow> x < y"
    using be_bytes_less_iff [OF lt [of x] lt [of y]] by (simp add: word_less_nat_alt)
qed

interpretation u16c: fixed_codec u16_to_be_bytes u16_from_be_bytes 2
  unfolding u16_to_be_bytes_def [abs_def] u16_from_be_bytes_def [abs_def]
  by (rule fixed_codec_word) simp

interpretation u32c: fixed_codec u32_to_be_bytes u32_from_be_bytes 4
  unfolding u32_to_be_bytes_def [abs_def] u32_from_be_bytes_def [abs_def]
  by (rule fixed_codec_word) simp

interpretation u64c: fixed_codec u64_to_be_bytes u64_from_be_bytes 8
  unfolding u64_to_be_bytes_def [abs_def] u64_from_be_bytes_def [abs_def]
  by (rule fixed_codec_word) simp

interpretation u128c: fixed_codec u128_to_be_bytes u128_from_be_bytes 16
  unfolding u128_to_be_bytes_def [abs_def] u128_from_be_bytes_def [abs_def]
  by (rule fixed_codec_word) simp

interpretation hashc: fixed_codec hash_bytes hash_of_bytes 32
  unfolding hash_bytes_def [abs_def] hash_of_bytes_def [abs_def]
  by (rule fixed_codec_word) simp

interpretation stakec: fixed_codec bytes29_bytes bytes29_of_bytes 29
  unfolding bytes29_bytes_def [abs_def] bytes29_of_bytes_def [abs_def]
  by (rule fixed_codec_word) simp

lemmas [simp, key_simps] =
  u16c.length_enc u32c.length_enc u64c.length_enc u128c.length_enc hashc.length_enc stakec.length_enc

lemmas [simp, key_simps] =
  u16c.dec_enc u32c.dec_enc u64c.dec_enc u128c.dec_enc hashc.dec_enc stakec.dec_enc

lemmas [simp, key_simps] =
  u16c.enc_inject u32c.enc_inject u64c.enc_inject u128c.enc_inject hashc.enc_inject stakec.enc_inject

lemmas [simp] =
  u32c.enc_less_iff u64c.enc_less_iff hashc.enc_less_iff u32c.enc_le_iff u64c.enc_le_iff hashc.enc_le_iff

end
