(* ===== verification/Partition.thy ===== *)
theory Partition
  imports Bytes
begin

text \<open>
  A fjall partition as the program sees it: an ordered map from byte keys to values, read by
  key, by range, by prefix and in key order, and written directly or through a batch. The
  LSM tree behind it is not in the repository; what a partition promises is the locale
  \<open>ordered_kv\<close>, and the key-sorted association list below is an executable instance of it.
  A batch is the vector of items of \<open>fjall::Batch\<close> in push order; committing it applies
  the items to their partitions one after the other, so the last write to a key wins.
\<close>

section \<open>The contract of an ordered key-value map\<close>

locale ordered_kv =
  fixes get :: "'m \<Rightarrow> 'k::linorder \<Rightarrow> 'v option"
    and put :: "'k \<Rightarrow> 'v \<Rightarrow> 'm \<Rightarrow> 'm"
    and del :: "'k \<Rightarrow> 'm \<Rightarrow> 'm"
    and entries :: "'m \<Rightarrow> ('k \<times> 'v) list"
    and ok :: "'m \<Rightarrow> bool"
  assumes ok_put: "ok m \<Longrightarrow> ok (put k v m)"
    and ok_del: "ok m \<Longrightarrow> ok (del k m)"
    and get_put: "ok m \<Longrightarrow> get (put k v m) = (get m)(k \<mapsto> v)"
    and get_del: "ok m \<Longrightarrow> get (del k m) = (get m)(k := None)"
    and entries_sorted: "ok m \<Longrightarrow> sorted_wrt (<) (map fst (entries m))"
    and entries_iff: "ok m \<Longrightarrow> (k, v) \<in> set (entries m) \<longleftrightarrow> get m k = Some v"
begin

lemma entries_map_of:
  assumes "ok m"
  shows "map_of (entries m) = get m"
proof
  fix k
  have d: "distinct (map fst (entries m))"
    using entries_sorted [OF assms] by (rule sorted_wrt_less_distinct)
  show "map_of (entries m) k = get m k"
    using entries_iff [OF assms, of k] d
    by (cases "get m k") (auto simp: map_of_eq_None_iff)
qed

text \<open>A scan is determined by what the look-ups return.\<close>

lemma entries_ext:
  assumes "ok m" and "ok m'" and "get m = get m'"
  shows "entries m = entries m'"
proof (rule map_sorted_distinct_set_unique [of fst])
  have "sorted_wrt (<) (map fst (entries m))" "sorted_wrt (<) (map fst (entries m'))"
    using assms(1,2) by (simp_all add: entries_sorted)
  then show "sorted (map fst (entries m))" "distinct (map fst (entries m))"
    and "sorted (map fst (entries m'))" "distinct (map fst (entries m'))"
    by (simp_all add: strict_sorted_iff)
  show "set (entries m) = set (entries m')"
    using assms by (auto simp: entries_iff)
  then show "inj_on fst (set (entries m) \<union> set (entries m'))"
    using \<open>distinct (map fst (entries m))\<close> by (simp add: distinct_map)
qed

text \<open>Writes to different keys commute, whatever the order a scan returns afterwards.\<close>

lemma entries_put_commute:
  assumes "ok m" and "k \<noteq> k'"
  shows "entries (put k v (put k' v' m)) = entries (put k' v' (put k v m))"
  using assms by (intro entries_ext) (auto simp: ok_put get_put)

lemma entries_put_put:
  "ok m \<Longrightarrow> entries (put k v (put k v' m)) = entries (put k v m)"
  by (intro entries_ext) (auto simp: ok_put get_put)

lemma entries_put_del:
  "ok m \<Longrightarrow> entries (put k v (del k m)) = entries (put k v m)"
  by (intro entries_ext) (auto simp: ok_put ok_del get_put get_del)

end

section \<open>The partition as a key-sorted association list\<close>

type_synonym 'v partition = "(bytes \<times> 'v) list"

definition part_get :: "'v partition \<Rightarrow> bytes \<Rightarrow> 'v option" where
  "part_get p k = map_of p k"

definition part_contains_key :: "'v partition \<Rightarrow> bytes \<Rightarrow> bool" where
  "part_contains_key p k = (part_get p k \<noteq> None)"

fun part_insert :: "bytes \<Rightarrow> 'v \<Rightarrow> 'v partition \<Rightarrow> 'v partition" where
  "part_insert k v [] = [(k, v)]"
| "part_insert k v ((j, w) # p) =
     (if k < j then (k, v) # (j, w) # p
      else if k = j then (k, v) # p
      else (j, w) # part_insert k v p)"

definition part_remove :: "bytes \<Rightarrow> 'v partition \<Rightarrow> 'v partition" where
  "part_remove k p = filter (\<lambda>(j, w). j \<noteq> k) p"

definition part_iter :: "'v partition \<Rightarrow> (bytes \<times> 'v) list" where
  "part_iter p = p"

datatype bound = Unbounded | Included bytes | Excluded bytes

fun above :: "bound \<Rightarrow> bytes \<Rightarrow> bool" where
  "above Unbounded k = True"
| "above (Included b) k = (b \<le> k)"
| "above (Excluded b) k = (b < k)"

fun below :: "bound \<Rightarrow> bytes \<Rightarrow> bool" where
  "below Unbounded k = True"
| "below (Included b) k = (k \<le> b)"
| "below (Excluded b) k = (k < b)"

definition part_range :: "'v partition \<Rightarrow> bound \<Rightarrow> bound \<Rightarrow> (bytes \<times> 'v) list" where
  "part_range p lo hi = filter (\<lambda>(k, v). above lo k \<and> below hi k) p"

definition starts_with :: "bytes \<Rightarrow> bytes \<Rightarrow> bool" where
  "starts_with k pre = (take (length pre) k = pre)"

definition part_prefix :: "'v partition \<Rightarrow> bytes \<Rightarrow> (bytes \<times> 'v) list" where
  "part_prefix p pre = filter (\<lambda>(k, v). starts_with k pre) p"

definition part_keys :: "'v partition \<Rightarrow> bytes list" where
  "part_keys p = map fst p"

definition part_ok :: "'v partition \<Rightarrow> bool" where
  "part_ok p = sorted_wrt (<) (map fst p)"

lemma fst_set_part_insert: "fst ` set (part_insert k v p) = insert k (fst ` set p)"
  by (induction k v p rule: part_insert.induct) auto

lemma part_ok_insert: "part_ok p \<Longrightarrow> part_ok (part_insert k v p)"
proof (induction k v p rule: part_insert.induct)
  case (2 k v j w p)
  have "\<forall>x \<in> set (map fst (part_insert k v p)). j < x" if "j < k"
    using 2(2) that fst_set_part_insert [of k v p] by (auto simp: part_ok_def)
  with 2 show ?case by (auto simp: part_ok_def)
qed (simp add: part_ok_def)

lemma part_ok_remove: "part_ok p \<Longrightarrow> part_ok (part_remove k p)"
  by (induction p) (auto simp: part_ok_def part_remove_def)

lemma part_get_insert: "part_get (part_insert k v p) = (part_get p)(k \<mapsto> v)"
  by (induction k v p rule: part_insert.induct) (auto simp: part_get_def)

lemma part_get_remove: "part_get (part_remove k p) = (part_get p)(k := None)"
  by (induction p) (auto simp: part_get_def part_remove_def fun_eq_iff)

lemma part_get_iff: "part_ok p \<Longrightarrow> (k, v) \<in> set p \<longleftrightarrow> part_get p k = Some v"
  by (auto simp: part_ok_def part_get_def dest!: sorted_wrt_less_distinct)

interpretation part: ordered_kv part_get part_insert part_remove part_iter part_ok
  by unfold_locales
    (auto simp: part_ok_insert part_ok_remove part_get_insert part_get_remove part_iter_def
      part_get_iff, simp add: part_ok_def)

lemma part_ok_Nil [simp, intro]: "part_ok []"
  by (simp add: part_ok_def)

lemma part_range_sorted: "part_ok p \<Longrightarrow> sorted_wrt (<) (map fst (part_range p lo hi))"
  by (induction p) (auto simp: part_ok_def part_range_def)

lemma part_prefix_sorted: "part_ok p \<Longrightarrow> sorted_wrt (<) (map fst (part_prefix p pre))"
  by (induction p) (auto simp: part_ok_def part_prefix_def)

lemma in_part_range:
  "part_ok p \<Longrightarrow> (k, v) \<in> set (part_range p lo hi) \<longleftrightarrow>
    part_get p k = Some v \<and> above lo k \<and> below hi k"
  by (auto simp: part_range_def part_get_iff)

lemma in_part_prefix:
  "part_ok p \<Longrightarrow> (k, v) \<in> set (part_prefix p pre) \<longleftrightarrow>
    part_get p k = Some v \<and> starts_with k pre"
  by (auto simp: part_prefix_def part_get_iff)

lemma starts_with_append [simp]: "starts_with (pre @ k) pre"
  by (simp add: starts_with_def)

lemma starts_with_iff: "starts_with k pre \<longleftrightarrow> (\<exists>s. k = pre @ s)"
  by (auto simp: starts_with_def) (metis append_take_drop_id)

section \<open>Keyspaces and batches\<close>

type_synonym ('p, 'v) keyspace = "'p \<Rightarrow> 'v partition"

datatype 'v write_op = Value 'v | Tombstone

type_synonym ('p, 'v) item = "'p \<times> bytes \<times> 'v write_op"
type_synonym ('p, 'v) batch = "('p, 'v) item list"

definition batch_insert :: "'p \<Rightarrow> bytes \<Rightarrow> 'v \<Rightarrow> ('p, 'v) batch \<Rightarrow> ('p, 'v) batch" where
  "batch_insert p k v b = b @ [(p, k, Value v)]"

definition batch_remove :: "'p \<Rightarrow> bytes \<Rightarrow> ('p, 'v) batch \<Rightarrow> ('p, 'v) batch" where
  "batch_remove p k b = b @ [(p, k, Tombstone)]"

fun apply_item :: "('p, 'v) keyspace \<Rightarrow> ('p, 'v) item \<Rightarrow> ('p, 'v) keyspace" where
  "apply_item ks (p, k, Value v) = ks(p := part_insert k v (ks p))"
| "apply_item ks (p, k, Tombstone) = ks(p := part_remove k (ks p))"

definition batch_commit :: "('p, 'v) keyspace \<Rightarrow> ('p, 'v) batch \<Rightarrow> ('p, 'v) keyspace" where
  "batch_commit ks b = foldl apply_item ks b"

definition keyspace_ok :: "('p, 'v) keyspace \<Rightarrow> bool" where
  "keyspace_ok ks = (\<forall>p. part_ok (ks p))"

definition ks_get :: "('p, 'v) keyspace \<Rightarrow> 'p \<Rightarrow> bytes \<Rightarrow> 'v option" where
  "ks_get ks p k = part_get (ks p) k"

lemma keyspace_ok_apply_item: "keyspace_ok ks \<Longrightarrow> keyspace_ok (apply_item ks i)"
  by (cases "(ks, i)" rule: apply_item.cases)
    (auto simp: keyspace_ok_def part.ok_put part.ok_del)

lemma keyspace_ok_commit: "keyspace_ok ks \<Longrightarrow> keyspace_ok (batch_commit ks b)"
  unfolding batch_commit_def
  by (induction b arbitrary: ks) (auto simp: keyspace_ok_apply_item)

lemma batch_commit_Nil [simp]: "batch_commit ks [] = ks"
  by (simp add: batch_commit_def)

lemma batch_commit_append: "batch_commit ks (b @ c) = batch_commit (batch_commit ks b) c"
  by (simp add: batch_commit_def)

lemma ks_get_commit_insert [store_simps]:
  "ks_get (batch_commit ks (batch_insert p k v b)) q j =
    (if q = p \<and> j = k then Some v else ks_get (batch_commit ks b) q j)"
  by (auto simp: ks_get_def batch_commit_def batch_insert_def part_get_insert)

lemma ks_get_commit_remove [store_simps]:
  "ks_get (batch_commit ks (batch_remove p k b)) q j =
    (if q = p \<and> j = k then None else ks_get (batch_commit ks b) q j)"
  by (auto simp: ks_get_def batch_commit_def batch_remove_def part_get_remove)

text \<open>Batches over disjoint sets of keys commute: the committed look-ups do not depend on the
  order in which a hash map was iterated to fill the batch.\<close>

definition item_key :: "('p, 'v) item \<Rightarrow> 'p \<times> bytes" where
  "item_key i = (fst i, fst (snd i))"

lemma ks_get_apply_other:
  "(p, k) \<noteq> item_key i \<Longrightarrow> ks_get (apply_item ks i) p k = ks_get ks p k"
  by (cases "(ks, i)" rule: apply_item.cases)
    (auto simp: ks_get_def item_key_def part_get_insert part_get_remove)

lemma ks_get_commit_other:
  "(p, k) \<notin> item_key ` set b \<Longrightarrow> ks_get (batch_commit ks b) p k = ks_get ks p k"
  unfolding batch_commit_def
proof (induction b arbitrary: ks)
  case (Cons i b)
  then have "(p, k) \<noteq> item_key i" by auto
  with Cons show ?case by (simp add: ks_get_apply_other)
qed simp

end
