(* ===== verification/Versions.thy ===== *)
theory Versions
  imports Prelude
begin

text \<open>
  Protocol, ledger and node versions (\<open>domain/protocol_version.rs\<close>) and the version digest of
  a block header (\<open>subxt_node/header.rs\<close>). The derived orders of the three enums are
  instances of \<open>linorder\<close>. The SCALE decoder of a \<open>u32\<close> is
  \<open>parity_scale_codec\<close>'s: it is a parameter, \<open>None\<close> for its error.
\<close>

datatype LedgerVersion = LV8 | LV9
datatype NodeVersion = NV0_22 | NV1_0 | NV2_0 | NV2_1
datatype ProtocolVersion = PV0_22 u32 | PV1_0 u32 | PV2_0 u32 | PV2_1 u32

datatype ProtocolVersionError =
    ScaleDecode
  | Unsupported u32
  | TryFromI64 u64

section \<open>Derived orders\<close>

fun ledger_rank :: "LedgerVersion \<Rightarrow> nat" where
  "ledger_rank LV8 = 0"
| "ledger_rank LV9 = 1"

fun node_rank :: "NodeVersion \<Rightarrow> nat" where
  "node_rank NV0_22 = 0"
| "node_rank NV1_0 = 1"
| "node_rank NV2_0 = 2"
| "node_rank NV2_1 = 3"

fun u32_from :: "ProtocolVersion \<Rightarrow> u32" where
  "u32_from (PV0_22 n) = n"
| "u32_from (PV1_0 n) = n"
| "u32_from (PV2_0 n) = n"
| "u32_from (PV2_1 n) = n"

fun protocol_rank :: "ProtocolVersion \<Rightarrow> nat" where
  "protocol_rank (PV0_22 n) = 0"
| "protocol_rank (PV1_0 n) = 1"
| "protocol_rank (PV2_0 n) = 2"
| "protocol_rank (PV2_1 n) = 3"

lemma ledger_rank_inject: "ledger_rank a = ledger_rank b \<longleftrightarrow> a = b"
  by (cases a; cases b) auto

lemma node_rank_inject: "node_rank a = node_rank b \<longleftrightarrow> a = b"
  by (cases a; cases b) auto

lemma protocol_rank_inject:
  "protocol_rank a = protocol_rank b \<and> u32_from a = u32_from b \<longleftrightarrow> a = b"
  by (cases a; cases b) auto

instantiation LedgerVersion :: linorder
begin

definition less_eq_LedgerVersion :: "LedgerVersion \<Rightarrow> LedgerVersion \<Rightarrow> bool" where
  "less_eq_LedgerVersion a b = (ledger_rank a \<le> ledger_rank b)"

definition less_LedgerVersion :: "LedgerVersion \<Rightarrow> LedgerVersion \<Rightarrow> bool" where
  "less_LedgerVersion a b = (ledger_rank a < ledger_rank b)"

instance
  by standard (auto simp: less_eq_LedgerVersion_def less_LedgerVersion_def ledger_rank_inject)

end

instantiation NodeVersion :: linorder
begin

definition less_eq_NodeVersion :: "NodeVersion \<Rightarrow> NodeVersion \<Rightarrow> bool" where
  "less_eq_NodeVersion a b = (node_rank a \<le> node_rank b)"

definition less_NodeVersion :: "NodeVersion \<Rightarrow> NodeVersion \<Rightarrow> bool" where
  "less_NodeVersion a b = (node_rank a < node_rank b)"

instance
  by standard (auto simp: less_eq_NodeVersion_def less_NodeVersion_def node_rank_inject)

end

instantiation ProtocolVersion :: linorder
begin

definition less_eq_ProtocolVersion :: "ProtocolVersion \<Rightarrow> ProtocolVersion \<Rightarrow> bool" where
  "less_eq_ProtocolVersion a b = (protocol_rank a < protocol_rank b \<or>
     protocol_rank a = protocol_rank b \<and> u32_from a \<le> u32_from b)"

definition less_ProtocolVersion :: "ProtocolVersion \<Rightarrow> ProtocolVersion \<Rightarrow> bool" where
  "less_ProtocolVersion a b = (protocol_rank a < protocol_rank b \<or>
     protocol_rank a = protocol_rank b \<and> u32_from a < u32_from b)"

instance
proof
  fix a b c :: ProtocolVersion
  show "a \<le> b \<Longrightarrow> b \<le> a \<Longrightarrow> a = b"
    using protocol_rank_inject [of a b] by (auto simp: less_eq_ProtocolVersion_def)
qed (auto simp: less_eq_ProtocolVersion_def less_ProtocolVersion_def)

end

section \<open>Conversions\<close>

fun ledger_version :: "ProtocolVersion \<Rightarrow> LedgerVersion" where
  "ledger_version (PV0_22 n) = LV8"
| "ledger_version (PV1_0 n) = LV8"
| "ledger_version (PV2_0 n) = LV9"
| "ledger_version (PV2_1 n) = LV9"

fun node_version :: "ProtocolVersion \<Rightarrow> NodeVersion" where
  "node_version (PV0_22 n) = NV0_22"
| "node_version (PV1_0 n) = NV1_0"
| "node_version (PV2_0 n) = NV2_0"
| "node_version (PV2_1 n) = NV2_1"

definition try_from_u32 :: "u32 \<Rightarrow> ProtocolVersionError + ProtocolVersion" where
  "try_from_u32 version =
     (if 22000 \<le> version \<and> version < 23000 then Inr (PV0_22 version)
      else if 1000000 \<le> version \<and> version < 1001000 then Inr (PV1_0 version)
      else if 2000000 \<le> version \<and> version < 2001000 then Inr (PV2_0 version)
      else if 2001000 \<le> version \<and> version < 2002000 then Inr (PV2_1 version)
      else Inl (Unsupported version))"

text \<open>An \<open>i64\<close> is its 64 bits, read as two's complement.\<close>

definition into_i64 :: "ProtocolVersion \<Rightarrow> u64" where
  "into_i64 v = ucast (u32_from v)"

definition try_from_i64 :: "u64 \<Rightarrow> ProtocolVersionError + ProtocolVersion" where
  "try_from_i64 version =
     (if 0 \<le> sint version \<and> sint version < 2 ^ 32 then try_from_u32 (word_of_int (sint version))
      else Inl (TryFromI64 version))"

definition try_from_slice ::
    "(bytes \<Rightarrow> (u32 \<times> bytes) option) \<Rightarrow> bytes \<Rightarrow> ProtocolVersionError + ProtocolVersion" where
  "try_from_slice scale_u32 bs =
     (case scale_u32 bs of None \<Rightarrow> Inl ScaleDecode | Some (version, _) \<Rightarrow> try_from_u32 version)"

section \<open>The version digest of a header\<close>

datatype digest_item =
    PreRuntime bytes bytes
  | Consensus bytes bytes
  | OtherDigest

definition VERSION_ID :: bytes where
  "VERSION_ID = [77, 78, 83, 86]"

fun version_items ::
    "(bytes \<Rightarrow> (u32 \<times> bytes) option) \<Rightarrow> digest_item list \<Rightarrow>
       (ProtocolVersionError + ProtocolVersion) list" where
  "version_items dec [] = []"
| "version_items dec (Consensus engine data # logs) =
     (if engine = VERSION_ID then try_from_slice dec data # version_items dec logs
      else version_items dec logs)"
| "version_items dec (log # logs) = version_items dec logs"

text \<open>\<open>filter_map(..).next().transpose()\<close>: the first version digest decides.\<close>

definition protocol_version ::
    "(bytes \<Rightarrow> (u32 \<times> bytes) option) \<Rightarrow> digest_item list \<Rightarrow>
       ProtocolVersionError + ProtocolVersion option" where
  "protocol_version dec logs =
     (case version_items dec logs of
        [] \<Rightarrow> Inr None
      | Inl e # _ \<Rightarrow> Inl e
      | Inr v # _ \<Rightarrow> Inr (Some v))"

section \<open>Properties\<close>

definition supported :: "u32 \<Rightarrow> bool" where
  "supported v = (\<exists>p. try_from_u32 v = Inr p)"

lemma try_from_u32_u32_from [result_simps]: "try_from_u32 v = Inr p \<Longrightarrow> u32_from p = v"
  by (auto simp: try_from_u32_def split: if_splits)

lemma try_from_u32_cases:
  assumes "try_from_u32 v = Inr p"
  shows "p = PV0_22 v \<and> 22000 \<le> unat v \<and> unat v < 23000
    \<or> p = PV1_0 v \<and> 1000000 \<le> unat v \<and> unat v < 1001000
    \<or> p = PV2_0 v \<and> 2000000 \<le> unat v \<and> unat v < 2001000
    \<or> p = PV2_1 v \<and> 2001000 \<le> unat v \<and> unat v < 2002000"
  using assms by (simp add: try_from_u32_def word_le_nat_alt word_less_nat_alt split: if_splits)

lemma sint_ucast_u32: "sint (ucast (v :: u32) :: u64) = uint v"
proof -
  have lt: "uint v < 2 ^ 32" using uint_lt2p [of v] by simp
  then have "signed_take_bit 63 (uint v) = uint v"
    by (intro signed_take_bit_int_eq_self order.trans [OF _ uint_ge_0]) auto
  then show ?thesis using lt
    by (simp add: sint_uint unsigned_ucast_eq take_bit_int_eq_self)
qed

text \<open>
  Conversions of protocol versions. A version number that \<open>try_from\<close> accepts is given
  back by \<open>u32::from\<close>, and going through \<open>i64\<close> (\<open>into_i64\<close>, then
  \<open>try_from\<close>) returns the same version; the numbers accepted are exactly the four ranges.
\<close>

theorem protocol_version_roundtrip:
  assumes "try_from_u32 v = Inr p"
  shows "u32_from p = v \<and> try_from_i64 (into_i64 p) = Inr p
    \<and> v \<in> {22000..<23000} \<union> {1000000..<1001000} \<union> {2000000..<2001000} \<union> {2001000..<2002000}"
proof (intro conjI)
  show p: "u32_from p = v" using assms by (rule try_from_u32_u32_from)
  have "sint (into_i64 p) = uint v"
    by (simp add: into_i64_def p sint_ucast_u32)
  moreover have "uint v < 2 ^ 32" using uint_lt2p [of v] by simp
  ultimately show "try_from_i64 (into_i64 p) = Inr p"
    using assms by (simp add: try_from_i64_def)
  show "v \<in> {22000..<23000} \<union> {1000000..<1001000} \<union> {2000000..<2001000} \<union> {2001000..<2002000}"
    using assms by (auto simp: try_from_u32_def split: if_splits)
qed

theorem protocol_version_roundtrip_witness:
  "try_from_u32 1000500 = Inr (PV1_0 1000500) \<and> u32_from (PV1_0 1000500) = 1000500
    \<and> try_from_i64 (into_i64 (PV1_0 1000500)) = Inr (PV1_0 1000500)"
proof -
  have h: "try_from_u32 1000500 = Inr (PV1_0 1000500)" by (simp add: try_from_u32_def)
  show ?thesis using h protocol_version_roundtrip [OF h] by simp
qed

text \<open>
  The order derived for the enum is the order of the version numbers, and ledger and node
  versions never decrease along it: a newer runtime is never given an older ledger.
\<close>

theorem version_order:
  assumes "try_from_u32 v = Inr p" and "try_from_u32 w = Inr q"
  shows "(p \<le> q \<longleftrightarrow> v \<le> w) \<and>
    (v \<le> w \<longrightarrow> ledger_version p \<le> ledger_version q \<and> node_version p \<le> node_version q)"
  using try_from_u32_cases [OF assms(1)] try_from_u32_cases [OF assms(2)]
  by (elim disjE conjE)
    (simp_all add: less_eq_ProtocolVersion_def less_eq_LedgerVersion_def less_eq_NodeVersion_def
      word_le_nat_alt)

theorem version_order_witness:
  "(PV1_0 1000500 \<le> PV2_0 2000001) = ((1000500::u32) \<le> 2000001)"
proof -
  have h: "try_from_u32 1000500 = Inr (PV1_0 1000500)" "try_from_u32 2000001 = Inr (PV2_0 2000001)"
    by (simp_all add: try_from_u32_def)
  show ?thesis using version_order [OF h] by blast
qed

text \<open>The first version digest of a header decides, whatever follows it.\<close>

lemma protocol_version_first:
  assumes "\<forall>log \<in> set logs. \<forall>data. log \<noteq> Consensus VERSION_ID data"
  shows "protocol_version dec (logs @ Consensus VERSION_ID data # rest) =
    map_err id (and_then (try_from_slice dec data) (\<lambda>v. Inr (Some v)))"
proof -
  have "version_items dec (logs @ tl) = version_items dec tl" for tl
    using assms
  proof (induction logs)
    case (Cons log logs)
    then show ?case by (cases log) auto
  qed simp
  then show ?thesis
    by (cases "try_from_slice dec data") (simp_all add: protocol_version_def)
qed

lemma protocol_version_None:
  "protocol_version dec logs = Inr None \<longleftrightarrow> (\<forall>data. Consensus VERSION_ID data \<notin> set logs)"
proof -
  have "version_items dec logs = [] \<longleftrightarrow> (\<forall>data. Consensus VERSION_ID data \<notin> set logs)"
    by (induction dec logs rule: version_items.induct) auto
  then show ?thesis
    by (auto simp: protocol_version_def split: list.splits sum.splits)
qed

end
