(* ===== verification/Domain.thy ===== *)
theory Domain
  imports Bytes Versions
begin

text \<open>
  The domain types of \<open>domain.rs\<close>, \<open>domain/bytes.rs\<close>, \<open>domain/dust.rs\<close>,
  \<open>domain/bridge.rs\<close> and of the chain crate's \<open>domain.rs\<close>, with their operations:
  network ids, timestamps, byte arrays, the constructors of ledger events, the indexable fields of
  contract events, the correlation of a contract event with the call that emitted it, and bridge
  events. A Rust \<open>String\<close> is the list of its UTF-8 bytes as characters.
\<close>

section \<open>Byte arrays\<close>

datatype ByteArrayLenError = ByteArrayLenError nat nat

definition byte_array_32_try_from :: "bytes \<Rightarrow> ByteArrayLenError + hash32" where
  "byte_array_32_try_from bs =
     (case hash_of_bytes bs of None \<Rightarrow> Inl (ByteArrayLenError 32 (length bs)) | Some h \<Rightarrow> Inr h)"

datatype ByteArrayFromHexError = InvalidHex | InvalidLength ByteArrayLenError

definition byte_array_32_from_hex ::
    "(string \<Rightarrow> bytes option) \<Rightarrow> string \<Rightarrow> ByteArrayFromHexError + hash32" where
  "byte_array_32_from_hex hex_decode s =
     (case hex_decode s of
        None \<Rightarrow> Inl InvalidHex
      | Some bs \<Rightarrow> map_err InvalidLength (byte_array_32_try_from bs))"

text \<open>\<open>Debug\<close> shows at most eight hex digits and an ellipsis (its three UTF-8 bytes).\<close>

definition ellipsis :: string where
  "ellipsis = [char_of (226::nat), char_of (128::nat), char_of (166::nat)]"

definition debug_bytes :: "(bytes \<Rightarrow> string) \<Rightarrow> bytes \<Rightarrow> string" where
  "debug_bytes hex_encode bs =
     (let h = hex_encode bs in if length h \<le> 8 then h else take 8 h @ ellipsis)"

definition display_bytes :: "(bytes \<Rightarrow> string) \<Rightarrow> bytes \<Rightarrow> string" where
  "display_bytes hex_encode bs = hex_encode bs"

definition as_bytes :: "string \<Rightarrow> bytes" where
  "as_bytes s = map (\<lambda>c. word_of_nat (of_char c)) s"

section \<open>Network ids and timestamps\<close>

datatype InvalidNetworkIdError = EmptyNetworkId | NotLowercase string

definition network_id_try_from ::
    "(char \<Rightarrow> bool) \<Rightarrow> string \<Rightarrow> InvalidNetworkIdError + string" where
  "network_id_try_from is_uppercase s =
     (if s = [] then Inl EmptyNetworkId
      else if list_ex is_uppercase s then Inl (NotLowercase s)
      else Inr s)"

definition to_ms :: "u64 \<Rightarrow> u64" where
  "to_ms secs = secs * 1000"

definition saturating_sub :: "'a::len word \<Rightarrow> 'a word \<Rightarrow> 'a word" where
  "saturating_sub a b = (if b \<le> a then a - b else 0)"

definition elapsed_seconds_since :: "u64 \<Rightarrow> u64 \<Rightarrow> u64" where
  "elapsed_seconds_since now earlier = saturating_sub now earlier div 1000"

lemma unat_saturating_sub: "unat (saturating_sub a b) = unat a - unat b"
  by (auto simp: saturating_sub_def unat_sub word_le_nat_alt)

lemma unat_elapsed_seconds_since:
  "unat (elapsed_seconds_since now earlier) = (unat now - unat earlier) div 1000"
  by (simp add: elapsed_seconds_since_def unat_div unat_saturating_sub)

section \<open>Transactions, contracts and UTXOs\<close>

datatype TransactionResult = Success | PartialSuccess "(u16 \<times> bool) list" | Failure
datatype TransactionVariant = Regular | System

datatype ContractAttributes = Deploy | Call string | Update

record ContractBalance =
  cb_token_type :: hash32
  cb_amount :: u128

record UnshieldedUtxo =
  uu_owner :: hash32
  uu_token_type :: hash32
  uu_value :: u128
  uu_intent_hash :: hash32
  uu_output_index :: u32
  uu_ctime :: "u64 option"
  uu_initial_nonce :: hash32
  uu_registered_for_dust_generation :: bool

record DustGenerationInfo =
  dg_night_utxo_hash :: hash32
  dg_value :: u128
  dg_owner :: bytes
  dg_nonce :: hash32
  dg_ctime :: u64
  dg_dtime :: u64

record QualifiedDustOutput =
  qd_initial_value :: u128
  qd_owner :: bytes
  qd_nonce :: hash32
  qd_seq :: u32
  qd_ctime :: u64
  qd_backing_night :: hash32
  qd_mt_index :: u64

record DustParameters =
  dp_night_dust_ratio :: u64
  dp_generation_decay_rate :: u32
  dp_dust_grace_period :: u64

datatype DustRegistrationEvent =
    Registration bytes29 bytes
  | Deregistration bytes29 bytes
  | MappingAdded bytes29 bytes bytes u32
  | MappingRemoved bytes29 bytes bytes u32

section \<open>Ledger events\<close>

datatype AddressOrContract = User bytes | Contract bytes

fun to_bytes :: "AddressOrContract \<Rightarrow> bytes" where
  "to_bytes (User bs) = bs"
| "to_bytes (Contract bs) = bs"

datatype LedgerEventGrouping = Zswap | Dust | ContractGrouping

text \<open>One constructor per variant; the fields are in the order of the source.\<close>

datatype LedgerEventAttributes =
    ZswapInput bytes
  | ZswapOutput
  | ParamChange
  | DustInitialUtxo QualifiedDustOutput DustGenerationInfo u64
  | DustGenerationDtimeUpdate DustGenerationInfo u64 bytes
  | DustSpendProcessed bytes bytes
  | ContractShieldedSpend u32 bytes bytes
  | ContractShieldedReceive u32 bytes bytes "bytes option" "bytes option"
  | ContractShieldedMint u32 bytes bytes bytes "string option"
  | ContractShieldedBurn u32 bytes bytes "string option"
  | ContractUnshieldedSpend u32 bytes AddressOrContract bytes bytes string
  | ContractUnshieldedReceive u32 bytes AddressOrContract bytes bytes string
  | ContractUnshieldedMint u32 bytes bytes bytes string
  | ContractUnshieldedBurn u32 bytes AddressOrContract bytes string
  | ContractPaused u32 bytes
  | ContractUnpaused u32 bytes
  | ContractMisc u32 bytes bytes bytes

record LedgerEvent =
  le_grouping :: LedgerEventGrouping
  le_raw :: bytes
  le_attributes :: LedgerEventAttributes
  le_contract_action_id :: "u64 option"
  le_contract_address :: "bytes option"

fun contract_entry_point :: "LedgerEventAttributes \<Rightarrow> bytes option" where
  "contract_entry_point (ContractShieldedSpend _ e _) = Some e"
| "contract_entry_point (ContractShieldedReceive _ e _ _ _) = Some e"
| "contract_entry_point (ContractShieldedMint _ e _ _ _) = Some e"
| "contract_entry_point (ContractShieldedBurn _ e _ _) = Some e"
| "contract_entry_point (ContractUnshieldedSpend _ e _ _ _ _) = Some e"
| "contract_entry_point (ContractUnshieldedReceive _ e _ _ _ _) = Some e"
| "contract_entry_point (ContractUnshieldedMint _ e _ _ _) = Some e"
| "contract_entry_point (ContractUnshieldedBurn _ e _ _ _) = Some e"
| "contract_entry_point (ContractPaused _ e) = Some e"
| "contract_entry_point (ContractUnpaused _ e) = Some e"
| "contract_entry_point (ContractMisc _ e _ _) = Some e"
| "contract_entry_point (ZswapInput _) = None"
| "contract_entry_point ZswapOutput = None"
| "contract_entry_point ParamChange = None"
| "contract_entry_point (DustInitialUtxo _ _ _) = None"
| "contract_entry_point (DustGenerationDtimeUpdate _ _ _) = None"
| "contract_entry_point (DustSpendProcessed _ _) = None"

definition zswap_input :: "bytes \<Rightarrow> bytes \<Rightarrow> LedgerEvent" where
  "zswap_input raw nullifier =
     \<lparr>le_grouping = Zswap, le_raw = raw, le_attributes = ZswapInput nullifier,
      le_contract_action_id = None, le_contract_address = None\<rparr>"

definition zswap_output :: "bytes \<Rightarrow> LedgerEvent" where
  "zswap_output raw =
     \<lparr>le_grouping = Zswap, le_raw = raw, le_attributes = ZswapOutput,
      le_contract_action_id = None, le_contract_address = None\<rparr>"

definition param_change :: "bytes \<Rightarrow> LedgerEvent" where
  "param_change raw =
     \<lparr>le_grouping = Dust, le_raw = raw, le_attributes = ParamChange,
      le_contract_action_id = None, le_contract_address = None\<rparr>"

definition dust_initial_utxo ::
    "bytes \<Rightarrow> QualifiedDustOutput \<Rightarrow> DustGenerationInfo \<Rightarrow> u64 \<Rightarrow> LedgerEvent" where
  "dust_initial_utxo raw output generation_info generation_index =
     \<lparr>le_grouping = Dust, le_raw = raw,
      le_attributes = DustInitialUtxo output generation_info generation_index,
      le_contract_action_id = None, le_contract_address = None\<rparr>"

definition dust_generation_dtime_update ::
    "bytes \<Rightarrow> DustGenerationInfo \<Rightarrow> u64 \<Rightarrow> bytes \<Rightarrow> LedgerEvent" where
  "dust_generation_dtime_update raw generation_info generation_index tree_insertion_path =
     \<lparr>le_grouping = Dust, le_raw = raw,
      le_attributes = DustGenerationDtimeUpdate generation_info generation_index tree_insertion_path,
      le_contract_action_id = None, le_contract_address = None\<rparr>"

definition dust_spend_processed :: "bytes \<Rightarrow> bytes \<Rightarrow> bytes \<Rightarrow> LedgerEvent" where
  "dust_spend_processed raw nullifier commitment =
     \<lparr>le_grouping = Dust, le_raw = raw, le_attributes = DustSpendProcessed nullifier commitment,
      le_contract_action_id = None, le_contract_address = None\<rparr>"

definition contract_event ::
    "bytes \<Rightarrow> bytes \<Rightarrow> u64 option \<Rightarrow> LedgerEventAttributes \<Rightarrow> LedgerEvent" where
  "contract_event raw contract_address contract_action_id attributes =
     \<lparr>le_grouping = ContractGrouping, le_raw = raw, le_attributes = attributes,
      le_contract_action_id = contract_action_id, le_contract_address = Some contract_address\<rparr>"

fun indexable_fields :: "LedgerEventAttributes \<Rightarrow> (string \<times> bytes) list" where
  "indexable_fields (ContractShieldedSpend _ _ nullifier) = [(''nullifier'', nullifier)]"
| "indexable_fields (ContractShieldedReceive _ _ commitment ciphertext _) =
     (''commitment'', commitment) #
     (case ciphertext of Some c \<Rightarrow> [(''ciphertext'', c)] | None \<Rightarrow> [])"
| "indexable_fields (ContractShieldedMint _ _ commitment domain_sep _) =
     [(''commitment'', commitment), (''domainSep'', domain_sep)]"
| "indexable_fields (ContractShieldedBurn _ _ nullifier _) = [(''nullifier'', nullifier)]"
| "indexable_fields (ContractUnshieldedSpend _ _ sender domain_sep token_type _) =
     [(''sender'', to_bytes sender), (''domainSep'', domain_sep), (''tokenType'', token_type)]"
| "indexable_fields (ContractUnshieldedReceive _ _ recipient domain_sep token_type _) =
     [(''recipient'', to_bytes recipient), (''domainSep'', domain_sep), (''tokenType'', token_type)]"
| "indexable_fields (ContractUnshieldedMint _ _ domain_sep token_type _) =
     [(''domainSep'', domain_sep), (''tokenType'', token_type)]"
| "indexable_fields (ContractUnshieldedBurn _ _ sender token_type _) =
     [(''sender'', to_bytes sender), (''tokenType'', token_type)]"
| "indexable_fields _ = []"

definition indexable_contract_fields :: "LedgerEvent \<Rightarrow> (string \<times> bytes) list" where
  "indexable_contract_fields event = indexable_fields (le_attributes event)"

definition INDEXABLE_CONTRACT_FIELD_NAMES :: "string list" where
  "INDEXABLE_CONTRACT_FIELD_NAMES =
     [''nullifier'', ''commitment'', ''ciphertext'', ''domainSep'', ''tokenType'', ''sender'',
      ''recipient'']"

section \<open>Correlation of contract events\<close>

type_synonym action_ref = "u64 \<times> bytes \<times> ContractAttributes"

fun is_match :: "bytes \<Rightarrow> bytes \<Rightarrow> action_ref \<Rightarrow> bool" where
  "is_match contract_address entry_point (action_id, address, attributes) =
     ((case attributes of
         Call action_entry_point \<Rightarrow> as_bytes action_entry_point = entry_point
       | _ \<Rightarrow> False)
      \<and> address = contract_address)"

text \<open>The loop over the actions, with its early return when a second action matches.\<close>

fun correlate_loop :: "bytes \<Rightarrow> bytes \<Rightarrow> u64 option \<Rightarrow> action_ref list \<Rightarrow> u64 option" where
  "correlate_loop contract_address entry_point matched [] = matched"
| "correlate_loop contract_address entry_point matched (a # actions) =
     (if is_match contract_address entry_point a
      then (if matched \<noteq> None then None
            else correlate_loop contract_address entry_point (Some (fst a)) actions)
      else correlate_loop contract_address entry_point matched actions)"

definition correlate_contract_action_id :: "LedgerEvent \<Rightarrow> action_ref list \<Rightarrow> u64 option" where
  "correlate_contract_action_id event actions =
     (case le_contract_address event of
        None \<Rightarrow> None
      | Some contract_address \<Rightarrow>
          (case contract_entry_point (le_attributes event) of
             None \<Rightarrow> None
           | Some entry_point \<Rightarrow> correlate_loop contract_address entry_point None actions))"

lemma correlate_loop_matched:
  "correlate_loop c e (Some i) actions =
    (if \<exists>a \<in> set actions. is_match c e a then None else Some i)"
  by (induction actions) auto

lemma correlate_loop_filter:
  "correlate_loop c e None actions =
    (case filter (is_match c e) actions of [a] \<Rightarrow> Some (fst a) | _ \<Rightarrow> None)"
proof (induction actions)
  case (Cons a actions)
  have "filter (is_match c e) actions = [] \<longleftrightarrow> \<not> (\<exists>b \<in> set actions. is_match c e b)"
    by (auto simp: filter_empty_conv)
  with Cons show ?case
    by (auto simp: correlate_loop_matched split: list.splits)
qed simp

section \<open>Bridge events\<close>

definition BRIDGE_RECIPIENT_MAX_BYTES :: nat where
  "BRIDGE_RECIPIENT_MAX_BYTES = 32"

datatype BridgeRecipient = BridgeRecipient bytes
datatype BridgeRecipientError = TooLong nat nat

definition bridge_recipient_new :: "bytes \<Rightarrow> BridgeRecipientError + BridgeRecipient" where
  "bridge_recipient_new bs =
     (if length bs > BRIDGE_RECIPIENT_MAX_BYTES
      then Inl (TooLong BRIDGE_RECIPIENT_MAX_BYTES (length bs))
      else Inr (BridgeRecipient bs))"

fun bridge_recipient_as_bytes :: "BridgeRecipient \<Rightarrow> bytes" where
  "bridge_recipient_as_bytes (BridgeRecipient bs) = bs"

datatype BridgeEventVariant =
  UserTransferV | ReserveTransferV | InvalidTransferV | UnapprovedTransferV | SubminimalFlushTransferV

datatype BridgeEvent =
    UserTransfer hash32 u64 BridgeRecipient hash32
  | ReserveTransfer hash32 u64 hash32
  | InvalidTransfer hash32 u64 hash32
  | UnapprovedTransfer hash32 u64 BridgeRecipient hash32
  | SubminimalFlushTransfer u64 u32 hash32

fun bridge_variant :: "BridgeEvent \<Rightarrow> BridgeEventVariant" where
  "bridge_variant (UserTransfer _ _ _ _) = UserTransferV"
| "bridge_variant (ReserveTransfer _ _ _) = ReserveTransferV"
| "bridge_variant (InvalidTransfer _ _ _) = InvalidTransferV"
| "bridge_variant (UnapprovedTransfer _ _ _ _) = UnapprovedTransferV"
| "bridge_variant (SubminimalFlushTransfer _ _ _) = SubminimalFlushTransferV"

fun mc_tx_hash :: "BridgeEvent \<Rightarrow> hash32 option" where
  "mc_tx_hash (UserTransfer h _ _ _) = Some h"
| "mc_tx_hash (ReserveTransfer h _ _) = Some h"
| "mc_tx_hash (InvalidTransfer h _ _) = Some h"
| "mc_tx_hash (UnapprovedTransfer h _ _ _) = Some h"
| "mc_tx_hash (SubminimalFlushTransfer _ _ _) = None"

fun bridge_recipient :: "BridgeEvent \<Rightarrow> BridgeRecipient option" where
  "bridge_recipient (UserTransfer _ _ r _) = Some r"
| "bridge_recipient (UnapprovedTransfer _ _ r _) = Some r"
| "bridge_recipient _ = None"

fun bridge_amount :: "BridgeEvent \<Rightarrow> u64" where
  "bridge_amount (UserTransfer _ a _ _) = a"
| "bridge_amount (ReserveTransfer _ a _) = a"
| "bridge_amount (InvalidTransfer _ a _) = a"
| "bridge_amount (UnapprovedTransfer _ a _ _) = a"
| "bridge_amount (SubminimalFlushTransfer a _ _) = a"

fun midnight_tx_hash :: "BridgeEvent \<Rightarrow> hash32" where
  "midnight_tx_hash (UserTransfer _ _ _ h) = h"
| "midnight_tx_hash (ReserveTransfer _ _ h) = h"
| "midnight_tx_hash (InvalidTransfer _ _ h) = h"
| "midnight_tx_hash (UnapprovedTransfer _ _ _ h) = h"
| "midnight_tx_hash (SubminimalFlushTransfer _ _ h) = h"

section \<open>Blocks and transactions as fetched from the node\<close>

datatype ZswapMerkleTreeRoot = ZRootV8 bytes | ZRootV9 bytes

record ContractAction =
  ca_address :: bytes
  ca_state :: bytes
  ca_attributes :: ContractAttributes

record RegularTransaction =
  rt_hash :: hash32
  rt_protocol_version :: ProtocolVersion
  rt_raw :: bytes
  rt_identifiers :: "bytes list"
  rt_contract_actions :: "ContractAction list"

record SystemTransaction =
  st_hash :: hash32
  st_protocol_version :: ProtocolVersion
  st_raw :: bytes

datatype Transaction =
  RegularTx RegularTransaction | SystemTx SystemTransaction

record Block =
  b_hash :: hash32
  b_height :: u64
  b_protocol_version :: ProtocolVersion
  b_parent_hash :: hash32
  b_author :: "hash32 option"
  b_timestamp :: u64
  b_zswap_merkle_tree_root :: ZswapMerkleTreeRoot
  b_ledger_state_root :: "bytes option"
  b_transactions :: "Transaction list"
  b_dust_registration_events :: "DustRegistrationEvent list"
  b_bridge_events :: "BridgeEvent list"

record BlockRef =
  br_hash :: hash32
  br_height :: u64

definition block_ref_from :: "Block \<Rightarrow> BlockRef" where
  "block_ref_from b = \<lparr>br_hash = b_hash b, br_height = b_height b\<rparr>"

section \<open>Properties\<close>

text \<open>
  Correlation attributes a contract event to an action exactly when the action is a call of
  the event's contract at the event's entry point and no other action of the transaction is one;
  an event without contract address or entry point is never attributed.
\<close>

theorem correlate_unambiguous:
  "correlate_contract_action_id event actions = Some i \<longleftrightarrow>
    (\<exists>c e a. le_contract_address event = Some c \<and> contract_entry_point (le_attributes event) = Some e
      \<and> filter (is_match c e) actions = [a] \<and> fst a = i)"
  by (auto simp: correlate_contract_action_id_def correlate_loop_filter
      split: option.splits list.splits)

text \<open>
  Every field name that \<open>indexable_contract_fields\<close> emits is in the closed list
  \<open>INDEXABLE_CONTRACT_FIELD_NAMES\<close>, each name at most once, and only contract events (those
  with an entry point) have indexable fields; every name of the list is emitted by some event.
\<close>

theorem indexable_fields_closed:
  "set (map fst (indexable_contract_fields event)) \<subseteq> set INDEXABLE_CONTRACT_FIELD_NAMES
    \<and> distinct (map fst (indexable_contract_fields event))
    \<and> (contract_entry_point (le_attributes event) = None \<longrightarrow> indexable_contract_fields event = [])
    \<and> (\<forall>name \<in> set INDEXABLE_CONTRACT_FIELD_NAMES.
         \<exists>e. name \<in> set (map fst (indexable_contract_fields e)))"
proof -
  have 1: "set (map fst (indexable_fields a)) \<subseteq> set INDEXABLE_CONTRACT_FIELD_NAMES
    \<and> distinct (map fst (indexable_fields a))
    \<and> (contract_entry_point a = None \<longrightarrow> indexable_fields a = [])" for a
    by (cases a) (auto simp: INDEXABLE_CONTRACT_FIELD_NAMES_def split: option.splits)
  have ex: "\<exists>e. name \<in> set (map fst (indexable_contract_fields e))"
    if "name \<in> set (map fst (indexable_fields a))" for name a
    using that by (intro exI [of _ "contract_event [] [] None a"])
      (simp add: indexable_contract_fields_def contract_event_def)
  have 2: "\<forall>name \<in> set INDEXABLE_CONTRACT_FIELD_NAMES.
      \<exists>e. name \<in> set (map fst (indexable_contract_fields e))"
    using ex [of _ "ContractShieldedReceive 0 [] [] (Some []) None"]
      ex [of _ "ContractShieldedSpend 0 [] []"]
      ex [of _ "ContractUnshieldedSpend 0 [] (User []) [] [] []"]
      ex [of _ "ContractUnshieldedReceive 0 [] (User []) [] [] []"]
    by (auto simp: INDEXABLE_CONTRACT_FIELD_NAMES_def)
  from 1 2 show ?thesis
    unfolding indexable_contract_fields_def by blast
qed

theorem indexable_fields_closed_witness:
  "indexable_contract_fields (zswap_output [1]) = []"
  using indexable_fields_closed [of "zswap_output [1]"]
  by (simp add: zswap_output_def)

lemma bridge_recipient_bound:
  "bridge_recipient_new bs = Inr r \<Longrightarrow>
    bridge_recipient_as_bytes r = bs \<and> length (bridge_recipient_as_bytes r) \<le> 32"
  by (auto simp: bridge_recipient_new_def BRIDGE_RECIPIENT_MAX_BYTES_def split: if_splits)

lemma mc_tx_hash_None_iff:
  "mc_tx_hash e = None \<longleftrightarrow> bridge_variant e = SubminimalFlushTransferV"
  by (cases e) auto

lemma bridge_recipient_None_iff:
  "bridge_recipient e = None \<longleftrightarrow> bridge_variant e \<notin> {UserTransferV, UnapprovedTransferV}"
  by (cases e) auto

end
