(* ===== verification/Store.thy ===== *)
theory Store
  imports Partition Domain
begin

text \<open>
  The index store (\<open>nightfrost-core/src/store.rs\<close>): its partitions, the records they hold,
  the composite keys, the detection of the store schema when it is opened, and its look-ups.
  A value that the code encodes with postcard (\<open>store::encode\<close>) is kept as the record it
  encodes, tagged by the record's type; decoding at another type is the panic of
  \<open>store::decode\<close>. Values written as raw bytes (big-endian integers, blobs, empty values)
  are \<open>Raw\<close>. \<open>entry_ok\<close> says which keys and values belong in which partition; it is
  the invariant under which no look-up panics. I/O errors of fjall are not modelled.
\<close>

section \<open>Partitions and records\<close>

datatype part_id =
    Meta | Blocks | BlocksByHash | Txs | TxsByHash | TxsByIdentifier | Utxos
  | UtxosUnspentByOwner | Balances | AddrTxs | ContractActionsV2 | LegacyContractActions
  | ContractActionsByAddr | ContractStates | Contracts | LedgerEvents | WalletDustEvents
  | WalletTxIndices | WalletRelevantTxs | WalletScanProgress | EventsByContract
  | DustGeneration | DustGenByOwner | CnightRegistrations | LedgerDbNodes | LedgerDbRoots

datatype StoredLedgerVersion = SLV8 | SLV9

fun stored_from :: "LedgerVersion \<Rightarrow> StoredLedgerVersion" where
  "stored_from LV8 = SLV8"
| "stored_from LV9 = SLV9"

fun stored_into :: "StoredLedgerVersion \<Rightarrow> LedgerVersion" where
  "stored_into SLV8 = LV8"
| "stored_into SLV9 = LV9"

type_synonym LedgerStateWindow = "(bytes \<times> StoredLedgerVersion) list"

record BlockRecord =
  bk_hash :: hash32
  bk_parent_hash :: hash32
  bk_timestamp :: u64
  bk_protocol_version :: u32
  bk_author :: "hash32 option"
  bk_first_tx_id :: u64
  bk_tx_count :: u32
  bk_zswap_merkle_tree_root :: bytes
  bk_ledger_state_root :: "bytes option"

record TxRecord =
  tx_hash :: hash32
  tx_block_height :: u64
  tx_index_in_block :: u32
  tx_variant :: TransactionVariant
  tx_result :: TransactionResult
  tx_paid_fees :: u128
  tx_estimated_fees :: u128
  tx_identifiers :: "bytes list"
  tx_contract_action_ids :: "u64 list"
  tx_first_event_id :: u64
  tx_event_count :: u32
  tx_created_utxos :: "UnshieldedUtxo list"
  tx_spent_utxos :: "UnshieldedUtxo list"
  tx_raw :: bytes

record UtxoRecord =
  ur_utxo :: UnshieldedUtxo
  ur_creating_tx_id :: u64
  ur_spending_tx_id :: "u64 option"

record ContractActionRecord =
  ar_address :: bytes
  ar_attributes :: ContractAttributes
  ar_state_hash :: "hash32 option"
  ar_balances :: "ContractBalance list"
  ar_tx_id :: u64
  ar_block_height :: u64

record LegacyContractActionRecord =
  la_address :: bytes
  la_attributes :: ContractAttributes
  la_state :: bytes
  la_balances :: "ContractBalance list"
  la_tx_id :: u64
  la_block_height :: u64

record ContractRecord =
  cr_deploy_action_id :: u64
  cr_latest_action_id :: u64

record EventRecord =
  er_event :: LedgerEvent
  er_tx_id :: u64
  er_block_height :: u64

record WalletTxIndexRecord =
  wt_zswap_start_index :: u64
  wt_zswap_end_index :: u64
  wt_protocol_version :: u32

record DustGenerationRecord =
  dr_info :: DustGenerationInfo
  dr_tx_id :: u64

record CnightRegistrationRecord =
  cn_cardano_stake_key :: bytes
  cn_dust_address :: bytes
  cn_valid :: bool
  cn_registered_at_height :: u64
  cn_removed_at_height :: "u64 option"
  cn_utxo_id :: "bytes option"
  cn_utxo_index :: "u64 option"

datatype store_value =
    Raw bytes
  | VBlock BlockRecord
  | VTx TxRecord
  | VUtxo UtxoRecord
  | VAction ContractActionRecord
  | VLegacyAction LegacyContractActionRecord
  | VContract ContractRecord
  | VEvent EventRecord
  | VWalletTx WalletTxIndexRecord
  | VDustGen DustGenerationRecord
  | VRegistration CnightRegistrationRecord
  | VWindow LedgerStateWindow

fun as_raw :: "store_value \<Rightarrow> bytes option" where
  "as_raw (Raw bs) = Some bs" | "as_raw _ = None"
fun as_block :: "store_value \<Rightarrow> BlockRecord option" where
  "as_block (VBlock r) = Some r" | "as_block _ = None"
fun as_tx :: "store_value \<Rightarrow> TxRecord option" where
  "as_tx (VTx r) = Some r" | "as_tx _ = None"
fun as_utxo :: "store_value \<Rightarrow> UtxoRecord option" where
  "as_utxo (VUtxo r) = Some r" | "as_utxo _ = None"
fun as_action :: "store_value \<Rightarrow> ContractActionRecord option" where
  "as_action (VAction r) = Some r" | "as_action _ = None"
fun as_legacy_action :: "store_value \<Rightarrow> LegacyContractActionRecord option" where
  "as_legacy_action (VLegacyAction r) = Some r" | "as_legacy_action _ = None"
fun as_contract :: "store_value \<Rightarrow> ContractRecord option" where
  "as_contract (VContract r) = Some r" | "as_contract _ = None"
fun as_event :: "store_value \<Rightarrow> EventRecord option" where
  "as_event (VEvent r) = Some r" | "as_event _ = None"
fun as_wallet_tx :: "store_value \<Rightarrow> WalletTxIndexRecord option" where
  "as_wallet_tx (VWalletTx r) = Some r" | "as_wallet_tx _ = None"
fun as_dust_gen :: "store_value \<Rightarrow> DustGenerationRecord option" where
  "as_dust_gen (VDustGen r) = Some r" | "as_dust_gen _ = None"
fun as_registration :: "store_value \<Rightarrow> CnightRegistrationRecord option" where
  "as_registration (VRegistration r) = Some r" | "as_registration _ = None"
fun as_window :: "store_value \<Rightarrow> LedgerStateWindow option" where
  "as_window (VWindow w) = Some w" | "as_window _ = None"

text \<open>\<open>store::decode\<close> with its \<open>expect\<close>, at the type given by the projection.\<close>

definition store_decode :: "(store_value \<Rightarrow> 'a option) \<Rightarrow> store_value \<Rightarrow> rust_error + 'a" where
  "store_decode as v = ok_or (Panic ''postcard decode'') (as v)"

section \<open>Composite keys\<close>

definition prefixed_u64_key :: "bytes \<Rightarrow> u64 \<Rightarrow> bytes" where
  "prefixed_u64_key pre i = pre @ u64_to_be_bytes i"

definition key_u64_suffix :: "bytes \<Rightarrow> rust_error + u64" where
  "key_u64_suffix key =
     (if length key < 8 then Inl (Panic ''slice index out of range'')
      else ok_or (Panic ''8-byte suffix'') (u64_from_be_bytes (drop (length key - 8) key)))"

definition utxo_key :: "hash32 \<Rightarrow> u32 \<Rightarrow> bytes" where
  "utxo_key intent_hash output_index = hash_bytes intent_hash @ u32_to_be_bytes output_index"

lemma key_u64_suffix_prefixed [simp]: "key_u64_suffix (prefixed_u64_key pre i) = Inr i"
  using u64c.dec_suffix [of pre i]
  by (simp add: key_u64_suffix_def prefixed_u64_key_def)

lemma prefixed_u64_key_inject [simp, key_simps]:
  "prefixed_u64_key p i = prefixed_u64_key q j \<longleftrightarrow> p = q \<and> i = j"
  by (simp add: prefixed_u64_key_def u64c.prefix_key_inject)

lemma utxo_key_inject [simp, key_simps]:
  "utxo_key h i = utxo_key h' i' \<longleftrightarrow> h = h' \<and> i = i'"
  by (simp add: utxo_key_def hashc.enc_append_inject)

lemma length_utxo_key [simp, key_simps]: "length (utxo_key h i) = 36"
  by (simp add: utxo_key_def)

lemma length_prefixed_u64_key [simp, key_simps]: "length (prefixed_u64_key p i) = length p + 8"
  by (simp add: prefixed_u64_key_def)

section \<open>The keys of the meta partition\<close>

definition LAST_HEIGHT :: bytes where
  "LAST_HEIGHT = as_bytes ''last_indexed_height''"
definition SCHEMA_VERSION :: bytes where
  "SCHEMA_VERSION = as_bytes ''schema_version''"
definition CONTRACT_STATES_BACKFILL_CURSOR :: bytes where
  "CONTRACT_STATES_BACKFILL_CURSOR = as_bytes ''contract_states_backfill_cursor''"
definition TIP_TIMESTAMP :: bytes where
  "TIP_TIMESTAMP = as_bytes ''tip_timestamp''"
definition GENESIS_HASH :: bytes where
  "GENESIS_HASH = as_bytes ''genesis_hash''"
definition NEXT_TX_ID :: bytes where
  "NEXT_TX_ID = as_bytes ''next_tx_id''"
definition NEXT_ACTION_ID :: bytes where
  "NEXT_ACTION_ID = as_bytes ''next_action_id''"
definition NEXT_EVENT_ID :: bytes where
  "NEXT_EVENT_ID = as_bytes ''next_event_id''"
definition LEDGER_STATE_WINDOW :: bytes where
  "LEDGER_STATE_WINDOW = as_bytes ''ledger_state_window''"
definition WALLET_TX_INDEXED_THROUGH :: bytes where
  "WALLET_TX_INDEXED_THROUGH = as_bytes ''wallet_tx_indexed_through''"
definition WALLET_DUST_INDEXED_THROUGH :: bytes where
  "WALLET_DUST_INDEXED_THROUGH = as_bytes ''wallet_dust_indexed_through''"

definition meta_u64_keys :: "bytes list" where
  "meta_u64_keys = [LAST_HEIGHT, SCHEMA_VERSION, CONTRACT_STATES_BACKFILL_CURSOR, TIP_TIMESTAMP,
     NEXT_TX_ID, NEXT_ACTION_ID, NEXT_EVENT_ID, WALLET_TX_INDEXED_THROUGH,
     WALLET_DUST_INDEXED_THROUGH]"

lemma as_bytes_inject: "as_bytes s = as_bytes t \<longleftrightarrow> s = t"
proof -
  have "inj (\<lambda>c. word_of_nat (of_char c) :: u8)"
  proof (rule injI)
    fix c d assume "(word_of_nat (of_char c) :: u8) = word_of_nat (of_char d)"
    then have "unat (word_of_nat (of_char c) :: u8) = unat (word_of_nat (of_char d) :: u8)" by simp
    then have "(of_char c :: nat) mod 256 = of_char d mod 256" by (simp add: unat_of_nat)
    then have "(of_char c :: nat) = of_char d" by simp
    then show "c = d" by simp
  qed
  then show ?thesis by (simp add: as_bytes_def inj_map_eq_map)
qed

lemmas meta_key_defs =
  LAST_HEIGHT_def SCHEMA_VERSION_def CONTRACT_STATES_BACKFILL_CURSOR_def
  TIP_TIMESTAMP_def GENESIS_HASH_def NEXT_TX_ID_def NEXT_ACTION_ID_def NEXT_EVENT_ID_def
  LEDGER_STATE_WINDOW_def WALLET_TX_INDEXED_THROUGH_def WALLET_DUST_INDEXED_THROUGH_def

lemma meta_keys_distinct:
  "distinct [LAST_HEIGHT, SCHEMA_VERSION, CONTRACT_STATES_BACKFILL_CURSOR, TIP_TIMESTAMP,
     GENESIS_HASH, NEXT_TX_ID, NEXT_ACTION_ID, NEXT_EVENT_ID, LEDGER_STATE_WINDOW,
     WALLET_TX_INDEXED_THROUGH, WALLET_DUST_INDEXED_THROUGH]"
  by (simp add: meta_key_defs as_bytes_inject)

lemmas meta_keys_neq [simp] =
  meta_keys_distinct [unfolded distinct.simps list.set insert_iff de_Morgan_disj empty_iff simp_thms]

lemma meta_keys_distinct_rev:
  "distinct [WALLET_DUST_INDEXED_THROUGH, WALLET_TX_INDEXED_THROUGH, LEDGER_STATE_WINDOW,
     NEXT_EVENT_ID, NEXT_ACTION_ID, NEXT_TX_ID, GENESIS_HASH, TIP_TIMESTAMP,
     CONTRACT_STATES_BACKFILL_CURSOR, SCHEMA_VERSION, LAST_HEIGHT]"
  by (simp add: meta_key_defs as_bytes_inject)

lemmas meta_keys_neq_sym [simp] =
  meta_keys_distinct_rev [unfolded distinct.simps list.set insert_iff de_Morgan_disj empty_iff simp_thms]

lemma not_2_le_1 [simp]: "\<not> (2::u64) \<le> 1"
  by (simp add: word_le_nat_alt)

section \<open>The store and its schema\<close>

record Disk =
  keyspace :: "(part_id, store_value) keyspace"
  existing :: "part_id list"

record Store =
  disk :: Disk
  schema :: u64
  contract_actions :: part_id

definition SCHEMA_CURRENT :: u64 where
  "SCHEMA_CURRENT = 2"

definition store_get :: "Store \<Rightarrow> part_id \<Rightarrow> bytes \<Rightarrow> store_value option" where
  "store_get st p k = ks_get (keyspace (disk st)) p k"

definition store_iter :: "Store \<Rightarrow> part_id \<Rightarrow> (bytes \<times> store_value) list" where
  "store_iter st p = part_iter (keyspace (disk st) p)"

definition store_range :: "Store \<Rightarrow> part_id \<Rightarrow> bound \<Rightarrow> bound \<Rightarrow> (bytes \<times> store_value) list" where
  "store_range st p lo hi = part_range (keyspace (disk st) p) lo hi"

definition store_prefix :: "Store \<Rightarrow> part_id \<Rightarrow> bytes \<Rightarrow> (bytes \<times> store_value) list" where
  "store_prefix st p pre = part_prefix (keyspace (disk st) p) pre"

definition commit :: "Store \<Rightarrow> (part_id, store_value) batch \<Rightarrow> Store" where
  "commit st b = st\<lparr>disk := (disk st)\<lparr>keyspace := batch_commit (keyspace (disk st)) b\<rparr>\<rparr>"

definition open_partition :: "part_id \<Rightarrow> Disk \<Rightarrow> Disk" where
  "open_partition p d = (if p \<in> set (existing d) then d else d\<lparr>existing := existing d @ [p]\<rparr>)"

definition disk_insert :: "part_id \<Rightarrow> bytes \<Rightarrow> store_value \<Rightarrow> Disk \<Rightarrow> Disk" where
  "disk_insert p k v d = d\<lparr>keyspace := (keyspace d)(p := part_insert k v (keyspace d p))\<rparr>"

definition open_partitions :: "part_id list" where
  "open_partitions = [Blocks, BlocksByHash, Txs, TxsByHash, TxsByIdentifier, Utxos,
     UtxosUnspentByOwner, Balances, AddrTxs, ContractActionsByAddr, Contracts, LedgerEvents,
     WalletDustEvents, WalletTxIndices, WalletRelevantTxs, WalletScanProgress, EventsByContract,
     DustGeneration, DustGenByOwner, CnightRegistrations, LedgerDbNodes, LedgerDbRoots]"

definition as_u64 :: "string \<Rightarrow> store_value \<Rightarrow> rust_error + u64" where
  "as_u64 msg v =
     and_then (ok_or (Panic msg) (as_raw v)) (\<lambda>bs. ok_or (Panic msg) (u64_from_be_bytes bs))"

definition store_open :: "Disk \<Rightarrow> rust_error + Store" where
  "store_open d0 =
     (let d1 = open_partition Meta d0;
          meta_get = (\<lambda>k. ks_get (keyspace d1) Meta k);
          is_empty = (meta_get LAST_HEIGHT = None)
      in and_then
        (case meta_get SCHEMA_VERSION of
           None \<Rightarrow> Inr None
         | Some v \<Rightarrow> and_then (as_u64 ''8-byte schema version'' v) (\<lambda>s. Inr (Some s)))
        (\<lambda>stored_schema.
           let (schema_version, d2) =
                 (case stored_schema of
                    Some v \<Rightarrow> (v, d1)
                  | None \<Rightarrow>
                      (if is_empty
                       then (SCHEMA_CURRENT,
                             disk_insert Meta SCHEMA_VERSION (Raw (u64_to_be_bytes SCHEMA_CURRENT)) d1)
                       else (1, d1)));
               actions = (if schema_version \<ge> 2 then ContractActionsV2 else LegacyContractActions);
               d3 = fold open_partition (ContractStates # actions # open_partitions) d2
           in Inr \<lparr>disk = d3, schema = schema_version, contract_actions = actions\<rparr>))"

definition require_current_schema :: "Store \<Rightarrow> rust_error + unit" where
  "require_current_schema st =
     (if schema st = SCHEMA_CURRENT then Inr ()
      else Inl (Fail ''data directory is on an old store schema''))"

section \<open>Look-ups\<close>

definition meta_u64 :: "Store \<Rightarrow> bytes \<Rightarrow> rust_error + u64 option" where
  "meta_u64 st k =
     (case store_get st Meta k of
        None \<Rightarrow> Inr None
      | Some v \<Rightarrow> and_then (as_u64 ''8-byte meta value'' v) (\<lambda>x. Inr (Some x)))"

definition last_indexed_height :: "Store \<Rightarrow> rust_error + u64 option" where
  "last_indexed_height st = meta_u64 st LAST_HEIGHT"

definition tip_timestamp :: "Store \<Rightarrow> rust_error + u64 option" where
  "tip_timestamp st = meta_u64 st TIP_TIMESTAMP"

definition next_id :: "Store \<Rightarrow> bytes \<Rightarrow> rust_error + u64" where
  "next_id st k =
     and_then (meta_u64 st k) (\<lambda>x. Inr (case x of None \<Rightarrow> 0 | Some v \<Rightarrow> v))"

definition get_decoded ::
    "(store_value \<Rightarrow> 'a option) \<Rightarrow> Store \<Rightarrow> part_id \<Rightarrow> bytes \<Rightarrow> rust_error + 'a option" where
  "get_decoded as st p k =
     (case store_get st p k of
        None \<Rightarrow> Inr None
      | Some v \<Rightarrow> and_then (store_decode as v) (\<lambda>r. Inr (Some r)))"

definition ledger_state_window :: "Store \<Rightarrow> rust_error + LedgerStateWindow" where
  "ledger_state_window st =
     and_then (get_decoded as_window st Meta LEDGER_STATE_WINDOW)
       (\<lambda>w. Inr (case w of None \<Rightarrow> [] | Some w \<Rightarrow> w))"

definition store_block :: "Store \<Rightarrow> u64 \<Rightarrow> rust_error + BlockRecord option" where
  "store_block st height = get_decoded as_block st Blocks (u64_to_be_bytes height)"

definition block_height_by_hash :: "Store \<Rightarrow> bytes \<Rightarrow> rust_error + u64 option" where
  "block_height_by_hash st hash =
     (case store_get st BlocksByHash hash of
        None \<Rightarrow> Inr None
      | Some v \<Rightarrow> and_then (as_u64 ''8-byte height'' v) (\<lambda>x. Inr (Some x)))"

definition store_tx :: "Store \<Rightarrow> u64 \<Rightarrow> rust_error + TxRecord option" where
  "store_tx st tx_id = get_decoded as_tx st Txs (u64_to_be_bytes tx_id)"

definition tx_ids_by_hash :: "Store \<Rightarrow> hash32 \<Rightarrow> rust_error + u64 list" where
  "tx_ids_by_hash st hash =
     try_map (\<lambda>(key, _). key_u64_suffix key) (store_prefix st TxsByHash (hash_bytes hash))"

definition tx_ids_by_identifier :: "Store \<Rightarrow> bytes \<Rightarrow> rust_error + u64 list" where
  "tx_ids_by_identifier st identifier =
     try_map (\<lambda>(key, _). key_u64_suffix key) (store_prefix st TxsByIdentifier identifier)"

section \<open>What belongs in which partition\<close>

fun meta_value_ok :: "bytes \<Rightarrow> store_value \<Rightarrow> bool" where
  "meta_value_ok k (Raw bs) =
     (k \<noteq> LEDGER_STATE_WINDOW \<and> (k \<in> set meta_u64_keys \<longrightarrow> length bs = 8)
      \<and> (k = GENESIS_HASH \<longrightarrow> length bs = 32))"
| "meta_value_ok k (VWindow w) = (k = LEDGER_STATE_WINDOW)"
| "meta_value_ok k _ = False"

definition raw_of_length :: "nat \<Rightarrow> store_value \<Rightarrow> bool" where
  "raw_of_length n v = (case v of Raw bs \<Rightarrow> length bs = n | _ \<Rightarrow> False)"

fun entry_ok :: "part_id \<Rightarrow> bytes \<Rightarrow> store_value \<Rightarrow> bool" where
  "entry_ok Meta k v = meta_value_ok k v"
| "entry_ok Blocks k v = (length k = 8 \<and> as_block v \<noteq> None)"
| "entry_ok BlocksByHash k v = (length k = 32 \<and> raw_of_length 8 v)"
| "entry_ok Txs k v = (length k = 8 \<and> as_tx v \<noteq> None)"
| "entry_ok TxsByHash k v = (length k = 40)"
| "entry_ok TxsByIdentifier k v = (8 \<le> length k)"
| "entry_ok Utxos k v = (length k = 36 \<and> as_utxo v \<noteq> None)"
| "entry_ok UtxosUnspentByOwner k v = (length k = 100 \<and> raw_of_length 36 v)"
| "entry_ok Balances k v = (length k = 64 \<and> raw_of_length 16 v)"
| "entry_ok AddrTxs k v = (length k = 40)"
| "entry_ok ContractActionsV2 k v = (length k = 8 \<and> as_action v \<noteq> None)"
| "entry_ok LegacyContractActions k v = (length k = 8 \<and> as_legacy_action v \<noteq> None)"
| "entry_ok ContractActionsByAddr k v = (8 \<le> length k)"
| "entry_ok ContractStates k v = (length k = 32 \<and> as_raw v \<noteq> None)"
| "entry_ok Contracts k v = (as_contract v \<noteq> None)"
| "entry_ok LedgerEvents k v = (length k = 8 \<and> as_event v \<noteq> None)"
| "entry_ok WalletDustEvents k v = (length k = 8)"
| "entry_ok WalletTxIndices k v = (length k = 8 \<and> as_wallet_tx v \<noteq> None)"
| "entry_ok WalletRelevantTxs k v = (length k = 40)"
| "entry_ok WalletScanProgress k v = (length k = 32 \<and> raw_of_length 8 v)"
| "entry_ok EventsByContract k v = (8 \<le> length k)"
| "entry_ok DustGeneration k v = (length k = 32 \<and> as_dust_gen v \<noteq> None)"
| "entry_ok DustGenByOwner k v = (32 \<le> length k)"
| "entry_ok CnightRegistrations k v = (29 \<le> length k \<and> as_registration v \<noteq> None)"
| "entry_ok LedgerDbNodes k v = True"
| "entry_ok LedgerDbRoots k v = True"

definition keyspace_typed :: "(part_id, store_value) keyspace \<Rightarrow> bool" where
  "keyspace_typed ks =
     (keyspace_ok ks \<and> (\<forall>p k v. ks_get ks p k = Some v \<longrightarrow> entry_ok p k v))"

definition store_ok :: "Store \<Rightarrow> bool" where
  "store_ok st = (keyspace_typed (keyspace (disk st))
     \<and> contract_actions st = (if schema st \<ge> 2 then ContractActionsV2 else LegacyContractActions))"

end
