(* ===== verification/StoreFacts.thy ===== *)
theory StoreFacts
  imports Store
begin

text \<open>
  What the index store guarantees: look-ups after a commit, the typing invariant of the store
  (no look-up of a well-typed store panics), the schema detected when a data directory is opened,
  and the exactness of the hash index of transactions.
\<close>

section \<open>Look-ups after a commit\<close>

lemma store_get_commit: "store_get (commit st b) p k = ks_get (batch_commit (keyspace (disk st)) b) p k"
  by (simp add: store_get_def commit_def)

lemma commit_Nil [simp]: "commit st [] = st"
  by (simp add: commit_def)

lemma commit_fields [simp]:
  "schema (commit st b) = schema st"
  "contract_actions (commit st b) = contract_actions st"
  "keyspace (disk (commit st b)) = batch_commit (keyspace (disk st)) b"
  by (simp_all add: commit_def)

lemma store_get_commit_insert [store_simps]:
  "store_get (commit st (batch_insert p k v b)) q j =
    (if q = p \<and> j = k then Some v else store_get (commit st b) q j)"
  by (simp add: store_get_commit store_simps)

lemma store_get_commit_remove [store_simps]:
  "store_get (commit st (batch_remove p k b)) q j =
    (if q = p \<and> j = k then None else store_get (commit st b) q j)"
  by (simp add: store_get_commit store_simps)

lemma keyspace_typed_insert:
  assumes "keyspace_typed (batch_commit ks b)" and "entry_ok p k v"
  shows "keyspace_typed (batch_commit ks (batch_insert p k v b))"
proof -
  have "keyspace_ok (batch_commit ks (batch_insert p k v b))"
    using assms(1) by (simp add: keyspace_typed_def batch_insert_def batch_commit_append
        keyspace_ok_commit)
  then show ?thesis using assms by (simp add: keyspace_typed_def store_simps)
qed

lemma keyspace_typed_remove:
  assumes "keyspace_typed (batch_commit ks b)"
  shows "keyspace_typed (batch_commit ks (batch_remove p k b))"
proof -
  have "keyspace_ok (batch_commit ks (batch_remove p k b))"
    using assms(1) by (simp add: keyspace_typed_def batch_remove_def batch_commit_append
        keyspace_ok_commit)
  then show ?thesis using assms by (simp add: keyspace_typed_def store_simps)
qed

lemma store_ok_insert [intro]:
  "store_ok (commit st b) \<Longrightarrow> entry_ok p k v \<Longrightarrow> store_ok (commit st (batch_insert p k v b))"
  by (simp add: store_ok_def keyspace_typed_insert)

lemma store_ok_remove [intro]:
  "store_ok (commit st b) \<Longrightarrow> store_ok (commit st (batch_remove p k b))"
  by (simp add: store_ok_def keyspace_typed_remove)

lemma store_ok_entry: "store_ok st \<Longrightarrow> store_get st p k = Some v \<Longrightarrow> entry_ok p k v"
  by (simp add: store_ok_def keyspace_typed_def store_get_def)

lemma store_ok_part: "store_ok st \<Longrightarrow> part_ok (keyspace (disk st) p)"
  by (simp add: store_ok_def keyspace_typed_def keyspace_ok_def)

lemma in_store_iter:
  "store_ok st \<Longrightarrow> (k, v) \<in> set (store_iter st p) \<longleftrightarrow> store_get st p k = Some v"
  by (simp add: store_iter_def store_get_def ks_get_def store_ok_part part.entries_iff)

lemma in_store_range:
  "store_ok st \<Longrightarrow> (k, v) \<in> set (store_range st p lo hi) \<longleftrightarrow>
    store_get st p k = Some v \<and> above lo k \<and> below hi k"
  by (simp add: store_range_def store_get_def ks_get_def store_ok_part in_part_range)

lemma in_store_prefix:
  "store_ok st \<Longrightarrow> (k, v) \<in> set (store_prefix st p pre) \<longleftrightarrow>
    store_get st p k = Some v \<and> starts_with k pre"
  by (simp add: store_prefix_def store_get_def ks_get_def store_ok_part in_part_prefix)

lemma in_fst_iff: "k \<in> fst ` S \<longleftrightarrow> (\<exists>v. (k, v) \<in> S)"
  by force

lemma in_fst_store_prefix:
  "store_ok st \<Longrightarrow> k \<in> fst ` set (store_prefix st p pre) \<longleftrightarrow>
    store_get st p k \<noteq> None \<and> starts_with k pre"
  by (auto simp: in_fst_iff in_store_prefix)

section \<open>A small store, at which the properties are instantiated\<close>

definition blank_store :: Store where
  "blank_store = \<lparr>disk = \<lparr>keyspace = (\<lambda>_. []), existing = []\<rparr>, schema = 2,
     contract_actions = ContractActionsV2\<rparr>"

definition demo_batch :: "(part_id, store_value) batch" where
  "demo_batch =
     batch_insert TxsByHash (prefixed_u64_key (hash_bytes 9) 4) (Raw [])
       (batch_insert TxsByHash (prefixed_u64_key (hash_bytes 7) 5) (Raw [])
         (batch_insert TxsByHash (prefixed_u64_key (hash_bytes 7) 3) (Raw [])
           (batch_insert Meta LAST_HEIGHT (Raw (u64_to_be_bytes 6)) [])))"

definition demo_store :: Store where
  "demo_store = commit blank_store demo_batch"

lemma blank_store_ok [simp]: "store_ok blank_store"
  by (simp add: blank_store_def store_ok_def keyspace_typed_def keyspace_ok_def ks_get_def
      part_get_def)

lemma demo_store_ok: "store_ok demo_store"
  unfolding demo_store_def demo_batch_def
  by (intro store_ok_insert) (simp_all add: meta_u64_keys_def)

lemma demo_tx_ids: "tx_ids_by_hash demo_store 7 = Inr [3, 5]"
  by code_simp

section \<open>No look-up of a well-typed store panics\<close>

lemma u64_from_be_bytes_Some: "length bs = 8 \<Longrightarrow> \<exists>x. u64_from_be_bytes bs = Some x"
  by (simp add: u64_from_be_bytes_def)

lemma as_u64_raw: "raw_of_length 8 v \<Longrightarrow> \<exists>x. as_u64 msg v = Inr x"
  by (cases v) (auto simp: raw_of_length_def as_u64_def u64_from_be_bytes_def)

lemma as_u64_encoded [simp]: "as_u64 msg (Raw (u64_to_be_bytes x)) = Inr x"
  by (simp add: as_u64_def)

lemma meta_u64_total:
  assumes "store_ok st" and "k \<in> set meta_u64_keys"
  shows "\<exists>x. meta_u64 st k = Inr x"
proof (cases "store_get st Meta k")
  case None
  then show ?thesis by (simp add: meta_u64_def)
next
  case (Some v)
  with assms(1) have "meta_value_ok k v" using store_ok_entry by fastforce
  moreover have "k \<noteq> LEDGER_STATE_WINDOW"
    using assms(2) by (auto simp: meta_u64_keys_def)
  ultimately have "raw_of_length 8 v"
    using assms(2) by (cases v) (auto simp: raw_of_length_def)
  then obtain x where "as_u64 ''8-byte meta value'' v = Inr x" using as_u64_raw by blast
  with Some show ?thesis by (simp add: meta_u64_def)
qed

lemma get_decoded_total:
  assumes "\<And>v. store_get st p k = Some v \<Longrightarrow> as v \<noteq> None"
  shows "\<exists>x. get_decoded as st p k = Inr x"
  using assms by (auto simp: get_decoded_def store_decode_def split: option.splits)

lemma get_decoded_Inr_Some:
  "get_decoded as st p k = Inr (Some r) \<longleftrightarrow> (\<exists>v. store_get st p k = Some v \<and> as v = Some r)"
  by (auto simp: get_decoded_def store_decode_def result_simps split: option.splits)

lemma get_decoded_Inr_None:
  "get_decoded as st p k = Inr None \<longleftrightarrow> store_get st p k = None"
  by (auto simp: get_decoded_def store_decode_def result_simps split: option.splits)

lemma suffixes_total:
  assumes "\<And>k v. (k, v) \<in> set es \<Longrightarrow> 8 \<le> length k"
  shows "\<exists>ids. try_map (\<lambda>(key, _). key_u64_suffix key) es = Inr ids"
proof -
  have "try_map (\<lambda>(key, _). key_u64_suffix key) es =
      Inr (map (\<lambda>(key, _). the (u64_from_be_bytes (drop (length key - 8) key))) es)"
  proof (rule try_map_total)
    fix e assume "e \<in> set es"
    moreover obtain k v where "e = (k, v)" by (cases e)
    ultimately have "8 \<le> length k" using assms by blast
    with \<open>e = (k, v)\<close> show "(case e of (key, _) \<Rightarrow> key_u64_suffix key) =
        Inr (case e of (key, _) \<Rightarrow> the (u64_from_be_bytes (drop (length key - 8) key)))"
      by (simp add: key_u64_suffix_def u64_from_be_bytes_def)
  qed
  then show ?thesis by blast
qed

text \<open>
  Type soundness of the store. If every partition holds only keys and records of its own kind
  (\<open>store_ok\<close>), none of the store's look-ups panics in \<open>decode\<close> or in a big-endian
  conversion: each returns a value.
\<close>

theorem store_lookups_total:
  assumes "store_ok st"
  shows "(\<exists>x. last_indexed_height st = Inr x) \<and> (\<exists>x. tip_timestamp st = Inr x)
    \<and> (\<forall>k \<in> set meta_u64_keys. \<exists>x. next_id st k = Inr x)
    \<and> (\<exists>w. ledger_state_window st = Inr w)
    \<and> (\<forall>h. \<exists>x. store_block st h = Inr x) \<and> (\<forall>h. \<exists>x. block_height_by_hash st h = Inr x)
    \<and> (\<forall>i. \<exists>x. store_tx st i = Inr x)
    \<and> (\<forall>h. \<exists>ids. tx_ids_by_hash st h = Inr ids) \<and> (\<forall>i. \<exists>ids. tx_ids_by_identifier st i = Inr ids)"
proof (intro conjI allI ballI)
  note total = meta_u64_total [OF assms] and entry = store_ok_entry [OF assms]
  show "\<exists>x. last_indexed_height st = Inr x" "\<exists>x. tip_timestamp st = Inr x"
    by (simp_all add: last_indexed_height_def tip_timestamp_def total meta_u64_keys_def)
  show "\<exists>x. next_id st k = Inr x" if "k \<in> set meta_u64_keys" for k
    using total [OF that] by (auto simp: next_id_def)
  have "as_window v \<noteq> None" if "store_get st Meta LEDGER_STATE_WINDOW = Some v" for v
    using entry [OF that] by (cases v) simp_all
  then have "\<exists>x. get_decoded as_window st Meta LEDGER_STATE_WINDOW = Inr x"
    by (rule get_decoded_total)
  then show "\<exists>w. ledger_state_window st = Inr w" by (auto simp: ledger_state_window_def)
  show "\<exists>x. store_block st h = Inr x" for h
    unfolding store_block_def by (rule get_decoded_total, drule entry, simp)
  show "\<exists>x. store_tx st i = Inr x" for i
    unfolding store_tx_def by (rule get_decoded_total, drule entry, simp)
  show "\<exists>x. block_height_by_hash st h = Inr x" for h
  proof (cases "store_get st BlocksByHash h")
    case (Some v)
    with entry [OF Some] as_u64_raw [of v "''8-byte height''"] show ?thesis
      by (auto simp: block_height_by_hash_def)
  qed (simp add: block_height_by_hash_def)
  show "\<exists>ids. tx_ids_by_hash st h = Inr ids" for h
    unfolding tx_ids_by_hash_def
    by (rule suffixes_total, simp only: in_store_prefix [OF assms], elim conjE, drule entry, simp)
  show "\<exists>ids. tx_ids_by_identifier st i = Inr ids" for i
    unfolding tx_ids_by_identifier_def
    by (rule suffixes_total, simp only: in_store_prefix [OF assms], elim conjE, drule entry, simp)
qed

theorem store_lookups_total_witness:
  "(\<exists>x. last_indexed_height demo_store = Inr x) \<and> (\<exists>ids. tx_ids_by_hash demo_store 7 = Inr ids)"
  using store_lookups_total [OF demo_store_ok] by blast

section \<open>Prefix scans of composite keys\<close>

text \<open>A scan of keys that are a fixed prefix and a big-endian id returns exactly the ids stored
  under the prefix, each once, in increasing order.\<close>

lemma prefix_scan_ids:
  assumes "store_ok st"
    and len: "\<And>k v. store_get st p k = Some v \<Longrightarrow> starts_with k pre \<Longrightarrow> length k = length pre + 8"
    and run: "try_map (\<lambda>(key, _). key_u64_suffix key) (store_prefix st p pre) = Inr ids"
  shows "sorted_wrt (<) ids"
    and "set ids = {i. store_get st p (prefixed_u64_key pre i) \<noteq> None}"
proof -
  let ?es = "store_prefix st p pre"
  have keys: "fst e = prefixed_u64_key pre i"
    if "e \<in> set ?es" "key_u64_suffix (fst e) = Inr i" for e i
  proof -
    obtain k v where e: "e = (k, v)" by (cases e)
    with that(1) have g: "store_get st p k = Some v" and pre: "starts_with k pre"
      by (simp_all add: in_store_prefix [OF assms(1)])
    from pre obtain s where k: "k = pre @ s" by (auto simp: starts_with_iff)
    with len [OF g pre] have "length s = 8" by simp
    with that(2) e k have "u64_from_be_bytes s = Some i"
      by (simp add: key_u64_suffix_def result_simps)
    then have "s = u64_to_be_bytes i" by (rule u64c.dec_width)
    with e k show ?thesis by (simp add: prefixed_u64_key_def)
  qed
  have rel: "list_all2 (\<lambda>e i. key_u64_suffix (fst e) = Inr i) ?es ids"
    using run by (simp add: try_map_Inr_iff case_prod_beta)
  then have "list_all2 (\<lambda>e i. fst e = prefixed_u64_key pre i) ?es ids"
    by (rule list.rel_mono_strong) (use keys in auto)
  then have eq: "map fst ?es = map (prefixed_u64_key pre) ids"
    by (induction rule: list_all2_induct) auto
  have "sorted_wrt (<) (map (prefixed_u64_key pre) ids)"
    using part_prefix_sorted [OF store_ok_part [OF assms(1)], of p pre] eq
    by (simp add: store_prefix_def)
  then show "sorted_wrt (<) ids"
    by (simp add: sorted_wrt_map prefixed_u64_key_def u64c.prefix_key_less_iff)
  show "set ids = {i. store_get st p (prefixed_u64_key pre i) \<noteq> None}"
  proof (rule set_eqI)
    fix i
    have "i \<in> set ids \<longleftrightarrow> prefixed_u64_key pre i \<in> set (map (prefixed_u64_key pre) ids)"
      by (auto simp: image_iff)
    also have "\<dots> \<longleftrightarrow> prefixed_u64_key pre i \<in> fst ` set ?es"
      using eq by (metis list.set_map)
    also have "\<dots> \<longleftrightarrow> store_get st p (prefixed_u64_key pre i) \<noteq> None"
      by (simp add: in_fst_store_prefix [OF assms(1)] prefixed_u64_key_def)
    finally show "i \<in> set ids \<longleftrightarrow> i \<in> {i. store_get st p (prefixed_u64_key pre i) \<noteq> None}"
      by simp
  qed
qed

text \<open>
  The hash index of transactions is exact. On a well-typed store \<open>tx_ids_by_hash\<close> returns
  the ids of exactly the transactions indexed under that hash, in increasing order, so that its
  last element (the one the API takes) is the most recent occurrence of the hash.
\<close>

theorem tx_ids_by_hash_exact:
  assumes "store_ok st" and "tx_ids_by_hash st h = Inr ids"
  shows "sorted_wrt (<) ids
    \<and> set ids = {i. store_get st TxsByHash (prefixed_u64_key (hash_bytes h) i) \<noteq> None}"
proof -
  have "length k = length (hash_bytes h) + 8" if "store_get st TxsByHash k = Some v" for k v
    using store_ok_entry [OF assms(1) that] by simp
  then show ?thesis
    using prefix_scan_ids [OF assms(1), of TxsByHash "hash_bytes h" ids] assms(2)
    by (auto simp: tx_ids_by_hash_def)
qed

theorem tx_ids_by_hash_exact_witness:
  "sorted_wrt (<) [3, 5 :: u64]
    \<and> set [3, 5] = {i. store_get demo_store TxsByHash (prefixed_u64_key (hash_bytes 7) i) \<noteq> None}"
  by (rule tx_ids_by_hash_exact [OF demo_store_ok demo_tx_ids])

section \<open>The schema of an opened store\<close>

lemma open_partition_keyspace [simp]: "keyspace (open_partition p d) = keyspace d"
  by (simp add: open_partition_def)

lemma fold_open_partition_keyspace [simp]:
  "keyspace (fold open_partition ps d) = keyspace d"
  by (induction ps arbitrary: d) auto

lemma ks_get_disk_insert:
  "ks_get (keyspace (disk_insert p k v d)) q j =
    (if q = p \<and> j = k then Some v else ks_get (keyspace d) q j)"
  by (auto simp: disk_insert_def ks_get_def part.get_put part_get_insert)

lemma keyspace_typed_disk_insert:
  "keyspace_typed (keyspace d) \<Longrightarrow> entry_ok p k v \<Longrightarrow> keyspace_typed (keyspace (disk_insert p k v d))"
  unfolding keyspace_typed_def by (auto simp: ks_get_disk_insert)
    (auto simp: keyspace_ok_def disk_insert_def part.ok_put)

definition stored_schema :: "Disk \<Rightarrow> store_value option" where
  "stored_schema d = ks_get (keyspace d) Meta SCHEMA_VERSION"

definition is_fresh :: "Disk \<Rightarrow> bool" where
  "is_fresh d = (ks_get (keyspace d) Meta LAST_HEIGHT = None)"

lemma schema_value:
  assumes "keyspace_typed (keyspace d)" and "stored_schema d = Some v"
  obtains n where "v = Raw (u64_to_be_bytes n)"
proof -
  have "meta_value_ok SCHEMA_VERSION v"
    using assms by (metis entry_ok.simps(1) keyspace_typed_def stored_schema_def)
  then obtain bs where "v = Raw bs" "length bs = 8"
    by (cases v) (auto simp: meta_u64_keys_def)
  then have "v = Raw (u64_to_be_bytes (the (u64_from_be_bytes bs)))"
    using u64_from_be_bytes_Some [of bs] u64c.dec_width by fastforce
  then show ?thesis by (rule that)
qed

lemma store_open_stored:
  assumes "stored_schema d = Some (Raw (u64_to_be_bytes n))"
  shows "\<exists>st. store_open d = Inr st \<and> schema st = n \<and> keyspace (disk st) = keyspace d
    \<and> contract_actions st = (if n \<ge> 2 then ContractActionsV2 else LegacyContractActions)"
  using assms by (simp add: store_open_def stored_schema_def)

lemma store_open_unstored:
  assumes "stored_schema d = None"
  shows "\<exists>st. store_open d = Inr st
    \<and> schema st = (if is_fresh d then SCHEMA_CURRENT else 1)
    \<and> keyspace (disk st) = (if is_fresh d
        then keyspace (disk_insert Meta SCHEMA_VERSION (Raw (u64_to_be_bytes SCHEMA_CURRENT)) d)
        else keyspace d)
    \<and> contract_actions st = (if is_fresh d then ContractActionsV2 else LegacyContractActions)"
  using assms
  by (simp add: store_open_def stored_schema_def is_fresh_def SCHEMA_CURRENT_def disk_insert_def
      Let_def)

text \<open>
  C17. Schema detection. Opening a well-typed data directory always succeeds with a well-typed
  store. A fresh directory becomes the current schema and records it; a non-empty one without a
  recorded schema is schema 1, reads the legacy action partition and is refused by
  \<open>require_current_schema\<close>; a recorded schema is taken as it is. Opening the result again
  gives the same schema and the same data.
\<close>

theorem store_open_schema:
  assumes "keyspace_typed (keyspace d)"
  shows "\<exists>st. store_open d = Inr st \<and> store_ok st
    \<and> (require_current_schema st = Inr () \<longleftrightarrow> schema st = 2)
    \<and> (stored_schema d = None \<longrightarrow> schema st = (if is_fresh d then 2 else 1))
    \<and> (\<forall>n. stored_schema d = Some (Raw (u64_to_be_bytes n)) \<longrightarrow> schema st = n)
    \<and> (stored_schema d = None \<longrightarrow> is_fresh d \<longrightarrow>
         stored_schema (disk st) = Some (Raw (u64_to_be_bytes 2)))
    \<and> (\<exists>st'. store_open (disk st) = Inr st' \<and> schema st' = schema st
         \<and> keyspace (disk st') = keyspace (disk st))"
proof -
  have req: "require_current_schema st = Inr () \<longleftrightarrow> schema st = 2" for st
    by (simp add: require_current_schema_def SCHEMA_CURRENT_def)
  have same: "stored_schema d' = stored_schema d" "is_fresh d' = is_fresh d"
    if "keyspace d' = keyspace d" for d'
    using that by (simp_all add: stored_schema_def is_fresh_def)
  show ?thesis
  proof (cases "stored_schema d")
    case (Some v)
    then obtain n where v: "v = Raw (u64_to_be_bytes n)" using schema_value [OF assms] by blast
    obtain st where st: "store_open d = Inr st" "schema st = n" "keyspace (disk st) = keyspace d"
      "contract_actions st = (if n \<ge> 2 then ContractActionsV2 else LegacyContractActions)"
      using store_open_stored [of d n] Some v by blast
    have "stored_schema (disk st) = Some (Raw (u64_to_be_bytes n))"
      using same(1) [OF st(3)] Some v by simp
    then obtain st' where st': "store_open (disk st) = Inr st'" "schema st' = n"
      "keyspace (disk st') = keyspace (disk st)"
      using store_open_stored by blast
    have "store_ok st" using st assms by (simp add: store_ok_def)
    with st st' Some v show ?thesis by (intro exI [of _ st]) (simp add: req)
  next
    case None
    obtain st where st: "store_open d = Inr st"
      "schema st = (if is_fresh d then SCHEMA_CURRENT else 1)"
      "keyspace (disk st) = (if is_fresh d
        then keyspace (disk_insert Meta SCHEMA_VERSION (Raw (u64_to_be_bytes SCHEMA_CURRENT)) d)
        else keyspace d)"
      "contract_actions st = (if is_fresh d then ContractActionsV2 else LegacyContractActions)"
      using store_open_unstored [OF None] by blast
    show ?thesis
    proof (cases "is_fresh d")
      case True
      then have s: "stored_schema (disk st) = Some (Raw (u64_to_be_bytes 2))"
        using st(3) by (simp add: stored_schema_def ks_get_disk_insert SCHEMA_CURRENT_def)
      then obtain st' where st': "store_open (disk st) = Inr st'" "schema st' = 2"
        "keyspace (disk st') = keyspace (disk st)"
        using store_open_stored by blast
      have "keyspace_typed (keyspace (disk st))"
        using st(3) True assms
        by (simp add: keyspace_typed_disk_insert meta_u64_keys_def)
      with st True have "store_ok st" by (simp add: store_ok_def SCHEMA_CURRENT_def)
      with s st st' None True show ?thesis
        by (intro exI [of _ st]) (simp add: req SCHEMA_CURRENT_def)
    next
      case False
      then have st3: "keyspace (disk st) = keyspace d" using st(3) by simp
      then have "stored_schema (disk st) = None" "\<not> is_fresh (disk st)"
        using same [OF st3] None False by simp_all
      then obtain st' where st': "store_open (disk st) = Inr st'" "schema st' = 1"
        "keyspace (disk st') = keyspace (disk st)"
        using store_open_unstored [of "disk st"] by auto
      have "store_ok st" using st st3 False assms by (simp add: store_ok_def)
      with st st' None False show ?thesis by (intro exI [of _ st]) (simp add: req)
    qed
  qed
qed

theorem store_open_schema_witness:
  "\<exists>st. store_open (disk demo_store) = Inr st \<and> schema st = 1
    \<and> require_current_schema st \<noteq> Inr ()"
proof -
  have d: "keyspace_typed (keyspace (disk demo_store))"
    using demo_store_ok by (simp add: store_ok_def)
  have s: "stored_schema (disk demo_store) = None" and "\<not> is_fresh (disk demo_store)"
    by code_simp+
  with store_open_schema [OF d] show ?thesis by fastforce
qed

end
