(* ===== verification/LedgerApi.thy ===== *)
theory LedgerApi
  imports Store
begin

text \<open>
  The interface between the pipeline and the ledger: the operations of the facade
  \<open>LedgerState\<close> (\<open>domain/ledger/ledger_state.rs\<close>) that the pipeline calls, as a record of
  functions over an abstract ledger state, with the facade's errors (\<open>domain/ledger.rs\<close>) and the
  outcomes of applying a transaction (\<open>domain.rs\<close>). Behind it stands midnight-ledger, which
  is not in the repository. An operation that takes \<open>&mut self\<close> returns the new state, and no
  state when it fails: the facade assigns \<open>*self\<close> only at the end of a successful call.
\<close>

text \<open>The errors of the facade; the last one stands for a panic in it (an \<open>expect\<close>).\<close>

datatype LedgerError =
    LoadLedgerState bytes
  | SerializeError string
  | DeserializeError string
  | FromUtf8 string
  | GetContractState bytes
  | ByteArrayLen ByteArrayLenError
  | InvalidUpdate
  | MalformedTransaction
  | SystemTransactionError
  | BlockLimitExceeded
  | TransactionCost
  | BackwardsLedgerStateTranslation LedgerVersion LedgerVersion
  | UnsupportedLedgerStateTranslation LedgerVersion LedgerVersion
  | LedgerStateTranslation LedgerVersion LedgerVersion
  | UnsupportedEventVariant string
  | LedgerPanic string

record BridgeClaim =
  bc_recipient :: hash32
  bc_amount :: u128

record ApplyRegularTransactionOutcome =
  ro_transaction_result :: TransactionResult
  ro_created_unshielded_utxos :: "UnshieldedUtxo list"
  ro_spent_unshielded_utxos :: "UnshieldedUtxo list"
  ro_ledger_events :: "LedgerEvent list"
  ro_fees :: u128
  ro_bridge_claim :: "BridgeClaim option"

record ApplySystemTransactionOutcome =
  so_created_unshielded_utxos :: "UnshieldedUtxo list"
  so_ledger_events :: "LedgerEvent list"

record 'ls ledger_ops =
  lo_new :: "string \<Rightarrow> LedgerVersion \<Rightarrow> LedgerError + 'ls"
  lo_from_genesis :: "bytes \<Rightarrow> LedgerVersion \<Rightarrow> LedgerError + 'ls"
  lo_load :: "bytes \<Rightarrow> LedgerVersion \<Rightarrow> LedgerError + 'ls"
  lo_translate :: "'ls \<Rightarrow> LedgerVersion \<Rightarrow> LedgerError + 'ls"
  lo_ledger_version :: "'ls \<Rightarrow> LedgerVersion"
  lo_root :: "'ls \<Rightarrow> LedgerError + bytes"
  lo_persist :: "'ls \<Rightarrow> LedgerError + 'ls \<times> bytes"
  lo_apply_regular ::
    "'ls \<Rightarrow> bytes \<Rightarrow> hash32 \<Rightarrow> u64 \<Rightarrow> u64 \<Rightarrow> u64 \<Rightarrow>
       LedgerError + 'ls \<times> ApplyRegularTransactionOutcome"
  lo_apply_system ::
    "'ls \<Rightarrow> bytes \<Rightarrow> u64 \<Rightarrow> LedgerError + 'ls \<times> ApplySystemTransactionOutcome"
  lo_finalize :: "'ls \<Rightarrow> u64 \<Rightarrow> LedgerError + 'ls"
  lo_zswap_first_free :: "'ls \<Rightarrow> u64"
  lo_zswap_merkle_tree_root :: "'ls \<Rightarrow> ZswapMerkleTreeRoot"
  lo_serialize_root :: "ZswapMerkleTreeRoot \<Rightarrow> LedgerError + bytes"
  lo_contract_balances :: "bytes \<Rightarrow> LedgerVersion \<Rightarrow> LedgerError + ContractBalance list"
  lo_sha256 :: "bytes \<Rightarrow> hash32"

record AppliedTransaction =
  at_hash :: hash32
  at_protocol_version :: u32
  at_zswap_start_index :: u64
  at_zswap_end_index :: u64
  at_variant :: TransactionVariant
  at_result :: TransactionResult
  at_fees :: u128
  at_identifiers :: "bytes list"
  at_contract_actions :: "(bytes \<times> ContractActionRecord \<times> bytes) list"
  at_created_utxos :: "UnshieldedUtxo list"
  at_spent_utxos :: "UnshieldedUtxo list"
  at_ledger_events :: "LedgerEvent list"
  at_raw :: bytes

end
