(* ===== verification/WriteBlock.thy ===== *)
theory WriteBlock
  imports LedgerApi
begin

text \<open>
  \<open>write_block\<close> of \<open>nightfrost-chain/src/pipeline.rs\<close>: everything derived from one block
  goes into one batch, committed at the end. The local variables of the function are the record
  \<open>write_state\<close>: the batch, the id counters, and the in-block caches that let later
  transactions see what earlier ones wrote (a batch cannot be read). Reads go to the store as it was
  before the block. The hash maps \<open>balance_deltas\<close> and \<open>touched_addresses\<close>, which the
  code iterates, are association lists with distinct keys; their order is the order of first
  insertion, where the code's is unspecified. Integers are words: \<open>u64\<close> counters and the
  \<open>i128\<close> deltas wrap as they do in a release build.
\<close>

record Counters =
  next_tx_id :: u64
  next_action_id :: u64
  next_event_id :: u64

definition counters_load :: "Store \<Rightarrow> rust_error + Counters" where
  "counters_load st =
     and_then (next_id st NEXT_TX_ID) (\<lambda>t.
     and_then (next_id st NEXT_ACTION_ID) (\<lambda>a.
     and_then (next_id st NEXT_EVENT_ID) (\<lambda>e.
       Inr \<lparr>next_tx_id = t, next_action_id = a, next_event_id = e\<rparr>)))"

definition LEDGER_STATE_RETENTION :: nat where
  "LEDGER_STATE_RETENTION = 32"

record write_state =
  ws_batch :: "(part_id, store_value) batch"
  ws_ids :: Counters
  ws_created :: "bytes \<rightharpoonup> UtxoRecord"
  ws_deltas :: "((hash32 \<times> hash32) \<times> u128) list"
  ws_touched :: "(hash32 \<times> u64 list) list"
  ws_contracts :: "bytes \<rightharpoonup> ContractRecord"
  ws_states :: "hash32 list"

definition ws_insert :: "part_id \<Rightarrow> bytes \<Rightarrow> store_value \<Rightarrow> write_state \<Rightarrow> write_state" where
  "ws_insert p k v ws = ws\<lparr>ws_batch := batch_insert p k v (ws_batch ws)\<rparr>"

definition ws_remove :: "part_id \<Rightarrow> bytes \<Rightarrow> write_state \<Rightarrow> write_state" where
  "ws_remove p k ws = ws\<lparr>ws_batch := batch_remove p k (ws_batch ws)\<rparr>"

text \<open>\<open>*map.entry(k).or_default()\<close> followed by an update of the entry.\<close>

fun entry_update :: "'v \<Rightarrow> ('v \<Rightarrow> 'v) \<Rightarrow> 'k \<Rightarrow> ('k \<times> 'v) list \<Rightarrow> ('k \<times> 'v) list" where
  "entry_update d f k [] = [(k, f d)]"
| "entry_update d f k ((j, v) # m) =
     (if j = k then (j, f v) # m else (j, v) # entry_update d f k m)"

definition add_delta :: "hash32 \<times> hash32 \<Rightarrow> u128 \<Rightarrow> write_state \<Rightarrow> write_state" where
  "add_delta k x ws = ws\<lparr>ws_deltas := entry_update 0 (\<lambda>d. d + x) k (ws_deltas ws)\<rparr>"

definition touch :: "hash32 \<Rightarrow> u64 \<Rightarrow> write_state \<Rightarrow> write_state" where
  "touch owner tx_id ws = ws\<lparr>ws_touched := entry_update [] (\<lambda>l. l @ [tx_id]) owner (ws_touched ws)\<rparr>"

section \<open>Keys\<close>

definition unspent_key :: "UnshieldedUtxo \<Rightarrow> bytes" where
  "unspent_key utxo =
     hash_bytes (uu_owner utxo) @ hash_bytes (uu_token_type utxo)
       @ utxo_key (uu_intent_hash utxo) (uu_output_index utxo)"

definition dust_gen_owner_key :: "bytes \<Rightarrow> hash32 \<Rightarrow> bytes" where
  "dust_gen_owner_key owner night_utxo_hash = owner @ hash_bytes night_utxo_hash"

definition balance_key :: "hash32 \<Rightarrow> hash32 \<Rightarrow> bytes" where
  "balance_key owner token_type = hash_bytes owner @ hash_bytes token_type"

definition key_of_utxo :: "UnshieldedUtxo \<Rightarrow> bytes" where
  "key_of_utxo utxo = utxo_key (uu_intent_hash utxo) (uu_output_index utxo)"

section \<open>UTXOs of a transaction\<close>

definition write_created :: "u64 \<Rightarrow> UnshieldedUtxo \<Rightarrow> write_state \<Rightarrow> write_state" where
  "write_created tx_id utxo ws =
     (let key = utxo_key (uu_intent_hash utxo) (uu_output_index utxo);
          record = \<lparr>ur_utxo = utxo, ur_creating_tx_id = tx_id, ur_spending_tx_id = None\<rparr>;
          ws = ws_insert Utxos key (VUtxo record) ws;
          ws = ws_insert UtxosUnspentByOwner (unspent_key utxo) (Raw key) ws;
          ws = ws\<lparr>ws_created := (ws_created ws)(key \<mapsto> record)\<rparr>;
          ws = add_delta (uu_owner utxo, uu_token_type utxo) (uu_value utxo) ws
      in touch (uu_owner utxo) tx_id ws)"

definition write_spent ::
    "Store \<Rightarrow> u64 \<Rightarrow> write_state \<Rightarrow> UnshieldedUtxo \<Rightarrow> rust_error + write_state" where
  "write_spent st tx_id ws utxo =
     (let key = utxo_key (uu_intent_hash utxo) (uu_output_index utxo)
      in and_then
        (case ws_created ws key of
           Some record \<Rightarrow> Inr record
         | None \<Rightarrow> and_then (get_decoded as_utxo st Utxos key) (ok_or (Fail ''spent utxo not found'')))
        (\<lambda>record.
           let record = record\<lparr>ur_spending_tx_id := Some tx_id\<rparr>;
               ws = ws_insert Utxos key (VUtxo record) ws;
               ws = ws_remove UtxosUnspentByOwner (unspent_key utxo) ws;
               ws = ws\<lparr>ws_created := (ws_created ws)(key \<mapsto> record)\<rparr>;
               ws = add_delta (uu_owner utxo, uu_token_type utxo) (- uu_value utxo) ws
           in Inr (touch (uu_owner utxo) tx_id ws)))"

section \<open>Contract actions of a transaction\<close>

text \<open>The insertion of the state blob, skipped when this content is already stored or pending.\<close>

definition write_state_blob :: "Store \<Rightarrow> hash32 option \<Rightarrow> bytes \<Rightarrow> write_state \<Rightarrow> write_state" where
  "write_state_blob st state_hash state ws =
     (case state_hash of
        None \<Rightarrow> ws
      | Some hash \<Rightarrow>
          (if hash \<notin> set (ws_states ws) \<and> store_get st ContractStates (hash_bytes hash) = None
           then (ws_insert ContractStates (hash_bytes hash) (Raw state) ws)
                  \<lparr>ws_states := hash # ws_states ws\<rparr>
           else ws))"

definition write_contract_pointer ::
    "Store \<Rightarrow> bytes \<Rightarrow> u64 \<Rightarrow> write_state \<Rightarrow> rust_error + write_state" where
  "write_contract_pointer st address action_id ws =
     and_then
       (case ws_contracts ws address of
          Some contract \<Rightarrow> Inr (Some contract)
        | None \<Rightarrow> get_decoded as_contract st Contracts address)
       (\<lambda>contract.
          let contract =
                (case contract of
                   Some contract \<Rightarrow> contract\<lparr>cr_latest_action_id := action_id\<rparr>
                 | None \<Rightarrow> \<lparr>cr_deploy_action_id = action_id, cr_latest_action_id = action_id\<rparr>);
              ws = ws_insert Contracts address (VContract contract) ws
          in Inr (ws\<lparr>ws_contracts := (ws_contracts ws)(address \<mapsto> contract)\<rparr>))"

fun write_action ::
    "Store \<Rightarrow> u64 \<Rightarrow> write_state \<times> u64 list \<Rightarrow> bytes \<times> ContractActionRecord \<times> bytes \<Rightarrow>
       rust_error + write_state \<times> u64 list" where
  "write_action st tx_id (ws, contract_action_ids) (address, record, state) =
     (let action_id = next_action_id (ws_ids ws);
          ws = ws\<lparr>ws_ids := (ws_ids ws)\<lparr>next_action_id := next_action_id (ws_ids ws) + 1\<rparr>\<rparr>;
          contract_action_ids = contract_action_ids @ [action_id];
          record = record\<lparr>ar_tx_id := tx_id\<rparr>;
          ws = ws_insert (contract_actions st) (u64_to_be_bytes action_id) (VAction record) ws;
          ws = ws_insert ContractActionsByAddr (prefixed_u64_key address action_id) (Raw []) ws;
          ws = write_state_blob st (ar_state_hash record) state ws
      in if ar_state_hash record = None then Inr (ws, contract_action_ids)
         else and_then (write_contract_pointer st address action_id ws)
                (\<lambda>ws. Inr (ws, contract_action_ids)))"

section \<open>Ledger events of a transaction\<close>

definition action_refs ::
    "(bytes \<times> ContractActionRecord \<times> bytes) list \<Rightarrow> u64 list \<Rightarrow> action_ref list" where
  "action_refs actions ids =
     map (\<lambda>((address, record, _), action_id). (action_id, address, ar_attributes record))
       (zip actions ids)"

definition or_else :: "'a option \<Rightarrow> 'a option \<Rightarrow> 'a option" where
  "or_else x y = (case x of Some a \<Rightarrow> Some a | None \<Rightarrow> y)"

definition write_dust_generation ::
    "u64 \<Rightarrow> DustGenerationInfo \<Rightarrow> write_state \<Rightarrow> write_state" where
  "write_dust_generation tx_id generation_info ws =
     (let ws = ws_insert DustGeneration (hash_bytes (dg_night_utxo_hash generation_info))
                 (VDustGen \<lparr>dr_info = generation_info, dr_tx_id = tx_id\<rparr>) ws
      in ws_insert DustGenByOwner
           (dust_gen_owner_key (dg_owner generation_info) (dg_night_utxo_hash generation_info))
           (Raw []) ws)"

definition write_event ::
    "u64 \<Rightarrow> u64 \<Rightarrow> action_ref list \<Rightarrow> LedgerEvent \<Rightarrow> write_state \<Rightarrow> write_state" where
  "write_event tx_id block_height refs ev ws =
     (let event_id = next_event_id (ws_ids ws);
          ws = ws\<lparr>ws_ids := (ws_ids ws)\<lparr>next_event_id := next_event_id (ws_ids ws) + 1\<rparr>\<rparr>;
          event = ev\<lparr>le_contract_action_id :=
                    or_else (correlate_contract_action_id ev refs) (le_contract_action_id ev)\<rparr>;
          ws = (case le_contract_address event of
                  Some address \<Rightarrow>
                    ws_insert EventsByContract (prefixed_u64_key address event_id) (Raw []) ws
                | None \<Rightarrow> ws);
          ws = ws_insert LedgerEvents (u64_to_be_bytes event_id)
                 (VEvent \<lparr>er_event = event, er_tx_id = tx_id, er_block_height = block_height\<rparr>) ws;
          ws = (if le_grouping event = Dust
                then ws_insert WalletDustEvents (u64_to_be_bytes event_id) (Raw []) ws else ws)
      in case le_attributes event of
           DustInitialUtxo _ generation_info _ \<Rightarrow> write_dust_generation tx_id generation_info ws
         | DustGenerationDtimeUpdate generation_info _ _ \<Rightarrow>
             write_dust_generation tx_id generation_info ws
         | _ \<Rightarrow> ws)"

section \<open>One transaction\<close>

definition write_indexes :: "u64 \<Rightarrow> AppliedTransaction \<Rightarrow> write_state \<Rightarrow> write_state" where
  "write_indexes tx_id applied ws =
     (let ws = ws_insert WalletTxIndices (u64_to_be_bytes tx_id)
                 (VWalletTx \<lparr>wt_zswap_start_index = at_zswap_start_index applied,
                             wt_zswap_end_index = at_zswap_end_index applied,
                             wt_protocol_version = at_protocol_version applied\<rparr>) ws;
          ws = ws_insert TxsByHash (prefixed_u64_key (hash_bytes (at_hash applied)) tx_id) (Raw []) ws
      in fold (\<lambda>identifier. ws_insert TxsByIdentifier (prefixed_u64_key identifier tx_id) (Raw []))
           (at_identifiers applied) ws)"

definition tx_record ::
    "Block \<Rightarrow> nat \<Rightarrow> AppliedTransaction \<Rightarrow> u64 list \<Rightarrow> u64 \<Rightarrow> u64 \<Rightarrow> TxRecord" where
  "tx_record block index applied contract_action_ids first_event_id next_event =
     \<lparr>tx_hash = at_hash applied,
      tx_block_height = b_height block,
      tx_index_in_block = word_of_nat index,
      tx_variant = at_variant applied,
      tx_result = at_result applied,
      tx_paid_fees = at_fees applied,
      tx_estimated_fees = at_fees applied,
      tx_identifiers = at_identifiers applied,
      tx_contract_action_ids = contract_action_ids,
      tx_first_event_id = first_event_id,
      tx_event_count = ucast (next_event - first_event_id),
      tx_created_utxos = at_created_utxos applied,
      tx_spent_utxos = at_spent_utxos applied,
      tx_raw = at_raw applied\<rparr>"

fun write_tx ::
    "Store \<Rightarrow> Block \<Rightarrow> write_state \<Rightarrow> nat \<times> AppliedTransaction \<Rightarrow> rust_error + write_state" where
  "write_tx st block ws (index, applied) =
     (let tx_id = next_tx_id (ws_ids ws);
          ws = ws\<lparr>ws_ids := (ws_ids ws)\<lparr>next_tx_id := next_tx_id (ws_ids ws) + 1\<rparr>\<rparr>;
          first_event_id = next_event_id (ws_ids ws);
          ws = write_indexes tx_id applied ws;
          ws = fold (write_created tx_id) (at_created_utxos applied) ws
      in and_then (try_fold (write_spent st tx_id) ws (at_spent_utxos applied)) (\<lambda>ws.
         and_then (try_fold (write_action st tx_id) (ws, []) (at_contract_actions applied))
           (\<lambda>(ws, contract_action_ids).
              let refs = action_refs (at_contract_actions applied) contract_action_ids;
                  ws = fold (write_event tx_id (b_height block) refs) (at_ledger_events applied) ws;
                  record = tx_record block index applied contract_action_ids first_event_id
                             (next_event_id (ws_ids ws))
              in Inr (ws_insert Txs (u64_to_be_bytes tx_id) (VTx record) ws))))"

section \<open>Balances, address history, registrations, the block and the meta keys\<close>

definition i128_to_u128 :: "u128 \<Rightarrow> u128 option" where
  "i128_to_u128 x = (if 0 \<le> sint x then Some x else None)"

fun write_balance ::
    "Store \<Rightarrow> (part_id, store_value) batch \<Rightarrow> (hash32 \<times> hash32) \<times> u128 \<Rightarrow>
       rust_error + (part_id, store_value) batch" where
  "write_balance st batch ((owner, token_type), delta) =
     (let key = hash_bytes owner @ hash_bytes token_type
      in and_then
        (case store_get st Balances key of
           None \<Rightarrow> Inr 0
         | Some v \<Rightarrow>
             and_then (ok_or (Panic ''16-byte balance'') (as_raw v))
               (\<lambda>bs. ok_or (Panic ''16-byte balance'') (u128_from_be_bytes bs)))
        (\<lambda>current.
           and_then (ok_or (Fail ''balance underflow'') (i128_to_u128 (current + delta)))
             (\<lambda>updated. Inr (batch_insert Balances key (Raw (u128_to_be_bytes updated)) batch))))"

definition write_addr_txs ::
    "hash32 \<times> u64 list \<Rightarrow> (part_id, store_value) batch \<Rightarrow> (part_id, store_value) batch" where
  "write_addr_txs entry batch =
     fold (\<lambda>tx_id. batch_insert AddrTxs (prefixed_u64_key (hash_bytes (fst entry)) tx_id) (Raw []))
       (snd entry) batch"

fun registration_of :: "DustRegistrationEvent \<Rightarrow> bytes29 \<times> bytes" where
  "registration_of (Registration stake_key dust_address) = (stake_key, dust_address)"
| "registration_of (Deregistration stake_key dust_address) = (stake_key, dust_address)"
| "registration_of (MappingAdded stake_key dust_address _ _) = (stake_key, dust_address)"
| "registration_of (MappingRemoved stake_key dust_address _ _) = (stake_key, dust_address)"

definition registration_key :: "DustRegistrationEvent \<Rightarrow> bytes" where
  "registration_key event =
     bytes29_bytes (fst (registration_of event)) @ snd (registration_of event)"

definition fresh_registration :: "DustRegistrationEvent \<Rightarrow> u64 \<Rightarrow> CnightRegistrationRecord" where
  "fresh_registration event block_height =
     \<lparr>cn_cardano_stake_key = bytes29_bytes (fst (registration_of event)),
      cn_dust_address = snd (registration_of event),
      cn_valid = False,
      cn_registered_at_height = block_height,
      cn_removed_at_height = None,
      cn_utxo_id = None,
      cn_utxo_index = None\<rparr>"

fun update_registration ::
    "DustRegistrationEvent \<Rightarrow> u64 \<Rightarrow> CnightRegistrationRecord \<Rightarrow> CnightRegistrationRecord" where
  "update_registration (Registration _ _) block_height record =
     record\<lparr>cn_valid := True, cn_registered_at_height := block_height, cn_removed_at_height := None\<rparr>"
| "update_registration (Deregistration _ _) block_height record =
     record\<lparr>cn_valid := False, cn_removed_at_height := Some block_height\<rparr>"
| "update_registration (MappingAdded _ _ utxo_id utxo_index) block_height record =
     record\<lparr>cn_valid := True, cn_removed_at_height := None, cn_utxo_id := Some utxo_id,
            cn_utxo_index := Some (ucast utxo_index)\<rparr>"
| "update_registration (MappingRemoved _ _ _ _) block_height record =
     record\<lparr>cn_utxo_id := None, cn_utxo_index := None\<rparr>"

definition apply_registration_event ::
    "Store \<Rightarrow> u64 \<Rightarrow> (part_id, store_value) batch \<Rightarrow> DustRegistrationEvent \<Rightarrow>
       rust_error + (part_id, store_value) batch" where
  "apply_registration_event st block_height batch event =
     (let key = registration_key event
      in and_then (get_decoded as_registration st CnightRegistrations key) (\<lambda>stored.
         let record = (case stored of Some r \<Rightarrow> r | None \<Rightarrow> fresh_registration event block_height);
             record = update_registration event block_height record
         in Inr (batch_insert CnightRegistrations key (VRegistration record) batch)))"

definition block_record :: "Block \<Rightarrow> u64 \<Rightarrow> nat \<Rightarrow> bytes \<Rightarrow> BlockRecord" where
  "block_record block first_tx_id tx_count root =
     \<lparr>bk_hash = b_hash block,
      bk_parent_hash = b_parent_hash block,
      bk_timestamp = b_timestamp block,
      bk_protocol_version = u32_from (b_protocol_version block),
      bk_author = b_author block,
      bk_first_tx_id = first_tx_id,
      bk_tx_count = word_of_nat tx_count,
      bk_zswap_merkle_tree_root = root,
      bk_ledger_state_root = b_ledger_state_root block\<rparr>"

text \<open>\<open>push\<close> the new key, then \<open>remove(0)\<close> while longer than the retention.\<close>

definition push_window ::
    "LedgerStateWindow \<Rightarrow> bytes \<times> StoredLedgerVersion \<Rightarrow> LedgerStateWindow" where
  "push_window window entry =
     (let w = window @ [entry] in drop (length w - LEDGER_STATE_RETENTION) w)"

definition write_meta ::
    "Block \<Rightarrow> Counters \<Rightarrow> LedgerStateWindow \<Rightarrow> (part_id, store_value) batch \<Rightarrow>
       (part_id, store_value) batch" where
  "write_meta block ids next_window batch =
     (let batch = batch_insert Meta LAST_HEIGHT (Raw (u64_to_be_bytes (b_height block))) batch;
          batch = batch_insert Meta TIP_TIMESTAMP (Raw (u64_to_be_bytes (b_timestamp block))) batch;
          batch = batch_insert Meta NEXT_TX_ID (Raw (u64_to_be_bytes (next_tx_id ids))) batch;
          batch = batch_insert Meta NEXT_ACTION_ID (Raw (u64_to_be_bytes (next_action_id ids))) batch;
          batch = batch_insert Meta NEXT_EVENT_ID (Raw (u64_to_be_bytes (next_event_id ids))) batch;
          batch = batch_insert Meta WALLET_TX_INDEXED_THROUGH
                    (Raw (u64_to_be_bytes (next_tx_id ids))) batch;
          batch = batch_insert Meta WALLET_DUST_INDEXED_THROUGH
                    (Raw (u64_to_be_bytes (next_event_id ids))) batch;
          batch = batch_insert Meta LEDGER_STATE_WINDOW (VWindow next_window) batch
      in if b_height block = 0
         then batch_insert Meta GENESIS_HASH (Raw (hash_bytes (b_hash block))) batch
         else batch)"

section \<open>The whole block\<close>

definition init_write_state :: "Counters \<Rightarrow> write_state" where
  "init_write_state ids =
     \<lparr>ws_batch = [], ws_ids = ids, ws_created = Map.empty, ws_deltas = [], ws_touched = [],
      ws_contracts = Map.empty, ws_states = []\<rparr>"

definition write_block ::
    "'ls ledger_ops \<Rightarrow> Store \<Rightarrow> Block \<Rightarrow> AppliedTransaction list \<Rightarrow> bytes \<Rightarrow>
       LedgerStateWindow \<Rightarrow> Counters \<Rightarrow> rust_error + Store \<times> Counters" where
  "write_block L st block transactions ledger_state_key window ids =
     (let first_tx_id = next_tx_id ids;
          height_key = u64_to_be_bytes (b_height block)
      in and_then (try_fold (write_tx st block) (init_write_state ids) (enumerate 0 transactions)) (\<lambda>ws.
         and_then (try_fold (write_balance st) (ws_batch ws) (ws_deltas ws)) (\<lambda>batch.
         let batch = fold write_addr_txs (ws_touched ws) batch
         in and_then (try_fold (apply_registration_event st (b_height block)) batch
                        (b_dust_registration_events block)) (\<lambda>batch.
         and_then (map_err (\<lambda>_. Fail ''serialize zswap merkle tree root'')
                     (lo_serialize_root L (b_zswap_merkle_tree_root block))) (\<lambda>root.
         let record = block_record block first_tx_id (length transactions) root;
             batch = batch_insert Blocks height_key (VBlock record) batch;
             batch = batch_insert BlocksByHash (hash_bytes (b_hash block)) (Raw height_key) batch;
             next_window = push_window window
               (ledger_state_key, stored_from (ledger_version (b_protocol_version block)));
             batch = write_meta block (ws_ids ws) next_window batch
         in Inr (commit st batch, ws_ids ws))))))"

end
