(* ===== verification/WriteFacts.thy ===== *)
theory WriteFacts
  imports StoreFacts WriteBlock
begin

text \<open>
  What \<open>write_block\<close> writes, part by part. \<open>grows P b b'\<close> says that the batch \<open>b'\<close> is
  \<open>b\<close> followed by well-typed items of the partitions \<open>P\<close> only, with no removal outside
  the unspent index; every step of the function
  grows the batch in the partitions it is about, so a property of one partition is proved over the
  steps that write it. From this follow the typing of the store after a block, the block and meta
  records, the transaction records with their indexes and the numbering of the ids.
\<close>

section \<open>Growing a batch\<close>

fun item_fits :: "part_id set \<Rightarrow> (part_id, store_value) item \<Rightarrow> bool" where
  "item_fits P (p, k, Value v) = (p \<in> P \<and> entry_ok p k v)"
| "item_fits P (p, k, Tombstone) = (p \<in> P \<and> p = UtxosUnspentByOwner)"

definition grows ::
    "part_id set \<Rightarrow> (part_id, store_value) batch \<Rightarrow> (part_id, store_value) batch \<Rightarrow> bool" where
  "grows P b b' = (\<exists>d. b' = b @ d \<and> (\<forall>i \<in> set d. item_fits P i))"

named_theorems grows_intros

lemma grows_refl [simp, grows_intros]: "grows P b b"
  by (simp add: grows_def)

lemma grows_trans [trans]: "grows P a b \<Longrightarrow> grows P b c \<Longrightarrow> grows P a c"
  by (auto simp: grows_def)

lemma item_fits_mono: "P \<subseteq> Q \<Longrightarrow> item_fits P i \<Longrightarrow> item_fits Q i"
  by (cases "(P, i)" rule: item_fits.cases) auto

lemma grows_mono: "grows P a b \<Longrightarrow> P \<subseteq> Q \<Longrightarrow> grows Q a b"
  unfolding grows_def using item_fits_mono by blast

lemma grows_insert [grows_intros]:
  "grows P a b \<Longrightarrow> p \<in> P \<Longrightarrow> entry_ok p k v \<Longrightarrow> grows P a (batch_insert p k v b)"
  by (auto simp: grows_def batch_insert_def)

lemma grows_remove [grows_intros]:
  "grows P a b \<Longrightarrow> UtxosUnspentByOwner \<in> P \<Longrightarrow>
     grows P a (batch_remove UtxosUnspentByOwner k b)"
  by (auto simp: grows_def batch_remove_def)

lemma grows_fold:
  assumes "\<And>x s. x \<in> set xs \<Longrightarrow> grows P (g s) (g (f x s))"
  shows "grows P (g s) (g (fold f xs s))"
  using assms
proof (induction xs arbitrary: s)
  case (Cons x xs)
  have "grows P (g s) (g (f x s))" by (rule Cons.prems) simp
  moreover have "grows P (g (f x s)) (g (fold f xs (f x s)))"
    by (rule Cons.IH) (use Cons.prems in auto)
  ultimately show ?case by (auto intro: grows_trans)
qed simp

lemma grows_try_fold:
  assumes "try_fold f s xs = Inr t"
    and "\<And>x s s'. x \<in> set xs \<Longrightarrow> f s x = Inr s' \<Longrightarrow> grows P (g s) (g s')"
  shows "grows P (g s) (g t)"
  by (rule try_fold_invariant [OF assms(1), where P = "\<lambda>u. grows P (g s) (g u)"])
    (auto intro: grows_trans assms(2))

lemma grows_view:
  assumes "grows P b b'" and "p \<notin> P"
  shows "store_get (commit st b') p k = store_get (commit st b) p k"
proof -
  obtain d where d: "b' = b @ d" "\<forall>i \<in> set d. item_fits P i"
    using assms(1) by (auto simp: grows_def)
  have "(p, k) \<notin> item_key ` set d"
  proof
    assume "(p, k) \<in> item_key ` set d"
    then obtain op where "(p, k, op) \<in> set d" by (auto simp: item_key_def)
    with d(2) have "p \<in> P" by (cases op) auto
    with assms(2) show False ..
  qed
  with d(1) show ?thesis by (simp add: store_get_commit batch_commit_append ks_get_commit_other)
qed

lemma grows_keeps:
  assumes "grows P b b'" and "p \<noteq> UtxosUnspentByOwner"
    and "store_get (commit st b) p k \<noteq> None"
  shows "store_get (commit st b') p k \<noteq> None"
proof -
  obtain d where d: "b' = b @ d" "\<forall>i \<in> set d. item_fits P i"
    using assms(1) by (auto simp: grows_def)
  have "store_get (commit st (b @ d)) p k \<noteq> None" using d(2)
  proof (induction d rule: rev_induct)
    case (snoc i d)
    obtain q j op where i: "i = (q, j, op)" by (cases i)
    show ?case
    proof (cases op)
      case (Value v)
      with i have "b @ d @ [i] = batch_insert q j v (b @ d)" by (simp add: batch_insert_def)
      with snoc show ?thesis by (simp add: store_simps)
    next
      case Tombstone
      with i have "b @ d @ [i] = batch_remove q j (b @ d)" by (simp add: batch_remove_def)
      with snoc i Tombstone assms(2) show ?thesis by (auto simp: store_simps)
    qed
  qed (use assms(3) in simp)
  with d(1) show ?thesis by simp
qed

lemma store_ok_grows:
  assumes "store_ok (commit st b)" and "grows P b b'"
  shows "store_ok (commit st b')"
proof -
  obtain d where d: "b' = b @ d" "\<forall>i \<in> set d. item_fits P i"
    using assms(2) by (auto simp: grows_def)
  have "store_ok (commit st (b @ d))" using d(2)
  proof (induction d rule: rev_induct)
    case (snoc i d)
    then have ok: "store_ok (commit st (b @ d))" by simp
    obtain p k op where i: "i = (p, k, op)" by (cases i)
    show ?case
    proof (cases op)
      case (Value v)
      with snoc.prems i have "entry_ok p k v" by simp
      with store_ok_insert [OF ok this] i Value show ?thesis by (simp add: batch_insert_def)
    next
      case Tombstone
      with store_ok_remove [OF ok, of p k] i show ?thesis by (simp add: batch_remove_def)
    qed
  qed (use assms(1) in simp)
  with d(1) show ?thesis by simp
qed

section \<open>The steps\<close>

lemma ws_batch_insert [simp]: "ws_batch (ws_insert p k v ws) = batch_insert p k v (ws_batch ws)"
  by (simp add: ws_insert_def)

lemma ws_batch_remove [simp]: "ws_batch (ws_remove p k ws) = batch_remove p k (ws_batch ws)"
  by (simp add: ws_remove_def)

lemma ws_insert_fields [simp]:
  "ws_ids (ws_insert p k v ws) = ws_ids ws"
  "ws_created (ws_insert p k v ws) = ws_created ws"
  "ws_deltas (ws_insert p k v ws) = ws_deltas ws"
  "ws_touched (ws_insert p k v ws) = ws_touched ws"
  "ws_contracts (ws_insert p k v ws) = ws_contracts ws"
  "ws_states (ws_insert p k v ws) = ws_states ws"
  by (simp_all add: ws_insert_def)

lemma ws_remove_fields [simp]:
  "ws_ids (ws_remove p k ws) = ws_ids ws"
  "ws_created (ws_remove p k ws) = ws_created ws"
  "ws_deltas (ws_remove p k ws) = ws_deltas ws"
  "ws_touched (ws_remove p k ws) = ws_touched ws"
  "ws_contracts (ws_remove p k ws) = ws_contracts ws"
  "ws_states (ws_remove p k ws) = ws_states ws"
  by (simp_all add: ws_remove_def)

lemma add_delta_fields [simp]:
  "ws_batch (add_delta k x ws) = ws_batch ws"
  "ws_ids (add_delta k x ws) = ws_ids ws"
  "ws_created (add_delta k x ws) = ws_created ws"
  "ws_touched (add_delta k x ws) = ws_touched ws"
  "ws_contracts (add_delta k x ws) = ws_contracts ws"
  "ws_states (add_delta k x ws) = ws_states ws"
  by (simp_all add: add_delta_def)

lemma touch_fields [simp]:
  "ws_batch (touch k x ws) = ws_batch ws"
  "ws_ids (touch k x ws) = ws_ids ws"
  "ws_created (touch k x ws) = ws_created ws"
  "ws_deltas (touch k x ws) = ws_deltas ws"
  "ws_contracts (touch k x ws) = ws_contracts ws"
  "ws_states (touch k x ws) = ws_states ws"
  by (simp_all add: touch_def)

lemma length_unspent_key [simp]: "length (unspent_key u) = 100"
  by (simp add: unspent_key_def)

lemma raw_of_length_Raw [simp]: "raw_of_length n (Raw bs) \<longleftrightarrow> length bs = n"
  by (simp add: raw_of_length_def)

abbreviation utxo_parts :: "part_id set" where
  "utxo_parts \<equiv> {Utxos, UtxosUnspentByOwner}"
abbreviation action_parts :: "part_id set" where
  "action_parts \<equiv> {ContractActionsV2, ContractActionsByAddr, ContractStates, Contracts}"
abbreviation event_parts :: "part_id set" where
  "event_parts \<equiv> {EventsByContract, LedgerEvents, WalletDustEvents, DustGeneration, DustGenByOwner}"
abbreviation tx_index_parts :: "part_id set" where
  "tx_index_parts \<equiv> {WalletTxIndices, TxsByHash, TxsByIdentifier}"
abbreviation tx_body_parts :: "part_id set" where
  "tx_body_parts \<equiv> utxo_parts \<union> action_parts \<union> event_parts \<union> tx_index_parts"
abbreviation tx_parts :: "part_id set" where
  "tx_parts \<equiv> insert Txs tx_body_parts"

lemma grows_created [grows_intros]:
  "grows utxo_parts (ws_batch ws) (ws_batch (write_created tx_id u ws))"
  by (simp add: write_created_def Let_def grows_intros)

lemma grows_spent:
  "write_spent st tx_id ws u = Inr ws' \<Longrightarrow> grows utxo_parts (ws_batch ws) (ws_batch ws')"
  by (auto simp: write_spent_def Let_def result_simps intro!: grows_intros)

lemma grows_state_blob:
  "grows {ContractStates} (ws_batch ws) (ws_batch (write_state_blob st h s ws))"
  by (auto simp: write_state_blob_def intro!: grows_intros split: option.splits)

lemma grows_contract_pointer:
  "write_contract_pointer st a i ws = Inr ws' \<Longrightarrow> grows {Contracts} (ws_batch ws) (ws_batch ws')"
  by (auto simp: write_contract_pointer_def Let_def result_simps intro!: grows_intros)

lemma grows_action:
  assumes "write_action st tx_id s x = Inr s'" and "contract_actions st = ContractActionsV2"
  shows "grows action_parts (ws_batch (fst s)) (ws_batch (fst s'))"
proof -
  obtain ws acts a r bs where x: "s = (ws, acts)" "x = (a, r, bs)" by (metis surj_pair)
  let ?w = "ws\<lparr>ws_ids := (ws_ids ws)\<lparr>next_action_id := next_action_id (ws_ids ws) + 1\<rparr>\<rparr>"
  let ?i = "next_action_id (ws_ids ws)"
  let ?w1 = "ws_insert ContractActionsByAddr (prefixed_u64_key a ?i) (Raw [])
       (ws_insert ContractActionsV2 (u64_to_be_bytes ?i) (VAction (r\<lparr>ar_tx_id := tx_id\<rparr>)) ?w)"
  let ?w2 = "write_state_blob st (ar_state_hash r) bs ?w1"
  have "grows action_parts (ws_batch ws) (ws_batch ?w1)"
    by (simp add: grows_intros)
  moreover have "grows action_parts (ws_batch ?w1) (ws_batch ?w2)"
    by (rule grows_mono [OF grows_state_blob]) simp
  ultimately have g: "grows action_parts (ws_batch ws) (ws_batch ?w2)" by (rule grows_trans)
  from assms x have cases: "s' = (?w2, acts @ [?i])
      \<or> (\<exists>w. write_contract_pointer st a ?i ?w2 = Inr w \<and> s' = (w, acts @ [?i]))"
    by (auto simp: Let_def result_simps split: if_splits)
  have "grows action_parts (ws_batch ?w2) (ws_batch w)"
    if "write_contract_pointer st a ?i ?w2 = Inr w" for w
    by (rule grows_mono [OF grows_contract_pointer [OF that]]) simp
  with cases g x show ?thesis by (auto intro: grows_trans)
qed

lemma grows_event:
  "grows event_parts (ws_batch ws) (ws_batch (write_event tx_id h refs ev ws))"
  by (cases "le_attributes ev"; cases "le_contract_address ev")
    (auto simp: write_event_def Let_def write_dust_generation_def dust_gen_owner_key_def
      intro!: grows_intros)

lemma grows_indexes:
  "grows tx_index_parts (ws_batch ws) (ws_batch (write_indexes tx_id applied ws))"
  unfolding write_indexes_def Let_def
  by (rule grows_trans [OF _ grows_fold [where g = ws_batch]]) (auto intro!: grows_intros)

section \<open>A transaction and a block, stage by stage\<close>

definition tx_begin :: "write_state \<Rightarrow> write_state" where
  "tx_begin ws = ws\<lparr>ws_ids := (ws_ids ws)\<lparr>next_tx_id := next_tx_id (ws_ids ws) + 1\<rparr>\<rparr>"

lemma tx_begin_fields [simp]:
  "ws_batch (tx_begin ws) = ws_batch ws"
  "ws_ids (tx_begin ws) = (ws_ids ws)\<lparr>next_tx_id := next_tx_id (ws_ids ws) + 1\<rparr>"
  "ws_created (tx_begin ws) = ws_created ws"
  "ws_deltas (tx_begin ws) = ws_deltas ws"
  "ws_touched (tx_begin ws) = ws_touched ws"
  "ws_contracts (tx_begin ws) = ws_contracts ws"
  "ws_states (tx_begin ws) = ws_states ws"
  by (simp_all add: tx_begin_def)

lemma write_tx_stages:
  assumes "write_tx st block ws (index, applied) = Inr ws'"
  obtains wc wsp wa action_ids we where
    "wc = fold (write_created (next_tx_id (ws_ids ws))) (at_created_utxos applied)
       (write_indexes (next_tx_id (ws_ids ws)) applied (tx_begin ws))"
    "try_fold (write_spent st (next_tx_id (ws_ids ws))) wc (at_spent_utxos applied) = Inr wsp"
    "try_fold (write_action st (next_tx_id (ws_ids ws))) (wsp, []) (at_contract_actions applied)
       = Inr (wa, action_ids)"
    "we = fold (write_event (next_tx_id (ws_ids ws)) (b_height block)
         (action_refs (at_contract_actions applied) action_ids)) (at_ledger_events applied) wa"
    "ws' = ws_insert Txs (u64_to_be_bytes (next_tx_id (ws_ids ws)))
       (VTx (tx_record block index applied action_ids (next_event_id (ws_ids ws))
         (next_event_id (ws_ids we)))) we"
  using assms by (auto simp: Let_def result_simps tx_begin_def [symmetric])

text \<open>The id counters of the steps.\<close>

lemma ids_created [simp]: "ws_ids (write_created t u ws) = ws_ids ws"
  by (simp add: write_created_def Let_def)

lemma ids_spent: "write_spent st t ws u = Inr ws' \<Longrightarrow> ws_ids ws' = ws_ids ws"
  by (auto simp: write_spent_def Let_def result_simps)

lemma ids_fold [simp]:
  assumes "\<And>x s. g (f x s) = g s" shows "g (fold f xs s) = g s"
  by (induction xs arbitrary: s) (simp_all add: assms)

lemma ids_indexes [simp]: "ws_ids (write_indexes t applied ws) = ws_ids ws"
  by (simp add: write_indexes_def Let_def)

lemma ids_event [simp]:
  "ws_ids (write_event t h refs ev ws) = (ws_ids ws)\<lparr>next_event_id := next_event_id (ws_ids ws) + 1\<rparr>"
  by (cases "le_attributes ev"; cases "le_contract_address ev")
    (simp_all add: write_event_def Let_def write_dust_generation_def)

lemma ids_events:
  "ws_ids (fold (write_event t h refs) evs ws) =
     (ws_ids ws)\<lparr>next_event_id := next_event_id (ws_ids ws) + word_of_nat (length evs)\<rparr>"
  by (induction evs arbitrary: ws) (simp_all add: algebra_simps)

lemma ids_action:
  assumes "write_action st t s x = Inr s'"
  shows "ws_ids (fst s') =
      (ws_ids (fst s))\<lparr>next_action_id := next_action_id (ws_ids (fst s)) + 1\<rparr>"
    and "snd s' = snd s @ [next_action_id (ws_ids (fst s))]"
  using assms
  by (cases s; cases x; auto simp: Let_def result_simps write_contract_pointer_def
      write_state_blob_def split: if_splits option.splits)+

lemma ids_actions:
  assumes "try_fold (write_action st t) s xs = Inr s'"
  shows "ws_ids (fst s') = (ws_ids (fst s))
      \<lparr>next_action_id := next_action_id (ws_ids (fst s)) + word_of_nat (length xs)\<rparr>"
    and "snd s' = snd s @ map (\<lambda>j. next_action_id (ws_ids (fst s)) + word_of_nat j) [0..<length xs]"
proof -
  have "ws_ids (fst s') = (ws_ids (fst s))
      \<lparr>next_action_id := next_action_id (ws_ids (fst s)) + word_of_nat (length xs)\<rparr>
    \<and> snd s' = snd s @ map (\<lambda>j. next_action_id (ws_ids (fst s)) + word_of_nat j) [0..<length xs]"
    using assms
  proof (induction xs arbitrary: s' rule: rev_induct)
    case (snoc x xs)
    then obtain u where u: "try_fold (write_action st t) s xs = Inr u" "write_action st t u x = Inr s'"
      by (auto simp: try_fold_append result_simps)
    from snoc.IH [OF u(1)] ids_action [OF u(2)] show ?case by (simp add: algebra_simps)
  qed simp
  then show "ws_ids (fst s') = (ws_ids (fst s))
      \<lparr>next_action_id := next_action_id (ws_ids (fst s)) + word_of_nat (length xs)\<rparr>"
    "snd s' = snd s @ map (\<lambda>j. next_action_id (ws_ids (fst s)) + word_of_nat j) [0..<length xs]"
    by simp_all
qed

lemma ids_spents: "try_fold (write_spent st t) ws us = Inr ws' \<Longrightarrow> ws_ids ws' = ws_ids ws"
  by (rule try_fold_invariant [where P = "\<lambda>u. ws_ids u = ws_ids ws"]) (auto simp: ids_spent)

lemma ids_tx:
  assumes "write_tx st block ws (index, applied) = Inr ws'"
  shows "ws_ids ws' = \<lparr>next_tx_id = next_tx_id (ws_ids ws) + 1,
    next_action_id = next_action_id (ws_ids ws) + word_of_nat (length (at_contract_actions applied)),
    next_event_id = next_event_id (ws_ids ws) + word_of_nat (length (at_ledger_events applied))\<rparr>"
proof -
  let ?t = "next_tx_id (ws_ids ws)"
  obtain wc wsp wa action_ids we where stages:
    "wc = fold (write_created ?t) (at_created_utxos applied) (write_indexes ?t applied (tx_begin ws))"
    "try_fold (write_spent st ?t) wc (at_spent_utxos applied) = Inr wsp"
    "try_fold (write_action st ?t) (wsp, []) (at_contract_actions applied) = Inr (wa, action_ids)"
    "we = fold (write_event ?t (b_height block)
         (action_refs (at_contract_actions applied) action_ids)) (at_ledger_events applied) wa"
    "ws' = ws_insert Txs (u64_to_be_bytes ?t)
       (VTx (tx_record block index applied action_ids (next_event_id (ws_ids ws))
         (next_event_id (ws_ids we)))) we"
    using write_tx_stages [OF assms] by blast
  have "ws_ids wsp = (ws_ids ws)\<lparr>next_tx_id := ?t + 1\<rparr>"
    using ids_spents [OF stages(2)] by (simp add: stages(1) ids_fold [where g = ws_ids])
  with ids_actions(1) [OF stages(3)] have "ws_ids wa = (ws_ids ws)\<lparr>next_tx_id := ?t + 1,
      next_action_id := next_action_id (ws_ids ws)
        + word_of_nat (length (at_contract_actions applied))\<rparr>"
    by simp
  then show ?thesis by (simp add: stages(4,5) ids_events)
qed

text \<open>The transaction's writes: its index entries, then UTXOs, actions and events, then its record.\<close>

lemma write_tx_grows:
  assumes "write_tx st block ws (index, applied) = Inr ws'"
    and "contract_actions st = ContractActionsV2"
  obtains we where
    "grows tx_index_parts (ws_batch ws)
       (ws_batch (write_indexes (next_tx_id (ws_ids ws)) applied (tx_begin ws)))"
    "grows (utxo_parts \<union> action_parts \<union> event_parts)
       (ws_batch (write_indexes (next_tx_id (ws_ids ws)) applied (tx_begin ws))) (ws_batch we)"
    "ws' = ws_insert Txs (u64_to_be_bytes (next_tx_id (ws_ids ws)))
       (VTx (tx_record block index applied
         (map (\<lambda>j. next_action_id (ws_ids ws) + word_of_nat j)
           [0..<length (at_contract_actions applied)])
         (next_event_id (ws_ids ws))
         (next_event_id (ws_ids ws) + word_of_nat (length (at_ledger_events applied))))) we"
proof -
  let ?t = "next_tx_id (ws_ids ws)"
  let ?wi = "write_indexes ?t applied (tx_begin ws)"
  let ?P = "utxo_parts \<union> action_parts \<union> event_parts"
  obtain wc wsp wa action_ids we where stages:
    "wc = fold (write_created ?t) (at_created_utxos applied) ?wi"
    "try_fold (write_spent st ?t) wc (at_spent_utxos applied) = Inr wsp"
    "try_fold (write_action st ?t) (wsp, []) (at_contract_actions applied) = Inr (wa, action_ids)"
    "we = fold (write_event ?t (b_height block)
         (action_refs (at_contract_actions applied) action_ids)) (at_ledger_events applied) wa"
    "ws' = ws_insert Txs (u64_to_be_bytes ?t)
       (VTx (tx_record block index applied action_ids (next_event_id (ws_ids ws))
         (next_event_id (ws_ids we)))) we"
    using write_tx_stages [OF assms(1)] by blast
  have ids: "ws_ids wsp = (ws_ids ws)\<lparr>next_tx_id := ?t + 1\<rparr>"
    using ids_spents [OF stages(2)] by (simp add: stages(1) ids_fold [where g = ws_ids])
  then have rec: "action_ids = map (\<lambda>j. next_action_id (ws_ids ws) + word_of_nat j)
      [0..<length (at_contract_actions applied)]"
    "next_event_id (ws_ids we)
      = next_event_id (ws_ids ws) + word_of_nat (length (at_ledger_events applied))"
    using ids_actions [OF stages(3)] by (simp_all add: stages(4) ids_events)
  have "grows ?P (ws_batch ?wi) (ws_batch wc)"
    unfolding stages(1) by (rule grows_mono [OF grows_fold [where P = utxo_parts]])
      (auto intro: grows_intros)
  also have "grows ?P \<dots> (ws_batch wsp)"
    by (rule grows_mono [OF grows_try_fold [OF stages(2), where P = utxo_parts]])
      (auto intro: grows_spent)
  also have "grows ?P \<dots> (ws_batch wa)"
  proof -
    have "grows action_parts (ws_batch (fst (wsp, [] :: u64 list))) (ws_batch (fst (wa, action_ids)))"
      by (rule grows_try_fold [OF stages(3), where g = "\<lambda>s. ws_batch (fst s)"])
        (use grows_action assms(2) in blast)
    then have "grows action_parts (ws_batch wsp) (ws_batch wa)" by simp
    then show ?thesis by (rule grows_mono) auto
  qed
  also have "grows ?P \<dots> (ws_batch we)"
    unfolding stages(4) by (rule grows_mono [OF grows_fold [where P = event_parts]])
      (auto intro: grows_event)
  finally have "grows ?P (ws_batch ?wi) (ws_batch we)" .
  with stages(5) show ?thesis
    using that grows_indexes [of "tx_begin ws" ?t applied] by (simp add: rec)
qed

lemma grows_tx:
  assumes "write_tx st block ws x = Inr ws'" and "contract_actions st = ContractActionsV2"
  shows "grows tx_parts (ws_batch ws) (ws_batch ws')"
proof -
  obtain index applied where x: "x = (index, applied)" by (cases x)
  let ?wi = "write_indexes (next_tx_id (ws_ids ws)) applied (tx_begin ws)"
  obtain we r where g: "grows tx_index_parts (ws_batch ws) (ws_batch ?wi)"
    "grows (utxo_parts \<union> action_parts \<union> event_parts) (ws_batch ?wi) (ws_batch we)"
    "ws' = ws_insert Txs (u64_to_be_bytes (next_tx_id (ws_ids ws))) (VTx r) we"
    using write_tx_grows [OF assms(1) [unfolded x] assms(2)] by metis
  have "grows tx_parts (ws_batch ws) (ws_batch we)"
    by (rule grows_trans [OF grows_mono [OF g(1)] grows_mono [OF g(2)]]) auto
  then show ?thesis by (simp add: g(3) grows_intros)
qed

lemma grows_txs:
  assumes "try_fold (write_tx st block) ws xs = Inr ws'"
    and "contract_actions st = ContractActionsV2"
  shows "grows tx_parts (ws_batch ws) (ws_batch ws')"
  by (rule grows_try_fold [OF assms(1)]) (use grows_tx assms(2) in auto)

lemma grows_balance:
  assumes "write_balance st b x = Inr b'" shows "grows {Balances} b b'"
proof -
  obtain o1 t d where "x = ((o1, t), d)" by (metis surj_pair)
  with assms show ?thesis by (auto simp: result_simps Let_def intro!: grows_intros)
qed

lemma grows_addr_txs: "grows {AddrTxs} b (write_addr_txs e b)"
  unfolding write_addr_txs_def
  by (rule grows_fold [where g = "\<lambda>b. b"]) (auto intro!: grows_intros)

lemma grows_registration:
  "apply_registration_event st h b ev = Inr b' \<Longrightarrow> grows {CnightRegistrations} b b'"
  by (auto simp: apply_registration_event_def registration_key_def Let_def result_simps
      intro!: grows_intros)

lemma grows_meta: "grows {Meta} b (write_meta block ids w b)"
  by (auto simp: write_meta_def Let_def meta_u64_keys_def intro!: grows_intros)

definition block_tail ::
    "Block \<Rightarrow> u64 \<Rightarrow> nat \<Rightarrow> bytes \<Rightarrow> Counters \<Rightarrow> LedgerStateWindow \<Rightarrow>
       (part_id, store_value) batch \<Rightarrow> (part_id, store_value) batch" where
  "block_tail block first_tx_id n root ids next_window batch =
     write_meta block ids next_window
       (batch_insert BlocksByHash (hash_bytes (b_hash block)) (Raw (u64_to_be_bytes (b_height block)))
         (batch_insert Blocks (u64_to_be_bytes (b_height block))
           (VBlock (block_record block first_tx_id n root)) batch))"

lemma grows_tail: "grows {Meta, Blocks, BlocksByHash} b (block_tail block t n root ids w b)"
  unfolding block_tail_def
  by (rule grows_trans [OF _ grows_mono [OF grows_meta]]) (auto intro!: grows_intros)

lemma write_block_stages:
  assumes "write_block L st block txs key window ids = Inr (st', ids')"
  obtains ws b1 b2 root where
    "try_fold (write_tx st block) (init_write_state ids) (enumerate 0 txs) = Inr ws"
    "try_fold (write_balance st) (ws_batch ws) (ws_deltas ws) = Inr b1"
    "try_fold (apply_registration_event st (b_height block)) (fold write_addr_txs (ws_touched ws) b1)
       (b_dust_registration_events block) = Inr b2"
    "lo_serialize_root L (b_zswap_merkle_tree_root block) = Inr root"
    "st' = commit st (block_tail block (next_tx_id ids) (length txs) root (ws_ids ws)
       (push_window window (key, stored_from (ledger_version (b_protocol_version block)))) b2)"
    "ids' = ws_ids ws"
  using assms by (auto simp: write_block_def Let_def result_simps block_tail_def)

text \<open>Everything before the tail, and what it leaves alone.\<close>

lemma write_block_grows:
  assumes "try_fold (write_tx st block) (init_write_state ids) xs = Inr ws"
    and "try_fold (write_balance st) (ws_batch ws) ds = Inr b1"
    and "try_fold (apply_registration_event st h) (fold write_addr_txs tt b1) evs = Inr b2"
    and "contract_actions st = ContractActionsV2"
  shows "grows tx_parts [] (ws_batch ws)"
    and "grows {Balances} (ws_batch ws) b1"
    and "grows {AddrTxs} b1 (fold write_addr_txs tt b1)"
    and "grows {CnightRegistrations} (fold write_addr_txs tt b1) b2"
    and "grows (insert Balances (insert AddrTxs {CnightRegistrations})) (ws_batch ws) b2"
proof -
  show tx: "grows tx_parts [] (ws_batch ws)"
    using grows_txs [OF assms(1,4)] by (simp add: init_write_state_def)
  show bal: "grows {Balances} (ws_batch ws) b1"
    by (rule grows_try_fold [OF assms(2), where g = "\<lambda>b. b"]) (rule grows_balance)
  show addr: "grows {AddrTxs} b1 (fold write_addr_txs tt b1)"
    by (rule grows_fold [where g = "\<lambda>b. b"]) (rule grows_addr_txs)
  show reg: "grows {CnightRegistrations} (fold write_addr_txs tt b1) b2"
    by (rule grows_try_fold [OF assms(3), where g = "\<lambda>b. b"]) (rule grows_registration)
  show "grows (insert Balances (insert AddrTxs {CnightRegistrations})) (ws_batch ws) b2"
    by (rule grows_trans [OF grows_mono [OF bal] grows_trans [OF grows_mono [OF addr] grows_mono [OF reg]]])
      auto
qed

section \<open>The id counters of a block\<close>

definition count_actions :: "AppliedTransaction list \<Rightarrow> nat" where
  "count_actions txs = sum_list (map (\<lambda>a. length (at_contract_actions a)) txs)"

definition count_events :: "AppliedTransaction list \<Rightarrow> nat" where
  "count_events txs = sum_list (map (\<lambda>a. length (at_ledger_events a)) txs)"

definition ids_after :: "Counters \<Rightarrow> AppliedTransaction list \<Rightarrow> Counters" where
  "ids_after ids txs =
     \<lparr>next_tx_id = next_tx_id ids + word_of_nat (length txs),
      next_action_id = next_action_id ids + word_of_nat (count_actions txs),
      next_event_id = next_event_id ids + word_of_nat (count_events txs)\<rparr>"

lemma ids_txs:
  assumes "try_fold (write_tx st block) ws (enumerate n txs) = Inr ws'"
  shows "ws_ids ws' = ids_after (ws_ids ws) txs"
  using assms
proof (induction txs arbitrary: ws n)
  case Nil
  then show ?case by (simp add: ids_after_def count_actions_def count_events_def)
next
  case (Cons a txs)
  then obtain w where w: "write_tx st block ws (n, a) = Inr w"
    "try_fold (write_tx st block) w (enumerate (Suc n) txs) = Inr ws'"
    by (auto simp: result_simps simp del: write_tx.simps)
  from Cons.IH [OF w(2)] show ?case
    by (simp add: ids_tx [OF w(1)] ids_after_def count_actions_def count_events_def algebra_simps)
qed

end
