(* ===== verification/BlockFacts.thy ===== *)
theory BlockFacts
  imports WriteFacts
begin

text \<open>
  The store after a block: it stays well typed; the block, its hash index, the meta keys and the
  retention window are what the block says, so that a restart resumes from them; and every
  transaction of the block is stored under the next id, findable by its hash and identifiers.
\<close>

section \<open>The typing of the store\<close>

lemma write_block_batch:
  assumes "write_block L st block txs key window ids = Inr (st', ids')"
    and "contract_actions st = ContractActionsV2"
  obtains b where "st' = commit st b" "grows UNIV [] b"
proof -
  obtain ws b1 b2 root where s:
    "try_fold (write_tx st block) (init_write_state ids) (enumerate 0 txs) = Inr ws"
    "try_fold (write_balance st) (ws_batch ws) (ws_deltas ws) = Inr b1"
    "try_fold (apply_registration_event st (b_height block)) (fold write_addr_txs (ws_touched ws) b1)
       (b_dust_registration_events block) = Inr b2"
    "lo_serialize_root L (b_zswap_merkle_tree_root block) = Inr root"
    "st' = commit st (block_tail block (next_tx_id ids) (length txs) root (ws_ids ws)
       (push_window window (key, stored_from (ledger_version (b_protocol_version block)))) b2)"
    "ids' = ws_ids ws"
    using write_block_stages [OF assms(1)] by blast
  note g = write_block_grows [OF s(1-3) assms(2)]
  have "grows UNIV [] (block_tail block (next_tx_id ids) (length txs) root (ws_ids ws)
      (push_window window (key, stored_from (ledger_version (b_protocol_version block)))) b2)"
    by (rule grows_trans [OF grows_mono [OF g(1)] grows_trans [OF grows_mono [OF g(5)]
          grows_mono [OF grows_tail]]]) auto
  with s(5) that show ?thesis by blast
qed

lemma block_typed:
  assumes "store_ok st" and "schema st = SCHEMA_CURRENT"
    and "write_block L st block txs key window ids = Inr (st', ids')"
  shows "store_ok st' \<and> schema st' = SCHEMA_CURRENT"
proof -
  have "contract_actions st = ContractActionsV2"
    using assms(1,2) by (simp add: store_ok_def SCHEMA_CURRENT_def)
  then obtain b where "st' = commit st b" "grows UNIV [] b"
    using write_block_batch [OF assms(3)] by blast
  with assms(1,2) show ?thesis using store_ok_grows [of st "[]" UNIV b] by simp
qed

text \<open>
  C14. Indexing a block keeps the store well typed: if the store is at the current schema and every
  partition holds only keys and records of its own kind, the same is true after \<open>write_block\<close>,
  whatever the block contains, so no later look-up panics.
\<close>

theorem write_block_typed:
  assumes "store_ok st" and "schema st = SCHEMA_CURRENT"
    and "write_block L st block txs key window ids = Inr (st', ids')"
  shows "store_ok st' \<and> schema st' = SCHEMA_CURRENT"
  using assms by (rule block_typed)

section \<open>The block record and the meta keys\<close>

lemma meta_u64_commit:
  "store_get st Meta k = Some (Raw (u64_to_be_bytes x)) \<Longrightarrow> meta_u64 st k = Inr (Some x)"
  by (simp add: meta_u64_def)

lemma tail_view:
  "store_get (commit st (block_tail block t n root ids w b)) Meta k =
    (if k = GENESIS_HASH \<and> b_height block = 0 then Some (Raw (hash_bytes (b_hash block)))
     else if k = LAST_HEIGHT then Some (Raw (u64_to_be_bytes (b_height block)))
     else if k = TIP_TIMESTAMP then Some (Raw (u64_to_be_bytes (b_timestamp block)))
     else if k = NEXT_TX_ID \<or> k = WALLET_TX_INDEXED_THROUGH
       then Some (Raw (u64_to_be_bytes (next_tx_id ids)))
     else if k = NEXT_ACTION_ID then Some (Raw (u64_to_be_bytes (next_action_id ids)))
     else if k = NEXT_EVENT_ID \<or> k = WALLET_DUST_INDEXED_THROUGH
       then Some (Raw (u64_to_be_bytes (next_event_id ids)))
     else if k = LEDGER_STATE_WINDOW then Some (VWindow w)
     else store_get (commit st b) Meta k)"
  "store_get (commit st (block_tail block t n root ids w b)) Blocks k =
    (if k = u64_to_be_bytes (b_height block) then Some (VBlock (block_record block t n root))
     else store_get (commit st b) Blocks k)"
  "store_get (commit st (block_tail block t n root ids w b)) BlocksByHash k =
    (if k = hash_bytes (b_hash block) then Some (Raw (u64_to_be_bytes (b_height block)))
     else store_get (commit st b) BlocksByHash k)"
  by (auto simp: block_tail_def write_meta_def Let_def store_simps)

lemma block_tail_other:
  "p \<notin> {Meta, Blocks, BlocksByHash} \<Longrightarrow>
    store_get (commit st (block_tail block t n root ids w b)) p k = store_get (commit st b) p k"
  by (rule grows_view [OF grows_tail])

lemma length_push_window: "length (push_window w e) = min (Suc (length w)) LEDGER_STATE_RETENTION"
  by (simp add: push_window_def Let_def)

lemma push_window_last: "push_window w e \<noteq> [] \<and> last (push_window w e) = e"
  using length_push_window [of w e]
  by (auto simp: push_window_def Let_def LEDGER_STATE_RETENTION_def last_drop)

lemma block_resumes:
  assumes "write_block L st block txs key window ids = Inr (st', ids')"
    and "contract_actions st = ContractActionsV2"
  shows "(\<exists>r. store_block st' (b_height block) = Inr (Some r) \<and> bk_hash r = b_hash block
      \<and> bk_parent_hash r = b_parent_hash block \<and> bk_timestamp r = b_timestamp block
      \<and> bk_first_tx_id r = next_tx_id ids \<and> bk_tx_count r = word_of_nat (length txs)
      \<and> bk_ledger_state_root r = b_ledger_state_root block)
    \<and> block_height_by_hash st' (hash_bytes (b_hash block)) = Inr (Some (b_height block))
    \<and> (\<forall>h. h \<noteq> b_height block \<longrightarrow> store_block st' h = store_block st h)
    \<and> last_indexed_height st' = Inr (Some (b_height block))
    \<and> tip_timestamp st' = Inr (Some (b_timestamp block))
    \<and> counters_load st' = Inr ids' \<and> ids' = ids_after ids txs
    \<and> (\<exists>w. ledger_state_window st' = Inr w \<and> length w \<le> 32
        \<and> last w = (key, stored_from (ledger_version (b_protocol_version block)))
        \<and> w = drop (Suc (length window) - 32) (window @ [last w]))"
proof -
  obtain ws b1 b2 root where s:
    "try_fold (write_tx st block) (init_write_state ids) (enumerate 0 txs) = Inr ws"
    "try_fold (write_balance st) (ws_batch ws) (ws_deltas ws) = Inr b1"
    "try_fold (apply_registration_event st (b_height block)) (fold write_addr_txs (ws_touched ws) b1)
       (b_dust_registration_events block) = Inr b2"
    "lo_serialize_root L (b_zswap_merkle_tree_root block) = Inr root"
    "st' = commit st (block_tail block (next_tx_id ids) (length txs) root (ws_ids ws)
       (push_window window (key, stored_from (ledger_version (b_protocol_version block)))) b2)"
    "ids' = ws_ids ws"
    using write_block_stages [OF assms(1)] by blast
  note g = write_block_grows [OF s(1-3) assms(2)]
  let ?e = "(key, stored_from (ledger_version (b_protocol_version block)))"
  have "store_get (commit st b2) Blocks k = store_get st Blocks k" for k
    using grows_view [OF g(5), of Blocks st k] grows_view [OF g(1), of Blocks st k] by simp
  then have blocks: "store_block st' h = store_block st h" if "h \<noteq> b_height block" for h
    using that by (simp add: s(5) store_block_def get_decoded_def tail_view)
  have ids: "ws_ids ws = ids_after ids txs"
    using ids_txs [OF s(1)] by (simp add: init_write_state_def)
  have "ledger_state_window st' = Inr (push_window window ?e)"
    by (simp add: s(5) ledger_state_window_def get_decoded_def tail_view store_decode_def)
  moreover have "push_window window ?e = drop (Suc (length window) - 32) (window @ [?e])"
    by (simp add: push_window_def LEDGER_STATE_RETENTION_def)
  ultimately have "\<exists>w. ledger_state_window st' = Inr w \<and> length w \<le> 32 \<and> last w = ?e
      \<and> w = drop (Suc (length window) - 32) (window @ [last w])"
    using length_push_window [of window ?e] push_window_last [of window ?e]
    by (simp add: LEDGER_STATE_RETENTION_def)
  then show ?thesis
    using blocks ids
    by (simp add: s(5,6) store_block_def block_height_by_hash_def get_decoded_def tail_view
        store_decode_def block_record_def last_indexed_height_def tip_timestamp_def meta_u64_commit
        counters_load_def next_id_def)
qed

text \<open>
  C12. What a block leaves behind for the next one and for a restart. After \<open>write_block\<close> the
  block is found by height and by hash with the fields of the node's block, every other block is
  untouched, and the meta keys read back as the height, the timestamp and the counters returned, so
  that \<open>counters_load\<close> resumes exactly where the block ended. The stored retention window is
  the old one with the new ledger-state key appended, its oldest entries dropped beyond 32.
\<close>

theorem write_block_resumes:
  assumes "write_block L st block txs key window ids = Inr (st', ids')"
    and "contract_actions st = ContractActionsV2"
  shows "(\<exists>r. store_block st' (b_height block) = Inr (Some r) \<and> bk_hash r = b_hash block
      \<and> bk_parent_hash r = b_parent_hash block \<and> bk_timestamp r = b_timestamp block
      \<and> bk_first_tx_id r = next_tx_id ids \<and> bk_tx_count r = word_of_nat (length txs)
      \<and> bk_ledger_state_root r = b_ledger_state_root block)
    \<and> block_height_by_hash st' (hash_bytes (b_hash block)) = Inr (Some (b_height block))
    \<and> (\<forall>h. h \<noteq> b_height block \<longrightarrow> store_block st' h = store_block st h)
    \<and> last_indexed_height st' = Inr (Some (b_height block))
    \<and> tip_timestamp st' = Inr (Some (b_timestamp block))
    \<and> counters_load st' = Inr ids' \<and> ids' = ids_after ids txs
    \<and> (\<exists>w. ledger_state_window st' = Inr w \<and> length w \<le> 32
        \<and> last w = (key, stored_from (ledger_version (b_protocol_version block)))
        \<and> w = drop (Suc (length window) - 32) (window @ [last w]))"
  using assms by (rule block_resumes)

section \<open>The transactions of a block\<close>

definition action_ids_from :: "u64 \<Rightarrow> AppliedTransaction \<Rightarrow> u64 list" where
  "action_ids_from next applied =
     map (\<lambda>j. next + word_of_nat j) [0..<length (at_contract_actions applied)]"

definition stored_tx ::
    "Block \<Rightarrow> nat \<Rightarrow> AppliedTransaction \<Rightarrow> Counters \<Rightarrow> TxRecord" where
  "stored_tx block index applied ids =
     tx_record block index applied (action_ids_from (next_action_id ids) applied) (next_event_id ids)
       (next_event_id ids + word_of_nat (length (at_ledger_events applied)))"

lemma indexes_present:
  "store_get (commit st (ws_batch (write_indexes t applied ws))) TxsByHash
     (prefixed_u64_key (hash_bytes (at_hash applied)) t) \<noteq> None"
  "identifier \<in> set (at_identifiers applied) \<Longrightarrow>
   store_get (commit st (ws_batch (write_indexes t applied ws))) TxsByIdentifier
     (prefixed_u64_key identifier t) \<noteq> None"
proof -
  let ?f = "\<lambda>i. ws_insert TxsByIdentifier (prefixed_u64_key i t) (Raw [])"
  have g: "grows {TxsByIdentifier} (ws_batch w) (ws_batch (fold ?f idl w))" for w idl
    by (rule grows_fold [where g = ws_batch]) (auto intro!: grows_intros)
  show "store_get (commit st (ws_batch (write_indexes t applied ws))) TxsByHash
     (prefixed_u64_key (hash_bytes (at_hash applied)) t) \<noteq> None"
    unfolding write_indexes_def Let_def by (rule grows_keeps [OF g]) (simp_all add: store_simps)
  show "store_get (commit st (ws_batch (write_indexes t applied ws))) TxsByIdentifier
     (prefixed_u64_key identifier t) \<noteq> None" if "identifier \<in> set (at_identifiers applied)"
  proof -
    from that obtain xs ys where split: "at_identifiers applied = xs @ identifier # ys"
      by (meson split_list)
    show ?thesis
      unfolding write_indexes_def Let_def split fold_append fold.simps comp_def
      by (rule grows_keeps [OF g]) (simp_all add: store_simps)
  qed
qed

lemma write_tx_view:
  assumes "write_tx st block ws (index, applied) = Inr ws'"
    and "contract_actions st = ContractActionsV2"
  shows "store_get (commit st (ws_batch ws')) Txs k =
      (if k = u64_to_be_bytes (next_tx_id (ws_ids ws))
       then Some (VTx (stored_tx block index applied (ws_ids ws)))
       else store_get (commit st (ws_batch ws)) Txs k)"
    and "store_get (commit st (ws_batch ws')) TxsByHash
      (prefixed_u64_key (hash_bytes (at_hash applied)) (next_tx_id (ws_ids ws))) \<noteq> None"
    and "identifier \<in> set (at_identifiers applied) \<Longrightarrow>
      store_get (commit st (ws_batch ws')) TxsByIdentifier
        (prefixed_u64_key identifier (next_tx_id (ws_ids ws))) \<noteq> None"
proof -
  let ?t = "next_tx_id (ws_ids ws)"
  let ?wi = "write_indexes ?t applied (tx_begin ws)"
  obtain we where g: "grows tx_index_parts (ws_batch ws) (ws_batch ?wi)"
    "grows (utxo_parts \<union> action_parts \<union> event_parts) (ws_batch ?wi) (ws_batch we)"
    and ws': "ws' = ws_insert Txs (u64_to_be_bytes ?t) (VTx (stored_tx block index applied (ws_ids ws))) we"
    using write_tx_grows [OF assms] unfolding stored_tx_def action_ids_from_def by blast
  have "store_get (commit st (ws_batch we)) Txs k = store_get (commit st (ws_batch ws)) Txs k"
    using grows_view [OF g(1), of Txs] grows_view [OF g(2), of Txs] by simp
  then show "store_get (commit st (ws_batch ws')) Txs k =
      (if k = u64_to_be_bytes ?t then Some (VTx (stored_tx block index applied (ws_ids ws)))
       else store_get (commit st (ws_batch ws)) Txs k)"
    by (simp add: ws' store_simps)
  show "store_get (commit st (ws_batch ws')) TxsByHash
      (prefixed_u64_key (hash_bytes (at_hash applied)) ?t) \<noteq> None"
    using grows_keeps [OF g(2) _ indexes_present(1)] by (simp add: ws' store_simps)
  show "store_get (commit st (ws_batch ws')) TxsByIdentifier (prefixed_u64_key identifier ?t) \<noteq> None"
    if "identifier \<in> set (at_identifiers applied)"
    using grows_keeps [OF g(2) _ indexes_present(2) [OF that]] by (simp add: ws' store_simps)
qed

lemma word_of_nat_add_inject:
  fixes x :: "'a::len word"
  assumes "i < 2 ^ LENGTH('a)" and "j < 2 ^ LENGTH('a)"
  shows "x + word_of_nat i = x + word_of_nat j \<longleftrightarrow> i = j"
proof -
  have "word_of_nat i = (word_of_nat j :: 'a word) \<longleftrightarrow> i = j"
    using assms by (simp add: word_of_nat_eq_iff take_bit_nat_eq_self)
  then show ?thesis by simp
qed

lemma txs_view:
  assumes "try_fold (write_tx st block) ws (enumerate 0 txs) = Inr ws'"
    and "contract_actions st = ContractActionsV2" and "length txs < 2 ^ 64" and "i < length txs"
  defines "tid \<equiv> next_tx_id (ws_ids ws) + word_of_nat i"
  shows "store_get (commit st (ws_batch ws')) Txs (u64_to_be_bytes tid)
      = Some (VTx (stored_tx block i (txs ! i) (ids_after (ws_ids ws) (take i txs))))
    \<and> store_get (commit st (ws_batch ws')) TxsByHash
      (prefixed_u64_key (hash_bytes (at_hash (txs ! i))) tid) \<noteq> None
    \<and> (\<forall>identifier \<in> set (at_identifiers (txs ! i)).
      store_get (commit st (ws_batch ws')) TxsByIdentifier (prefixed_u64_key identifier tid) \<noteq> None)"
  using assms(1,3,4) unfolding tid_def
proof (induction txs arbitrary: ws' rule: rev_induct)
  case (snoc a txs)
  then obtain w where w: "try_fold (write_tx st block) ws (enumerate 0 txs) = Inr w"
    "write_tx st block w (length txs, a) = Inr ws'"
    by (auto simp: enumerate_append_eq try_fold_append result_simps simp del: write_tx.simps)
  have ids: "ws_ids w = ids_after (ws_ids ws) txs" by (rule ids_txs [OF w(1)])
  then have t: "next_tx_id (ws_ids w) = next_tx_id (ws_ids ws) + word_of_nat (length txs)"
    by (simp add: ids_after_def)
  show ?case
  proof (cases "i = length txs")
    case True
    then show ?thesis
      using write_tx_view [OF w(2) assms(2)] by (simp add: ids_after_def ids)
  next
    case False
    with snoc.prems(3) have i: "i < length txs" by simp
    have ne: "u64_to_be_bytes (next_tx_id (ws_ids ws) + word_of_nat i)
        \<noteq> u64_to_be_bytes (next_tx_id (ws_ids ws) + word_of_nat (length txs))"
      using i snoc.prems(2)
      by (simp add: u64c.enc_inject word_of_nat_add_inject del: add_left_cancel)
    have g: "grows tx_parts (ws_batch w) (ws_batch ws')"
      by (rule grows_tx [OF w(2) assms(2)])
    have IH: "store_get (commit st (ws_batch w)) Txs (u64_to_be_bytes (next_tx_id (ws_ids ws) + word_of_nat i))
      = Some (VTx (stored_tx block i (txs ! i) (ids_after (ws_ids ws) (take i txs))))
      \<and> store_get (commit st (ws_batch w)) TxsByHash
          (prefixed_u64_key (hash_bytes (at_hash (txs ! i))) (next_tx_id (ws_ids ws) + word_of_nat i)) \<noteq> None
      \<and> (\<forall>identifier \<in> set (at_identifiers (txs ! i)). store_get (commit st (ws_batch w)) TxsByIdentifier
          (prefixed_u64_key identifier (next_tx_id (ws_ids ws) + word_of_nat i)) \<noteq> None)"
      using snoc.IH [OF w(1)] snoc.prems(2) i by simp
    have "store_get (commit st (ws_batch ws')) Txs (u64_to_be_bytes (next_tx_id (ws_ids ws) + word_of_nat i))
        = Some (VTx (stored_tx block i (txs ! i) (ids_after (ws_ids ws) (take i txs))))"
      using write_tx_view(1) [OF w(2) assms(2)] IH ne by (simp add: t)
    moreover have "store_get (commit st (ws_batch ws')) TxsByHash
        (prefixed_u64_key (hash_bytes (at_hash (txs ! i))) (next_tx_id (ws_ids ws) + word_of_nat i)) \<noteq> None"
      by (rule grows_keeps [OF g]) (use IH in simp_all)
    moreover have "store_get (commit st (ws_batch ws')) TxsByIdentifier
        (prefixed_u64_key idt (next_tx_id (ws_ids ws) + word_of_nat i)) \<noteq> None"
      if "idt \<in> set (at_identifiers (txs ! i))" for idt
      by (rule grows_keeps [OF g]) (use IH that in simp_all)
    ultimately show ?thesis using i by (simp add: nth_append)
  qed
qed simp

lemma block_transactions:
  assumes "write_block L st block txs key window ids = Inr (st', ids')"
    and "contract_actions st = ContractActionsV2" and "length txs < 2 ^ 64" and "i < length txs"
  defines "tid \<equiv> next_tx_id ids + word_of_nat i"
  shows "(\<exists>r. store_tx st' tid = Inr (Some r) \<and> tx_hash r = at_hash (txs ! i)
      \<and> tx_block_height r = b_height block \<and> tx_index_in_block r = word_of_nat i
      \<and> tx_result r = at_result (txs ! i) \<and> tx_paid_fees r = at_fees (txs ! i)
      \<and> tx_identifiers r = at_identifiers (txs ! i) \<and> tx_raw r = at_raw (txs ! i)
      \<and> tx_created_utxos r = at_created_utxos (txs ! i) \<and> tx_spent_utxos r = at_spent_utxos (txs ! i)
      \<and> tx_contract_action_ids r
          = action_ids_from (next_action_id ids + word_of_nat (count_actions (take i txs))) (txs ! i)
      \<and> tx_first_event_id r = next_event_id ids + word_of_nat (count_events (take i txs))
      \<and> tx_event_count r = word_of_nat (length (at_ledger_events (txs ! i))))
    \<and> store_get st' TxsByHash (prefixed_u64_key (hash_bytes (at_hash (txs ! i))) tid) \<noteq> None
    \<and> (\<forall>identifier \<in> set (at_identifiers (txs ! i)).
        store_get st' TxsByIdentifier (prefixed_u64_key identifier tid) \<noteq> None)"
proof -
  obtain ws b1 b2 root where s:
    "try_fold (write_tx st block) (init_write_state ids) (enumerate 0 txs) = Inr ws"
    "try_fold (write_balance st) (ws_batch ws) (ws_deltas ws) = Inr b1"
    "try_fold (apply_registration_event st (b_height block)) (fold write_addr_txs (ws_touched ws) b1)
       (b_dust_registration_events block) = Inr b2"
    "lo_serialize_root L (b_zswap_merkle_tree_root block) = Inr root"
    "st' = commit st (block_tail block (next_tx_id ids) (length txs) root (ws_ids ws)
       (push_window window (key, stored_from (ledger_version (b_protocol_version block)))) b2)"
    "ids' = ws_ids ws"
    using write_block_stages [OF assms(1)] by blast
  note g = write_block_grows [OF s(1-3) assms(2)]
  have same: "store_get st' p k = store_get (commit st (ws_batch ws)) p k"
    if "p \<in> {Txs, TxsByHash, TxsByIdentifier}" for p k
    using that grows_view [OF g(5), of p st k] block_tail_other [of p] s(5) by auto
  have ids0: "ws_ids (init_write_state ids) = ids" by (simp add: init_write_state_def)
  have "word_of_nat (length (at_ledger_events (txs ! i))) = (ucast
      (word_of_nat (length (at_ledger_events (txs ! i))) :: u64) :: u32)"
    by (simp add: bit_eq_iff bit_simps)
  then show ?thesis
    using txs_view [OF s(1) assms(2-4)] unfolding tid_def ids0
    by (simp add: same store_tx_def get_decoded_def store_decode_def stored_tx_def tx_record_def
        ids_after_def algebra_simps)
qed

text \<open>
  C13. Every transaction of a block can be found again. The \<open>i\<close>-th transaction is stored
  under the \<open>i\<close>-th id after the counter the block started with; its record carries the hash,
  result, fees, identifiers, UTXOs and raw bytes of the applied transaction, its position in the
  block, consecutive action ids and the range of its event ids, which starts where the previous
  transaction's range ended; and the hash and identifier indexes lead to it.
\<close>

theorem write_block_transactions:
  assumes "write_block L st block txs key window ids = Inr (st', ids')"
    and "contract_actions st = ContractActionsV2" and "length txs < 2 ^ 64" and "i < length txs"
  defines "tid \<equiv> next_tx_id ids + word_of_nat i"
  shows "(\<exists>r. store_tx st' tid = Inr (Some r) \<and> tx_hash r = at_hash (txs ! i)
      \<and> tx_block_height r = b_height block \<and> tx_index_in_block r = word_of_nat i
      \<and> tx_result r = at_result (txs ! i) \<and> tx_paid_fees r = at_fees (txs ! i)
      \<and> tx_identifiers r = at_identifiers (txs ! i) \<and> tx_raw r = at_raw (txs ! i)
      \<and> tx_created_utxos r = at_created_utxos (txs ! i) \<and> tx_spent_utxos r = at_spent_utxos (txs ! i)
      \<and> tx_contract_action_ids r
          = action_ids_from (next_action_id ids + word_of_nat (count_actions (take i txs))) (txs ! i)
      \<and> tx_first_event_id r = next_event_id ids + word_of_nat (count_events (take i txs))
      \<and> tx_event_count r = word_of_nat (length (at_ledger_events (txs ! i))))
    \<and> store_get st' TxsByHash (prefixed_u64_key (hash_bytes (at_hash (txs ! i))) tid) \<noteq> None
    \<and> (\<forall>identifier \<in> set (at_identifiers (txs ! i)).
        store_get st' TxsByIdentifier (prefixed_u64_key identifier tid) \<noteq> None)"
  unfolding tid_def using assms(1-4) by (rule block_transactions)

end
