(* ===== verification/UtxoFacts.thy ===== *)
theory UtxoFacts
  imports BlockFacts
begin

text \<open>
  The UTXO bookkeeping of \<open>write_block\<close> refines an abstract ledger. The abstract state is
  the set of unspent outputs, a map from the key of an output to its owner, token type and value;
  creating an output needs its key to be absent, spending one needs it to be present with the same
  owner, token and value. The store represents the set three times: as the UTXO records without a
  spending transaction, as the per-owner unspent index, and, summed up, as the balances.
\<close>

section \<open>The abstract ledger\<close>

type_synonym utxo_core = "hash32 \<times> hash32 \<times> u128"
type_synonym utxo_set = "bytes \<rightharpoonup> utxo_core"

definition core :: "UnshieldedUtxo \<Rightarrow> utxo_core" where
  "core u = (uu_owner u, uu_token_type u, uu_value u)"

definition abs_create :: "utxo_set \<Rightarrow> UnshieldedUtxo \<Rightarrow> UnshieldedUtxo + utxo_set" where
  "abs_create S u = (if S (key_of_utxo u) = None then Inr (S(key_of_utxo u \<mapsto> core u)) else Inl u)"

definition abs_spend :: "utxo_set \<Rightarrow> UnshieldedUtxo \<Rightarrow> UnshieldedUtxo + utxo_set" where
  "abs_spend S u =
     (if S (key_of_utxo u) = Some (core u) then Inr (S(key_of_utxo u := None)) else Inl u)"

definition abs_tx :: "utxo_set \<Rightarrow> AppliedTransaction \<Rightarrow> UnshieldedUtxo + utxo_set" where
  "abs_tx S a = and_then (try_fold abs_create S (at_created_utxos a))
     (\<lambda>S. try_fold abs_spend S (at_spent_utxos a))"

definition worth :: "hash32 \<Rightarrow> hash32 \<Rightarrow> utxo_core option \<Rightarrow> u128" where
  "worth owner token c =
     (case c of Some (o1, t, x) \<Rightarrow> if o1 = owner \<and> t = token then x else 0 | None \<Rightarrow> 0)"

definition total :: "utxo_set \<Rightarrow> hash32 \<Rightarrow> hash32 \<Rightarrow> u128" where
  "total S owner token = (\<Sum>k \<in> dom S. worth owner token (S k))"

lemma total_create:
  assumes "finite (dom S)" and "S k = None"
  shows "total (S(k \<mapsto> c)) owner token = total S owner token + worth owner token (Some c)"
proof -
  have "(\<Sum>j \<in> dom S. worth owner token ((S(k \<mapsto> c)) j)) = total S owner token"
    unfolding total_def by (rule sum.cong) (use assms(2) in auto)
  then show ?thesis
    using assms by (simp add: total_def domIff algebra_simps)
qed

lemma total_spend:
  assumes "finite (dom S)" and "S k = Some c"
  shows "total (S(k := None)) owner token = total S owner token - worth owner token (Some c)"
proof -
  have "total ((S(k := None))(k \<mapsto> c)) owner token
      = total (S(k := None)) owner token + worth owner token (Some c)"
    by (rule total_create) (use assms(1) in auto)
  moreover have "(S(k := None))(k \<mapsto> c) = S" using assms(2) by auto
  ultimately show ?thesis by simp
qed

section \<open>The three representations in the store\<close>

fun live_core :: "store_value option \<Rightarrow> utxo_core option" where
  "live_core (Some (VUtxo r)) = (if ur_spending_tx_id r = None then Some (core (ur_utxo r)) else None)"
| "live_core _ = None"

definition unspent_set :: "Store \<Rightarrow> utxo_set" where
  "unspent_set st = (\<lambda>k. live_core (store_get st Utxos k))"

definition owner_key :: "hash32 \<Rightarrow> hash32 \<Rightarrow> bytes \<Rightarrow> bytes" where
  "owner_key owner token key = hash_bytes owner @ hash_bytes token @ key"

definition utxo_records_ok :: "Store \<Rightarrow> bool" where
  "utxo_records_ok st = (\<forall>k v. store_get st Utxos k = Some v \<longrightarrow>
     (\<exists>r. v = VUtxo r \<and> key_of_utxo (ur_utxo r) = k))"

definition unspent_index_ok :: "Store \<Rightarrow> bool" where
  "unspent_index_ok st = (\<forall>uk v. store_get st UtxosUnspentByOwner uk = Some v \<longleftrightarrow>
     (\<exists>key owner token x. unspent_set st key = Some (owner, token, x)
        \<and> uk = owner_key owner token key \<and> v = Raw key))"

definition stored_balance :: "Store \<Rightarrow> hash32 \<Rightarrow> hash32 \<Rightarrow> u128" where
  "stored_balance st owner token =
     (case store_get st Balances (balance_key owner token) of
        Some (Raw bs) \<Rightarrow> the (u128_from_be_bytes bs) | _ \<Rightarrow> 0)"

definition books_ok :: "Store \<Rightarrow> bool" where
  "books_ok st = (utxo_records_ok st \<and> unspent_index_ok st
     \<and> (\<forall>owner token. stored_balance st owner token = total (unspent_set st) owner token))"

lemma owner_key_inject [simp]:
  "owner_key o1 t k = owner_key o2 t' k' \<longleftrightarrow> o1 = o2 \<and> t = t' \<and> k = k'"
  by (simp add: owner_key_def hashc.enc_append_inject)

lemma unspent_key_owner_key: "unspent_key u = owner_key (uu_owner u) (uu_token_type u) (key_of_utxo u)"
  by (simp add: unspent_key_def owner_key_def key_of_utxo_def)

lemma finite_unspent_set: "finite (dom (unspent_set st))"
proof (rule finite_subset)
  show "dom (unspent_set st) \<subseteq> fst ` set (keyspace (disk st) Utxos)"
  proof
    fix k assume "k \<in> dom (unspent_set st)"
    then have "store_get st Utxos k \<noteq> None"
      by (cases "store_get st Utxos k") (auto simp: unspent_set_def)
    then show "k \<in> fst ` set (keyspace (disk st) Utxos)"
      by (simp add: store_get_def ks_get_def part_get_def map_of_eq_None_iff)
  qed
qed simp

lemma live_core_Some:
  "live_core v = Some c \<longleftrightarrow>
    (\<exists>r. v = Some (VUtxo r) \<and> ur_spending_tx_id r = None \<and> core (ur_utxo r) = c)"
  by (cases v rule: live_core.cases) auto

lemma index_remove:
  assumes "S k = Some (o1, t1, x1)"
  shows "(\<exists>key owner token x. (S(k := None)) key = Some (owner, token, x)
      \<and> uk = owner_key owner token key \<and> v = Raw key) \<longleftrightarrow>
    uk \<noteq> owner_key o1 t1 k \<and> (\<exists>key owner token x. S key = Some (owner, token, x)
      \<and> uk = owner_key owner token key \<and> v = Raw key)"
    (is "?new \<longleftrightarrow> ?ne \<and> ?old")
proof
  assume ?new
  then show "?ne \<and> ?old" by (auto split: if_splits)
next
  assume "?ne \<and> ?old"
  then obtain key owner token x where o1: "?ne" "S key = Some (owner, token, x)"
    "uk = owner_key owner token key" "v = Raw key" by blast
  have "key \<noteq> k" using o1(1-3) assms by auto
  with o1 show ?new by (intro exI [of _ key] exI [of _ owner] exI [of _ token] exI [of _ x]) simp
qed

section \<open>The pending writes represent the abstract state\<close>

definition delta_of :: "((hash32 \<times> hash32) \<times> u128) list \<Rightarrow> hash32 \<Rightarrow> hash32 \<Rightarrow> u128" where
  "delta_of ds owner token = (case map_of ds (owner, token) of Some d \<Rightarrow> d | None \<Rightarrow> 0)"

abbreviation pending :: "Store \<Rightarrow> write_state \<Rightarrow> Store" where
  "pending st ws \<equiv> commit st (ws_batch ws)"

definition utxo_cache_ok :: "Store \<Rightarrow> write_state \<Rightarrow> bool" where
  "utxo_cache_ok st ws = (\<forall>key. store_get (pending st ws) Utxos key =
     (case ws_created ws key of Some r \<Rightarrow> Some (VUtxo r) | None \<Rightarrow> store_get st Utxos key))"

definition deltas_ok :: "Store \<Rightarrow> write_state \<Rightarrow> bool" where
  "deltas_ok st ws = (distinct (map fst (ws_deltas ws))
     \<and> (\<forall>owner token. total (unspent_set (pending st ws)) owner token
          = stored_balance st owner token + delta_of (ws_deltas ws) owner token))"

definition represents :: "Store \<Rightarrow> write_state \<Rightarrow> utxo_set \<Rightarrow> bool" where
  "represents st ws S = (S = unspent_set (pending st ws) \<and> utxo_records_ok (pending st ws)
     \<and> unspent_index_ok (pending st ws) \<and> utxo_cache_ok st ws \<and> deltas_ok st ws)"

lemma map_of_entry_update:
  "map_of (entry_update d f k m) = (map_of m)(k \<mapsto> f (case map_of m k of None \<Rightarrow> d | Some v \<Rightarrow> v))"
  by (induction d f k m rule: entry_update.induct) (auto simp: fun_eq_iff)

lemma fst_entry_update: "fst ` set (entry_update d f k m) = insert k (fst ` set m)"
  by (induction d f k m rule: entry_update.induct) auto

lemma distinct_entry_update:
  "distinct (map fst m) \<Longrightarrow> distinct (map fst (entry_update d f k m))"
  by (induction d f k m rule: entry_update.induct) (auto simp: fst_entry_update)

lemma delta_of_add:
  "delta_of (entry_update 0 (\<lambda>d. d + x) k ds) owner token =
    delta_of ds owner token + (if k = (owner, token) then x else 0)"
  by (auto simp: delta_of_def map_of_entry_update split: option.splits)

lemma delta_of_sub:
  "delta_of (entry_update 0 (\<lambda>d. d - x) k ds) owner token =
    delta_of ds owner token - (if k = (owner, token) then x else 0)"
  using delta_of_add [of "- x"] by simp

lemma represents_create:
  assumes "represents st ws S" and "abs_create S u = Inr S'"
  shows "represents st (write_created t u ws) S'"
proof -
  let ?k = "key_of_utxo u" and ?ws = "write_created t u ws"
  let ?r = "\<lparr>ur_utxo = u, ur_creating_tx_id = t, ur_spending_tx_id = None\<rparr>"
  from assms(2) have fresh: "S ?k = None" and S': "S' = S(?k \<mapsto> core u)"
    by (auto simp: abs_create_def split: if_splits)
  from assms(1) have S: "S = unspent_set (pending st ws)" and
    old: "utxo_records_ok (pending st ws)" "unspent_index_ok (pending st ws)"
      "utxo_cache_ok st ws" "deltas_ok st ws"
    by (simp_all add: represents_def)
  have view: "store_get (pending st ?ws) Utxos k =
      (if k = ?k then Some (VUtxo ?r) else store_get (pending st ws) Utxos k)"
    "store_get (pending st ?ws) UtxosUnspentByOwner k =
      (if k = unspent_key u then Some (Raw ?k) else store_get (pending st ws) UtxosUnspentByOwner k)" for k
    by (auto simp: write_created_def Let_def store_simps key_of_utxo_def)
  have set': "unspent_set (pending st ?ws) = S'"
    by (auto simp: unspent_set_def view S' S fun_eq_iff)
  have "utxo_records_ok (pending st ?ws)"
    using old(1) by (auto simp: utxo_records_ok_def view)
  moreover have "unspent_index_ok (pending st ?ws)"
    unfolding unspent_index_ok_def set' view(2)
  proof (intro allI)
    fix uk v
    show "((if uk = unspent_key u then Some (Raw ?k)
          else store_get (pending st ws) UtxosUnspentByOwner uk) = Some v) =
        (\<exists>key owner token x. S' key = Some (owner, token, x) \<and> uk = owner_key owner token key \<and> v = Raw key)"
      using old(2) fresh unfolding unspent_index_ok_def S [symmetric]
      by (auto simp: S' unspent_key_owner_key core_def) (metis option.distinct(1))+
  qed
  moreover have "utxo_cache_ok st ?ws"
    using old(3)
    by (auto simp: utxo_cache_ok_def view) (auto simp: write_created_def Let_def key_of_utxo_def)
  moreover have "deltas_ok st ?ws"
    using old(4) total_create [OF finite_unspent_set fresh [unfolded S], folded S]
    unfolding deltas_ok_def set' S [symmetric]
    by (auto simp: write_created_def Let_def add_delta_def touch_def ws_insert_def S'
        distinct_entry_update delta_of_add worth_def core_def)
  ultimately show ?thesis using set' by (simp add: represents_def)
qed

lemma represents_spend:
  assumes "represents st ws S" and "abs_spend S u = Inr S'"
  obtains ws' where "write_spent st t ws u = Inr ws'" "represents st ws' S'"
proof -
  let ?k = "key_of_utxo u"
  from assms(2) have live: "S ?k = Some (core u)" and S': "S' = S(?k := None)"
    by (auto simp: abs_spend_def split: if_splits)
  from assms(1) have S: "S = unspent_set (pending st ws)" and
    old: "utxo_records_ok (pending st ws)" "unspent_index_ok (pending st ws)"
      "utxo_cache_ok st ws" "deltas_ok st ws"
    by (simp_all add: represents_def)
  obtain r where r: "store_get (pending st ws) Utxos ?k = Some (VUtxo r)" "ur_spending_tx_id r = None"
    "core (ur_utxo r) = core u"
    using live by (auto simp: S unspent_set_def live_core_Some)
  have cached: "store_get (pending st ws) Utxos ?k =
      (case ws_created ws ?k of Some r \<Rightarrow> Some (VUtxo r) | None \<Rightarrow> store_get st Utxos ?k)"
    using old(3) by (simp add: utxo_cache_ok_def)
  let ?r = "r\<lparr>ur_spending_tx_id := Some t\<rparr>"
  have run: "write_spent st t ws u = Inr (touch (uu_owner u) t
      (add_delta (uu_owner u, uu_token_type u) (- uu_value u)
        ((ws_remove UtxosUnspentByOwner (unspent_key u) (ws_insert Utxos ?k (VUtxo ?r) ws))
          \<lparr>ws_created := (ws_created ws)(?k \<mapsto> ?r)\<rparr>)))"
    using cached r(1)
    by (auto simp: write_spent_def Let_def key_of_utxo_def get_decoded_def store_decode_def
        split: option.splits)
  then obtain w where w: "write_spent st t ws u = Inr w"
    and view: "\<And>k. store_get (pending st w) Utxos k =
      (if k = ?k then Some (VUtxo ?r) else store_get (pending st ws) Utxos k)"
      "\<And>k. store_get (pending st w) UtxosUnspentByOwner k =
      (if k = unspent_key u then None else store_get (pending st ws) UtxosUnspentByOwner k)"
    and created: "ws_created w = (ws_created ws)(?k \<mapsto> ?r)"
    and deltas: "ws_deltas w
      = entry_update 0 (\<lambda>d. d + - uu_value u) (uu_owner u, uu_token_type u) (ws_deltas ws)"
    by (simp add: store_simps add_delta_def touch_def ws_insert_def ws_remove_def)
  have set': "unspent_set (pending st w) = S'"
    by (rule ext) (simp add: unspent_set_def view S' S)
  have "utxo_records_ok (pending st w)"
    using old(1) r(1) by (auto simp: utxo_records_ok_def view)
  moreover have "unspent_index_ok (pending st w)"
    unfolding unspent_index_ok_def set' view(2)
  proof (intro allI)
    fix uk v
    show "((if uk = unspent_key u then None
          else store_get (pending st ws) UtxosUnspentByOwner uk) = Some v) =
        (\<exists>key owner token x. S' key = Some (owner, token, x) \<and> uk = owner_key owner token key \<and> v = Raw key)"
      unfolding S' index_remove [where S = S, OF live [unfolded core_def]]
      using old(2) unfolding unspent_index_ok_def S [symmetric] by (simp add: unspent_key_owner_key)
  qed
  moreover have "utxo_cache_ok st w"
    using old(3) by (auto simp: utxo_cache_ok_def view created)
  moreover have "deltas_ok st w"
  proof -
    have "total S' owner token = total S owner token - worth owner token (Some (core u))" for owner token
      using total_spend [OF finite_unspent_set live [unfolded S], folded S] S' by simp
    then show ?thesis
      using old(4) unfolding deltas_ok_def set' S [symmetric] deltas
      by (auto simp: distinct_entry_update delta_of_sub worth_def core_def)
  qed
  ultimately have "represents st w S'" using set' by (simp add: represents_def)
  with w show ?thesis by (rule that)
qed

lemma represents_frame:
  assumes "represents st ws S" and "grows P (ws_batch ws) (ws_batch ws')"
    and "Utxos \<notin> P" "UtxosUnspentByOwner \<notin> P"
    and "ws_created ws' = ws_created ws" "ws_deltas ws' = ws_deltas ws"
  shows "represents st ws' S"
proof -
  note view = grows_view [OF assms(2) assms(3), of st] grows_view [OF assms(2) assms(4), of st]
  have "unspent_set (pending st ws') = unspent_set (pending st ws)"
    by (simp add: unspent_set_def view)
  moreover from this have "unspent_index_ok (pending st ws') = unspent_index_ok (pending st ws)"
    by (simp add: unspent_index_ok_def view)
  ultimately show ?thesis
    using assms(1,5,6)
    by (simp add: represents_def utxo_records_ok_def utxo_cache_ok_def deltas_ok_def view)
qed

lemma represents_creates:
  assumes "represents st ws S" and "try_fold abs_create S us = Inr S'"
  shows "represents st (fold (write_created t) us ws) S'"
  using assms
  by (induction us arbitrary: ws S) (auto simp: result_simps dest: represents_create)

lemma represents_spends:
  assumes "represents st ws S" and "try_fold abs_spend S us = Inr S'"
  shows "\<exists>ws'. try_fold (write_spent st t) ws us = Inr ws' \<and> represents st ws' S'"
  using assms
proof (induction us arbitrary: ws S)
  case (Cons u us)
  then obtain S1 where S1: "abs_spend S u = Inr S1" "try_fold abs_spend S1 us = Inr S'"
    by (auto simp: result_simps)
  obtain w where "write_spent st t ws u = Inr w" "represents st w S1"
    using represents_spend [OF Cons.prems(1) S1(1)] .
  with Cons.IH [OF _ S1(2)] show ?case by auto
qed simp

lemma action_utxo_fields:
  "write_action st t s x = Inr s' \<Longrightarrow>
    ws_created (fst s') = ws_created (fst s) \<and> ws_deltas (fst s') = ws_deltas (fst s)"
  by (cases s; cases x) (auto simp: Let_def result_simps write_contract_pointer_def
      write_state_blob_def split: if_splits option.splits)

lemma event_utxo_fields [simp]:
  "ws_created (write_event t h refs ev ws) = ws_created ws"
  "ws_deltas (write_event t h refs ev ws) = ws_deltas ws"
  by (cases "le_attributes ev"; cases "le_contract_address ev",
      simp_all add: write_event_def Let_def write_dust_generation_def)+

lemma index_utxo_fields [simp]:
  "ws_created (write_indexes t a ws) = ws_created ws"
  "ws_deltas (write_indexes t a ws) = ws_deltas ws"
  by (simp_all add: write_indexes_def Let_def ids_fold [where g = ws_created]
      ids_fold [where g = ws_deltas])

lemma represents_actions:
  assumes "represents st (fst s) S" and "try_fold (write_action st t) s xs = Inr s'"
    and "contract_actions st = ContractActionsV2"
  shows "represents st (fst s') S"
  by (rule try_fold_invariant [OF assms(2), where P = "\<lambda>s. represents st (fst s) S"])
    (use assms(1) represents_frame [where P = action_parts] grows_action [OF _ assms(3)]
        action_utxo_fields in auto)

lemma represents_events:
  assumes "represents st ws S" shows "represents st (fold (write_event t h refs) evs ws) S"
  using assms
proof (induction evs arbitrary: ws)
  case (Cons ev evs)
  have "represents st (write_event t h refs ev ws) S"
    by (rule represents_frame [OF Cons.prems grows_event]) simp_all
  from Cons.IH [OF this] show ?case by simp
qed simp

text \<open>The part of a transaction that can fail, once its UTXOs are accepted by the abstract ledger:
  the decoding of the stored contract records.\<close>

lemma represents_tx:
  assumes "represents st ws S" and "abs_tx S a = Inr S'"
    and "write_tx st block ws (i, a) = Inr ws'" and "contract_actions st = ContractActionsV2"
  shows "represents st ws' S'"
proof -
  let ?t = "next_tx_id (ws_ids ws)"
  obtain wc wsp wa action_ids we where stages:
    "wc = fold (write_created ?t) (at_created_utxos a) (write_indexes ?t a (tx_begin ws))"
    "try_fold (write_spent st ?t) wc (at_spent_utxos a) = Inr wsp"
    "try_fold (write_action st ?t) (wsp, []) (at_contract_actions a) = Inr (wa, action_ids)"
    "we = fold (write_event ?t (b_height block)
         (action_refs (at_contract_actions a) action_ids)) (at_ledger_events a) wa"
    "ws' = ws_insert Txs (u64_to_be_bytes ?t)
       (VTx (tx_record block i a action_ids (next_event_id (ws_ids ws))
         (next_event_id (ws_ids we)))) we"
    using write_tx_stages [OF assms(3)] by blast
  obtain S1 where S1: "try_fold abs_create S (at_created_utxos a) = Inr S1"
    "try_fold abs_spend S1 (at_spent_utxos a) = Inr S'"
    using assms(2) by (auto simp: abs_tx_def result_simps)
  have "represents st (write_indexes ?t a (tx_begin ws)) S"
    using grows_indexes [of "tx_begin ws" ?t a]
    by (intro represents_frame [OF assms(1), where P = tx_index_parts]) auto
  then have "represents st wc S1"
    unfolding stages(1) using S1(1) by (rule represents_creates)
  then have "represents st wsp S'"
    using represents_spends [OF _ S1(2), of st wc ?t] stages(2) by auto
  then have "represents st wa S'"
    using represents_actions [OF _ stages(3) assms(4)] by simp
  then have "represents st we S'" unfolding stages(4) by (rule represents_events)
  then show ?thesis
    by (rule represents_frame [where P = "{Txs}"]) (auto simp: stages(5) intro!: grows_intros)
qed

lemma represents_txs:
  assumes "represents st ws S" and "try_fold abs_tx S txs = Inr S'"
    and "try_fold (write_tx st block) ws (enumerate n txs) = Inr ws'"
    and "contract_actions st = ContractActionsV2"
  shows "represents st ws' S'"
  using assms(1-3)
proof (induction txs arbitrary: ws S n)
  case (Cons a txs)
  then obtain w S1 where "write_tx st block ws (n, a) = Inr w" "abs_tx S a = Inr S1"
    "try_fold (write_tx st block) w (enumerate (Suc n) txs) = Inr ws'" "try_fold abs_tx S1 txs = Inr S'"
    by (auto simp: result_simps simp del: write_tx.simps)
  with Cons.IH represents_tx [OF Cons.prems(1) _ _ assms(4)] show ?case by blast
qed simp

lemma represents_init:
  "books_ok st \<Longrightarrow> represents st (init_write_state ids) (unspent_set st)"
  by (simp add: represents_def init_write_state_def books_ok_def utxo_cache_ok_def deltas_ok_def
      delta_of_def)

section \<open>The balances\<close>

lemma balance_key_inject [simp]:
  "balance_key o1 t = balance_key o2 t' \<longleftrightarrow> o1 = o2 \<and> t = t'"
  by (simp add: balance_key_def hashc.enc_append_inject hashc.enc_inject)

lemma stored_balance_encoded:
  "store_get st Balances (balance_key owner token) = Some (Raw (u128_to_be_bytes x)) \<Longrightarrow>
    stored_balance st owner token = x"
  by (simp add: stored_balance_def)

lemma write_balance_view:
  assumes "write_balance st b ((owner, token), d) = Inr b'"
  shows "b' = batch_insert Balances (balance_key owner token)
    (Raw (u128_to_be_bytes (stored_balance st owner token + d))) b"
  using assms
  by (auto simp: Let_def result_simps balance_key_def stored_balance_def i128_to_u128_def
      split: option.splits store_value.splits if_splits)

lemma write_balances_view:
  assumes "try_fold (write_balance st) b ds = Inr b'" and "distinct (map fst ds)"
  shows "store_get (commit st b') Balances (balance_key owner token) =
    (case map_of ds (owner, token) of
       Some d \<Rightarrow> Some (Raw (u128_to_be_bytes (stored_balance st owner token + d)))
     | None \<Rightarrow> store_get (commit st b) Balances (balance_key owner token))"
  using assms
proof (induction ds arbitrary: b)
  case (Cons e ds)
  obtain o1 t1 d where e: "e = ((o1, t1), d)" by (metis surj_pair)
  with Cons.prems(1) obtain b1 where b1: "write_balance st b ((o1, t1), d) = Inr b1"
    "try_fold (write_balance st) b1 ds = Inr b'"
    by (auto simp: result_simps simp del: write_balance.simps)
  have fresh: "map_of ds (o1, t1) = None"
    using Cons.prems(2) e by (simp add: map_of_eq_None_iff)
  from Cons.prems(2) have "distinct (map fst ds)" by simp
  from Cons.IH [OF b1(2) this] show ?case
    using fresh by (auto simp: e write_balance_view [OF b1(1)] store_simps split: option.splits)
qed simp

lemma block_utxos:
  assumes "write_block L st block txs key window ids = Inr (st', ids')"
    and "contract_actions st = ContractActionsV2"
    and "books_ok st" and "try_fold abs_tx (unspent_set st) txs = Inr S'"
  shows "books_ok st' \<and> unspent_set st' = S'
    \<and> (\<forall>owner token. stored_balance st' owner token = total S' owner token)"
proof -
  obtain ws b1 b2 root where s:
    "try_fold (write_tx st block) (init_write_state ids) (enumerate 0 txs) = Inr ws"
    "try_fold (write_balance st) (ws_batch ws) (ws_deltas ws) = Inr b1"
    "try_fold (apply_registration_event st (b_height block)) (fold write_addr_txs (ws_touched ws) b1)
       (b_dust_registration_events block) = Inr b2"
    "lo_serialize_root L (b_zswap_merkle_tree_root block) = Inr root"
    "st' = commit st (block_tail block (next_tx_id ids) (length txs) root (ws_ids ws)
       (push_window window (key, stored_from (ledger_version (b_protocol_version block)))) b2)"
    "ids' = ws_ids ws"
    using write_block_stages [OF assms(1)] by blast
  note g = write_block_grows [OF s(1-3) assms(2)]
  have rep: "represents st ws S'"
    by (rule represents_txs [OF represents_init [OF assms(3)] assms(4) s(1) assms(2)])
  have same: "store_get st' p k = store_get (pending st ws) p k" if "p \<in> utxo_parts" for p k
    using that grows_view [OF g(5), of p st k] block_tail_other [of p] s(5) by auto
  have bal: "store_get st' Balances k = store_get (commit st b1) Balances k" for k
    using grows_view [OF g(3), of Balances] grows_view [OF g(4), of Balances] s(5)
      block_tail_other [of Balances] by simp
  have before: "store_get (pending st ws) Balances k = store_get st Balances k" for k
    using grows_view [OF g(1), of Balances st k] by simp
  from rep have "distinct (map fst (ws_deltas ws))"
    and sum: "total S' owner token = stored_balance st owner token + delta_of (ws_deltas ws) owner token"
    for owner token by (simp_all add: represents_def deltas_ok_def)
  then have after: "stored_balance st' owner token = total S' owner token" for owner token
    using write_balances_view [OF s(2), of owner token]
    by (cases "map_of (ws_deltas ws) (owner, token)")
      (simp_all add: stored_balance_def bal before sum delta_of_def)
  have "unspent_set st' = S'"
    using rep by (simp add: represents_def unspent_set_def same)
  with rep after show ?thesis
    by (simp add: books_ok_def represents_def utxo_records_ok_def unspent_index_ok_def same)
qed

text \<open>
  C1. The UTXO tables refine the ledger's set of unspent outputs. If before the block the records,
  the unspent index and the balances of the store agree (\<open>books_ok\<close>) and the abstract ledger
  accepts the outputs created and spent by the transactions, in order, then after the block they
  agree again and represent exactly the abstract result: in particular the balance of every owner
  and token is the sum of the unspent outputs.
\<close>

theorem write_block_utxos:
  assumes "write_block L st block txs key window ids = Inr (st', ids')"
    and "contract_actions st = ContractActionsV2"
    and "books_ok st" and "try_fold abs_tx (unspent_set st) txs = Inr S'"
  shows "books_ok st' \<and> unspent_set st' = S'
    \<and> (\<forall>owner token. stored_balance st' owner token = total S' owner token)"
  using assms by (rule block_utxos)

end
