(* ===== verification/ActionFacts.thy ===== *)
theory ActionFacts
  imports BlockFacts
begin

text \<open>
  Contract actions, their content-addressed state blobs and the per-contract pointers. A pointer
  (deploy or latest action of a contract) always names a stored action of that contract that has a
  state, whose blob is stored under its SHA-256; a failed action is recorded but never pointed to;
  a blob is never written twice. SHA-256 is a parameter.
\<close>

section \<open>The invariant\<close>

definition action_at :: "Store \<Rightarrow> u64 \<Rightarrow> ContractActionRecord option" where
  "action_at st i = (case store_get st ContractActionsV2 (u64_to_be_bytes i) of
     Some (VAction r) \<Rightarrow> Some r | _ \<Rightarrow> None)"

definition blob_ok :: "(bytes \<Rightarrow> hash32) \<Rightarrow> Store \<Rightarrow> hash32 \<Rightarrow> bool" where
  "blob_ok sha st h = (\<exists>bs. store_get st ContractStates (hash_bytes h) = Some (Raw bs)
     \<and> bs \<noteq> [] \<and> sha bs = h)"

definition live_action :: "(bytes \<Rightarrow> hash32) \<Rightarrow> Store \<Rightarrow> bytes \<Rightarrow> u64 \<Rightarrow> bool" where
  "live_action sha st address i = (\<exists>r h. action_at st i = Some r \<and> ar_address r = address
     \<and> ar_state_hash r = Some h \<and> blob_ok sha st h)"

definition actions_ok :: "(bytes \<Rightarrow> hash32) \<Rightarrow> Store \<Rightarrow> u64 \<Rightarrow> bool" where
  "actions_ok sha st next =
     ((\<forall>i. action_at st i \<noteq> None \<longrightarrow> i < next)
      \<and> (\<forall>h. store_get st ContractStates (hash_bytes h) \<noteq> None \<longrightarrow> blob_ok sha st h)
      \<and> (\<forall>address v. store_get st Contracts address = Some v \<longrightarrow>
          (\<exists>c. v = VContract c \<and> cr_deploy_action_id c \<le> cr_latest_action_id c
            \<and> live_action sha st address (cr_deploy_action_id c)
            \<and> live_action sha st address (cr_latest_action_id c))))"

definition wf_action :: "(bytes \<Rightarrow> hash32) \<Rightarrow> bytes \<times> ContractActionRecord \<times> bytes \<Rightarrow> bool" where
  "wf_action sha x = (case x of (address, r, state) \<Rightarrow> ar_address r = address
     \<and> ar_state_hash r = (if state = [] then None else Some (sha state)))"

definition action_caches_ok :: "Store \<Rightarrow> write_state \<Rightarrow> bool" where
  "action_caches_ok st ws =
     ((\<forall>address. store_get (commit st (ws_batch ws)) Contracts address =
         (case ws_contracts ws address of Some c \<Rightarrow> Some (VContract c)
          | None \<Rightarrow> store_get st Contracts address))
      \<and> (\<forall>h. store_get (commit st (ws_batch ws)) ContractStates (hash_bytes h) \<noteq> None \<longleftrightarrow>
         h \<in> set (ws_states ws) \<or> store_get st ContractStates (hash_bytes h) \<noteq> None))"

lemma actions_ok_id: "actions_ok sha st next \<Longrightarrow> action_at st i \<noteq> None \<Longrightarrow> i < next"
  by (simp add: actions_ok_def)

lemma actions_ok_blob_at: "actions_ok sha st next \<Longrightarrow>
    store_get st ContractStates (hash_bytes h) \<noteq> None \<Longrightarrow> blob_ok sha st h"
  by (simp add: actions_ok_def)

lemma actions_ok_contract:
  assumes "actions_ok sha st next" and "store_get st Contracts a = Some v"
  obtains c where "v = VContract c" "cr_deploy_action_id c \<le> cr_latest_action_id c"
    "live_action sha st a (cr_deploy_action_id c)" "live_action sha st a (cr_latest_action_id c)"
  using assms unfolding actions_ok_def by blast

lemma actions_okI:
  assumes "\<And>i. action_at st i \<noteq> None \<Longrightarrow> i < next"
    and "\<And>h. store_get st ContractStates (hash_bytes h) \<noteq> None \<Longrightarrow> blob_ok sha st h"
    and "\<And>a v. store_get st Contracts a = Some v \<Longrightarrow>
      \<exists>c. v = VContract c \<and> cr_deploy_action_id c \<le> cr_latest_action_id c
        \<and> live_action sha st a (cr_deploy_action_id c)
        \<and> live_action sha st a (cr_latest_action_id c)"
  shows "actions_ok sha st next"
  unfolding actions_ok_def by (intro conjI allI impI) (use assms in blast)+

text \<open>The invariant carries over to a store with the same contracts whose live actions stay.\<close>

lemma actions_ok_transfer:
  assumes "actions_ok sha st n"
    and "\<And>i. action_at st' i \<noteq> None \<Longrightarrow> i < n'"
    and "\<And>h. store_get st' ContractStates (hash_bytes h) \<noteq> None \<Longrightarrow> blob_ok sha st' h"
    and "\<And>k. store_get st' Contracts k = store_get st Contracts k"
    and "\<And>a i. live_action sha st a i \<Longrightarrow> live_action sha st' a i"
  shows "actions_ok sha st' n'"
proof (rule actions_okI [OF assms(2,3)])
  fix a v assume "store_get st' Contracts a = Some v"
  then have "store_get st Contracts a = Some v" by (simp add: assms(4))
  then show "\<exists>c. v = VContract c \<and> cr_deploy_action_id c \<le> cr_latest_action_id c
      \<and> live_action sha st' a (cr_deploy_action_id c) \<and> live_action sha st' a (cr_latest_action_id c)"
    by (rule actions_ok_contract [OF assms(1)]) (use assms(5) in blast)
qed

section \<open>One action\<close>

text \<open>Blobs are only added.\<close>

lemma blob_view:
  assumes "action_caches_ok st ws" and "actions_ok sha (commit st (ws_batch ws)) next"
    and "h' = (if state = [] then None else Some (sha state))"
  defines "ws' \<equiv> write_state_blob st h' state ws"
  shows "(\<forall>h. blob_ok sha (commit st (ws_batch ws)) h \<longrightarrow> blob_ok sha (commit st (ws_batch ws')) h)
    \<and> (\<forall>h. h' = Some h \<longrightarrow> blob_ok sha (commit st (ws_batch ws')) h)
    \<and> (\<forall>h. store_get (commit st (ws_batch ws')) ContractStates (hash_bytes h) \<noteq> None \<longrightarrow>
        blob_ok sha (commit st (ws_batch ws')) h)
    \<and> action_caches_ok st ws'"
proof -
  have blobs: "\<forall>h. store_get (commit st (ws_batch ws)) ContractStates (hash_bytes h) \<noteq> None \<longrightarrow>
      blob_ok sha (commit st (ws_batch ws)) h"
    using assms(2) by (simp add: actions_ok_def)
  have present: "\<And>h. store_get (commit st (ws_batch ws)) ContractStates (hash_bytes h) \<noteq> None \<longleftrightarrow>
      h \<in> set (ws_states ws) \<or> store_get st ContractStates (hash_bytes h) \<noteq> None"
    using assms(1) by (simp add: action_caches_ok_def)
  show ?thesis
  proof (cases "state = [] \<or> sha state \<in> set (ws_states ws)
      \<or> store_get st ContractStates (hash_bytes (sha state)) \<noteq> None")
    case True
    then have "ws' = ws" by (auto simp: ws'_def write_state_blob_def assms(3))
    moreover have "blob_ok sha (commit st (ws_batch ws)) h" if "h' = Some h" for h
      using that True blobs present [of h] by (auto simp: assms(3) split: if_splits)
    ultimately show ?thesis using blobs assms(1) by blast
  next
    case False
    let ?h = "sha state"
    have ws': "ws_batch ws' = batch_insert ContractStates (hash_bytes ?h) (Raw state) (ws_batch ws)"
      "ws_contracts ws' = ws_contracts ws" "ws_states ws' = ?h # ws_states ws"
      using False by (simp_all add: ws'_def write_state_blob_def assms(3))
    have absent: "store_get (commit st (ws_batch ws)) ContractStates (hash_bytes ?h) = None"
      using False present [of ?h] by blast
    have new: "blob_ok sha (commit st (ws_batch ws')) ?h"
      using False by (simp add: blob_ok_def ws' store_simps)
    have kept: "blob_ok sha (commit st (ws_batch ws')) h" if "blob_ok sha (commit st (ws_batch ws)) h" for h
      using that absent by (auto simp: blob_ok_def ws' store_simps hashc.enc_inject)
    have "blob_ok sha (commit st (ws_batch ws')) h"
      if "store_get (commit st (ws_batch ws')) ContractStates (hash_bytes h) \<noteq> None" for h
      using that new kept blobs by (cases "h = ?h") (auto simp: ws' store_simps hashc.enc_inject)
    moreover have "action_caches_ok st ws'"
      using assms(1) by (auto simp: action_caches_ok_def ws' store_simps hashc.enc_inject)
    ultimately show ?thesis using new kept False by (auto simp: assms(3))
  qed
qed

lemma action_at_frame:
  "(\<And>k. store_get st' ContractActionsV2 k = store_get st ContractActionsV2 k) \<Longrightarrow>
    action_at st' i = action_at st i"
  by (simp add: action_at_def)

lemma blob_ok_frame:
  "(\<And>k. store_get st' ContractStates k = store_get st ContractStates k) \<Longrightarrow>
    blob_ok sha st' h = blob_ok sha st h"
  by (simp add: blob_ok_def)

lemma live_action_mono:
  assumes "live_action sha st a i" and "action_at st' i = action_at st i"
    and "\<And>h. blob_ok sha st h \<Longrightarrow> blob_ok sha st' h"
  shows "live_action sha st' a i"
  using assms by (auto simp: live_action_def)

lemma less_add_one_word:
  assumes "unat n + 1 < 2 ^ 64" shows "(n :: u64) < n + 1" and "i < n \<Longrightarrow> i < n + 1"
    and "i < n + 1 \<Longrightarrow> i \<noteq> n \<Longrightarrow> i < n"
proof -
  have "unat (n + 1) = unat n + 1" using assms by (simp add: unat_word_ariths)
  then show "n < n + 1" "i < n \<Longrightarrow> i < n + 1" "i < n + 1 \<Longrightarrow> i \<noteq> n \<Longrightarrow> i < n"
    by (simp_all add: word_less_nat_alt) (metis less_antisym word_unat_eq_iff)
qed

lemma actions_ok_record:
  assumes "actions_ok sha st next" and "unat next + 1 < 2 ^ 64"
    and act: "\<And>j. action_at st' j = (if j = next then Some r else action_at st j)"
    and same: "\<And>k. store_get st' ContractStates k = store_get st ContractStates k"
      "\<And>k. store_get st' Contracts k = store_get st Contracts k"
  shows "actions_ok sha st' (next + 1)"
proof -
  note less = less_add_one_word [OF assms(2)]
  have old: "live_action sha st' a i" if "live_action sha st a i" for a i
  proof (rule live_action_mono [OF that])
    have "i < next" using that assms(1) by (auto simp: live_action_def actions_ok_def)
    then show "action_at st' i = action_at st i" by (auto simp: act)
  qed (simp add: blob_ok_def same)
  show ?thesis
  proof (rule actions_ok_transfer [OF assms(1) _ _ same(2) old])
    show "i < next + 1" if "action_at st' i \<noteq> None" for i
      using that less actions_ok_id [OF assms(1), of i] by (cases "i = next") (auto simp: act)
    show "blob_ok sha st' h" if "store_get st' ContractStates (hash_bytes h) \<noteq> None" for h
      using that actions_ok_blob_at [OF assms(1), of h] by (simp add: same blob_ok_def)
  qed
qed

lemma actions_ok_blob:
  assumes "actions_ok sha (commit st (ws_batch ws)) next" and "action_caches_ok st ws"
    and "h' = (if state = [] then None else Some (sha state))"
  defines "ws' \<equiv> write_state_blob st h' state ws"
  shows "actions_ok sha (commit st (ws_batch ws')) next \<and> action_caches_ok st ws'
    \<and> (\<forall>h. h' = Some h \<longrightarrow> blob_ok sha (commit st (ws_batch ws')) h)
    \<and> (\<forall>i. action_at (commit st (ws_batch ws')) i = action_at (commit st (ws_batch ws)) i)
    \<and> ws_ids ws' = ws_ids ws"
proof -
  note blob = blob_view [OF assms(2,1,3), folded ws'_def]
  note view = grows_view [OF grows_state_blob, of _ st st h' state ws, folded ws'_def]
  have act: "action_at (commit st (ws_batch ws')) i = action_at (commit st (ws_batch ws)) i" for i
    by (rule action_at_frame) (simp add: view)
  have "live_action sha (commit st (ws_batch ws')) a i"
    if "live_action sha (commit st (ws_batch ws)) a i" for a i
    by (rule live_action_mono [OF that act]) (use blob in blast)
  then have "actions_ok sha (commit st (ws_batch ws')) next"
    by (rule actions_ok_transfer [OF assms(1), rotated -1])
      (use blob actions_ok_id [OF assms(1)] in \<open>auto simp: act view\<close>)
  moreover have "ws_ids ws' = ws_ids ws"
    by (simp add: ws'_def write_state_blob_def split: option.splits)
  ultimately show ?thesis using blob act by blast
qed

lemma actions_ok_pointer:
  assumes "actions_ok sha (commit st (ws_batch ws)) next" and "action_caches_ok st ws"
    and "live_action sha (commit st (ws_batch ws)) a i" and "i < next"
    and last: "\<And>j. action_at (commit st (ws_batch ws)) j \<noteq> None \<Longrightarrow> j \<le> i"
    and "write_contract_pointer st a i ws = Inr ws'"
  shows "actions_ok sha (commit st (ws_batch ws')) next \<and> action_caches_ok st ws'
    \<and> ws_ids ws' = ws_ids ws"
proof -
  have cached: "store_get (commit st (ws_batch ws)) Contracts a =
      (case ws_contracts ws a of Some c \<Rightarrow> Some (VContract c) | None \<Rightarrow> store_get st Contracts a)"
    using assms(2) by (simp add: action_caches_ok_def)
  obtain c where c: "ws' = (ws_insert Contracts a (VContract c) ws)
      \<lparr>ws_contracts := (ws_contracts ws)(a \<mapsto> c)\<rparr>"
    "cr_latest_action_id c = i"
    "cr_deploy_action_id c = i \<or>
      (\<exists>d. store_get (commit st (ws_batch ws)) Contracts a = Some (VContract d)
        \<and> cr_deploy_action_id c = cr_deploy_action_id d)"
    using assms(6) cached
    by (auto simp: write_contract_pointer_def Let_def result_simps get_decoded_Inr_Some
        split: option.splits elim!: as_contract.elims)
  have "live_action sha (commit st (ws_batch ws)) a (cr_deploy_action_id c)"
    using c(3) assms(3) by (auto elim: actions_ok_contract [OF assms(1)])
  moreover from this have "cr_deploy_action_id c \<le> i"
    by (intro last) (auto simp: live_action_def)
  moreover have live: "live_action sha (commit st (ws_batch ws')) b j
      = live_action sha (commit st (ws_batch ws)) b j" for b j
    by (simp add: live_action_def action_at_def blob_ok_def c(1) store_simps)
  moreover have "action_at (commit st (ws_batch ws')) j = action_at (commit st (ws_batch ws)) j"
    "blob_ok sha (commit st (ws_batch ws')) h = blob_ok sha (commit st (ws_batch ws)) h" for j h
    by (simp_all add: action_at_def blob_ok_def c(1) store_simps)
  ultimately have "actions_ok sha (commit st (ws_batch ws')) next"
    using assms(1,3) c(2) by (simp add: actions_ok_def live) (simp add: c(1) store_simps)
  moreover have "action_caches_ok st ws'"
    using assms(2) by (simp add: action_caches_ok_def c(1) store_simps)
  ultimately show ?thesis by (simp add: c(1))
qed

section \<open>A block of actions\<close>

definition action_inv :: "(bytes \<Rightarrow> hash32) \<Rightarrow> Store \<Rightarrow> write_state \<Rightarrow> bool" where
  "action_inv sha st ws = (actions_ok sha (commit st (ws_batch ws)) (next_action_id (ws_ids ws))
     \<and> action_caches_ok st ws)"

lemma action_inv_step:
  assumes "action_inv sha st (fst s)" and "wf_action sha x"
    and "contract_actions st = ContractActionsV2"
    and "unat (next_action_id (ws_ids (fst s))) + 1 < 2 ^ 64"
    and "write_action st t s x = Inr s'"
  shows "action_inv sha st (fst s')"
proof -
  obtain ws l where s: "s = (ws, l)" by (cases s)
  obtain a r bs where x: "x = (a, r, bs)" by (cases x)
  let ?i = "next_action_id (ws_ids ws)"
  let ?w0 = "ws\<lparr>ws_ids := (ws_ids ws)\<lparr>next_action_id := ?i + 1\<rparr>\<rparr>"
  let ?r = "r\<lparr>ar_tx_id := t\<rparr>"
  define w1 where "w1 = ws_insert ContractActionsByAddr (prefixed_u64_key a ?i) (Raw [])
       (ws_insert ContractActionsV2 (u64_to_be_bytes ?i) (VAction ?r) ?w0)"
  define w2 where "w2 = write_state_blob st (ar_state_hash r) bs w1"
  have inv: "actions_ok sha (commit st (ws_batch ws)) ?i" "action_caches_ok st ws"
    using assms(1) by (simp_all add: action_inv_def s)
  note less = less_add_one_word [OF assms(4) [unfolded s fst_conv]]
  have view: "store_get (commit st (ws_batch w1)) p k = store_get (commit st (ws_batch ws)) p k"
    if "p \<in> {ContractStates, Contracts}" for p k
    using that by (auto simp: w1_def store_simps)
  have act: "action_at (commit st (ws_batch w1)) j
      = (if j = ?i then Some ?r else action_at (commit st (ws_batch ws)) j)" for j
    by (simp add: w1_def action_at_def store_simps u64c.enc_inject)
  have ok1: "actions_ok sha (commit st (ws_batch w1)) (?i + 1)"
    by (rule actions_ok_record [OF inv(1) _ act]) (use assms(4) in \<open>simp_all add: view s\<close>)
  have caches1: "action_caches_ok st w1"
    using inv(2) by (simp add: action_caches_ok_def view) (simp add: w1_def)
  have wf: "ar_address r = a" "ar_state_hash r = (if bs = [] then None else Some (sha bs))"
    using assms(2) by (simp_all add: wf_action_def x)
  have ok2: "actions_ok sha (commit st (ws_batch w2)) (?i + 1)" "action_caches_ok st w2"
    and blob: "\<And>h. ar_state_hash r = Some h \<Longrightarrow> blob_ok sha (commit st (ws_batch w2)) h"
    and act2: "\<And>j. action_at (commit st (ws_batch w2)) j = action_at (commit st (ws_batch w1)) j"
    and ids2: "ws_ids w2 = ws_ids w1"
    using actions_ok_blob [OF ok1 caches1 wf(2), folded w2_def] by blast+
  have ids: "next_action_id (ws_ids w2) = ?i + 1" by (simp add: ids2 w1_def)
  have run: "s' = (w2, l @ [?i]) \<and> ar_state_hash r = None
      \<or> (\<exists>w. write_contract_pointer st a ?i w2 = Inr w \<and> s' = (w, l @ [?i]) \<and> ar_state_hash r \<noteq> None)"
    using assms(5,3) unfolding s x
    by (auto simp: Let_def result_simps w2_def w1_def split: if_splits)
  show ?thesis
  proof (cases "ar_state_hash r")
    case None
    with run ok2 ids show ?thesis by (auto simp: action_inv_def)
  next
    case (Some h)
    with run obtain w where w: "write_contract_pointer st a ?i w2 = Inr w" "s' = (w, l @ [?i])"
      by auto
    have "live_action sha (commit st (ws_batch w2)) a ?i"
      using blob [OF Some] Some wf(1) by (simp add: live_action_def act2 act)
    moreover have "j \<le> ?i" if "action_at (commit st (ws_batch w2)) j \<noteq> None" for j
      using actions_ok_id [OF ok2(1) that] less(3) [of j] by (cases "j = ?i") (auto intro: less_imp_le)
    ultimately have "actions_ok sha (commit st (ws_batch w)) (?i + 1) \<and> action_caches_ok st w
        \<and> ws_ids w = ws_ids w2"
      by (intro actions_ok_pointer [OF ok2 _ less(1) _ w(1)])
    with w(2) ids show ?thesis by (simp add: action_inv_def)
  qed
qed

lemma action_inv_steps:
  assumes "action_inv sha st (fst s)" and "\<forall>x \<in> set xs. wf_action sha x"
    and "contract_actions st = ContractActionsV2"
    and "unat (next_action_id (ws_ids (fst s))) + length xs < 2 ^ 64"
    and "try_fold (write_action st t) s xs = Inr s'"
  shows "action_inv sha st (fst s')"
  using assms
proof (induction xs arbitrary: s)
  case (Cons x xs)
  then obtain s1 where s1: "write_action st t s x = Inr s1" "try_fold (write_action st t) s1 xs = Inr s'"
    by (auto simp: result_simps)
  have "unat (next_action_id (ws_ids (fst s1))) = unat (next_action_id (ws_ids (fst s))) + 1"
    using ids_action(1) [OF s1(1)] Cons.prems(4) by (simp add: unat_word_ariths)
  with Cons.prems s1 action_inv_step [OF Cons.prems(1) _ _ _ s1(1)] show ?case
    by (intro Cons.IH [of s1]) auto
qed simp

lemma action_inv_frame:
  assumes "action_inv sha st ws" and "grows P (ws_batch ws) (ws_batch ws')"
    and "P \<inter> {ContractActionsV2, ContractStates, Contracts} = {}"
    and "next_action_id (ws_ids ws') = next_action_id (ws_ids ws)"
    and "ws_contracts ws' = ws_contracts ws" "ws_states ws' = ws_states ws"
  shows "action_inv sha st ws'"
proof -
  have view: "store_get (commit st (ws_batch ws')) p k = store_get (commit st (ws_batch ws)) p k"
    if "p \<in> {ContractActionsV2, ContractStates, Contracts}" for p k
    using that assms(3) by (intro grows_view [OF assms(2)]) auto
  show ?thesis
    using assms(1,4-6)
    by (simp add: action_inv_def actions_ok_def action_caches_ok_def live_action_def action_at_def
        blob_ok_def view)
qed

lemma created_action_fields [simp]:
  "ws_contracts (write_created t u ws) = ws_contracts ws"
  "ws_states (write_created t u ws) = ws_states ws"
  by (simp_all add: write_created_def Let_def)

lemma spent_action_fields:
  "write_spent st t ws u = Inr ws' \<Longrightarrow>
    ws_contracts ws' = ws_contracts ws \<and> ws_states ws' = ws_states ws"
  by (auto simp: write_spent_def Let_def result_simps)

lemma event_action_fields [simp]:
  "ws_contracts (write_event t h refs ev ws) = ws_contracts ws"
  "ws_states (write_event t h refs ev ws) = ws_states ws"
  by (cases "le_attributes ev"; cases "le_contract_address ev",
      simp_all add: write_event_def Let_def write_dust_generation_def)+

lemma index_action_fields [simp]:
  "ws_contracts (write_indexes t a ws) = ws_contracts ws"
  "ws_states (write_indexes t a ws) = ws_states ws"
  by (simp_all add: write_indexes_def Let_def ids_fold [where g = ws_contracts]
      ids_fold [where g = ws_states])

lemma action_inv_tx:
  assumes "action_inv sha st ws" and "\<forall>x \<in> set (at_contract_actions a). wf_action sha x"
    and "contract_actions st = ContractActionsV2"
    and "unat (next_action_id (ws_ids ws)) + length (at_contract_actions a) < 2 ^ 64"
    and "write_tx st block ws (i, a) = Inr ws'"
  shows "action_inv sha st ws'"
proof -
  let ?t = "next_tx_id (ws_ids ws)"
  obtain wc wsp wa action_ids we where stages:
    "wc = fold (write_created ?t) (at_created_utxos a) (write_indexes ?t a (tx_begin ws))"
    "try_fold (write_spent st ?t) wc (at_spent_utxos a) = Inr wsp"
    "try_fold (write_action st ?t) (wsp, []) (at_contract_actions a) = Inr (wa, action_ids)"
    "we = fold (write_event ?t (b_height block)
         (action_refs (at_contract_actions a) action_ids)) (at_ledger_events a) wa"
    "ws' = ws_insert Txs (u64_to_be_bytes ?t)
       (VTx (tx_record block i a action_ids (next_event_id (ws_ids ws))
         (next_event_id (ws_ids we)))) we"
    using write_tx_stages [OF assms(5)] by blast
  have "grows (tx_index_parts \<union> utxo_parts) (ws_batch ws) (ws_batch (write_indexes ?t a (tx_begin ws)))"
    using grows_mono [OF grows_indexes [of "tx_begin ws" ?t a]] by auto
  also have "grows (tx_index_parts \<union> utxo_parts) \<dots> (ws_batch wc)"
    unfolding stages(1) by (rule grows_mono [OF grows_fold [where P = utxo_parts]])
      (auto intro: grows_intros)
  also have "grows (tx_index_parts \<union> utxo_parts) \<dots> (ws_batch wsp)"
    by (rule grows_mono [OF grows_try_fold [OF stages(2), where P = utxo_parts]])
      (auto intro: grows_spent)
  finally have "grows (tx_index_parts \<union> utxo_parts) (ws_batch ws) (ws_batch wsp)" .
  moreover have "ws_contracts wsp = ws_contracts wc \<and> ws_states wsp = ws_states wc"
    by (rule try_fold_invariant [OF stages(2)]) (auto dest: spent_action_fields)
  moreover have ids: "ws_ids wsp = (ws_ids ws)\<lparr>next_tx_id := ?t + 1\<rparr>"
    using ids_spents [OF stages(2)] by (simp add: stages(1) ids_fold [where g = ws_ids])
  ultimately have "action_inv sha st wsp"
    by (intro action_inv_frame [OF assms(1)])
      (auto simp: stages(1) ids_fold [where g = ws_contracts] ids_fold [where g = ws_states])
  then have wa: "action_inv sha st wa"
    using action_inv_steps [OF _ assms(2,3) _ stages(3)] assms(4) ids by simp
  have "grows event_parts (ws_batch wa) (ws_batch we)"
    unfolding stages(4) by (rule grows_fold) (auto intro: grows_event)
  with wa have "action_inv sha st we"
    by (rule action_inv_frame)
      (auto simp: stages(4) ids_fold [where g = ws_contracts] ids_fold [where g = ws_states] ids_events)
  then show ?thesis
    by (rule action_inv_frame [where P = "{Txs}"]) (auto simp: stages(5) intro!: grows_intros)
qed

lemma action_inv_txs:
  assumes "action_inv sha st ws" and "\<forall>a \<in> set txs. \<forall>x \<in> set (at_contract_actions a). wf_action sha x"
    and "contract_actions st = ContractActionsV2"
    and "unat (next_action_id (ws_ids ws)) + count_actions txs < 2 ^ 64"
    and "try_fold (write_tx st block) ws (enumerate n txs) = Inr ws'"
  shows "action_inv sha st ws'"
  using assms(1,2,4,5)
proof (induction txs arbitrary: ws n)
  case (Cons a txs)
  then obtain w where w: "write_tx st block ws (n, a) = Inr w"
    "try_fold (write_tx st block) w (enumerate (Suc n) txs) = Inr ws'"
    by (auto simp: result_simps simp del: write_tx.simps)
  let ?n = "length (at_contract_actions a)"
  have bound: "unat (next_action_id (ws_ids ws)) + ?n + count_actions txs < 2 ^ 64"
    using Cons.prems(3) by (simp add: count_actions_def)
  then have "unat (next_action_id (ws_ids w)) = unat (next_action_id (ws_ids ws)) + ?n"
    by (simp add: ids_tx [OF w(1)] unat_word_ariths unat_of_nat)
  moreover have "action_inv sha st w"
    using action_inv_tx [OF Cons.prems(1) _ assms(3) _ w(1)] Cons.prems(2) bound by auto
  ultimately show ?case using Cons.IH [OF _ _ _ w(2)] Cons.prems(2) bound by auto
qed simp

lemma block_contracts:
  assumes "write_block L st block txs key window ids = Inr (st', ids')"
    and "contract_actions st = ContractActionsV2"
    and "actions_ok sha st (next_action_id ids)"
    and "\<forall>a \<in> set txs. \<forall>x \<in> set (at_contract_actions a). wf_action sha x"
    and "unat (next_action_id ids) + count_actions txs < 2 ^ 64"
  shows "actions_ok sha st' (next_action_id ids')"
proof -
  obtain ws b1 b2 root where s:
    "try_fold (write_tx st block) (init_write_state ids) (enumerate 0 txs) = Inr ws"
    "try_fold (write_balance st) (ws_batch ws) (ws_deltas ws) = Inr b1"
    "try_fold (apply_registration_event st (b_height block)) (fold write_addr_txs (ws_touched ws) b1)
       (b_dust_registration_events block) = Inr b2"
    "lo_serialize_root L (b_zswap_merkle_tree_root block) = Inr root"
    "st' = commit st (block_tail block (next_tx_id ids) (length txs) root (ws_ids ws)
       (push_window window (key, stored_from (ledger_version (b_protocol_version block)))) b2)"
    "ids' = ws_ids ws"
    using write_block_stages [OF assms(1)] by blast
  note g = write_block_grows [OF s(1-3) assms(2)]
  have "action_inv sha st (init_write_state ids)"
    using assms(3) by (simp add: action_inv_def init_write_state_def action_caches_ok_def)
  then have inv: "action_inv sha st ws"
    using action_inv_txs [OF _ assms(4,2) _ s(1)] assms(5) by (simp add: init_write_state_def)
  have same: "store_get st' p k = store_get (commit st (ws_batch ws)) p k" if "p \<in> action_parts" for p k
    using that grows_view [OF g(5), of p st k] block_tail_other [of p] s(5) by auto
  show ?thesis
    using inv by (simp add: action_inv_def actions_ok_def live_action_def action_at_def blob_ok_def
        same s(6))
qed

text \<open>
  C11. Contract pointers and state blobs. After a block whose actions carry the hash of their state
  (or none, when the action failed), every contract's deploy and latest pointers name stored actions
  of that contract that have a state, in order, and the blob of that state is stored under its
  hash; the pointers never name a failed action, and no blob of the content-addressed partition
  differs from its key.
\<close>

theorem write_block_contracts:
  assumes "write_block L st block txs key window ids = Inr (st', ids')"
    and "contract_actions st = ContractActionsV2"
    and "actions_ok sha st (next_action_id ids)"
    and "\<forall>a \<in> set txs. \<forall>x \<in> set (at_contract_actions a). wf_action sha x"
    and "unat (next_action_id ids) + count_actions txs < 2 ^ 64"
  shows "actions_ok sha st' (next_action_id ids')"
  using assms by (rule block_contracts)

end
