(* ===== verification/BlockTotal.thy ===== *)
theory BlockTotal
  imports UtxoFacts ActionFacts
begin

text \<open>
  When a block is always written: \<open>write_block\<close> can fail only because a spent output is unknown,
  a balance leaves the range of \<open>i128\<close>, or the root cannot be serialized. On a well-typed store
  whose books agree, and for transactions the abstract ledger accepts, it succeeds.
\<close>

lemma try_fold_total:
  assumes "\<And>s x. x \<in> set xs \<Longrightarrow> \<exists>s'. f s x = Inr s'"
  shows "\<exists>s'. try_fold f s xs = Inr s'"
  using assms
proof (induction xs arbitrary: s)
  case (Cons x xs)
  obtain s1 where s1: "f s x = Inr s1" using Cons.prems [of x s] by auto
  have "\<exists>s'. try_fold f s1 xs = Inr s'" by (rule Cons.IH) (use Cons.prems in auto)
  with s1 show ?case by simp
qed simp

lemma decoded_contract_total:
  assumes "store_ok st" shows "\<exists>x. get_decoded as_contract st Contracts k = Inr x"
  by (rule get_decoded_total) (use store_ok_entry [OF assms] in fastforce)

lemma decoded_registration_total:
  assumes "store_ok st" shows "\<exists>x. get_decoded as_registration st CnightRegistrations k = Inr x"
  by (rule get_decoded_total) (use store_ok_entry [OF assms] in fastforce)

lemma action_total:
  assumes "store_ok st" shows "\<exists>s'. write_action st t s x = Inr s'"
proof -
  obtain ws l a r bs where x: "s = (ws, l)" "x = (a, r, bs)" by (metis surj_pair)
  have p: "\<exists>w'. write_contract_pointer st a i w = Inr w'" for i w
    using decoded_contract_total [OF assms, of a]
    by (cases "ws_contracts w a") (auto simp: write_contract_pointer_def Let_def)
  show ?thesis by (simp add: x Let_def result_simps p)
qed

lemma registration_total:
  assumes "store_ok st" shows "\<exists>b'. apply_registration_event st h b ev = Inr b'"
  using decoded_registration_total [OF assms, of "registration_key ev"]
  by (auto simp: apply_registration_event_def Let_def)

lemma tx_total:
  assumes "store_ok st" and "represents st ws S" and "abs_tx S a = Inr S'"
  shows "\<exists>ws'. write_tx st block ws (i, a) = Inr ws'"
proof -
  let ?t = "next_tx_id (ws_ids ws)"
  let ?wi = "write_indexes ?t a (tx_begin ws)"
  obtain S1 where S1: "try_fold abs_create S (at_created_utxos a) = Inr S1"
    "try_fold abs_spend S1 (at_spent_utxos a) = Inr S'"
    using assms(3) by (auto simp: abs_tx_def result_simps)
  have "represents st ?wi S"
    using grows_indexes [of "tx_begin ws" ?t a]
    by (intro represents_frame [OF assms(2), where P = tx_index_parts]) auto
  from represents_spends [OF represents_creates [OF this S1(1)] S1(2)]
  obtain wsp where wsp: "try_fold (write_spent st ?t)
      (fold (write_created ?t) (at_created_utxos a) ?wi) (at_spent_utxos a) = Inr wsp" by blast
  obtain s where "try_fold (write_action st ?t) (wsp, []) (at_contract_actions a) = Inr s"
    using try_fold_total [where f = "write_action st ?t"] action_total [OF assms(1)] by blast
  with wsp show ?thesis by (cases s) (simp add: Let_def tx_begin_def)
qed

lemma txs_total:
  assumes "store_ok st" and "contract_actions st = ContractActionsV2"
    and "represents st ws S" and "try_fold abs_tx S txs = Inr S'"
  shows "\<exists>ws'. try_fold (write_tx st block) ws (enumerate n txs) = Inr ws'"
  using assms(3,4)
proof (induction txs arbitrary: ws S n)
  case (Cons a txs)
  then obtain S1 where S1: "abs_tx S a = Inr S1" "try_fold abs_tx S1 txs = Inr S'"
    by (auto simp: result_simps)
  obtain w where w: "write_tx st block ws (n, a) = Inr w"
    using tx_total [OF assms(1) Cons.prems(1) S1(1)] by blast
  have "represents st w S1" by (rule represents_tx [OF Cons.prems(1) S1(1) w assms(2)])
  from Cons.IH [OF this S1(2)] w show ?case by (simp del: write_tx.simps)
qed simp

lemma balance_total:
  assumes "store_ok st" and "0 \<le> sint (stored_balance st owner token + d)"
  shows "\<exists>b'. write_balance st b ((owner, token), d) = Inr b'"
proof (cases "store_get st Balances (balance_key owner token)")
  case (Some v)
  with store_ok_entry [OF assms(1) Some] obtain bs where v: "v = Raw bs" "length bs = 16"
    by (cases v) (auto simp: raw_of_length_def)
  then obtain x where "u128_from_be_bytes bs = Some x"
    by (auto simp: u128_from_be_bytes_def)
  with v Some assms(2) show ?thesis
    by (simp add: balance_key_def stored_balance_def i128_to_u128_def)
next
  case None
  with assms(2) show ?thesis
    by (simp add: balance_key_def stored_balance_def i128_to_u128_def)
qed

lemma write_block_returns:
  assumes "store_ok st" and "contract_actions st = ContractActionsV2" and "books_ok st"
    and "try_fold abs_tx (unspent_set st) txs = Inr S'"
    and "\<forall>owner token. 0 \<le> sint (total S' owner token)"
    and "lo_serialize_root L (b_zswap_merkle_tree_root block) = Inr root"
  shows "\<exists>st' ids'. write_block L st block txs key window ids = Inr (st', ids')"
proof -
  obtain ws where ws: "try_fold (write_tx st block) (init_write_state ids) (enumerate 0 txs) = Inr ws"
    using txs_total [OF assms(1,2) represents_init [OF assms(3)] assms(4)] by blast
  have rep: "represents st ws S'"
    by (rule represents_txs [OF represents_init [OF assms(3)] assms(4) ws assms(2)])
  have "\<exists>b'. write_balance st b e = Inr b'" if e: "e \<in> set (ws_deltas ws)" for b e
  proof -
    obtain owner token d where x: "e = ((owner, token), d)" by (metis surj_pair)
    from rep have "distinct (map fst (ws_deltas ws))" by (simp add: represents_def deltas_ok_def)
    with e x have "delta_of (ws_deltas ws) owner token = d" by (simp add: delta_of_def)
    with rep have "total S' owner token = stored_balance st owner token + d"
      by (simp add: represents_def deltas_ok_def)
    with assms(5) have "0 \<le> sint (stored_balance st owner token + d)" by metis
    from balance_total [OF assms(1) this] show ?thesis by (simp add: x)
  qed
  then obtain b1 where b1: "try_fold (write_balance st) (ws_batch ws) (ws_deltas ws) = Inr b1"
    using try_fold_total [of "ws_deltas ws" "write_balance st"] by blast
  obtain b2 where b2: "try_fold (apply_registration_event st (b_height block))
      (fold write_addr_txs (ws_touched ws) b1) (b_dust_registration_events block) = Inr b2"
    using try_fold_total [of "b_dust_registration_events block"
        "apply_registration_event st (b_height block)"] registration_total [OF assms(1)] by blast
  from ws b1 b2 assms(6) show ?thesis by (simp add: write_block_def Let_def)
qed


end
