(* ===== verification/IndexBlock.thy ===== *)
theory IndexBlock
  imports BlockTotal
begin

text \<open>
  The replay of one block (\<open>apply_transaction\<close>, \<open>index_block\<close>) and the stream of node blocks
  (\<open>node_blocks\<close>) of \<open>nightfrost-chain/src/pipeline.rs\<close>. \<open>index_block\<close> is cut where
  it first touches durable state: \<open>replay_block\<close> computes the new ledger state and the applied
  transactions and compares the roots, then the arena is persisted, then the batch is written.
  \<open>&mut\<close> arguments are returned; metrics, logging and the arena lock are left out.
\<close>

definition ctx :: "string \<Rightarrow> 'e + 'a \<Rightarrow> rust_error + 'a" where
  "ctx msg r = map_err (\<lambda>_. Fail msg) r"

lemma ctx_Inr_iff [result_simps]: "ctx msg r = Inr a \<longleftrightarrow> r = Inr a"
  by (simp add: ctx_def map_err_Inr_iff)

lemma ctx_Inr [simp]: "ctx msg (Inr a) = Inr a"
  by (simp add: ctx_def)

section \<open>One transaction\<close>

definition MEMPOOL_TBLOCK_BUMP_MILLIS :: u64 where
  "MEMPOOL_TBLOCK_BUMP_MILLIS = 2 * 6000"

definition is_malformed :: "LedgerError \<Rightarrow> bool" where
  "is_malformed e = (case e of MalformedTransaction \<Rightarrow> True | _ \<Rightarrow> False)"

definition contract_action_record ::
    "'ls ledger_ops \<Rightarrow> LedgerVersion \<Rightarrow> u64 \<Rightarrow> ContractAction \<Rightarrow>
       bytes \<times> ContractActionRecord \<times> bytes" where
  "contract_action_record L version block_height action =
     (let balances = (if ca_state action = [] then []
                      else case lo_contract_balances L (ca_state action) version of
                        Inr balances \<Rightarrow> balances | Inl _ \<Rightarrow> []);
          state_hash = (if ca_state action = [] then None else Some (lo_sha256 L (ca_state action)))
      in (ca_address action,
          \<lparr>ar_address = ca_address action, ar_attributes = ca_attributes action,
           ar_state_hash = state_hash, ar_balances = balances, ar_tx_id = 0,
           ar_block_height = block_height\<rparr>,
          ca_state action))"

definition apply_regular_with_retry ::
    "'ls ledger_ops \<Rightarrow> 'ls \<Rightarrow> RegularTransaction \<Rightarrow> Block \<Rightarrow> u64 \<Rightarrow> bool \<Rightarrow>
       rust_error + 'ls \<times> ApplyRegularTransactionOutcome" where
  "apply_regular_with_retry L ledger_state tx block parent_block_timestamp bump_tblock =
     (let well_formed_timestamp =
            (if bump_tblock then parent_block_timestamp + MEMPOOL_TBLOCK_BUMP_MILLIS
             else b_timestamp block);
          try = (\<lambda>t. lo_apply_regular L ledger_state (rt_raw tx) (b_parent_hash block)
                   (b_timestamp block) parent_block_timestamp t)
      in case try well_formed_timestamp of
           Inr outcome \<Rightarrow> Inr outcome
         | Inl e \<Rightarrow>
             (if is_malformed e \<and> bump_tblock
              then ctx ''apply regular transaction'' (try (b_timestamp block))
              else Inl (Fail ''apply regular transaction'')))"

fun apply_transaction ::
    "'ls ledger_ops \<Rightarrow> 'ls \<Rightarrow> Transaction \<Rightarrow> Block \<Rightarrow> u64 \<Rightarrow> bool \<Rightarrow>
       rust_error + 'ls \<times> AppliedTransaction" where
  "apply_transaction L ledger_state (RegularTx tx) block parent_block_timestamp bump_tblock =
     (let zswap_start_index = lo_zswap_first_free L ledger_state
      in and_then (apply_regular_with_retry L ledger_state tx block parent_block_timestamp bump_tblock)
        (\<lambda>(ledger_state, outcome).
           Inr (ledger_state,
             \<lparr>at_hash = rt_hash tx,
              at_protocol_version = u32_from (b_protocol_version block),
              at_zswap_start_index = zswap_start_index,
              at_zswap_end_index = lo_zswap_first_free L ledger_state,
              at_variant = Regular,
              at_result = ro_transaction_result outcome,
              at_fees = ro_fees outcome,
              at_identifiers = rt_identifiers tx,
              at_contract_actions =
                map (contract_action_record L (ledger_version (rt_protocol_version tx)) (b_height block))
                  (rt_contract_actions tx),
              at_created_utxos = ro_created_unshielded_utxos outcome,
              at_spent_utxos = ro_spent_unshielded_utxos outcome,
              at_ledger_events = ro_ledger_events outcome,
              at_raw = rt_raw tx\<rparr>)))"
| "apply_transaction L ledger_state (SystemTx tx) block parent_block_timestamp bump_tblock =
     (let zswap_start_index = lo_zswap_first_free L ledger_state
      in and_then (ctx ''apply system transaction''
                     (lo_apply_system L ledger_state (st_raw tx) (b_timestamp block)))
        (\<lambda>(ledger_state, outcome).
           Inr (ledger_state,
             \<lparr>at_hash = st_hash tx,
              at_protocol_version = u32_from (b_protocol_version block),
              at_zswap_start_index = zswap_start_index,
              at_zswap_end_index = lo_zswap_first_free L ledger_state,
              at_variant = System,
              at_result = Success,
              at_fees = 0,
              at_identifiers = [],
              at_contract_actions = [],
              at_created_utxos = so_created_unshielded_utxos outcome,
              at_spent_utxos = [],
              at_ledger_events = so_ledger_events outcome,
              at_raw = st_raw tx\<rparr>)))"

section \<open>One block\<close>

fun is_regular :: "Transaction \<Rightarrow> bool" where
  "is_regular (RegularTx _) = True"
| "is_regular (SystemTx _) = False"

text \<open>The loop over the transactions; the flag is \<open>first_regular\<close>.\<close>

fun apply_transactions ::
    "'ls ledger_ops \<Rightarrow> Block \<Rightarrow> u64 \<Rightarrow> 'ls \<times> bool \<times> AppliedTransaction list \<Rightarrow> Transaction \<Rightarrow>
       rust_error + 'ls \<times> bool \<times> AppliedTransaction list" where
  "apply_transactions L block parent_block_timestamp (ledger_state, first_regular, derived) transaction =
     and_then (apply_transaction L ledger_state transaction block parent_block_timestamp
                 (b_height block > 0 \<and> first_regular))
       (\<lambda>(ledger_state, applied).
          Inr (ledger_state, first_regular \<and> \<not> is_regular transaction, derived @ [applied]))"

definition initial_ledger_state ::
    "'ls ledger_ops \<Rightarrow> Block \<Rightarrow> 'ls \<Rightarrow> string \<Rightarrow> rust_error + 'ls" where
  "initial_ledger_state L block ledger_state network_id =
     (let v = ledger_version (b_protocol_version block)
      in if b_height block = 0 then ctx ''create ledger state'' (lo_new L network_id v)
         else ctx ''translate ledger state'' (lo_translate L ledger_state v))"

text \<open>The genesis cases: the state to apply to and, for a post-block-0 genesis, the state to go on
  from.\<close>

definition genesis_cases ::
    "'ls ledger_ops \<Rightarrow> Block \<Rightarrow> bytes option \<Rightarrow> 'ls \<Rightarrow> rust_error + 'ls \<times> 'ls option" where
  "genesis_cases L block genesis_ledger_state ledger_state =
     (if b_height block = 0 then
        and_then (ok_or (Fail ''genesis block without genesis ledger state'') genesis_ledger_state) (\<lambda>raw.
        and_then (ctx ''create ledger state from genesis''
                    (lo_from_genesis L raw (ledger_version (b_protocol_version block)))) (\<lambda>genesis_state.
        and_then (ctx ''genesis state root'' (lo_root L genesis_state)) (\<lambda>genesis_root.
        and_then (ok_or (Fail ''genesis block without ledger state root'') (b_ledger_state_root block))
          (\<lambda>node_root.
             if node_root = genesis_root then Inr (ledger_state, Some genesis_state)
             else Inr (genesis_state, None)))))
      else Inr (ledger_state, None))"

definition check_roots :: "'ls ledger_ops \<Rightarrow> Block \<Rightarrow> 'ls \<Rightarrow> rust_error + unit" where
  "check_roots L block ledger_state =
     and_then (ctx ''ledger state root'' (lo_root L ledger_state)) (\<lambda>ledger_state_root.
       if (case b_ledger_state_root block of None \<Rightarrow> False | Some root \<Rightarrow> root \<noteq> ledger_state_root)
       then Inl (Fail ''ledger state root mismatch'')
       else if lo_zswap_merkle_tree_root L ledger_state \<noteq> b_zswap_merkle_tree_root block
       then Inl (Fail ''zswap state root mismatch'')
       else Inr ())"

definition replay_block ::
    "'ls ledger_ops \<Rightarrow> Block \<Rightarrow> bytes option \<Rightarrow> 'ls \<Rightarrow> string \<Rightarrow> u64 \<Rightarrow>
       rust_error + 'ls \<times> AppliedTransaction list \<times> u64" where
  "replay_block L block genesis_ledger_state ledger_state network_id parent_block_timestamp =
     and_then (initial_ledger_state L block ledger_state network_id) (\<lambda>ledger_state.
     let parent_block_timestamp =
           (if parent_block_timestamp = 0 then b_timestamp block else parent_block_timestamp)
     in and_then (genesis_cases L block genesis_ledger_state ledger_state) (\<lambda>(ledger_state, genesis_state).
     and_then (try_fold (apply_transactions L block parent_block_timestamp) (ledger_state, True, [])
                 (b_transactions block)) (\<lambda>(ledger_state, _, derived).
     and_then (ctx ''finalize transaction application'' (lo_finalize L ledger_state (b_timestamp block)))
       (\<lambda>ledger_state.
     let ledger_state = (case genesis_state of Some g \<Rightarrow> g | None \<Rightarrow> ledger_state)
     in and_then (check_roots L block ledger_state) (\<lambda>_.
        Inr (ledger_state, derived, b_timestamp block))))))"

definition index_block ::
    "'ls ledger_ops \<Rightarrow> Store \<Rightarrow> Block \<Rightarrow> bytes option \<Rightarrow> 'ls \<Rightarrow> string \<Rightarrow> u64 \<Rightarrow>
       LedgerStateWindow \<Rightarrow> Counters \<Rightarrow> rust_error + Store \<times> Counters \<times> 'ls \<times> bytes \<times> u64" where
  "index_block L st block genesis_ledger_state ledger_state network_id parent_block_timestamp window ids =
     and_then (replay_block L block genesis_ledger_state ledger_state network_id parent_block_timestamp)
       (\<lambda>(ledger_state, derived, parent_block_timestamp).
     and_then (ctx ''persist ledger state'' (lo_persist L ledger_state)) (\<lambda>(ledger_state, ledger_state_key).
     and_then (ctx ''write block batch'' (write_block L st block derived ledger_state_key window ids))
       (\<lambda>(st, ids).
        Inr (st, ids, ledger_state, ledger_state_key, parent_block_timestamp))))"

section \<open>The stream of node blocks\<close>

definition expected_parent :: "BlockRef option \<Rightarrow> hash32" where
  "expected_parent highest_block = (case highest_block of Some b \<Rightarrow> br_hash b | None \<Rightarrow> 0)"

text \<open>One subscription: blocks are passed on until one has an unexpected parent.\<close>

fun follow ::
    "BlockRef option \<Rightarrow> ('e + Block) list \<Rightarrow> ('e + Block) list \<times> BlockRef option" where
  "follow highest_block [] = ([], highest_block)"
| "follow highest_block (Inl e # blocks) =
     (let (out, h) = follow highest_block blocks in (Inl e # out, h))"
| "follow highest_block (Inr block # blocks) =
     (if b_parent_hash block \<noteq> expected_parent highest_block then ([], highest_block)
      else let (out, h) = follow (Some (block_ref_from block)) blocks in (Inr block # out, h))"

text \<open>Subscriptions one after the other: \<open>finalized_blocks\<close> is a function of the highest block,
  a parameter. The endless loop is cut after the number of subscriptions given.\<close>

fun node_blocks ::
    "nat \<Rightarrow> (nat \<Rightarrow> BlockRef option \<Rightarrow> ('e + Block) list) \<Rightarrow> BlockRef option \<Rightarrow> ('e + Block) list" where
  "node_blocks 0 finalized_blocks highest_block = []"
| "node_blocks (Suc n) finalized_blocks highest_block =
     (let (out, h) = follow highest_block (finalized_blocks n highest_block)
      in out @ node_blocks n finalized_blocks h)"

end
