(* ===== verification/RegistrationFacts.thy ===== *)
theory RegistrationFacts
  imports BlockFacts
begin

text \<open>
  The cNIGHT registrations of a block. Each event updates the record that was in the store
  \<^emph>\<open>before\<close> the block, so of several events for one stake key and dust address only the last one
  has an effect. With at most one event per key this is the sequential meaning of the events; with
  two it can lose a deregistration or a registration.
\<close>

definition stored_registration ::
    "Store \<Rightarrow> u64 \<Rightarrow> DustRegistrationEvent \<Rightarrow> CnightRegistrationRecord" where
  "stored_registration st height ev =
     (case store_get st CnightRegistrations (registration_key ev) of
        Some (VRegistration r) \<Rightarrow> r | _ \<Rightarrow> fresh_registration ev height)"

text \<open>The meaning of a list of events: each sees the effect of those before it.\<close>

definition apply_in_order ::
    "u64 \<Rightarrow> DustRegistrationEvent \<Rightarrow> (bytes \<rightharpoonup> CnightRegistrationRecord)
       \<Rightarrow> (bytes \<rightharpoonup> CnightRegistrationRecord)" where
  "apply_in_order height ev m = m(registration_key ev \<mapsto> update_registration ev height
     (case m (registration_key ev) of Some r \<Rightarrow> r | None \<Rightarrow> fresh_registration ev height))"

definition registrations :: "Store \<Rightarrow> (bytes \<rightharpoonup> CnightRegistrationRecord)" where
  "registrations st = (\<lambda>k. case store_get st CnightRegistrations k of
     Some (VRegistration r) \<Rightarrow> Some r | _ \<Rightarrow> None)"

lemma stored_registration_alt:
  "stored_registration st h ev =
    (case registrations st (registration_key ev) of Some r \<Rightarrow> r | None \<Rightarrow> fresh_registration ev h)"
proof (cases "store_get st CnightRegistrations (registration_key ev)")
  case (Some v)
  then show ?thesis by (cases v) (simp_all add: stored_registration_def registrations_def)
qed (simp add: stored_registration_def registrations_def)

lemma registration_step:
  assumes "apply_registration_event st h b ev = Inr b'"
  shows "b' = batch_insert CnightRegistrations (registration_key ev)
    (VRegistration (update_registration ev h (stored_registration st h ev))) b"
  using assms
proof (cases "store_get st CnightRegistrations (registration_key ev)")
  case (Some v)
  with assms show ?thesis
    by (cases v) (simp_all add: apply_registration_event_def Let_def stored_registration_def
        get_decoded_def store_decode_def ok_or_def)
qed (use assms in \<open>simp add: apply_registration_event_def Let_def stored_registration_def
    get_decoded_def\<close>)

lemma registrations_view:
  assumes "try_fold (apply_registration_event st h) b evs = Inr b'"
  shows "store_get (commit st b') CnightRegistrations k =
    (if filter (\<lambda>e. registration_key e = k) evs = [] then store_get (commit st b) CnightRegistrations k
     else let e = last (filter (\<lambda>e. registration_key e = k) evs)
       in Some (VRegistration (update_registration e h (stored_registration st h e))))"
  using assms
proof (induction evs arbitrary: b' rule: rev_induct)
  case (snoc e evs)
  then obtain b1 where b1: "try_fold (apply_registration_event st h) b evs = Inr b1"
    "apply_registration_event st h b1 e = Inr b'"
    by (auto simp: try_fold_append result_simps)
  show ?case
    using snoc.IH [OF b1(1)] by (auto simp: registration_step [OF b1(2)] store_simps Let_def)
qed simp

lemma block_registrations:
  assumes "write_block L st block txs key window ids = Inr (st', ids')"
    and "contract_actions st = ContractActionsV2"
  shows "store_get st' CnightRegistrations k =
    (if filter (\<lambda>e. registration_key e = k) (b_dust_registration_events block) = []
     then store_get st CnightRegistrations k
     else let e = last (filter (\<lambda>e. registration_key e = k) (b_dust_registration_events block))
       in Some (VRegistration (update_registration e (b_height block)
            (stored_registration st (b_height block) e))))"
proof -
  obtain ws b1 b2 root where s:
    "try_fold (write_tx st block) (init_write_state ids) (enumerate 0 txs) = Inr ws"
    "try_fold (write_balance st) (ws_batch ws) (ws_deltas ws) = Inr b1"
    "try_fold (apply_registration_event st (b_height block)) (fold write_addr_txs (ws_touched ws) b1)
       (b_dust_registration_events block) = Inr b2"
    "lo_serialize_root L (b_zswap_merkle_tree_root block) = Inr root"
    "st' = commit st (block_tail block (next_tx_id ids) (length txs) root (ws_ids ws)
       (push_window window (key, stored_from (ledger_version (b_protocol_version block)))) b2)"
    "ids' = ws_ids ws"
    using write_block_stages [OF assms(1)] by blast
  note g = write_block_grows [OF s(1-3) assms(2)]
  have "store_get (commit st (fold write_addr_txs (ws_touched ws) b1)) CnightRegistrations k
      = store_get st CnightRegistrations k"
    using grows_view [OF g(1), of CnightRegistrations st k]
      grows_view [OF g(2), of CnightRegistrations st k]
      grows_view [OF g(3), of CnightRegistrations st k] by simp
  then show ?thesis
    using registrations_view [OF s(3), of k] by (simp add: s(5) block_tail_other)
qed

lemma registrations_block:
  assumes "write_block L st block txs key window ids = Inr (st', ids')"
    and "contract_actions st = ContractActionsV2"
  shows "registrations st' k =
    (case rev (filter (\<lambda>e. registration_key e = k) (b_dust_registration_events block)) of
       [] \<Rightarrow> registrations st k
     | e # _ \<Rightarrow> Some (update_registration e (b_height block)
         (case registrations st k of Some r \<Rightarrow> r | None \<Rightarrow> fresh_registration e (b_height block))))"
proof (cases "rev (filter (\<lambda>e. registration_key e = k) (b_dust_registration_events block))")
  case Nil
  then show ?thesis by (simp add: registrations_def block_registrations [OF assms])
next
  case (Cons e es)
  then have es: "filter (\<lambda>e. registration_key e = k) (b_dust_registration_events block) = rev es @ [e]"
    by (simp add: rev_eq_Cons_iff)
  then have "registration_key e = k"
    by (metis (mono_tags, lifting) in_set_conv_decomp mem_Collect_eq set_filter)
  then have "stored_registration st (b_height block) e =
      (case registrations st k of Some r \<Rightarrow> r | None \<Rightarrow> fresh_registration e (b_height block))"
    by (simp add: stored_registration_alt)
  then show ?thesis
    unfolding Cons by (simp add: registrations_def [of st'] block_registrations [OF assms] es Let_def)
qed

text \<open>
  C15. Registrations, one event per key. When a block holds at most one registration event for each
  pair of stake key and dust address, the registrations after the block are those before it with
  the events applied one after the other: a registration or a mapping makes the pair valid, a
  deregistration records the height it was removed at.
\<close>

theorem registrations_in_order:
  assumes "write_block L st block txs key window ids = Inr (st', ids')"
    and "contract_actions st = ContractActionsV2"
    and "distinct (map registration_key (b_dust_registration_events block))"
  shows "registrations st'
    = fold (apply_in_order (b_height block)) (b_dust_registration_events block) (registrations st)"
proof
  fix k
  let ?evs = "b_dust_registration_events block" and ?h = "b_height block"
  have spec: "fold (apply_in_order ?h) evs m k =
      (case filter (\<lambda>e. registration_key e = k) evs of
         [] \<Rightarrow> m k
       | e # _ \<Rightarrow> Some (update_registration e ?h (case m k of Some r \<Rightarrow> r | None \<Rightarrow> fresh_registration e ?h)))"
    if "distinct (map registration_key evs)" for evs m
    using that
  proof (induction evs arbitrary: m)
    case (Cons e evs)
    have none: "filter (\<lambda>e. registration_key e = k) evs = []" if "registration_key e = k"
      using Cons.prems that by (auto simp: filter_empty_conv) (metis imageI)
    show ?case
      using Cons none by (auto simp: apply_in_order_def split: list.splits)
  qed simp
  show "registrations st' k = fold (apply_in_order ?h) ?evs (registrations st) k"
  proof (cases "filter (\<lambda>e. registration_key e = k) ?evs")
    case Nil
    then show ?thesis
      by (simp add: spec [OF assms(3)] registrations_block [OF assms(1,2)])
  next
    case (Cons e es)
    have "distinct (map registration_key (e # es))"
      using assms(3) distinct_map_filter [of registration_key ?evs] by (simp flip: Cons)
    moreover have "\<forall>e \<in> set (e # es). registration_key e = k"
      using Cons by (metis (mono_tags, lifting) mem_Collect_eq set_filter)
    ultimately have "es = []" by (cases es) auto
    with Cons show ?thesis
      by (simp add: spec [OF assms(3)] registrations_block [OF assms(1,2)])
  qed
qed

text \<open>
  C16. A lost deregistration. When a block deregisters a pair that is valid in the store and
  then removes its mapping, the record after the block is still valid and has no removal height:
  the second event starts from the record before the block, not from the one the first event wrote.
\<close>

theorem deregistration_lost:
  assumes "write_block L st block txs key window ids = Inr (st', ids')"
    and "contract_actions st = ContractActionsV2"
    and "b_dust_registration_events block = [Deregistration sk da, MappingRemoved sk da utxo_id i]"
    and "registrations st (bytes29_bytes sk @ da) = Some r" and "cn_valid r"
    and "cn_removed_at_height r = None"
  shows "\<exists>r'. registrations st' (bytes29_bytes sk @ da) = Some r' \<and> cn_valid r'
    \<and> cn_removed_at_height r' = None
    \<and> (\<exists>m. fold (apply_in_order (b_height block)) (b_dust_registration_events block)
             (registrations st) (bytes29_bytes sk @ da) = Some m \<and> \<not> cn_valid m
          \<and> cn_removed_at_height m = Some (b_height block))"
  using assms(4-6)
  by (simp add: registrations_block [OF assms(1,2)] assms(3) registration_key_def apply_in_order_def)

end
