(* ===== verification/IndexFacts.thy ===== *)
theory IndexFacts
  imports IndexBlock RegistrationFacts
begin

text \<open>
  What the replay of a block guarantees: the roots guard, which time a transaction is judged at,
  the shape of the applied transactions, the invariants of the store over \<open>index_block\<close>, and
  that the stream of node blocks is a hash chain.
\<close>

section \<open>The transactions of a block, one after the other\<close>

lemma apply_transactions_Inr:
  "apply_transactions L block pts (ls, fr, ds) t = Inr s' \<longleftrightarrow>
    (\<exists>ls' a. apply_transaction L ls t block pts (b_height block > 0 \<and> fr) = Inr (ls', a)
      \<and> s' = (ls', fr \<and> \<not> is_regular t, ds @ [a]))"
  by (auto simp: result_simps)

lemma first_regular_flag:
  assumes "try_fold (apply_transactions L block pts) (ls, fr, ds) ts = Inr (ls', fr', ds')"
  shows "fr' \<longleftrightarrow> fr \<and> \<not> list_ex is_regular ts" and "length ds' = length ds + length ts"
    and "take (length ds) ds' = ds"
  using assms
proof (induction ts arbitrary: ls fr ds)
  case (Cons t ts)
  {
    case 1
    with Cons.IH(1) show ?case by (auto simp: and_then_Inr_iff apply_transactions_Inr
          simp del: apply_transactions.simps)
  next
    case 2
    with Cons.IH(2) show ?case by (fastforce simp: and_then_Inr_iff apply_transactions_Inr
          simp del: apply_transactions.simps)
  next
    case 3
    then obtain ls1 a where *:
      "try_fold (apply_transactions L block pts) (ls1, fr \<and> \<not> is_regular t, ds @ [a]) ts = Inr (ls', fr', ds')"
      by (auto simp: and_then_Inr_iff apply_transactions_Inr simp del: apply_transactions.simps)
    from Cons.IH(3) [OF *] Cons.IH(2) [OF *] show ?case
      by (metis append_eq_conv_conj append_take_drop_id length_append take_take min.absorb1
          le_add1 take_append)
  }
qed simp_all

lemma replayed_transaction:
  assumes "try_fold (apply_transactions L block pts) (ls, True, []) (pre @ t # post) = Inr (ls', fr', ds')"
  shows "\<exists>ls1 ls2 a. apply_transaction L ls1 t block pts
      (b_height block > 0 \<and> \<not> list_ex is_regular pre) = Inr (ls2, a) \<and> ds' ! length pre = a"
proof -
  obtain ls1 fr1 ds1 where 1: "try_fold (apply_transactions L block pts) (ls, True, []) pre = Inr (ls1, fr1, ds1)"
    and rest: "try_fold (apply_transactions L block pts) (ls1, fr1, ds1) (t # post) = Inr (ls', fr', ds')"
    using assms unfolding try_fold_append by (auto elim!: and_then_InrE)
  obtain ls2 a where 2: "apply_transaction L ls1 t block pts (b_height block > 0 \<and> fr1) = Inr (ls2, a)"
    and 3: "try_fold (apply_transactions L block pts) (ls2, fr1 \<and> \<not> is_regular t, ds1 @ [a]) post
      = Inr (ls', fr', ds')"
    using rest by (auto simp: and_then_Inr_iff apply_transactions_Inr simp del: apply_transactions.simps)
  have len: "length ds1 = length pre" and fr: "fr1 \<longleftrightarrow> \<not> list_ex is_regular pre"
    using first_regular_flag [OF 1] by simp_all
  have "ds' ! length pre = (ds1 @ [a]) ! length pre"
    using first_regular_flag(3) [OF 3] len by (metis length_append_singleton lessI nth_take)
  also have "\<dots> = a" using len by (simp flip: len)
  finally show ?thesis using 2 fr by auto
qed

text \<open>The stages of a successful replay.\<close>

lemma replay_stages:
  assumes "replay_block L block g ls net pts = Inr (ls', derived, ts)"
  obtains ls0 ls1 gs ls2 fr ls3 pts' where
    "initial_ledger_state L block ls net = Inr ls0"
    "pts' = (if pts = 0 then b_timestamp block else pts)"
    "genesis_cases L block g ls0 = Inr (ls1, gs)"
    "try_fold (apply_transactions L block pts') (ls1, True, []) (b_transactions block) = Inr (ls2, fr, derived)"
    "lo_finalize L ls2 (b_timestamp block) = Inr ls3"
    "ls' = (case gs of Some s \<Rightarrow> s | None \<Rightarrow> ls3)"
    "check_roots L block ls' = Inr ()" "ts = b_timestamp block"
  using assms by (auto simp: replay_block_def Let_def result_simps split: prod.splits)

lemma replay_length:
  "replay_block L block g ls net pts = Inr (ls', derived, ts) \<Longrightarrow>
    length derived = length (b_transactions block)"
  by (elim replay_stages) (auto dest: first_regular_flag(2))

text \<open>What every applied transaction says about its source.\<close>

fun transaction_hash :: "Transaction \<Rightarrow> hash32" where
  "transaction_hash (RegularTx tx) = rt_hash tx"
| "transaction_hash (SystemTx tx) = st_hash tx"

fun transaction_raw :: "Transaction \<Rightarrow> bytes" where
  "transaction_raw (RegularTx tx) = rt_raw tx"
| "transaction_raw (SystemTx tx) = st_raw tx"

lemma applied_fields:
  assumes "apply_transaction L ls t block pts bump = Inr (ls', a)"
  shows "at_hash a = transaction_hash t" "at_raw a = transaction_raw t"
    "at_variant a = (if is_regular t then Regular else System)"
    "\<forall>x \<in> set (at_contract_actions a). wf_action (lo_sha256 L) x"
    "at_zswap_start_index a = lo_zswap_first_free L ls"
    "at_zswap_end_index a = lo_zswap_first_free L ls'"
  using assms
  by (cases t; auto simp: Let_def result_simps wf_action_def contract_action_record_def)+

lemma applied_actions_length:
  "apply_transaction L ls t block pts bump = Inr (ls', a) \<Longrightarrow>
    length (at_contract_actions a)
      = (case t of RegularTx tx \<Rightarrow> length (rt_contract_actions tx) | SystemTx _ \<Rightarrow> 0)"
  by (cases t) (auto simp: Let_def result_simps)

lemma replayed_nth:
  assumes "replay_block L block g ls net pts = Inr (ls', derived, ts)" and "i < length (b_transactions block)"
  shows "\<exists>ls1 ls2 pts'. apply_transaction L ls1 (b_transactions block ! i) block pts'
      (b_height block > 0 \<and> \<not> list_ex is_regular (take i (b_transactions block))) = Inr (ls2, derived ! i)"
proof -
  obtain ls1 ls2 fr pts' where
    "try_fold (apply_transactions L block pts') (ls1, True, []) (b_transactions block) = Inr (ls2, fr, derived)"
    using replay_stages [OF assms(1)] by metis
  then show ?thesis
    using replayed_transaction [of L block pts' ls1 "take i (b_transactions block)"
        "b_transactions block ! i" "drop (Suc i) (b_transactions block)" ls2 fr derived]
    by (simp add: id_take_nth_drop [OF assms(2), symmetric] assms(2) min_absorb2 less_imp_le) blast
qed

lemma replayed_wf:
  assumes "replay_block L block g ls net pts = Inr (ls', derived, ts)"
  shows "\<forall>a \<in> set derived. \<forall>x \<in> set (at_contract_actions a). wf_action (lo_sha256 L) x"
  using replayed_nth [OF assms] replay_length [OF assms] applied_fields(4)
  by (fastforce simp: in_set_conv_nth)

section \<open>The guard\<close>

lemma index_block_stages:
  assumes "index_block L st block g ls net pts window ids = Inr (st', ids', ls', key, ts)"
  obtains ls1 derived where
    "replay_block L block g ls net pts = Inr (ls1, derived, ts)"
    "lo_persist L ls1 = Inr (ls', key)"
    "write_block L st block derived key window ids = Inr (st', ids')"
  using assms by (auto simp: index_block_def result_simps)

lemma check_roots_Inr:
  "check_roots L block ls = Inr () \<longleftrightarrow> (\<exists>root. lo_root L ls = Inr root
    \<and> (\<forall>r. b_ledger_state_root block = Some r \<longrightarrow> r = root)
    \<and> lo_zswap_merkle_tree_root L ls = b_zswap_merkle_tree_root block)"
  by (auto simp: check_roots_def result_simps split: option.splits if_splits)

text \<open>
  C6. The root guard. A block is persisted and written only when the roots recomputed by the
  replay are the node's: the ledger state handed to \<open>persist\<close> has the block's ledger-state root
  (when the block carries one) and its zswap root. A replay that ends in different roots makes
  \<open>index_block\<close> fail, with nothing written.
\<close>

theorem index_block_guarded:
  "index_block L st block g ls net pts window ids = Inr (st', ids', ls', key, ts) \<longrightarrow>
    (\<exists>ls1 derived root. replay_block L block g ls net pts = Inr (ls1, derived, ts)
      \<and> lo_persist L ls1 = Inr (ls', key) \<and> lo_root L ls1 = Inr root
      \<and> (\<forall>r. b_ledger_state_root block = Some r \<longrightarrow> r = root)
      \<and> lo_zswap_merkle_tree_root L ls1 = b_zswap_merkle_tree_root block
      \<and> write_block L st block derived key window ids = Inr (st', ids') \<and> ts = b_timestamp block)"
proof
  assume "index_block L st block g ls net pts window ids = Inr (st', ids', ls', key, ts)"
  then obtain ls1 derived where *: "replay_block L block g ls net pts = Inr (ls1, derived, ts)"
    "lo_persist L ls1 = Inr (ls', key)" "write_block L st block derived key window ids = Inr (st', ids')"
    by (rule index_block_stages)
  from *(1) have "check_roots L block ls1 = Inr ()" "ts = b_timestamp block"
    by (auto elim: replay_stages)
  with * show "\<exists>ls1 derived root. replay_block L block g ls net pts = Inr (ls1, derived, ts)
      \<and> lo_persist L ls1 = Inr (ls', key) \<and> lo_root L ls1 = Inr root
      \<and> (\<forall>r. b_ledger_state_root block = Some r \<longrightarrow> r = root)
      \<and> lo_zswap_merkle_tree_root L ls1 = b_zswap_merkle_tree_root block
      \<and> write_block L st block derived key window ids = Inr (st', ids') \<and> ts = b_timestamp block"
    unfolding check_roots_Inr by blast
qed

section \<open>The time a transaction is judged at\<close>

text \<open>
  C22. The bump of the mempool time and its retry. Without the bump a regular transaction is
  applied once, at the block's own time. With it, it is first judged at the parent block's time plus
  two slots; only when that verdict is \<open>MalformedTransaction\<close> is it judged again at the block's
  time, and every other error is final. In a block, only the first regular transaction of a block
  above genesis is bumped, whatever system transactions come before it.
\<close>

theorem bump_and_retry:
  "(let try = (\<lambda>t. lo_apply_regular L ls (rt_raw tx) (b_parent_hash block) (b_timestamp block) pts t)
    in apply_regular_with_retry L ls tx block pts False
        = ctx ''apply regular transaction'' (try (b_timestamp block))
      \<and> apply_regular_with_retry L ls tx block pts True
        = ctx ''apply regular transaction''
            (if try (pts + 12000) = Inl MalformedTransaction then try (b_timestamp block)
             else try (pts + 12000)))
   \<and> (replay_block L block g ls0 net pts0 = Inr (ls', derived, ts) \<longrightarrow>
      (\<forall>i < length (b_transactions block). \<exists>ls1 ls2 pts'.
         apply_transaction L ls1 (b_transactions block ! i) block pts'
           (b_height block > 0 \<and> \<not> list_ex is_regular (take i (b_transactions block)))
         = Inr (ls2, derived ! i)))"
  using replayed_nth [of L block g ls0 net pts0 ls' derived ts]
  by (auto simp: apply_regular_with_retry_def MEMPOOL_TBLOCK_BUMP_MILLIS_def is_malformed_def ctx_def
      Let_def split: sum.splits LedgerError.splits)

section \<open>The store after indexing a block\<close>

text \<open>
  Indexing preserves the invariants of the store. On a well-typed store at the current
  schema whose contract pointers and blobs are sound for SHA-256, \<open>index_block\<close> leaves such a
  store: the condition that actions carry the hash of their state, needed by the writer, is
  established by the replay itself.
\<close>

theorem index_block_invariants:
  assumes "index_block L st block g ls net pts window ids = Inr (st', ids', ls', key, ts)"
    and "store_ok st" and "schema st = SCHEMA_CURRENT"
    and "actions_ok (lo_sha256 L) st (next_action_id ids)"
    and "unat (next_action_id ids)
      + sum_list (map (\<lambda>t. case t of RegularTx tx \<Rightarrow> length (rt_contract_actions tx) | SystemTx _ \<Rightarrow> 0)
          (b_transactions block)) < 2 ^ 64"
  shows "store_ok st' \<and> schema st' = SCHEMA_CURRENT \<and> actions_ok (lo_sha256 L) st' (next_action_id ids')"
proof -
  obtain ls1 derived where *: "replay_block L block g ls net pts = Inr (ls1, derived, ts)"
    "write_block L st block derived key window ids = Inr (st', ids')"
    using assms(1) by (rule index_block_stages)
  have current: "contract_actions st = ContractActionsV2"
    using assms(2,3) by (simp add: store_ok_def SCHEMA_CURRENT_def)
  have len: "length derived = length (b_transactions block)" by (rule replay_length [OF *(1)])
  have "map (\<lambda>a. length (at_contract_actions a)) derived
      = map (\<lambda>t. case t of RegularTx tx \<Rightarrow> length (rt_contract_actions tx) | SystemTx _ \<Rightarrow> 0)
          (b_transactions block)"
  proof (rule nth_equalityI)
    fix i assume "i < length (map (\<lambda>a. length (at_contract_actions a)) derived)"
    then have i: "i < length (b_transactions block)" by (simp add: len)
    then obtain ls1 ls2 pts' b where
      "apply_transaction L ls1 (b_transactions block ! i) block pts' b = Inr (ls2, derived ! i)"
      using replayed_nth [OF *(1)] by blast
    with i len show "map (\<lambda>a. length (at_contract_actions a)) derived ! i
        = map (\<lambda>t. case t of RegularTx tx \<Rightarrow> length (rt_contract_actions tx) | SystemTx _ \<Rightarrow> 0)
          (b_transactions block) ! i"
      by (simp add: applied_actions_length)
  qed (simp add: len)
  with assms(5) have "unat (next_action_id ids) + count_actions derived < 2 ^ 64"
    by (simp add: count_actions_def)
  then have "actions_ok (lo_sha256 L) st' (next_action_id ids')"
    by (rule block_contracts [OF *(2) current assms(4) replayed_wf [OF *(1)]])
  with block_typed [OF assms(2,3) *(2)] show ?thesis by simp
qed

section \<open>The stream of node blocks\<close>

fun linked :: "hash32 \<Rightarrow> Block list \<Rightarrow> bool" where
  "linked h [] = True"
| "linked h (b # bs) = (b_parent_hash b = h \<and> linked (b_hash b) bs)"

definition blocks_of :: "('e + Block) list \<Rightarrow> Block list" where
  "blocks_of rs = List.map_filter (\<lambda>r. case r of Inr b \<Rightarrow> Some b | Inl _ \<Rightarrow> None) rs"

lemma blocks_of_simps [simp]:
  "blocks_of [] = []" "blocks_of (Inl e # rs) = blocks_of rs" "blocks_of (Inr b # rs) = b # blocks_of rs"
  "blocks_of (rs @ rs') = blocks_of rs @ blocks_of rs'"
  by (simp_all add: blocks_of_def List.map_filter_def)

lemma linked_append:
  "linked h (bs @ cs) \<longleftrightarrow> linked h bs \<and> linked (if bs = [] then h else b_hash (last bs)) cs"
  by (induction bs arbitrary: h) auto

lemma follow_linked:
  assumes "follow h rs = (out, h')"
  shows "linked (expected_parent h) (blocks_of out)
    \<and> expected_parent h' = (if blocks_of out = [] then expected_parent h else b_hash (last (blocks_of out)))"
  using assms
proof (induction h rs arbitrary: out h' rule: follow.induct)
  case (3 h b rs)
  show ?case
  proof (cases "b_parent_hash b = expected_parent h")
    case True
    obtain out1 h1 where f: "follow (Some (block_ref_from b)) rs = (out1, h1)" by fastforce
    with 3 True have "out = Inr b # out1" "h' = h1" by auto
    moreover have "expected_parent (Some (block_ref_from b)) = b_hash b"
      by (simp add: expected_parent_def block_ref_from_def)
    ultimately show ?thesis using "3.IH" [OF _ f] True by simp
  qed (use 3 in simp)
qed (auto split: prod.splits)

text \<open>
  No gaps, duplicates or forks. Whatever the node's subscriptions deliver, the blocks that
  \<open>node_blocks\<close> yields form a hash chain from the block it resumes from: each one's parent is
  the block yielded before it, across re-subscriptions.
\<close>

theorem node_blocks_linked:
  "linked (expected_parent highest_block) (blocks_of (node_blocks n finalized_blocks highest_block))"
proof (induction n finalized_blocks highest_block rule: node_blocks.induct)
  case (2 n fb h)
  obtain out h' where f: "follow h (fb n h) = (out, h')" by fastforce
  with 2 [OF f [symmetric] refl] follow_linked [OF f] show ?case by (simp add: linked_append)
qed simp

end
