(* ===== verification/LedgerDb.thy ===== *)
theory LedgerDb
  imports StoreFacts
begin

text \<open>
  The ledger database (\<open>nightfrost-core/src/ledger_db.rs\<close>): the \<open>DB\<close> trait of the arena,
  over the node and root-count partitions of the store. An arena hash is its bytes; the encoding of
  nodes and hashes by midnight-storage-core is the parameter \<open>arena_codec\<close>.
\<close>

record 'o arena_codec =
  ac_serialize :: "'o \<Rightarrow> bytes"
  ac_deserialize :: "bytes \<Rightarrow> 'o option"
  ac_hash :: "bytes \<Rightarrow> bytes option"

definition deserialize_object :: "'o arena_codec \<Rightarrow> store_value \<Rightarrow> rust_error + 'o" where
  "deserialize_object C v =
     ok_or (Panic ''cannot deserialize OnDiskObject'')
       (case as_raw v of None \<Rightarrow> None | Some bs \<Rightarrow> ac_deserialize C bs)"

definition deserialize_hash :: "'o arena_codec \<Rightarrow> bytes \<Rightarrow> rust_error + bytes" where
  "deserialize_hash C k = ok_or (Panic ''cannot deserialize ArenaHash'') (ac_hash C k)"

definition disk_get :: "Disk \<Rightarrow> part_id \<Rightarrow> bytes \<Rightarrow> store_value option" where
  "disk_get d p k = ks_get (keyspace d) p k"

definition disk_remove :: "part_id \<Rightarrow> bytes \<Rightarrow> Disk \<Rightarrow> Disk" where
  "disk_remove p k d = d\<lparr>keyspace := (keyspace d)(p := part_remove k (keyspace d p))\<rparr>"

definition disk_commit :: "Disk \<Rightarrow> (part_id, store_value) batch \<Rightarrow> Disk" where
  "disk_commit d b = d\<lparr>keyspace := batch_commit (keyspace d) b\<rparr>"

section \<open>The operations of the trait\<close>

definition get_node :: "'o arena_codec \<Rightarrow> Disk \<Rightarrow> bytes \<Rightarrow> rust_error + 'o option" where
  "get_node C d key =
     (case disk_get d LedgerDbNodes key of
        None \<Rightarrow> Inr None
      | Some v \<Rightarrow> and_then (deserialize_object C v) (\<lambda>o1. Inr (Some o1)))"

definition insert_node :: "'o arena_codec \<Rightarrow> bytes \<Rightarrow> 'o \<Rightarrow> Disk \<Rightarrow> Disk" where
  "insert_node C key object d = disk_insert LedgerDbNodes key (Raw (ac_serialize C object)) d"

definition delete_node :: "bytes \<Rightarrow> Disk \<Rightarrow> Disk" where
  "delete_node key d = disk_remove LedgerDbNodes key d"

datatype 'o update = InsertNode 'o | DeleteNode | SetRootCount u32

definition count_value :: "u32 \<Rightarrow> store_value" where
  "count_value count = Raw (u32_to_be_bytes count)"

fun update_item ::
    "'o arena_codec \<Rightarrow> bytes \<times> 'o update \<Rightarrow> (part_id, store_value) batch \<Rightarrow>
       (part_id, store_value) batch" where
  "update_item C (key, InsertNode object) batch =
     batch_insert LedgerDbNodes key (Raw (ac_serialize C object)) batch"
| "update_item C (key, DeleteNode) batch = batch_remove LedgerDbNodes key batch"
| "update_item C (key, SetRootCount count) batch =
     (if count = 0 then batch_remove LedgerDbRoots key batch
      else batch_insert LedgerDbRoots key (count_value count) batch)"

definition batch_update :: "'o arena_codec \<Rightarrow> (bytes \<times> 'o update) list \<Rightarrow> Disk \<Rightarrow> Disk" where
  "batch_update C updates d = disk_commit d (fold (update_item C) updates [])"

definition batch_get_nodes ::
    "'o arena_codec \<Rightarrow> Disk \<Rightarrow> bytes list \<Rightarrow> rust_error + (bytes \<times> 'o option) list" where
  "batch_get_nodes C d keys =
     try_map (\<lambda>key. and_then (get_node C d key) (\<lambda>node. Inr (key, node))) keys"

definition decode_count :: "string \<Rightarrow> store_value \<Rightarrow> rust_error + u32" where
  "decode_count msg v =
     and_then (ok_or (Panic msg) (as_raw v)) (\<lambda>bs. ok_or (Panic msg) (u32_from_be_bytes bs))"

definition get_root_count :: "Disk \<Rightarrow> bytes \<Rightarrow> rust_error + u32" where
  "get_root_count d key =
     (case disk_get d LedgerDbRoots key of
        None \<Rightarrow> Inr 0
      | Some v \<Rightarrow> decode_count ''4-byte root count'' v)"

definition set_root_count :: "bytes \<Rightarrow> u32 \<Rightarrow> Disk \<Rightarrow> Disk" where
  "set_root_count key count d =
     (if count > 0 then disk_insert LedgerDbRoots key (count_value count) d
      else disk_remove LedgerDbRoots key d)"

definition get_roots :: "'o arena_codec \<Rightarrow> Disk \<Rightarrow> rust_error + (bytes \<times> u32) list" where
  "get_roots C d =
     try_map (\<lambda>(key, v). and_then (decode_count ''4-byte count'' v) (\<lambda>count.
                and_then (deserialize_hash C key) (\<lambda>hash. Inr (hash, count))))
       (part_iter (keyspace d LedgerDbRoots))"

text \<open>One page of nodes in key order from after the handle, and the handle of the next page.\<close>

definition scan ::
    "'o arena_codec \<Rightarrow> Disk \<Rightarrow> bytes option \<Rightarrow> nat \<Rightarrow>
       rust_error + (bytes \<times> 'o) list \<times> bytes option" where
  "scan C d resume_from batch_size =
     (let lower = (case resume_from of Some handle \<Rightarrow> Excluded handle | None \<Rightarrow> Unbounded)
      in and_then
        (try_map (\<lambda>(key, v). and_then (deserialize_hash C key) (\<lambda>hash.
                    and_then (deserialize_object C v) (\<lambda>object. Inr (hash, object))))
           (take batch_size (part_range (keyspace d LedgerDbNodes) lower Unbounded)))
        (\<lambda>batch. Inr (batch, if batch = [] then None else Some (fst (last batch)))))"

section \<open>Reading back what was written\<close>

lemma disk_get_insert [store_simps]:
  "disk_get (disk_insert p k v d) q j = (if q = p \<and> j = k then Some v else disk_get d q j)"
  by (simp add: disk_get_def ks_get_disk_insert)

lemma disk_get_remove [store_simps]:
  "disk_get (disk_remove p k d) q j = (if q = p \<and> j = k then None else disk_get d q j)"
  by (auto simp: disk_get_def disk_remove_def ks_get_def part_get_remove)

lemma disk_get_commit: "disk_get (disk_commit d b) p k = ks_get (batch_commit (keyspace d) b) p k"
  by (simp add: disk_get_def disk_commit_def)

lemma disk_commit_Nil [simp]: "disk_commit d [] = d"
  by (simp add: disk_commit_def)

lemma decode_count_value [simp]: "decode_count msg (count_value n) = Inr n"
  by (simp add: decode_count_def count_value_def)

text \<open>
  Root counts are counts. After \<open>set_root_count\<close>, also when it goes through
  \<open>batch_update\<close>, \<open>get_root_count\<close> returns the count that was set and not the
  existence of the row; a count of zero deletes the row; other keys and all nodes are unaffected.
\<close>

lemma set_root_count_view:
  "disk_get (set_root_count key n d) p k =
    (if p = LedgerDbRoots \<and> k = key then (if n = 0 then None else Some (count_value n))
     else disk_get d p k)"
  by (auto simp: set_root_count_def store_simps word_gt_0)

lemma batch_set_root_count:
  "disk_get (batch_update C [(key, SetRootCount n)] d) p k = disk_get (set_root_count key n d) p k"
  by (auto simp: batch_update_def disk_get_commit store_simps set_root_count_view)
    (auto simp: disk_get_def)

theorem root_count_roundtrip:
  "get_root_count (set_root_count key n d) key = Inr n
    \<and> get_root_count (batch_update C [(key, SetRootCount n)] d) key = Inr n
    \<and> (disk_get (set_root_count key n d) LedgerDbRoots key = None \<longleftrightarrow> n = 0)
    \<and> (\<forall>k. k \<noteq> key \<longrightarrow> get_root_count (set_root_count key n d) k = get_root_count d k)
    \<and> (\<forall>k. get_node C (set_root_count key n d) k = get_node C d k)"
  by (simp add: get_root_count_def get_node_def batch_set_root_count set_root_count_view)

section \<open>Paging through the nodes\<close>

text \<open>The loop of a full sweep: pages until an empty one; the fuel bounds the number of pages.\<close>

fun scan_all ::
    "nat \<Rightarrow> 'o arena_codec \<Rightarrow> Disk \<Rightarrow> nat \<Rightarrow> bytes option \<Rightarrow> rust_error + (bytes \<times> 'o) list option" where
  "scan_all 0 C d n resume = Inr None"
| "scan_all (Suc fuel) C d n resume =
     and_then (scan C d resume n) (\<lambda>(batch, handle).
       if batch = [] then Inr (Some [])
       else and_then (scan_all fuel C d n handle) (\<lambda>rest. Inr (map_option (\<lambda>r. batch @ r) rest)))"

lemma range_after:
  assumes "part_ok (pre @ post)" and "pre \<noteq> []"
  shows "part_range (pre @ post) (Excluded (fst (last pre))) Unbounded = post"
proof -
  obtain ys y where pre: "pre = ys @ [y]" using assms(2) by (metis rev_exhaust)
  have "sorted_wrt (<) (map fst (ys @ [y] @ post))" using assms(1) by (simp add: part_ok_def pre)
  then have "\<forall>x \<in> set (ys @ [y]). \<not> fst y < fst x" "\<forall>x \<in> set post. fst y < fst x"
    by (auto simp: sorted_wrt_append dest: order.asym)
  then have "filter (\<lambda>(k, v). fst y < k) (ys @ [y]) = []" "filter (\<lambda>(k, v). fst y < k) post = post"
    by (auto simp: filter_empty_conv filter_id_conv)
  then show ?thesis by (simp add: part_range_def pre case_prod_beta)
qed

definition codec_ok :: "'o arena_codec \<Rightarrow> Disk \<Rightarrow> (store_value \<Rightarrow> 'o) \<Rightarrow> bool" where
  "codec_ok C d obj = (part_ok (keyspace d LedgerDbNodes)
     \<and> (\<forall>(k, v) \<in> set (keyspace d LedgerDbNodes). ac_hash C k = Some k
          \<and> deserialize_object C v = Inr (obj v)))"

lemma scan_page:
  assumes "codec_ok C d obj" and "keyspace d LedgerDbNodes = pre @ post"
    and "resume = (if pre = [] then None else Some (fst (last pre)))"
  shows "scan C d resume n = Inr (map (\<lambda>(k, v). (k, obj v)) (take n post),
    if take n post = [] then None else Some (fst (last (take n post))))"
proof -
  have ok: "part_ok (pre @ post)" using assms(1,2) by (simp add: codec_ok_def)
  have page: "part_range (keyspace d LedgerDbNodes)
      (case resume of Some handle \<Rightarrow> Excluded handle | None \<Rightarrow> Unbounded) Unbounded = post"
    using range_after [OF ok] assms(2,3) by (simp add: part_range_def)
  have "try_map (\<lambda>(key, v). and_then (deserialize_hash C key) (\<lambda>hash.
      and_then (deserialize_object C v) (\<lambda>object. Inr (hash, object)))) (take n post)
    = Inr (map (\<lambda>(k, v). (k, obj v)) (take n post))"
  proof (rule try_map_total)
    fix x assume "x \<in> set (take n post)"
    then have "x \<in> set (keyspace d LedgerDbNodes)" using assms(2) by (auto dest: in_set_takeD)
    with assms(1) show "(case x of (key, v) \<Rightarrow> and_then (deserialize_hash C key) (\<lambda>hash.
        and_then (deserialize_object C v) (\<lambda>object. Inr (hash, object))))
        = Inr (case x of (k, v) \<Rightarrow> (k, obj v))"
      by (auto simp: codec_ok_def deserialize_hash_def)
  qed
  then show ?thesis by (simp add: scan_def page last_map case_prod_beta)
qed

lemma scan_all_pages:
  assumes "codec_ok C d obj" and "0 < n"
    and "keyspace d LedgerDbNodes = pre @ post" and "length post < fuel"
    and "resume = (if pre = [] then None else Some (fst (last pre)))"
  shows "scan_all fuel C d n resume = Inr (Some (map (\<lambda>(k, v). (k, obj v)) post))"
  using assms(3-)
proof (induction fuel arbitrary: pre post resume)
  case (Suc fuel)
  show ?case
  proof (cases "post = []")
    case True
    then show ?thesis using scan_page [OF assms(1) Suc.prems(1,3)] by simp
  next
    case False
    let ?page = "take n post"
    have page: "?page \<noteq> []" using False assms(2) by simp
    have "scan_all fuel C d n (Some (fst (last ?page)))
        = Inr (Some (map (\<lambda>(k, v). (k, obj v)) (drop n post)))"
    proof (rule Suc.IH [of "pre @ ?page"])
      show "length (drop n post) < fuel"
        using Suc.prems(2) False assms(2) by (cases post; cases n) auto
    qed (use Suc.prems(1) page in simp_all)
    then show ?thesis
      using scan_page [OF assms(1) Suc.prems(1,3)] page
      by (simp flip: map_append)
  qed
qed simp

text \<open>
  Scanning visits every node once. With any positive page size, scanning page after page from
  the handle returned by the previous page ends, and the pages put together are all the nodes of the
  database in key order, none twice and none missing.
\<close>

theorem scan_visits_all:
  assumes "codec_ok C d obj" and "0 < n"
  shows "scan_all (Suc (length (keyspace d LedgerDbNodes))) C d n None
      = Inr (Some (map (\<lambda>(k, v). (k, obj v)) (keyspace d LedgerDbNodes)))
    \<and> sorted_wrt (<) (map fst (keyspace d LedgerDbNodes))"
  using scan_all_pages [OF assms, of "[]"] assms(1)
  by (simp add: codec_ok_def part_ok_def del: scan_all.simps)

definition demo_codec :: "bytes arena_codec" where
  "demo_codec = \<lparr>ac_serialize = (\<lambda>bs. bs), ac_deserialize = Some, ac_hash = Some\<rparr>"

definition demo_disk :: Disk where
  "demo_disk = fold (\<lambda>k. insert_node demo_codec k [7]) [[3], [1], [2]] \<lparr>keyspace = (\<lambda>_. []), existing = []\<rparr>"

theorem scan_visits_all_witness:
  "scan_all 4 demo_codec demo_disk 2 None = Inr (Some [([1], [7]), ([2], [7]), ([3], [7])])"
proof -
  have nodes: "keyspace demo_disk LedgerDbNodes = [([1], Raw [7]), ([2], Raw [7]), ([3], Raw [7])]"
    by (simp add: demo_disk_def insert_node_def disk_insert_def demo_codec_def)
  have "codec_ok demo_codec demo_disk (\<lambda>v. the (as_raw v))"
    by (simp add: codec_ok_def nodes part_ok_def demo_codec_def deserialize_object_def)
  from scan_visits_all [OF this, of 2] show ?thesis by (simp add: nodes numeral_eq_Suc)
qed

theorem root_count_roundtrip_witness:
  "get_root_count (set_root_count [1] 7 demo_disk) [1] = Inr 7"
  using root_count_roundtrip by blast

end
