(* ===== verification/RootCounts.thy ===== *)
theory RootCounts
  imports LedgerDb UtxoFacts
begin

text \<open>
  The garbage-collection roots of the arena: persisting and unpersisting a ledger state, the
  repair of under-counted roots at startup and the completeness check of a root's DAG
  (\<open>repair_root_counts\<close>, \<open>window_root_counts\<close>, \<open>raise_root_counts\<close>,
  \<open>dag_is_complete\<close> of \<open>domain/ledger/ledger_state.rs\<close>). The backend of
  midnight-storage-core is not in the repository; what the code relies on is the locale
  \<open>root_ledger\<close>: it keeps a signed change per root, which a flush adds to the stored count,
  panicking when a count would leave the range of \<open>u32\<close>. The instance below does so over the \<open>DB\<close> trait.
\<close>

section \<open>What the pipeline relies on\<close>

locale root_ledger =
  fixes ok :: "'b \<Rightarrow> bool"
    and count :: "'b \<Rightarrow> bytes \<Rightarrow> int"
    and up :: "bytes \<Rightarrow> 'b \<Rightarrow> 'b"
    and down :: "bytes \<Rightarrow> 'b \<Rightarrow> 'b"
    and sync :: "'b \<Rightarrow> rust_error + 'b"
  assumes up: "ok b \<Longrightarrow> ok (up h b) \<and> count (up h b) = (count b)(h := count b h + 1)"
    and down: "ok b \<Longrightarrow> ok (down h b) \<and> count (down h b) = (count b)(h := count b h - 1)"
    and sync: "ok b \<Longrightarrow> \<forall>h. 0 \<le> count b h \<and> count b h < 2 ^ 32 \<Longrightarrow>
      \<exists>b'. sync b = Inr b' \<and> ok b' \<and> count b' = count b"
    and sync_same: "ok b \<Longrightarrow> sync b = Inr b' \<Longrightarrow> ok b' \<and> count b' = count b"
begin

text \<open>A retention window is a list of roots; its counts are the occurrences in the list.\<close>

definition covers :: "bytes list \<Rightarrow> 'b \<Rightarrow> bool" where
  "covers hs b = (ok b \<and> (\<forall>h. int (count_list hs h) \<le> count b h))"

lemma covers_up: "covers hs b \<Longrightarrow> covers (hs @ [h]) (up h b)"
  using up [of b h] by (auto simp: covers_def)

lemma covers_down: "covers (h # hs) b \<Longrightarrow> covers hs (down h b)"
  using down [of b h] by (auto simp: covers_def split: if_splits)

lemma covers_drop: "covers hs b \<Longrightarrow> covers (drop n hs) (fold down (take n hs) b)"
proof (induction n arbitrary: hs b)
  case (Suc n)
  then show ?case by (cases hs) (simp_all add: covers_down)
qed simp

text \<open>Whatever window a backend covers, a flush does not panic.\<close>

lemma covers_sync:
  assumes "covers hs b" and "\<forall>h. count b h < 2 ^ 32"
  shows "\<exists>b'. sync b = Inr b' \<and> covers hs b' \<and> count b' = count b"
proof -
  have "\<forall>h. 0 \<le> count b h \<and> count b h < 2 ^ 32"
    using assms by (auto simp: covers_def) (meson of_nat_0_le_iff order_trans)
  with sync [of b] assms(1) show ?thesis by (auto simp: covers_def)
qed

end

section \<open>The backend over the ledger database\<close>

record Backend =
  be_disk :: Disk
  be_deltas :: "(bytes \<times> int) list"

definition backend_persist :: "bytes \<Rightarrow> Backend \<Rightarrow> Backend" where
  "backend_persist h b = b\<lparr>be_deltas := entry_update 0 (\<lambda>d. d + 1) h (be_deltas b)\<rparr>"

definition backend_unpersist :: "bytes \<Rightarrow> Backend \<Rightarrow> Backend" where
  "backend_unpersist h b = b\<lparr>be_deltas := entry_update 0 (\<lambda>d. d - 1) h (be_deltas b)\<rparr>"

definition flush_delta :: "Disk \<Rightarrow> bytes \<times> int \<Rightarrow> rust_error + Disk" where
  "flush_delta d e =
     and_then (get_root_count d (fst e)) (\<lambda>stored.
       let n = uint stored + snd e
       in if n < 0 then Inl (Panic ''roots counts can't be negative'')
          else if n \<ge> 2 ^ 32 then Inl (Panic ''root count overflow'')
          else Inr (set_root_count (fst e) (word_of_int n) d))"

definition flush_all_changes_to_db :: "Backend \<Rightarrow> rust_error + Backend" where
  "flush_all_changes_to_db b =
     and_then (try_fold flush_delta (be_disk b) (be_deltas b)) (\<lambda>d.
       Inr (b\<lparr>be_disk := d, be_deltas := []\<rparr>))"

definition stored_count :: "Disk \<Rightarrow> bytes \<Rightarrow> int" where
  "stored_count d h = (case get_root_count d h of Inr n \<Rightarrow> uint n | Inl _ \<Rightarrow> 0)"

definition root_count :: "Backend \<Rightarrow> bytes \<Rightarrow> int" where
  "root_count b h = stored_count (be_disk b) h
     + (case map_of (be_deltas b) h of Some d \<Rightarrow> d | None \<Rightarrow> 0)"

definition roots_ok :: "Disk \<Rightarrow> bool" where
  "roots_ok d = (\<forall>h. \<exists>n. get_root_count d h = Inr n)"

definition backend_ok :: "Backend \<Rightarrow> bool" where
  "backend_ok b = (roots_ok (be_disk b) \<and> distinct (map fst (be_deltas b)))"

lemma get_root_count_set:
  "get_root_count (set_root_count key n d) k = (if k = key then Inr n else get_root_count d k)"
  by (simp add: get_root_count_def set_root_count_view)

lemma roots_ok_set: "roots_ok d \<Longrightarrow> roots_ok (set_root_count key n d)"
  by (simp add: roots_ok_def get_root_count_set)

lemma stored_count_set:
  "stored_count (set_root_count key n d) k = (if k = key then uint n else stored_count d k)"
  by (simp add: stored_count_def get_root_count_set)

lemma uint_word_of_int_u32: "0 \<le> n \<Longrightarrow> n < 2 ^ 32 \<Longrightarrow> uint (word_of_int n :: u32) = n"
  by (simp add: uint_word_of_int)

lemma flush_deltas:
  assumes "roots_ok d" and "distinct (map fst ds)"
    and "\<forall>h. 0 \<le> stored_count d h + (case map_of ds h of Some x \<Rightarrow> x | None \<Rightarrow> 0)
        \<and> stored_count d h + (case map_of ds h of Some x \<Rightarrow> x | None \<Rightarrow> 0) < 2 ^ 32"
  shows "\<exists>d'. try_fold flush_delta d ds = Inr d' \<and> roots_ok d'
    \<and> (\<forall>h. stored_count d' h = stored_count d h + (case map_of ds h of Some x \<Rightarrow> x | None \<Rightarrow> 0))"
  using assms
proof (induction ds arbitrary: d)
  case (Cons e ds)
  obtain h x where e: "e = (h, x)" by (cases e)
  obtain n where n: "get_root_count d h = Inr n" using Cons.prems(1) by (auto simp: roots_ok_def)
  then have sn: "stored_count d h = uint n" by (simp add: stored_count_def)
  have bounds: "0 \<le> uint n + x" "uint n + x < 2 ^ 32"
    using spec [OF Cons.prems(3), of h] by (simp_all add: e sn)
  define m where "m = (word_of_int (uint n + x) :: u32)"
  have m: "uint m = uint n + x" unfolding m_def by (rule uint_word_of_int_u32 [OF bounds])
  let ?d = "set_root_count h m d"
  have step: "flush_delta d e = Inr ?d"
    using n bounds unfolding m_def by (simp add: flush_delta_def e Let_def)
  have stored: "stored_count ?d k = (if k = h then uint n + x else stored_count d k)" for k
    by (simp add: stored_count_set m)
  have none: "map_of ds h = None" using Cons.prems(2) by (simp add: e map_of_eq_None_iff)
  have "\<exists>d'. try_fold flush_delta ?d ds = Inr d' \<and> roots_ok d'
      \<and> (\<forall>k. stored_count d' k = stored_count ?d k + (case map_of ds k of Some x \<Rightarrow> x | None \<Rightarrow> 0))"
  proof (rule Cons.IH)
    show "\<forall>k. 0 \<le> stored_count ?d k + (case map_of ds k of Some x \<Rightarrow> x | None \<Rightarrow> 0)
        \<and> stored_count ?d k + (case map_of ds k of Some x \<Rightarrow> x | None \<Rightarrow> 0) < 2 ^ 32"
    proof
      fix k
      show "0 \<le> stored_count ?d k + (case map_of ds k of Some x \<Rightarrow> x | None \<Rightarrow> 0)
        \<and> stored_count ?d k + (case map_of ds k of Some x \<Rightarrow> x | None \<Rightarrow> 0) < 2 ^ 32"
        using spec [OF Cons.prems(3), of k] bounds none by (cases "k = h") (simp_all add: e stored)
    qed
  qed (use Cons.prems in \<open>simp_all add: roots_ok_set\<close>)
  then show ?case using none step by (auto simp: e stored sn)
qed simp

lemma flush_deltas_same:
  assumes "roots_ok d" and "distinct (map fst ds)" and "try_fold flush_delta d ds = Inr d'"
  shows "roots_ok d'
    \<and> (\<forall>h. stored_count d' h = stored_count d h + (case map_of ds h of Some x \<Rightarrow> x | None \<Rightarrow> 0))"
  using assms
proof (induction ds arbitrary: d)
  case (Cons e ds)
  obtain h x where e: "e = (h, x)" by (cases e)
  from Cons.prems(3) obtain d1 where d1: "flush_delta d e = Inr d1" "try_fold flush_delta d1 ds = Inr d'"
    by (auto simp: result_simps)
  obtain n where n: "get_root_count d h = Inr n" "0 \<le> uint n + x" "uint n + x < 2 ^ 32"
    "d1 = set_root_count h (word_of_int (uint n + x)) d"
    using d1(1) by (auto simp: flush_delta_def e Let_def result_simps split: if_splits)
  define m where "m = (word_of_int (uint n + x) :: u32)"
  have m: "uint m = uint n + x" unfolding m_def by (rule uint_word_of_int_u32 [OF n(2,3)])
  have "roots_ok d1" unfolding n(4) by (rule roots_ok_set [OF Cons.prems(1)])
  with Cons.IH [OF _ _ d1(2)] Cons.prems(2) have
    "roots_ok d' \<and> (\<forall>k. stored_count d' k = stored_count d1 k + (case map_of ds k of Some x \<Rightarrow> x | None \<Rightarrow> 0))"
    by simp
  moreover have "stored_count d1 k = (if k = h then uint n + x else stored_count d k)" for k
    unfolding n(4) m_def [symmetric] by (simp add: stored_count_set m)
  moreover have "map_of ds h = None" using Cons.prems(2) by (simp add: e map_of_eq_None_iff)
  moreover have "stored_count d h = uint n" by (simp add: stored_count_def n(1))
  ultimately show ?case by (auto simp: e)
qed simp

lemma root_count_update:
  "map_of (entry_update 0 (\<lambda>d. d + x) h ds) k = (if k = h
     then Some ((case map_of ds h of Some d \<Rightarrow> d | None \<Rightarrow> 0) + (x :: int)) else map_of ds k)"
  by (auto simp: map_of_entry_update split: option.splits)

interpretation arena: root_ledger backend_ok root_count backend_persist backend_unpersist
  flush_all_changes_to_db
proof
  fix b h assume "backend_ok b"
  then show "backend_ok (backend_persist h b)
      \<and> root_count (backend_persist h b) = (root_count b)(h := root_count b h + 1)"
    using root_count_update [of 1 h "be_deltas b"]
    by (auto simp: backend_ok_def backend_persist_def distinct_entry_update root_count_def fun_eq_iff)
  show "backend_ok (backend_unpersist h b)
      \<and> root_count (backend_unpersist h b) = (root_count b)(h := root_count b h - 1)"
    using \<open>backend_ok b\<close> root_count_update [of "- 1" h "be_deltas b"]
    by (auto simp: backend_ok_def backend_unpersist_def distinct_entry_update root_count_def fun_eq_iff)
next
  fix b assume b: "backend_ok b" "\<forall>h. 0 \<le> root_count b h \<and> root_count b h < 2 ^ 32"
  then obtain d' where d': "try_fold flush_delta (be_disk b) (be_deltas b) = Inr d'" "roots_ok d'"
    "\<forall>h. stored_count d' h = root_count b h"
    using flush_deltas [of "be_disk b" "be_deltas b"] by (auto simp: backend_ok_def root_count_def)
  then show "\<exists>b'. flush_all_changes_to_db b = Inr b' \<and> backend_ok b' \<and> root_count b' = root_count b"
    by (simp add: flush_all_changes_to_db_def backend_ok_def root_count_def fun_eq_iff)
next
  fix b b' assume "backend_ok b" "flush_all_changes_to_db b = Inr b'"
  then show "backend_ok b' \<and> root_count b' = root_count b"
    using flush_deltas_same [of "be_disk b" "be_deltas b"]
    by (auto simp: flush_all_changes_to_db_def backend_ok_def root_count_def fun_eq_iff result_simps)
qed

text \<open>A flush of a negative count panics: the failure the repair below prevents.\<close>

lemma flush_negative:
  assumes "get_root_count (be_disk b) h = Inr n" and "be_deltas b = [(h, x)]" and "uint n + x < 0"
  shows "flush_all_changes_to_db b = Inl (Panic ''roots counts can't be negative'')"
  using assms by (simp add: flush_all_changes_to_db_def flush_delta_def Let_def)

section \<open>The completeness of a DAG\<close>

text \<open>The nodes of the database are a list of hashes with the references of the node's children. The
  frontier is the code's \<open>Vec\<close> read from its end.\<close>

type_synonym arena_nodes = "(bytes \<times> bytes list) list"

function dag_walk :: "arena_nodes \<Rightarrow> bytes set \<Rightarrow> bytes list \<Rightarrow> bool" where
  "dag_walk nodes visited [] = True"
| "dag_walk nodes visited (hash # frontier) =
     (if hash \<in> visited then dag_walk nodes visited frontier
      else (case map_of nodes hash of
              Some children \<Rightarrow> dag_walk nodes (insert hash visited) (rev children @ frontier)
            | None \<Rightarrow> False))"
  by pat_completeness auto

termination
proof (relation "measures [\<lambda>(nodes, visited, _). card (fst ` set nodes - visited),
    \<lambda>(_, _, frontier). length frontier]", goal_cases)
  case (3 nodes visited hash frontier children)
  then have "hash \<in> fst ` set nodes - visited" by (metis Diff_iff image_eqI fst_conv map_of_SomeD)
  then have "fst ` set nodes - insert hash visited \<subset> fst ` set nodes - visited" by blast
  then have "card (fst ` set nodes - insert hash visited) < card (fst ` set nodes - visited)"
    by (intro psubset_card_mono) simp_all
  then show ?case by simp
qed simp_all

definition dag_is_complete :: "arena_nodes \<Rightarrow> bytes \<Rightarrow> bool" where
  "dag_is_complete nodes hash = dag_walk nodes {} [hash]"

inductive reachable :: "arena_nodes \<Rightarrow> bytes \<Rightarrow> bytes \<Rightarrow> bool" for nodes h where
  reachable_root: "reachable nodes h h"
| reachable_child: "reachable nodes h a \<Longrightarrow> map_of nodes a = Some cs \<Longrightarrow> c \<in> set cs \<Longrightarrow> reachable nodes h c"

lemma dag_walk_correct:
  assumes "\<And>a. a \<in> visited \<Longrightarrow> \<exists>cs. map_of nodes a = Some cs \<and> set cs \<subseteq> visited \<union> set frontier"
    and "\<And>a. a \<in> visited \<union> set frontier \<Longrightarrow> reachable nodes h a" and "h \<in> visited \<union> set frontier"
  shows "dag_walk nodes visited frontier \<longleftrightarrow> (\<forall>a. reachable nodes h a \<longrightarrow> map_of nodes a \<noteq> None)"
  using assms
proof (induction nodes visited frontier rule: dag_walk.induct)
  case (1 nodes visited)
  have "a \<in> visited" if "reachable nodes h a" for a
    using that
  proof induction
    case (reachable_child a cs c)
    from 1(1) [OF reachable_child.IH] reachable_child.hyps show ?case by auto
  qed (use 1(3) in simp)
  with 1(1) show ?case by fastforce
next
  case (2 nodes visited hash frontier)
  show ?case
  proof (cases "hash \<in> visited")
    case True
    then have "dag_walk nodes visited frontier \<longleftrightarrow> (\<forall>a. reachable nodes h a \<longrightarrow> map_of nodes a \<noteq> None)"
      using 2(3-5) by (intro "2.IH"(1)) (auto simp: insert_absorb)
    with True show ?thesis by simp
  next
    case False
    show ?thesis
    proof (cases "map_of nodes hash")
      case None
      with False 2(4) [of hash] show ?thesis by auto
    next
      case (Some cs)
      have "dag_walk nodes (insert hash visited) (rev cs @ frontier)
          \<longleftrightarrow> (\<forall>a. reachable nodes h a \<longrightarrow> map_of nodes a \<noteq> None)"
      proof (rule "2.IH"(2) [OF False Some])
        fix a assume "a \<in> insert hash visited"
        then show "\<exists>cs'. map_of nodes a = Some cs'
            \<and> set cs' \<subseteq> insert hash visited \<union> set (rev cs @ frontier)"
          using Some 2(3) [of a] by fastforce
      next
        fix a assume "a \<in> insert hash visited \<union> set (rev cs @ frontier)"
        then show "reachable nodes h a"
          using 2(4) [of a] reachable_child [OF 2(4) [of hash] Some, of a] 2(4) [of hash] by auto
      qed (use 2(5) in auto)
      with False Some show ?thesis by simp
    qed
  qed
qed

text \<open>
  C21. The walk of \<open>dag_is_complete\<close> ends on every database, cyclic ones included, and answers
  whether every node reachable from the root is present, so that a root is never brought back with
  a descendant missing.
\<close>

theorem dag_is_complete_iff:
  "dag_is_complete nodes h \<longleftrightarrow> (\<forall>a \<in> Collect (reachable nodes h). map_of nodes a \<noteq> None)"
  using dag_walk_correct [of "{}" nodes "[h]" h] reachable_root [of nodes h]
  by (simp add: dag_is_complete_def)

section \<open>The repair at startup\<close>

text \<open>\<open>arena_root_hash\<close> deserializes a typed arena key of midnight-storage-core; it is the parameter
  \<open>rh\<close>.\<close>

type_synonym arena_root_hash = "bytes \<Rightarrow> LedgerVersion \<Rightarrow> rust_error + bytes"

definition count_root ::
    "arena_root_hash \<Rightarrow> u32 partition \<Rightarrow> bytes \<times> StoredLedgerVersion \<Rightarrow> rust_error + u32 partition" where
  "count_root rh wanted entry =
     and_then (rh (fst entry) (stored_into (snd entry))) (\<lambda>hash.
       Inr (part_insert hash (case part_get wanted hash of Some n \<Rightarrow> n + 1 | None \<Rightarrow> 0 + 1) wanted))"

definition window_root_counts ::
    "arena_root_hash \<Rightarrow> LedgerStateWindow \<Rightarrow> rust_error + u32 partition" where
  "window_root_counts rh window = try_fold (count_root rh) [] window"

record RootCountRepair =
  raised_roots :: nat
  raised_total :: u32
  culled_roots :: nat
  strays :: nat

definition raise_root ::
    "arena_nodes \<Rightarrow> (bytes \<times> u32) list \<Rightarrow> bytes \<times> u32 \<Rightarrow> Backend \<times> RootCountRepair \<Rightarrow>
       Backend \<times> RootCountRepair" where
  "raise_root nodes stored e s =
     (let hash = fst e;
          have1 = (case map_of stored hash of Some n \<Rightarrow> n | None \<Rightarrow> 0);
          missing = saturating_sub (snd e) have1;
          b = fst s; repair = snd s
      in if missing = 0 then s
         else if have1 = 0 \<and> \<not> dag_is_complete nodes hash
         then (b, repair\<lparr>culled_roots := culled_roots repair + 1\<rparr>)
         else ((backend_persist hash ^^ unat missing) b,
               repair\<lparr>raised_roots := raised_roots repair + 1,
                      raised_total := raised_total repair + missing\<rparr>))"

definition raise_root_counts ::
    "'o arena_codec \<Rightarrow> arena_nodes \<Rightarrow> u32 partition \<Rightarrow> Backend \<Rightarrow>
       rust_error + Backend \<times> RootCountRepair" where
  "raise_root_counts C nodes wanted b =
     and_then (get_roots C (be_disk b)) (\<lambda>stored.
       let repair = \<lparr>raised_roots = 0, raised_total = 0, culled_roots = 0,
                     strays = length (filter (\<lambda>(hash, _). \<not> part_contains_key wanted hash) stored)\<rparr>;
           (b, repair) = fold (raise_root nodes stored) (part_iter wanted) (b, repair)
       in and_then (flush_all_changes_to_db b) (\<lambda>b. Inr (b, repair)))"

definition repair_root_counts ::
    "arena_root_hash \<Rightarrow> 'o arena_codec \<Rightarrow> arena_nodes \<Rightarrow> LedgerStateWindow \<Rightarrow> Backend \<Rightarrow>
       rust_error + Backend \<times> RootCountRepair" where
  "repair_root_counts rh C nodes window b =
     and_then (window_root_counts rh window) (\<lambda>wanted. raise_root_counts C nodes wanted b)"

definition persisted_root_hashes :: "'o arena_codec \<Rightarrow> Backend \<Rightarrow> rust_error + bytes list" where
  "persisted_root_hashes C b =
     and_then (get_roots C (be_disk b)) (\<lambda>roots. Inr (map fst roots))"

definition window_hashes :: "arena_root_hash \<Rightarrow> LedgerStateWindow \<Rightarrow> bytes list" where
  "window_hashes rh window = List.map_filter (\<lambda>(key, v).
     case rh key (stored_into v) of Inr h \<Rightarrow> Some h | Inl _ \<Rightarrow> None) window"

lemma window_hashes_simps [simp]:
  "window_hashes rh [] = []"
  "window_hashes rh (e # w) =
    (case rh (fst e) (stored_into (snd e)) of Inr h \<Rightarrow> h # window_hashes rh w | Inl _ \<Rightarrow> window_hashes rh w)"
  "window_hashes rh (w @ w') = window_hashes rh w @ window_hashes rh w'"
  by (simp_all add: window_hashes_def List.map_filter_def case_prod_beta split: sum.splits)

lemma window_counts:
  assumes "window_root_counts rh window = Inr wanted"
  shows "part_ok wanted \<and> length (window_hashes rh window) = length window
    \<and> (\<forall>h. part_get wanted h = (if count_list (window_hashes rh window) h = 0 then None
        else Some (word_of_nat (count_list (window_hashes rh window) h))))"
  using assms unfolding window_root_counts_def
proof (induction window arbitrary: wanted rule: rev_induct)
  case (snoc e window)
  then obtain w where w: "try_fold (count_root rh) [] window = Inr w" "count_root rh w e = Inr wanted"
    by (auto simp: try_fold_append result_simps)
  obtain h where h: "rh (fst e) (stored_into (snd e)) = Inr h"
    "wanted = part_insert h (case part_get w h of Some n \<Rightarrow> n + 1 | None \<Rightarrow> 0 + 1) w"
    using w(2) by (auto simp: count_root_def result_simps)
  from snoc.IH [OF w(1)] show ?case
    by (auto simp: h part_ok_insert part_get_insert algebra_simps)
qed (simp add: part_get_def)

definition hashes_ok :: "'o arena_codec \<Rightarrow> Disk \<Rightarrow> bool" where
  "hashes_ok C d = (part_ok (keyspace d LedgerDbRoots)
     \<and> (\<forall>h. disk_get d LedgerDbRoots h \<noteq> None \<longrightarrow> ac_hash C h = Some h))"

lemma get_roots_counts:
  assumes "roots_ok d" and "hashes_ok C d"
  obtains rs where "get_roots C d = Inr rs"
    "\<And>h. (case map_of rs h of Some n \<Rightarrow> n | None \<Rightarrow> 0) = (case get_root_count d h of Inr n \<Rightarrow> n | Inl _ \<Rightarrow> 0)"
    "map fst rs = map fst (keyspace d LedgerDbRoots)"
proof -
  let ?g = "\<lambda>v. case decode_count ''4-byte root count'' v of Inr n \<Rightarrow> n | Inl _ \<Rightarrow> 0"
  let ?es = "keyspace d LedgerDbRoots"
  have same: "decode_count ''4-byte count'' v = Inr n \<longleftrightarrow> decode_count ''4-byte root count'' v = Inr n" for v n
    by (auto simp: decode_count_def result_simps)
  have "try_map (\<lambda>(key, v). and_then (decode_count ''4-byte count'' v) (\<lambda>count.
      and_then (deserialize_hash C key) (\<lambda>hash. Inr (hash, count)))) ?es
    = Inr (map (\<lambda>(k, v). (k, ?g v)) ?es)"
  proof (rule try_map_total)
    fix e assume e: "e \<in> set ?es"
    obtain k v where kv: "e = (k, v)" by (cases e)
    have get: "disk_get d LedgerDbRoots k = Some v"
      using assms(2) e kv by (simp add: hashes_ok_def disk_get_def ks_get_def part_get_iff)
    then obtain n where "decode_count ''4-byte root count'' v = Inr n"
      using assms(1) by (auto simp: roots_ok_def get_root_count_def) (metis option.simps(5))
    moreover from this same [of v n] have "decode_count ''4-byte count'' v = Inr n" by simp
    moreover have "ac_hash C k = Some k" using assms(2) get by (simp add: hashes_ok_def)
    ultimately show "(case e of (key, v) \<Rightarrow> and_then (decode_count ''4-byte count'' v) (\<lambda>count.
        and_then (deserialize_hash C key) (\<lambda>hash. Inr (hash, count)))) = Inr (case e of (k, v) \<Rightarrow> (k, ?g v))"
      by (simp add: kv deserialize_hash_def)
  qed
  then have "get_roots C d = Inr (map (\<lambda>(k, v). (k, ?g v)) ?es)"
    by (simp add: get_roots_def part_iter_def)
  moreover have "(case map_of (map (\<lambda>(k, v). (k, ?g v)) ?es) h of Some n \<Rightarrow> n | None \<Rightarrow> 0)
      = (case get_root_count d h of Inr n \<Rightarrow> n | Inl _ \<Rightarrow> 0)" for h
    by (simp add: map_of_map get_root_count_def disk_get_def ks_get_def part_get_def split: option.splits)
  ultimately show ?thesis by (rule that) (simp add: case_prod_beta)
qed

definition repaired_count :: "arena_nodes \<Rightarrow> bytes \<Rightarrow> int \<Rightarrow> int \<Rightarrow> int" where
  "repaired_count nodes h have1 want =
     (if want \<le> have1 \<or> have1 = 0 \<and> \<not> dag_is_complete nodes h then have1 else want)"

lemma root_count_persists:
  "backend_ok b \<Longrightarrow> backend_ok ((backend_persist h ^^ n) b)
    \<and> root_count ((backend_persist h ^^ n) b) = (root_count b)(h := root_count b h + int n)"
proof (induction n)
  case (Suc n)
  then have "backend_ok ((backend_persist h ^^ n) b)" by simp
  from arena.up [OF this, of h] Suc show ?case by (simp add: fun_eq_iff)
qed simp

lemma saturating_sub_zero: "saturating_sub w n = 0 \<longleftrightarrow> uint w \<le> uint n" for w n :: "'a::len word"
  by (auto simp: saturating_sub_def word_le_def intro: order.antisym)

lemma saturating_sub_int:
  "int (unat (saturating_sub w n)) = uint w - uint n" if "uint n \<le> uint w" for w n :: "'a::len word"
proof -
  have "unat n \<le> unat w" using that by (simp only: word_le_nat_alt [symmetric] word_le_def)
  then have "int (unat w - unat n) = int (unat w) - int (unat n)" by (rule of_nat_diff)
  then show ?thesis by (simp add: unat_saturating_sub)
qed

lemma raise_root_count:
  assumes "backend_ok (fst s)"
    and "(case map_of stored h of Some n \<Rightarrow> uint n | None \<Rightarrow> 0) = root_count (fst s) h"
  shows "backend_ok (fst (raise_root nodes stored (h, want) s))
    \<and> root_count (fst (raise_root nodes stored (h, want) s))
      = (root_count (fst s))(h := repaired_count nodes h (root_count (fst s) h) (uint want))"
proof -
  let ?n = "case map_of stored h of Some n \<Rightarrow> n | None \<Rightarrow> 0"
  have n: "uint ?n = root_count (fst s) h"
    using assms(2) by (simp split: option.splits)
  have sub: "saturating_sub want ?n = 0 \<longleftrightarrow> uint want \<le> uint ?n"
    "uint ?n \<le> uint want \<Longrightarrow> int (unat (saturating_sub want ?n)) = uint want - uint ?n"
    by (rule saturating_sub_zero, rule saturating_sub_int)
  have zero: "?n = 0 \<longleftrightarrow> root_count (fst s) h = 0"
    using n by (metis uint_0_iff)
  show ?thesis
  proof (cases "uint want \<le> uint ?n")
    case True
    then show ?thesis using assms(1) sub(1) n by (simp add: raise_root_def Let_def repaired_count_def)
  next
    case False
    show ?thesis
    proof (cases "?n = 0 \<and> \<not> dag_is_complete nodes h")
      case True
      then show ?thesis
        using False assms(1) sub(1) zero n
        by (auto simp: raise_root_def Let_def repaired_count_def fun_eq_iff)
    next
      case no: False
      have "raise_root nodes stored (h, want) s = ((backend_persist h ^^ unat (saturating_sub want ?n)) (fst s),
          (snd s)\<lparr>raised_roots := raised_roots (snd s) + 1,
            raised_total := raised_total (snd s) + saturating_sub want ?n\<rparr>)"
        using False no sub(1) unfolding raise_root_def Let_def by auto
      then show ?thesis
        using root_count_persists [OF assms(1), where h = h and n = "unat (saturating_sub want ?n)"] False no zero n sub(2)
        by (auto simp: repaired_count_def fun_eq_iff)
    qed
  qed
qed

lemma raise_roots_count:
  assumes "backend_ok (fst s)" and "distinct (map fst es)"
    and "\<And>h. h \<in> fst ` set es \<Longrightarrow>
      (case map_of stored h of Some n \<Rightarrow> uint n | None \<Rightarrow> 0) = root_count (fst s) h"
  shows "backend_ok (fst (fold (raise_root nodes stored) es s))
    \<and> (\<forall>h. root_count (fst (fold (raise_root nodes stored) es s)) h = (case map_of es h of
        Some want \<Rightarrow> repaired_count nodes h (root_count (fst s) h) (uint want)
      | None \<Rightarrow> root_count (fst s) h))"
  using assms
proof (induction es arbitrary: s)
  case (Cons e es)
  obtain h want where e: "e = (h, want)" by (cases e)
  let ?s = "raise_root nodes stored e s"
  have r: "backend_ok (fst ?s)"
    "root_count (fst ?s) = (root_count (fst s))(h := repaired_count nodes h (root_count (fst s) h) (uint want))"
    using raise_root_count [of s stored h nodes want] Cons.prems(1,3) by (simp_all add: e)
  have h: "h \<notin> fst ` set es" using Cons.prems(2) by (simp add: e)
  have "(case map_of stored k of Some n \<Rightarrow> uint n | None \<Rightarrow> 0) = root_count (fst ?s) k"
    if "k \<in> fst ` set es" for k
    using that h Cons.prems(3) [of k] by (auto simp: r(2))
  then have "backend_ok (fst (fold (raise_root nodes stored) es ?s))
      \<and> (\<forall>k. root_count (fst (fold (raise_root nodes stored) es ?s)) k = (case map_of es k of
          Some want \<Rightarrow> repaired_count nodes k (root_count (fst ?s) k) (uint want)
        | None \<Rightarrow> root_count (fst ?s) k))"
    using Cons.IH [OF r(1)] Cons.prems(2) by simp
  moreover have "map_of es h = None" using h by (simp add: map_of_eq_None_iff)
  ultimately show ?case unfolding fold.simps comp_def r(2) by (auto simp: e split: option.split)
qed simp

lemma count_list_le_length: "count_list xs x \<le> length xs"
  by (induction xs) auto

lemma repair_counts:
  assumes "backend_ok b" and "be_deltas b = []" and "hashes_ok C (be_disk b)"
    and "window_root_counts rh window = Inr wanted" and "length window < 2 ^ 32"
  obtains b' r where "repair_root_counts rh C nodes window b = Inr (b', r)" "backend_ok b'"
    "be_deltas b' = []"
    "\<And>h. root_count b' h = repaired_count nodes h (root_count b h)
      (int (count_list (window_hashes rh window) h))"
proof -
  let ?hs = "window_hashes rh window"
  have w: "part_ok wanted" "length ?hs = length window"
    "\<And>h. part_get wanted h = (if count_list ?hs h = 0 then None else Some (word_of_nat (count_list ?hs h)))"
    using window_counts [OF assms(4)] by simp_all
  have disk: "roots_ok (be_disk b)" using assms(1) by (simp add: backend_ok_def)
  obtain rs where rs: "get_roots C (be_disk b) = Inr rs"
    "\<And>h. (case map_of rs h of Some n \<Rightarrow> n | None \<Rightarrow> 0)
      = (case get_root_count (be_disk b) h of Inr n \<Rightarrow> n | Inl _ \<Rightarrow> 0)"
    using get_roots_counts [OF disk assms(3)] by metis
  have stored: "(case map_of rs h of Some n \<Rightarrow> uint n | None \<Rightarrow> 0) = root_count b h" for h
  proof -
    have "(case map_of rs h of Some n \<Rightarrow> uint n | None \<Rightarrow> 0)
        = uint (case map_of rs h of Some n \<Rightarrow> n | None \<Rightarrow> 0)" by (simp split: option.splits)
    then show ?thesis
      by (simp add: rs(2) root_count_def stored_count_def assms(2) split: sum.splits)
  qed
  let ?r0 = "\<lparr>raised_roots = 0, raised_total = 0, culled_roots = 0,
    strays = length (filter (\<lambda>(hash, _). \<not> part_contains_key wanted hash) rs)\<rparr>"
  obtain b1 r where f: "fold (raise_root nodes rs) wanted (b, ?r0) = (b1, r)" by fastforce
  have d: "distinct (map fst wanted)"
    using w(1) by (simp add: part_ok_def sorted_wrt_less_distinct)
  have small: "count_list ?hs h < 2 ^ 32" for h
    using count_list_le_length [of ?hs h] assms(5) w(2) by simp
  have uw: "uint (word_of_nat (count_list ?hs h) :: u32) = int (count_list ?hs h)" for h
    using small [of h] by (simp add: uint_nat unat_of_nat)
  have pos: "0 \<le> root_count b h" for h
    by (simp add: root_count_def stored_count_def assms(2) split: sum.splits)
  have b1: "backend_ok b1" "root_count b1 h = repaired_count nodes h (root_count b h) (int (count_list ?hs h))" for h
    using raise_roots_count [of "(b, ?r0)" wanted rs nodes] assms(1) d stored f w(3) [of h] uw [of h] pos [of h]
    by (simp_all add: part_get_def repaired_count_def)
  have "root_count b h < 2 ^ 32" for h
  proof -
    have "root_count b h < 2 ^ 32 \<or> root_count b h = 0"
      using uint_lt2p [where 'a = 32] by (auto simp: root_count_def stored_count_def assms(2) split: sum.splits)
    then show ?thesis by auto
  qed
  then have "\<forall>h. 0 \<le> root_count b1 h \<and> root_count b1 h < 2 ^ 32"
    using pos small by (auto simp: b1(2) repaired_count_def)
  from arena.sync [OF b1(1) this] obtain b' where b': "flush_all_changes_to_db b1 = Inr b'"
    "backend_ok b'" "root_count b' = root_count b1" by blast
  moreover have "be_deltas b' = []"
    using b'(1) by (auto simp: flush_all_changes_to_db_def result_simps)
  moreover have "repair_root_counts rh C nodes window b = Inr (b', r)"
    using f b'(1) by (simp add: repair_root_counts_def assms(4) raise_root_counts_def rs(1) part_iter_def)
  ultimately show ?thesis using that b1(2) by simp
qed


end
