(* ===== verification/RunLoop.thy ===== *)
theory RunLoop
  imports IndexFacts RootCounts
begin

text \<open>
  The indexing loop (\<open>run\<close> in \<open>nightfrost-chain/src/pipeline.rs\<close>) as a state machine with
  crashes. Durable are the store and the root counts of the arena; everything else is lost in a
  crash, unflushed root changes included. One iteration makes three durable moves in this order: the
  arena is persisted, the batch is committed, and aged-out ledger states are unpersisted (flushed
  with the next block). The arena's two partitions live in the same keyspace as the store's but are
  kept apart here, as the code never touches both in one batch. Progress logging, the watchdog, the
  watcher of the node's tip and the time-bounded gc pass are not modelled.
\<close>

section \<open>Starting up\<close>

record 'ls Running =
  rn_ledger :: 'ls
  rn_window :: LedgerStateWindow
  rn_ids :: Counters
  rn_parent_timestamp :: u64
  rn_highest :: "BlockRef option"

definition check_genesis :: "Store \<Rightarrow> bytes \<Rightarrow> rust_error + unit" where
  "check_genesis st node_genesis =
     (case store_get st Meta GENESIS_HASH of
        None \<Rightarrow> Inr ()
      | Some stored \<Rightarrow>
          (if as_raw stored = Some node_genesis then Inr ()
           else Inl (Fail ''data directory belongs to a different chain'')))"

definition resume_from :: "Store \<Rightarrow> rust_error + BlockRef option" where
  "resume_from st =
     and_then (last_indexed_height st) (\<lambda>last_height.
       case last_height of
         Some height \<Rightarrow>
           and_then (store_block st height) (\<lambda>r.
           and_then (ok_or (Fail ''last indexed block record missing'') r) (\<lambda>record.
             Inr (Some \<lparr>br_hash = bk_hash record, br_height = height\<rparr>)))
       | None \<Rightarrow> Inr None)"

definition retained ::
    "arena_root_hash \<Rightarrow> bytes list \<Rightarrow> bytes \<times> StoredLedgerVersion \<Rightarrow> bool" where
  "retained rh persisted entry =
     (case rh (fst entry) (stored_into (snd entry)) of
        Inr hash \<Rightarrow> hash \<in> set persisted | Inl _ \<Rightarrow> False)"

definition load_ledger_state ::
    "'ls ledger_ops \<Rightarrow> string \<Rightarrow> LedgerStateWindow \<Rightarrow> BlockRef option \<Rightarrow> rust_error + 'ls" where
  "load_ledger_state L network_id window resume =
     (if window \<noteq> [] then
        ctx ''load ledger state from retention window''
          (lo_load L (fst (last window)) (stored_into (snd (last window))))
      else if resume \<noteq> None then
        Inl (Fail ''blocks are indexed but no loadable ledger state root remains'')
      else ctx ''create ledger state'' (lo_new L network_id LV8))"

definition startup ::
    "'ls ledger_ops \<Rightarrow> arena_root_hash \<Rightarrow> 'o arena_codec \<Rightarrow> arena_nodes \<Rightarrow> bytes \<Rightarrow> string \<Rightarrow>
       Store \<Rightarrow> Backend \<Rightarrow> rust_error + Backend \<times> 'ls Running" where
  "startup L rh C nodes node_genesis network_id st b =
     and_then (check_genesis st node_genesis) (\<lambda>_.
     and_then (resume_from st) (\<lambda>resume.
     and_then (tip_timestamp st) (\<lambda>timestamp.
     and_then (ledger_state_window st) (\<lambda>window.
     and_then (repair_root_counts rh C nodes window b) (\<lambda>(b, repair).
     and_then (persisted_root_hashes C b) (\<lambda>persisted.
     let window = filter (retained rh persisted) window
     in and_then (load_ledger_state L network_id window resume) (\<lambda>ledger_state.
        and_then (counters_load st) (\<lambda>ids.
        Inr (b, \<lparr>rn_ledger = ledger_state, rn_window = window, rn_ids = ids,
                 rn_parent_timestamp = (case timestamp of Some t \<Rightarrow> t | None \<Rightarrow> 0),
                 rn_highest = resume\<rparr>)))))))))"

section \<open>One iteration\<close>

definition persist_root ::
    "arena_root_hash \<Rightarrow> bytes \<Rightarrow> LedgerVersion \<Rightarrow> Backend \<Rightarrow> rust_error + Backend" where
  "persist_root rh key version b =
     and_then (rh key version) (\<lambda>hash. flush_all_changes_to_db (backend_persist hash b))"

definition unpersist ::
    "arena_root_hash \<Rightarrow> Backend \<Rightarrow> bytes \<times> StoredLedgerVersion \<Rightarrow> rust_error + Backend" where
  "unpersist rh b entry =
     and_then (rh (fst entry) (stored_into (snd entry))) (\<lambda>hash. Inr (backend_unpersist hash b))"

text \<open>\<open>while window.len() > RETENTION { unpersist(window.remove(0)) }\<close>\<close>

definition trim_window ::
    "arena_root_hash \<Rightarrow> LedgerStateWindow \<Rightarrow> Backend \<Rightarrow> rust_error + LedgerStateWindow \<times> Backend" where
  "trim_window rh window b =
     (let n = length window - LEDGER_STATE_RETENTION
      in and_then (try_fold (unpersist rh) b (take n window)) (\<lambda>b. Inr (drop n window, b)))"

definition CAUGHT_UP_MAX_DISTANCE :: u64 where
  "CAUGHT_UP_MAX_DISTANCE = 10"

definition CATCH_UP_GC_INTERVAL :: u64 where
  "CATCH_UP_GC_INTERVAL = 16"

definition caught_up :: "u64 option \<Rightarrow> u64 \<Rightarrow> bool" where
  "caught_up node_height height =
     (case node_height of Some h \<Rightarrow> saturating_sub h height \<le> CAUGHT_UP_MAX_DISTANCE | None \<Rightarrow> False)"

definition runs_gc :: "u64 option \<Rightarrow> u64 \<Rightarrow> bool" where
  "runs_gc node_height height =
     (caught_up node_height height \<or> height mod CATCH_UP_GC_INTERVAL = 0)"

section \<open>The state machine\<close>

datatype 'ls phase =
    Down
  | Ready "'ls Running"
  | Persisted Block "AppliedTransaction list" bytes "'ls Running"
  | Written bytes "'ls Running"

record 'ls pstate =
  ps_store :: Store
  ps_backend :: Backend
  ps_phase :: "'ls phase"
  ps_log :: "Block list"

text \<open>The parameters of a run: the node's genesis hash, the network, and the genesis ledger state
  of the node.\<close>

record ('ls, 'o) run_env =
  re_ops :: "'ls ledger_ops"
  re_root_hash :: arena_root_hash
  re_codec :: "'o arena_codec"
  re_node_genesis :: bytes
  re_network :: string
  re_genesis_state :: "bytes option"

definition genesis_for :: "('ls, 'o) run_env \<Rightarrow> Block \<Rightarrow> bytes option" where
  "genesis_for E block = (if b_height block = 0 then re_genesis_state E else None)"

inductive pstep :: "('ls, 'o) run_env \<Rightarrow> 'ls pstate \<Rightarrow> 'ls pstate \<Rightarrow> bool" for E where
  run_start:
    "ps_phase s = Down \<Longrightarrow>
     startup (re_ops E) (re_root_hash E) (re_codec E) nodes (re_node_genesis E) (re_network E)
       (ps_store s) (ps_backend s) = Inr (b, rn) \<Longrightarrow>
     pstep E s (s\<lparr>ps_backend := b, ps_phase := Ready rn\<rparr>)"
| run_persist:
    "ps_phase s = Ready rn \<Longrightarrow>
     b_parent_hash block = expected_parent (rn_highest rn) \<Longrightarrow>
     replay_block (re_ops E) block (genesis_for E block) (rn_ledger rn) (re_network E)
       (rn_parent_timestamp rn) = Inr (ls1, derived, ts) \<Longrightarrow>
     lo_persist (re_ops E) ls1 = Inr (ls2, key) \<Longrightarrow>
     persist_root (re_root_hash E) key (lo_ledger_version (re_ops E) ls1) (ps_backend s) = Inr b \<Longrightarrow>
     pstep E s (s\<lparr>ps_backend := b, ps_phase := Persisted block derived key
       (rn\<lparr>rn_ledger := ls2, rn_parent_timestamp := ts, rn_highest := Some (block_ref_from block)\<rparr>)\<rparr>)"
| run_write:
    "ps_phase s = Persisted block derived key rn \<Longrightarrow>
     write_block (re_ops E) (ps_store s) block derived key (rn_window rn) (rn_ids rn)
       = Inr (st', ids') \<Longrightarrow>
     pstep E s (s\<lparr>ps_store := st', ps_log := ps_log s @ [block],
       ps_phase := Written key (rn\<lparr>rn_ids := ids'\<rparr>)\<rparr>)"
| run_trim:
    "ps_phase s = Written key rn \<Longrightarrow>
     trim_window (re_root_hash E)
       (rn_window rn @ [(key, stored_from (lo_ledger_version (re_ops E) (rn_ledger rn)))])
       (ps_backend s) = Inr (window, b) \<Longrightarrow>
     pstep E s (s\<lparr>ps_backend := b, ps_phase := Ready (rn\<lparr>rn_window := window\<rparr>)\<rparr>)"
| run_crash:
    "pstep E s (s\<lparr>ps_backend := (ps_backend s)\<lparr>be_deltas := []\<rparr>, ps_phase := Down\<rparr>)"

inductive_cases pstepE: "pstep E s s'"

definition initial :: "('ls, 'o) run_env \<Rightarrow> 'ls pstate \<Rightarrow> bool" where
  "initial E s = (ps_phase s = Down \<and> ps_log s = [] \<and> store_ok (ps_store s)
     \<and> schema (ps_store s) = SCHEMA_CURRENT
     \<and> last_indexed_height (ps_store s) = Inr None \<and> ledger_state_window (ps_store s) = Inr []
     \<and> tip_timestamp (ps_store s) = Inr None
     \<and> be_deltas (ps_backend s) = [] \<and> roots_ok (be_disk (ps_backend s))
     \<and> hashes_ok (re_codec E) (be_disk (ps_backend s)))"

inductive reaches :: "('ls, 'o) run_env \<Rightarrow> 'ls pstate \<Rightarrow> bool" for E where
  reaches_initial: "initial E s \<Longrightarrow> reaches E s"
| reaches_step: "reaches E s \<Longrightarrow> pstep E s s' \<Longrightarrow> reaches E s'"

end
