(* ===== verification/RunFacts.thy ===== *)
theory RunFacts
  imports RunLoop
begin

text \<open>
  The indexing loop keeps its durable state recoverable at every moment: the committed blocks are a
  hash chain whose tip the store names, every ledger state of the stored retention window has as
  many persisted roots as it has occurrences there, and a restart after a crash takes up exactly
  where the last committed block left off. Proved by induction over the step relation, with the laws
  of the locale \<open>root_ledger\<close> for the root counts.
\<close>

section \<open>What is assumed of the ledger\<close>

definition versions_ok :: "'ls ledger_ops \<Rightarrow> bool" where
  "versions_ok L =
     ((\<forall>n v s. lo_new L n v = Inr s \<longrightarrow> lo_ledger_version L s = v)
      \<and> (\<forall>r v s. lo_from_genesis L r v = Inr s \<longrightarrow> lo_ledger_version L s = v)
      \<and> (\<forall>s v s'. lo_translate L s v = Inr s' \<longrightarrow> lo_ledger_version L s' = v)
      \<and> (\<forall>s a b c d e s' out. lo_apply_regular L s a b c d e = Inr (s', out) \<longrightarrow>
           lo_ledger_version L s' = lo_ledger_version L s)
      \<and> (\<forall>s a b s' out. lo_apply_system L s a b = Inr (s', out) \<longrightarrow>
           lo_ledger_version L s' = lo_ledger_version L s)
      \<and> (\<forall>s t s'. lo_finalize L s t = Inr s' \<longrightarrow> lo_ledger_version L s' = lo_ledger_version L s)
      \<and> (\<forall>s s' k. lo_persist L s = Inr (s', k) \<longrightarrow> lo_ledger_version L s' = lo_ledger_version L s))"

definition root_hash_ok :: "arena_root_hash \<Rightarrow> 'o arena_codec \<Rightarrow> bool" where
  "root_hash_ok rh C = (\<forall>k v h. rh k v = Inr h \<longrightarrow> ac_hash C h = Some h)"

lemma apply_version:
  assumes "versions_ok L" and "apply_transaction L ls t block pts bump = Inr (ls', a)"
  shows "lo_ledger_version L ls' = lo_ledger_version L ls"
proof (cases t)
  case (RegularTx tx)
  with assms(2) obtain ts out where "lo_apply_regular L ls (rt_raw tx) (b_parent_hash block)
      (b_timestamp block) pts ts = Inr (ls', out)"
    by (auto simp: Let_def result_simps apply_regular_with_retry_def split: sum.splits if_splits)
  with assms(1) show ?thesis unfolding versions_ok_def by blast
next
  case (SystemTx tx)
  with assms(2) obtain out where "lo_apply_system L ls (st_raw tx) (b_timestamp block) = Inr (ls', out)"
    by (auto simp: Let_def result_simps)
  with assms(1) show ?thesis unfolding versions_ok_def by blast
qed

lemma replay_version:
  assumes "versions_ok L" and "replay_block L block g ls net pts = Inr (ls', derived, ts)"
  shows "lo_ledger_version L ls' = ledger_version (b_protocol_version block)"
proof -
  let ?v = "ledger_version (b_protocol_version block)"
  obtain ls0 ls1 gs ls2 fr ls3 pts' where s:
    "initial_ledger_state L block ls net = Inr ls0"
    "genesis_cases L block g ls0 = Inr (ls1, gs)"
    "try_fold (apply_transactions L block pts') (ls1, True, []) (b_transactions block) = Inr (ls2, fr, derived)"
    "lo_finalize L ls2 (b_timestamp block) = Inr ls3" "ls' = (case gs of Some s \<Rightarrow> s | None \<Rightarrow> ls3)"
    using replay_stages [OF assms(2)] by metis
  have 0: "lo_ledger_version L ls0 = ?v"
    using s(1) assms(1) by (auto simp: initial_ledger_state_def Let_def result_simps versions_ok_def
        split: if_splits)
  have 1: "lo_ledger_version L ls1 = ?v" "\<forall>s. gs = Some s \<longrightarrow> lo_ledger_version L s = ?v"
    using s(2) 0 assms(1) by (auto simp: genesis_cases_def result_simps versions_ok_def split: if_splits)
  have "lo_ledger_version L (fst (ls2, fr, derived)) = ?v"
    by (rule try_fold_invariant [OF s(3), where P = "\<lambda>s. lo_ledger_version L (fst s) = ?v"])
      (use 1 apply_version [OF assms(1)] in \<open>auto simp: apply_transactions_Inr simp del: apply_transactions.simps\<close>)
  then have "lo_ledger_version L ls3 = ?v" using s(4) assms(1) by (auto simp: versions_ok_def)
  with 1 s(5) show ?thesis by (auto split: option.splits)
qed

section \<open>Root counts: a healthy database is left alone\<close>

lemma raise_root_healthy:
  assumes "uint want \<le> uint (case map_of stored h of Some n \<Rightarrow> n | None \<Rightarrow> 0)"
  shows "raise_root nodes stored (h, want) s = s"
proof -
  have "saturating_sub want (case map_of stored h of Some n \<Rightarrow> n | None \<Rightarrow> 0) = 0"
    using assms by (simp only: saturating_sub_zero)
  then show ?thesis unfolding raise_root_def Let_def by (simp only: fst_conv snd_conv if_True simp_thms)
qed

lemma repair_healthy:
  assumes "backend_ok b" and "be_deltas b = []" and "hashes_ok C (be_disk b)"
    and "\<forall>h. int (count_list (window_hashes rh window) h) \<le> root_count b h"
    and "length window < 2 ^ 32" and "length (window_hashes rh window) = length window"
  shows "\<exists>r. repair_root_counts rh C nodes window b = Inr (b, r)"
proof -
  have "\<exists>w. try_fold (count_root rh) acc window = Inr w" for acc
    using assms(6)
  proof (induction window arbitrary: acc)
    case (Cons e w)
    have "length (window_hashes rh w) \<le> length w"
      by (induction w) (auto split: sum.splits)
    with Cons.prems obtain h where "rh (fst e) (stored_into (snd e)) = Inr h"
      "length (window_hashes rh w) = length w" by (auto split: sum.splits)
    with Cons.IH show ?case by (simp add: count_root_def)
  qed simp
  then obtain wanted where w: "window_root_counts rh window = Inr wanted"
    by (auto simp: window_root_counts_def)
  note counts = window_counts [OF w]
  obtain rs where rs: "get_roots C (be_disk b) = Inr rs"
    "\<And>h. (case map_of rs h of Some n \<Rightarrow> n | None \<Rightarrow> 0)
      = (case get_root_count (be_disk b) h of Inr n \<Rightarrow> n | Inl _ \<Rightarrow> 0)"
    using get_roots_counts assms(1,3) unfolding backend_ok_def by metis
  have "raise_root nodes rs e s = s" if e: "e \<in> set wanted" for e s
  proof -
    obtain h want where e': "e = (h, want)" by (cases e)
    then have "part_get wanted h = Some want" using e counts part_get_iff by metis
    then have want: "want = word_of_nat (count_list (window_hashes rh window) h)"
      using counts by (auto split: if_splits)
    have "count_list (window_hashes rh window) h < 2 ^ 32"
      using count_list_le_length [of "window_hashes rh window" h] assms(5,6) by simp
    then have "uint want = int (count_list (window_hashes rh window) h)"
      by (simp add: want uint_nat unat_of_nat)
    also have "\<dots> \<le> uint (case map_of rs h of Some n \<Rightarrow> n | None \<Rightarrow> 0)"
      using spec [OF assms(4), of h] rs(2) [of h] assms(2)
      by (cases "get_root_count (be_disk b) h") (simp_all add: root_count_def stored_count_def)
    finally show ?thesis by (simp add: e' raise_root_healthy)
  qed
  then have "fold (raise_root nodes rs) wanted s = s" for s
    by (induction wanted arbitrary: s) auto
  then show ?thesis
    using assms(2) by (simp add: repair_root_counts_def w raise_root_counts_def rs(1) part_iter_def
        flush_all_changes_to_db_def)
qed

lemma persisted_contains:
  assumes "backend_ok b" and "be_deltas b = []" and "hashes_ok C (be_disk b)"
    and "persisted_root_hashes C b = Inr hs" and "0 < root_count b h"
  shows "h \<in> set hs"
proof -
  obtain rs where rs: "get_roots C (be_disk b) = Inr rs"
    "map fst rs = map fst (keyspace (be_disk b) LedgerDbRoots)"
    using get_roots_counts assms(1,3) unfolding backend_ok_def by metis
  have "get_root_count (be_disk b) h \<noteq> Inr 0"
    using assms(5,2) by (auto simp: root_count_def stored_count_def)
  then have "disk_get (be_disk b) LedgerDbRoots h \<noteq> None"
    by (cases "disk_get (be_disk b) LedgerDbRoots h") (simp_all add: get_root_count_def)
  then have "h \<in> fst ` set (keyspace (be_disk b) LedgerDbRoots)"
    by (simp add: disk_get_def ks_get_def part_get_def map_of_eq_None_iff)
  then show ?thesis using assms(4) rs by (auto simp: persisted_root_hashes_def simp flip: set_map)
qed

lemma hashes_ok_set:
  assumes "hashes_ok C d" and "ac_hash C h = Some h"
  shows "hashes_ok C (set_root_count h n d)"
proof -
  have "part_ok (keyspace (set_root_count h n d) LedgerDbRoots)"
    using assms(1) by (simp add: hashes_ok_def set_root_count_def disk_insert_def disk_remove_def
        part_ok_insert part_ok_remove)
  then show ?thesis
    using assms by (auto simp: hashes_ok_def set_root_count_view split: if_splits)
qed

lemma hashes_ok_flush:
  assumes "hashes_ok C (be_disk b)" and "\<forall>h \<in> fst ` set (be_deltas b). ac_hash C h = Some h"
    and "flush_all_changes_to_db b = Inr b'"
  shows "hashes_ok C (be_disk b') \<and> be_deltas b' = []"
proof -
  obtain d where d: "try_fold flush_delta (be_disk b) (be_deltas b) = Inr d"
    "b' = b\<lparr>be_disk := d, be_deltas := []\<rparr>"
    using assms(3) by (auto simp: flush_all_changes_to_db_def result_simps)
  have "hashes_ok C d"
  proof (rule try_fold_invariant [OF d(1), where P = "hashes_ok C"])
    fix s e s' assume "hashes_ok C s" "e \<in> set (be_deltas b)" "flush_delta s e = Inr s'"
    then show "hashes_ok C s'"
      using assms(2) by (auto simp: flush_delta_def Let_def result_simps hashes_ok_set split: if_splits)
  qed (rule assms(1))
  with d(2) show ?thesis by simp
qed

section \<open>The invariant\<close>

text \<open>What the store says about the committed blocks.\<close>

definition tip_ok :: "Store \<Rightarrow> Block list \<Rightarrow> bool" where
  "tip_ok st log =
     (resume_from st = Inr (if log = [] then None else Some (block_ref_from (last log)))
      \<and> tip_timestamp st = Inr (if log = [] then None else Some (b_timestamp (last log))))"

definition tip_time :: "Block list \<Rightarrow> u64" where
  "tip_time log = (if log = [] then 0 else b_timestamp (last log))"

definition durable :: "Backend \<Rightarrow> Backend" where
  "durable b = b\<lparr>be_deltas := []\<rparr>"

definition window_ok :: "arena_root_hash \<Rightarrow> LedgerStateWindow \<Rightarrow> bool" where
  "window_ok rh W = (length W \<le> LEDGER_STATE_RETENTION \<and> length (window_hashes rh W) = length W)"

definition running_ok :: "Store \<Rightarrow> Block list \<Rightarrow> LedgerStateWindow \<Rightarrow> 'ls Running \<Rightarrow> bool" where
  "running_ok st log W rn = (rn_window rn = W \<and> counters_load st = Inr (rn_ids rn)
     \<and> rn_parent_timestamp rn = tip_time log
     \<and> rn_highest rn = (if log = [] then None else Some (block_ref_from (last log))))"

fun phase_ok ::
    "('ls, 'o) run_env \<Rightarrow> Store \<Rightarrow> Backend \<Rightarrow> Block list \<Rightarrow> LedgerStateWindow \<Rightarrow> 'ls phase \<Rightarrow> bool" where
  "phase_ok E st b log W Down = (be_deltas b = [])"
| "phase_ok E st b log W (Ready rn) =
     (running_ok st log W rn \<and> arena.covers (window_hashes (re_root_hash E) W) b)"
| "phase_ok E st b log W (Persisted block derived key rn) =
     (rn_window rn = W \<and> counters_load st = Inr (rn_ids rn) \<and> rn_parent_timestamp rn = b_timestamp block
      \<and> rn_highest rn = Some (block_ref_from block)
      \<and> b_parent_hash block = (if log = [] then 0 else b_hash (last log))
      \<and> lo_ledger_version (re_ops E) (rn_ledger rn) = ledger_version (b_protocol_version block)
      \<and> be_deltas b = []
      \<and> (\<exists>h. re_root_hash E key (ledger_version (b_protocol_version block)) = Inr h
          \<and> arena.covers (window_hashes (re_root_hash E) W @ [h]) b))"
| "phase_ok E st b log W (Written key rn) =
     (\<exists>v. log \<noteq> [] \<and> window_ok (re_root_hash E) (rn_window rn)
      \<and> lo_ledger_version (re_ops E) (rn_ledger rn) = v
      \<and> W = push_window (rn_window rn) (key, stored_from v)
      \<and> running_ok st log (rn_window rn) rn \<and> be_deltas b = []
      \<and> (\<exists>h. re_root_hash E key v = Inr h
          \<and> arena.covers (window_hashes (re_root_hash E) (rn_window rn) @ [h]) b))"

definition deltas_fit :: "'o arena_codec \<Rightarrow> Backend \<Rightarrow> bool" where
  "deltas_fit C b = (hashes_ok C (be_disk b)
     \<and> (\<forall>h \<in> fst ` set (be_deltas b). ac_hash C h = Some h))"

definition run_inv :: "('ls, 'o) run_env \<Rightarrow> 'ls pstate \<Rightarrow> bool" where
  "run_inv E s =
     (store_ok (ps_store s) \<and> schema (ps_store s) = SCHEMA_CURRENT
      \<and> linked 0 (ps_log s) \<and> tip_ok (ps_store s) (ps_log s)
      \<and> deltas_fit (re_codec E) (ps_backend s)
      \<and> (\<exists>W. ledger_state_window (ps_store s) = Inr W \<and> window_ok (re_root_hash E) W
          \<and> (ps_log s = [] \<or> W \<noteq> [])
          \<and> arena.covers (window_hashes (re_root_hash E) W) (durable (ps_backend s))
          \<and> phase_ok E (ps_store s) (ps_backend s) (ps_log s) W (ps_phase s)))"

lemma durable_id: "be_deltas b = [] \<Longrightarrow> durable b = b"
  by (simp add: durable_def)

lemma covers_mono:
  assumes "arena.covers hs b" and "\<And>h. count_list hs' h \<le> count_list hs h"
  shows "arena.covers hs' b"
  using assms by (auto simp: arena.covers_def) (meson of_nat_mono order_trans)

lemma window_hashes_drop:
  assumes "length (window_hashes rh W) = length W"
  shows "window_hashes rh (drop n W) = drop n (window_hashes rh W)
    \<and> window_hashes rh (take n W) = take n (window_hashes rh W)"
  using assms
proof (induction W arbitrary: n)
  case (Cons e W)
  have "length (window_hashes rh W) \<le> length W"
    by (induction W) (auto split: sum.splits)
  with Cons.prems obtain h where h: "rh (fst e) (stored_into (snd e)) = Inr h"
    "length (window_hashes rh W) = length W" by (auto split: sum.splits)
  show ?case using Cons.IH [OF h(2)] h(1) by (cases n) simp_all
qed simp

lemma stored_into_from [simp]: "stored_into (stored_from v) = v"
  by (cases v) simp_all

lemma unpersist_total:
  assumes "length (window_hashes rh W) = length W"
  shows "try_fold (unpersist rh) b W = Inr (fold backend_unpersist (window_hashes rh W) b)"
  using assms
proof (induction W arbitrary: b)
  case (Cons e W)
  have "length (window_hashes rh W) \<le> length W"
    by (induction W) (auto split: sum.splits)
  with Cons.prems obtain h where h: "rh (fst e) (stored_into (snd e)) = Inr h"
    "length (window_hashes rh W) = length W" by (auto split: sum.splits)
  show ?case using Cons.IH [OF h(2)] h(1) by (simp add: unpersist_def)
qed simp

lemma fold_unpersist_fields:
  "be_disk (fold backend_unpersist hs b) = be_disk b"
  "fst ` set (be_deltas (fold backend_unpersist hs b)) \<subseteq> fst ` set (be_deltas b) \<union> set hs"
proof -
  show "be_disk (fold backend_unpersist hs b) = be_disk b"
    by (induction hs arbitrary: b) (simp_all add: backend_unpersist_def)
  show "fst ` set (be_deltas (fold backend_unpersist hs b)) \<subseteq> fst ` set (be_deltas b) \<union> set hs"
  proof (induction hs arbitrary: b)
    case (Cons h hs)
    have "fst ` set (be_deltas (backend_unpersist h b)) = insert h (fst ` set (be_deltas b))"
      by (simp add: backend_unpersist_def fst_entry_update)
    with Cons.IH [of "backend_unpersist h b"] show ?case by auto
  qed simp
qed

lemma window_hashes_known:
  "root_hash_ok rh C \<Longrightarrow> h \<in> set (window_hashes rh W) \<Longrightarrow> ac_hash C h = Some h"
  by (induction W) (auto simp: root_hash_ok_def split: sum.splits)

section \<open>The steps preserve it\<close>

lemma inv_crash:
  assumes "run_inv E s"
  shows "run_inv E (s\<lparr>ps_backend := (ps_backend s)\<lparr>be_deltas := []\<rparr>, ps_phase := Down\<rparr>)"
  using assms by (auto simp: run_inv_def durable_def deltas_fit_def)

lemma startup_stages:
  assumes "startup L rh C nodes g net st b = Inr (b', rn)"
  obtains W r hs ls where
    "resume_from st = Inr (rn_highest rn)"
    "\<exists>t. tip_timestamp st = Inr t \<and> rn_parent_timestamp rn = (case t of Some t \<Rightarrow> t | None \<Rightarrow> 0)"
    "ledger_state_window st = Inr W" "repair_root_counts rh C nodes W b = Inr (b', r)"
    "persisted_root_hashes C b' = Inr hs" "rn_window rn = filter (retained rh hs) W"
    "load_ledger_state L net (rn_window rn) (rn_highest rn) = Inr (rn_ledger rn)"
    "counters_load st = Inr (rn_ids rn)"
  using assms by (auto simp: startup_def Let_def result_simps)

lemma filter_retained_all:
  assumes "length (window_hashes rh W) = length W" and "set (window_hashes rh W) \<subseteq> set hs"
  shows "filter (retained rh hs) W = W"
  using assms
proof (induction W)
  case (Cons e W)
  have "length (window_hashes rh W) \<le> length W"
    by (induction W) (auto split: sum.splits)
  with Cons.prems obtain h where h: "rh (fst e) (stored_into (snd e)) = Inr h"
    "length (window_hashes rh W) = length W" by (auto split: sum.splits)
  with Cons show ?case by (simp add: retained_def)
qed simp

text \<open>A restart keeps the whole stored window and leaves the counts alone.\<close>

lemma startup_window:
  assumes "run_inv E s" and "ps_phase s = Down" and "ledger_state_window (ps_store s) = Inr W"
  shows "\<exists>r. repair_root_counts (re_root_hash E) (re_codec E) nodes W (ps_backend s)
      = Inr (ps_backend s, r)"
    and "persisted_root_hashes (re_codec E) (ps_backend s) = Inr hs \<Longrightarrow>
      filter (retained (re_root_hash E) hs) W = W"
proof -
  let ?b = "ps_backend s" and ?rh = "re_root_hash E"
  have d: "be_deltas ?b = []" and W: "window_ok ?rh W"
    and cov: "arena.covers (window_hashes ?rh W) ?b" and h: "hashes_ok (re_codec E) (be_disk ?b)"
    using assms by (auto simp: run_inv_def deltas_fit_def durable_id)
  have ok: "backend_ok ?b" and counts: "\<forall>h. int (count_list (window_hashes ?rh W) h) \<le> root_count ?b h"
    using cov by (simp_all add: arena.covers_def)
  show "\<exists>r. repair_root_counts ?rh (re_codec E) nodes W ?b = Inr (?b, r)"
    by (rule repair_healthy [OF ok d h counts])
      (use W in \<open>simp_all add: window_ok_def LEDGER_STATE_RETENTION_def\<close>)
  show "filter (retained ?rh hs) W = W" if "persisted_root_hashes (re_codec E) ?b = Inr hs"
  proof (rule filter_retained_all)
    show "set (window_hashes ?rh W) \<subseteq> set hs"
    proof
      fix h1 assume "h1 \<in> set (window_hashes ?rh W)"
      then have "count_list (window_hashes ?rh W) h1 \<noteq> 0" by (simp add: count_list_0_iff)
      with spec [OF counts, of h1] have "0 < root_count ?b h1" by linarith
      then show "h1 \<in> set hs" by (rule persisted_contains [OF ok d h that])
    qed
  qed (use W in \<open>simp add: window_ok_def\<close>)
qed

lemma inv_start:
  assumes "run_inv E s" and "ps_phase s = Down"
    and "startup (re_ops E) (re_root_hash E) (re_codec E) nodes (re_node_genesis E) (re_network E)
       (ps_store s) (ps_backend s) = Inr (b, rn)"
  shows "run_inv E (s\<lparr>ps_backend := b, ps_phase := Ready rn\<rparr>)"
    and "running_ok (ps_store s) (ps_log s) (rn_window rn) rn"
    and "ledger_state_window (ps_store s) = Inr (rn_window rn)" and "b = ps_backend s"
proof -
  obtain W r hs ls where st: "resume_from (ps_store s) = Inr (rn_highest rn)"
    "\<exists>t. tip_timestamp (ps_store s) = Inr t \<and> rn_parent_timestamp rn = (case t of Some t \<Rightarrow> t | None \<Rightarrow> 0)"
    "ledger_state_window (ps_store s) = Inr W"
    "repair_root_counts (re_root_hash E) (re_codec E) nodes W (ps_backend s) = Inr (b, r)"
    "persisted_root_hashes (re_codec E) b = Inr hs"
    "rn_window rn = filter (retained (re_root_hash E) hs) W"
    "load_ledger_state (re_ops E) (re_network E) (rn_window rn) (rn_highest rn) = Inr (rn_ledger rn)"
    "counters_load (ps_store s) = Inr (rn_ids rn)"
    using startup_stages [OF assms(3)] by metis
  show b: "b = ps_backend s"
    using startup_window(1) [OF assms(1,2) st(3), of nodes] st(4) by auto
  have W: "rn_window rn = W"
    using startup_window(2) [OF assms(1,2) st(3)] st(5,6) b by simp
  then show "ledger_state_window (ps_store s) = Inr (rn_window rn)" using st(3) by simp
  have d: "be_deltas (ps_backend s) = []"
    using assms(1,2) by (auto simp: run_inv_def)
  show running: "running_ok (ps_store s) (ps_log s) (rn_window rn) rn"
    using assms(1) st(1,2,8) by (auto simp: run_inv_def running_ok_def tip_ok_def tip_time_def)
  show "run_inv E (s\<lparr>ps_backend := b, ps_phase := Ready rn\<rparr>)"
    using assms(1) running d st(3) W by (auto simp: run_inv_def b durable_id)
qed

lemma known_append:
  assumes "root_hash_ok rh C" and "rh k v = Inr h"
  shows "ac_hash C h = Some h"
  using assms by (auto simp: root_hash_ok_def)

lemma inv_persist:
  assumes inv: "run_inv E s" and V: "versions_ok (re_ops E)"
    and R: "root_hash_ok (re_root_hash E) (re_codec E)"
    and ready: "ps_phase s = Ready rn"
    and parent: "b_parent_hash block = expected_parent (rn_highest rn)"
    and replay: "replay_block (re_ops E) block g (rn_ledger rn) (re_network E)
       (rn_parent_timestamp rn) = Inr (ls1, derived, ts)"
    and persist: "lo_persist (re_ops E) ls1 = Inr (ls2, key)"
    and root: "persist_root (re_root_hash E) key (lo_ledger_version (re_ops E) ls1) (ps_backend s) = Inr b"
  shows "run_inv E (s\<lparr>ps_backend := b, ps_phase := Persisted block derived key
       (rn\<lparr>rn_ledger := ls2, rn_parent_timestamp := ts, rn_highest := Some (block_ref_from block)\<rparr>)\<rparr>)"
proof -
  let ?v = "ledger_version (b_protocol_version block)" and ?rh = "re_root_hash E"
  have v: "lo_ledger_version (re_ops E) ls1 = ?v" by (rule replay_version [OF V replay])
  have "\<forall>s s' k. lo_persist (re_ops E) s = Inr (s', k) \<longrightarrow>
      lo_ledger_version (re_ops E) s' = lo_ledger_version (re_ops E) s"
    using V by (simp add: versions_ok_def)
  with persist v have v2: "lo_ledger_version (re_ops E) ls2 = ?v" by metis
  obtain h where h: "?rh key ?v = Inr h"
    "flush_all_changes_to_db (backend_persist h (ps_backend s)) = Inr b"
    using root by (auto simp: persist_root_def v result_simps)
  obtain W where W: "ledger_state_window (ps_store s) = Inr W" "window_ok ?rh W"
      "ps_log s = [] \<or> W \<noteq> []"
      "running_ok (ps_store s) (ps_log s) W rn" "arena.covers (window_hashes ?rh W) (ps_backend s)"
    using inv ready by (auto simp: run_inv_def)
  have fit: "deltas_fit (re_codec E) (ps_backend s)" using inv by (simp add: run_inv_def)
  have up: "arena.covers (window_hashes ?rh W @ [h]) (backend_persist h (ps_backend s))"
    by (rule arena.covers_up [OF W(5)])
  with arena.sync_same [OF _ h(2)] have cov: "arena.covers (window_hashes ?rh W @ [h]) b"
    by (auto simp: arena.covers_def)
  have "hashes_ok (re_codec E) (be_disk b) \<and> be_deltas b = []"
    by (rule hashes_ok_flush [OF _ _ h(2)])
      (use fit known_append [OF R h(1)] in \<open>auto simp: deltas_fit_def backend_persist_def fst_entry_update\<close>)
  moreover have "arena.covers (window_hashes ?rh W) b"
    by (rule covers_mono [OF cov]) simp
  moreover have "b_parent_hash block = (if ps_log s = [] then 0 else b_hash (last (ps_log s)))"
    using parent W(4) by (auto simp: running_ok_def expected_parent_def block_ref_from_def)
  moreover have "ts = b_timestamp block" using replay by (rule replay_stages) simp
  ultimately show ?thesis
    using inv W cov h(1) v2 by (auto simp: run_inv_def durable_id deltas_fit_def running_ok_def)
qed

lemma count_list_drop: "count_list (drop n xs) h \<le> count_list xs h"
  by (metis append_take_drop_id count_list_append le_add2)

lemma push_window_hashes:
  assumes "length (window_hashes rh W) = length W" and "rh k v = Inr h"
  shows "length (window_hashes rh (push_window W (k, stored_from v))) = length (push_window W (k, stored_from v))"
    and "window_hashes rh (push_window W (k, stored_from v))
      = drop (Suc (length W) - LEDGER_STATE_RETENTION) (window_hashes rh W @ [h])"
proof -
  have "window_hashes rh (W @ [(k, stored_from v)]) = window_hashes rh W @ [h]"
    "length (window_hashes rh (W @ [(k, stored_from v)])) = length (W @ [(k, stored_from v)])"
    using assms by simp_all
  with window_hashes_drop [OF this(2), of "Suc (length W) - LEDGER_STATE_RETENTION"]
  show "window_hashes rh (push_window W (k, stored_from v))
      = drop (Suc (length W) - LEDGER_STATE_RETENTION) (window_hashes rh W @ [h])"
    by (simp add: push_window_def Let_def)
  then show "length (window_hashes rh (push_window W (k, stored_from v))) = length (push_window W (k, stored_from v))"
    using assms(1) by (simp add: push_window_def Let_def)
qed

lemma inv_write:
  assumes inv: "run_inv E s" and at: "ps_phase s = Persisted block derived key rn"
    and step: "write_block (re_ops E) (ps_store s) block derived key (rn_window rn) (rn_ids rn)
      = Inr (st', ids')"
  shows "run_inv E (s\<lparr>ps_store := st', ps_log := ps_log s @ [block],
       ps_phase := Written key (rn\<lparr>rn_ids := ids'\<rparr>)\<rparr>)"
proof -
  let ?v = "ledger_version (b_protocol_version block)" and ?rh = "re_root_hash E"
  let ?W' = "push_window (rn_window rn) (key, stored_from ?v)"
  have ok: "store_ok (ps_store s)" "schema (ps_store s) = SCHEMA_CURRENT"
    using inv by (simp_all add: run_inv_def)
  then have current: "contract_actions (ps_store s) = ContractActionsV2"
    by (simp add: store_ok_def SCHEMA_CURRENT_def)
  have W: "ledger_state_window (ps_store s) = Inr (rn_window rn)" "window_ok ?rh (rn_window rn)"
    using inv at by (auto simp: run_inv_def)
  have P: "rn_parent_timestamp rn = b_timestamp block" "rn_highest rn = Some (block_ref_from block)"
    "b_parent_hash block = (if ps_log s = [] then 0 else b_hash (last (ps_log s)))"
    "lo_ledger_version (re_ops E) (rn_ledger rn) = ?v" "be_deltas (ps_backend s) = []"
    using inv at by (auto simp: run_inv_def)
  obtain h where h: "?rh key ?v = Inr h"
    "arena.covers (window_hashes ?rh (rn_window rn) @ [h]) (ps_backend s)"
    using inv at W(1) by (auto simp: run_inv_def)
  note typed = block_typed [OF ok step]
  obtain r where r: "store_block st' (b_height block) = Inr (Some r)" "bk_hash r = b_hash block"
    "last_indexed_height st' = Inr (Some (b_height block))"
    "tip_timestamp st' = Inr (Some (b_timestamp block))" "counters_load st' = Inr ids'"
    using block_resumes [OF step current] by blast
  have win: "ledger_state_window st' = Inr ?W'"
    using block_resumes [OF step current]
    by (auto simp: push_window_def Let_def LEDGER_STATE_RETENTION_def)
  have tip: "tip_ok st' (ps_log s @ [block])"
    using r by (simp add: tip_ok_def resume_from_def block_ref_from_def)
  note ph = push_window_hashes [of ?rh "rn_window rn" key ?v h]
  have W': "window_ok ?rh ?W'"
    using ph(1) W(2) h(1) length_push_window [of "rn_window rn" "(key, stored_from ?v)"]
    by (simp add: window_ok_def)
  have cov: "arena.covers (window_hashes ?rh ?W') (ps_backend s)"
    by (rule covers_mono [OF h(2)]) (use ph(2) W(2) h(1) in \<open>simp only: window_ok_def count_list_drop\<close>)
  have link: "linked 0 (ps_log s @ [block])"
    using inv P(3) by (simp add: run_inv_def linked_append)
  have "running_ok st' (ps_log s @ [block]) (rn_window rn) (rn\<lparr>rn_ids := ids'\<rparr>)"
    using P r(5) by (simp add: running_ok_def tip_time_def)
  then show ?thesis
    using inv typed win tip W' W(2) cov link P h push_window_last [of "rn_window rn" "(key, stored_from ?v)"]
    by (auto simp: run_inv_def durable_id)
qed

lemma trim_window_total:
  assumes "length (window_hashes rh W) = length W"
  shows "trim_window rh W b = (let n = length W - LEDGER_STATE_RETENTION
    in Inr (drop n W, fold backend_unpersist (take n (window_hashes rh W)) b))"
proof -
  let ?n = "length W - LEDGER_STATE_RETENTION"
  have "length (window_hashes rh (take ?n W)) = length (take ?n W)"
    using window_hashes_drop [OF assms, of ?n] assms by simp
  then show ?thesis
    using window_hashes_drop [OF assms, of ?n] by (simp add: trim_window_def unpersist_total Let_def)
qed

lemma inv_trim:
  assumes inv: "run_inv E s" and R: "root_hash_ok (re_root_hash E) (re_codec E)"
    and at: "ps_phase s = Written key rn"
    and step: "trim_window (re_root_hash E)
       (rn_window rn @ [(key, stored_from (lo_ledger_version (re_ops E) (rn_ledger rn)))])
       (ps_backend s) = Inr (window, b)"
  shows "run_inv E (s\<lparr>ps_backend := b, ps_phase := Ready (rn\<lparr>rn_window := window\<rparr>)\<rparr>)"
proof -
  let ?v = "lo_ledger_version (re_ops E) (rn_ledger rn)" and ?rh = "re_root_hash E"
  let ?w = "rn_window rn @ [(key, stored_from ?v)]"
  let ?n = "length ?w - LEDGER_STATE_RETENTION"
  obtain h where P: "window_ok ?rh (rn_window rn)"
    "ledger_state_window (ps_store s) = Inr (push_window (rn_window rn) (key, stored_from ?v))"
    "window_ok ?rh (push_window (rn_window rn) (key, stored_from ?v))"
    "running_ok (ps_store s) (ps_log s) (rn_window rn) rn" "be_deltas (ps_backend s) = []"
    "?rh key ?v = Inr h" "arena.covers (window_hashes ?rh (rn_window rn) @ [h]) (ps_backend s)"
    "ps_log s \<noteq> []"
    using inv at by (auto simp: run_inv_def)
  have hs: "window_hashes ?rh ?w = window_hashes ?rh (rn_window rn) @ [h]" using P(6) by simp
  have len: "length (window_hashes ?rh ?w) = length ?w" using P(1) hs by (simp add: window_ok_def)
  have out: "window = drop ?n ?w" "b = fold backend_unpersist (take ?n (window_hashes ?rh ?w)) (ps_backend s)"
    using step trim_window_total [OF len, of "ps_backend s"] by (simp_all add: Let_def)
  have win: "window = push_window (rn_window rn) (key, stored_from ?v)"
    unfolding out(1) push_window_def Let_def by (rule refl)
  have cov: "arena.covers (window_hashes ?rh window) b"
    using arena.covers_drop [OF P(7), of ?n] window_hashes_drop [OF len, of ?n]
    unfolding out hs by simp
  have fit: "deltas_fit (re_codec E) b"
  proof -
    have "fst ` set (be_deltas b) \<subseteq> set (window_hashes ?rh ?w)"
      using fold_unpersist_fields(2) [of "take ?n (window_hashes ?rh ?w)" "ps_backend s"] P(5)
      unfolding out(2) by (auto dest: in_set_takeD)
    then show ?thesis
      using inv window_hashes_known [OF R, of _ ?w]
      by (auto simp: run_inv_def deltas_fit_def out(2) fold_unpersist_fields(1) simp del: window_hashes_simps)
  qed
  have dur: "durable b = ps_backend s"
    using P(5) fold_unpersist_fields(1) [of "take ?n (window_hashes ?rh ?w)" "ps_backend s"]
    by (simp add: durable_def out(2))
  have "running_ok (ps_store s) (ps_log s) window (rn\<lparr>rn_window := window\<rparr>)"
    using P(4) by (simp add: running_ok_def)
  then show ?thesis
    using inv P(2,3,5) win cov fit dur by (auto simp: run_inv_def durable_id)
qed

lemma inv_initial: "initial E s \<Longrightarrow> run_inv E s"
  by (auto simp: run_inv_def initial_def tip_ok_def resume_from_def window_ok_def deltas_fit_def
      arena.covers_def durable_id backend_ok_def root_count_def stored_count_def split: sum.splits)

lemma inv_step:
  assumes "run_inv E s" and "pstep E s s'" and "versions_ok (re_ops E)"
    and "root_hash_ok (re_root_hash E) (re_codec E)"
  shows "run_inv E s'"
  using assms(2)
proof cases
  case run_start
  then show ?thesis using inv_start(1) [OF assms(1)] by simp
next
  case run_persist
  then show ?thesis using inv_persist [OF assms(1,3,4)] by simp
next
  case run_write
  then show ?thesis using inv_write [OF assms(1)] by simp
next
  case run_trim
  then show ?thesis using inv_trim [OF assms(1,4)] by simp
next
  case run_crash
  then show ?thesis using inv_crash [OF assms(1)] by simp
qed

lemma reaches_inv:
  assumes "reaches E s" and "versions_ok (re_ops E)" and "root_hash_ok (re_root_hash E) (re_codec E)"
  shows "run_inv E s"
  using assms(1)
proof induction
  case (reaches_step s s')
  then show ?case using inv_step assms(2,3) by blast
qed (rule inv_initial)

section \<open>The properties\<close>

lemma durable_count: "root_count (durable b) h = stored_count (be_disk b) h"
  by (simp add: durable_def root_count_def)

text \<open>
  C2. The durable state is recoverable at every moment, crashes included. In every state the
  indexing loop can reach, between any two of its durable moves, the store is well typed and at the
  current schema, the committed blocks are a hash chain from genesis, the store's tip is the last of
  them, and each ledger state of the stored retention window has at least as many roots on disk as
  it has occurrences in the window, so that the collector cannot remove what a restart would load.
\<close>

theorem run_recoverable:
  assumes "reaches E s" and "versions_ok (re_ops E)" and "root_hash_ok (re_root_hash E) (re_codec E)"
  shows "store_ok (ps_store s) \<and> schema (ps_store s) = SCHEMA_CURRENT
    \<and> linked 0 (ps_log s) \<and> tip_ok (ps_store s) (ps_log s)
    \<and> (\<exists>W. ledger_state_window (ps_store s) = Inr W \<and> length W \<le> 32 \<and> (ps_log s = [] \<or> W \<noteq> [])
        \<and> length (window_hashes (re_root_hash E) W) = length W
        \<and> (\<forall>h. int (count_list (window_hashes (re_root_hash E) W) h)
              \<le> stored_count (be_disk (ps_backend s)) h))"
  using reaches_inv [OF assms]
  by (auto simp: run_inv_def window_ok_def LEDGER_STATE_RETENTION_def arena.covers_def durable_count)

lemma restart_point:
  assumes "reaches E s" and "versions_ok (re_ops E)" and "root_hash_ok (re_root_hash E) (re_codec E)"
    and "ps_phase s = Down" and "check_genesis (ps_store s) (re_node_genesis E) = Inr ()"
    and "counters_load (ps_store s) = Inr ids" and "ledger_state_window (ps_store s) = Inr W"
    and "load_ledger_state (re_ops E) (re_network E) W
      (if ps_log s = [] then None else Some (block_ref_from (last (ps_log s)))) = Inr ls"
  shows "startup (re_ops E) (re_root_hash E) (re_codec E) nodes (re_node_genesis E) (re_network E)
       (ps_store s) (ps_backend s)
    = Inr (ps_backend s, \<lparr>rn_ledger = ls, rn_window = W, rn_ids = ids,
        rn_parent_timestamp = (if ps_log s = [] then 0 else b_timestamp (last (ps_log s))),
        rn_highest = (if ps_log s = [] then None else Some (block_ref_from (last (ps_log s))))\<rparr>)"
proof -
  have inv: "run_inv E s" using assms(1-3) by (rule reaches_inv)
  then have tip: "tip_ok (ps_store s) (ps_log s)" and ok: "backend_ok (ps_backend s)"
    and h: "hashes_ok (re_codec E) (be_disk (ps_backend s))"
    using assms(4) by (auto simp: run_inv_def deltas_fit_def arena.covers_def durable_id)
  obtain r where r: "repair_root_counts (re_root_hash E) (re_codec E) nodes W (ps_backend s)
      = Inr (ps_backend s, r)"
    using startup_window(1) [OF inv assms(4,7)] by blast
  obtain rs where "get_roots (re_codec E) (be_disk (ps_backend s)) = Inr rs"
    using get_roots_counts [OF _ h] ok by (auto simp: backend_ok_def)
  then have hs: "persisted_root_hashes (re_codec E) (ps_backend s) = Inr (map fst rs)"
    by (simp add: persisted_root_hashes_def)
  show ?thesis
    using tip assms(8) startup_window(2) [OF inv assms(4,7) hs]
    by (simp add: startup_def assms(5-7) tip_ok_def r hs Let_def)
qed

text \<open>
  C18. A restart takes up where the last committed block left off. From every reachable state in
  which the indexer is down, when the data belongs to the node's chain, the counters are readable and
  the newest ledger state of the window loads, startup succeeds, changes no root count, keeps the
  whole stored window and resumes at the tip of the committed blocks with its timestamp as the next
  parent time.
\<close>

theorem restart_resumes:
  assumes "reaches E s" and "versions_ok (re_ops E)" and "root_hash_ok (re_root_hash E) (re_codec E)"
    and "ps_phase s = Down" and "check_genesis (ps_store s) (re_node_genesis E) = Inr ()"
    and "counters_load (ps_store s) = Inr ids" and "ledger_state_window (ps_store s) = Inr W"
    and "load_ledger_state (re_ops E) (re_network E) W
      (if ps_log s = [] then None else Some (block_ref_from (last (ps_log s)))) = Inr ls"
  shows "startup (re_ops E) (re_root_hash E) (re_codec E) nodes (re_node_genesis E) (re_network E)
       (ps_store s) (ps_backend s)
    = Inr (ps_backend s, \<lparr>rn_ledger = ls, rn_window = W, rn_ids = ids,
        rn_parent_timestamp = (if ps_log s = [] then 0 else b_timestamp (last (ps_log s))),
        rn_highest = (if ps_log s = [] then None else Some (block_ref_from (last (ps_log s))))\<rparr>)"
  using assms by (rule restart_point)

text \<open>
  C19. The bookkeeping of roots never stops the indexer. In a reachable state, persisting the next
  ledger state succeeds for every key the arena can resolve, provided the stored counts stay below
  \<open>2^32\<close> with the one root more (the flush does not panic on a negative count), and after a block
  is written the aged-out states can always be unpersisted, which leaves in memory exactly the window
  that was stored.
\<close>

theorem run_bookkeeping:
  assumes "reaches E s" and "versions_ok (re_ops E)" and "root_hash_ok (re_root_hash E) (re_codec E)"
  shows "(\<forall>rn key v h. ps_phase s = Ready rn \<longrightarrow> re_root_hash E key v = Inr h
        \<longrightarrow> (\<forall>k. root_count (ps_backend s) k < 2 ^ 32 - 1)
        \<longrightarrow> (\<exists>b. persist_root (re_root_hash E) key v (ps_backend s) = Inr b))
    \<and> (\<forall>rn key. ps_phase s = Written key rn
        \<longrightarrow> (\<exists>W b. trim_window (re_root_hash E) (rn_window rn
              @ [(key, stored_from (lo_ledger_version (re_ops E) (rn_ledger rn)))]) (ps_backend s) = Inr (W, b)
            \<and> ledger_state_window (ps_store s) = Inr W \<and> be_disk b = be_disk (ps_backend s)))"
proof (intro conjI allI impI)
  have inv: "run_inv E s" using assms by (rule reaches_inv)
  fix rn key v h
  assume s: "ps_phase s = Ready rn" "re_root_hash E key v = Inr h"
    "\<forall>k. root_count (ps_backend s) k < 2 ^ 32 - 1"
  let ?b = "backend_persist h (ps_backend s)"
  obtain W where cov: "arena.covers (window_hashes (re_root_hash E) W) (ps_backend s)"
    using inv s(1) by (auto simp: run_inv_def)
  note cov' = arena.covers_up [OF cov, of h]
  have "root_count ?b k < 2 ^ 32" for k
    using arena.up [of "ps_backend s" h] cov spec [OF s(3), of k]
    by (auto simp: arena.covers_def fun_upd_apply)
  then have "\<forall>k. root_count ?b k < 2 ^ 32" by blast
  with arena.covers_sync [OF cov'] obtain b where "flush_all_changes_to_db ?b = Inr b" by blast
  then show "\<exists>b. persist_root (re_root_hash E) key v (ps_backend s) = Inr b"
    by (simp add: persist_root_def s(2))
next
  have inv: "run_inv E s" using assms by (rule reaches_inv)
  fix rn key assume s: "ps_phase s = Written key rn"
  let ?v = "lo_ledger_version (re_ops E) (rn_ledger rn)"
  let ?w = "rn_window rn @ [(key, stored_from ?v)]"
  obtain h where P: "window_ok (re_root_hash E) (rn_window rn)" "re_root_hash E key ?v = Inr h"
    "ledger_state_window (ps_store s) = Inr (push_window (rn_window rn) (key, stored_from ?v))"
    using inv s by (auto simp: run_inv_def)
  have "length (window_hashes (re_root_hash E) ?w) = length ?w"
    using P(1,2) by (simp add: window_ok_def)
  from trim_window_total [OF this] show "\<exists>W b. trim_window (re_root_hash E) ?w (ps_backend s) = Inr (W, b)
      \<and> ledger_state_window (ps_store s) = Inr W \<and> be_disk b = be_disk (ps_backend s)"
    using P(3) by (simp add: Let_def push_window_def fold_unpersist_fields(1))
qed

end
