(* ===== verification/BlockWitness.thy ===== *)
theory BlockWitness
  imports BlockTotal RegistrationFacts
begin

text \<open>
  The properties of \<open>write_block\<close> at a concrete block: two transactions on an empty store, the
  second spending an output of the first, a contract deployed, called and failing to be called, and
  registration events. The ledger's operations are stood for by simple functions.
\<close>

definition demo_sha :: "bytes \<Rightarrow> hash32" where
  "demo_sha bs = word_of_nat (of_be_bytes bs)"

definition demo_ops :: "nat ledger_ops" where
  "demo_ops = \<lparr>lo_new = (\<lambda>_ _. Inr 0), lo_from_genesis = (\<lambda>_ _. Inr 0), lo_load = (\<lambda>k _. Inr (of_be_bytes k)), lo_translate = (\<lambda>s _. Inr s),
     lo_ledger_version = (\<lambda>_. LV9), lo_root = (\<lambda>s. Inr [word_of_nat s]),
     lo_persist = (\<lambda>s. Inr (s, [word_of_nat s])),
     lo_apply_regular = (\<lambda>s _ _ _ _ _. Inr (s + 1, \<lparr>ro_transaction_result = Success,
       ro_created_unshielded_utxos = [], ro_spent_unshielded_utxos = [], ro_ledger_events = [],
       ro_fees = 7, ro_bridge_claim = None\<rparr>)),
     lo_apply_system = (\<lambda>s _ _. Inr (s + 1, \<lparr>so_created_unshielded_utxos = [], so_ledger_events = []\<rparr>)),
     lo_finalize = (\<lambda>s _. Inr s), lo_zswap_first_free = (\<lambda>s. word_of_nat s),
     lo_zswap_merkle_tree_root = (\<lambda>_. ZRootV9 []), lo_serialize_root = (\<lambda>_. Inr [0]),
     lo_contract_balances = (\<lambda>_ _. Inr []), lo_sha256 = demo_sha\<rparr>"

definition demo_utxo :: "u32 \<Rightarrow> u128 \<Rightarrow> UnshieldedUtxo" where
  "demo_utxo i x = \<lparr>uu_owner = 1, uu_token_type = 2, uu_value = x, uu_intent_hash = 3,
     uu_output_index = i, uu_ctime = None, uu_initial_nonce = 0,
     uu_registered_for_dust_generation = False\<rparr>"

definition demo_action :: "ContractAttributes \<Rightarrow> bytes \<Rightarrow> bytes \<times> ContractActionRecord \<times> bytes" where
  "demo_action attrs state = ([9], \<lparr>ar_address = [9], ar_attributes = attrs,
     ar_state_hash = (if state = [] then None else Some (demo_sha state)), ar_balances = [],
     ar_tx_id = 0, ar_block_height = 5\<rparr>, state)"

definition demo_tx ::
    "hash32 \<Rightarrow> UnshieldedUtxo list \<Rightarrow> UnshieldedUtxo list \<Rightarrow>
       (bytes \<times> ContractActionRecord \<times> bytes) list \<Rightarrow> AppliedTransaction" where
  "demo_tx h created spent actions = \<lparr>at_hash = h, at_protocol_version = 22000, at_zswap_start_index = 0,
     at_zswap_end_index = 0, at_variant = Regular, at_result = Success, at_fees = 7,
     at_identifiers = [[1, 2]], at_contract_actions = actions, at_created_utxos = created,
     at_spent_utxos = spent, at_ledger_events = [zswap_output [5]], at_raw = [4]\<rparr>"

definition demo_txs :: "AppliedTransaction list" where
  "demo_txs = [demo_tx 11 [demo_utxo 0 10, demo_utxo 1 20] [] [demo_action Deploy [7]],
     demo_tx 12 [demo_utxo 2 5] [demo_utxo 0 10]
       [demo_action (Call ''f'') [], demo_action (Call ''g'') [8]]]"

definition demo_block :: "u64 \<Rightarrow> DustRegistrationEvent list \<Rightarrow> Block" where
  "demo_block h evs = \<lparr>b_hash = 21, b_height = h, b_protocol_version = PV2_0 2000000, b_parent_hash = 20,
     b_author = None, b_timestamp = 60000, b_zswap_merkle_tree_root = ZRootV9 [],
     b_ledger_state_root = Some [2], b_transactions = [], b_dust_registration_events = evs,
     b_bridge_events = []\<rparr>"

definition zero_ids :: Counters where
  "zero_ids = \<lparr>next_tx_id = 0, next_action_id = 0, next_event_id = 0\<rparr>"

definition demo_run :: "DustRegistrationEvent list \<Rightarrow> Store \<Rightarrow> rust_error + Store \<times> Counters" where
  "demo_run evs st = write_block demo_ops st (demo_block 5 evs) demo_txs [3] [] zero_ids"

lemma blank_get [simp]: "store_get blank_store p k = None"
  by (simp add: store_get_def ks_get_def part_get_def blank_store_def)

lemma blank_unspent [simp]: "unspent_set blank_store = (\<lambda>_. None)"
  by (simp add: unspent_set_def)

lemma blank_books [simp]: "books_ok blank_store"
  by (simp add: books_ok_def utxo_records_ok_def unspent_index_ok_def stored_balance_def total_def)

lemma blank_actions [simp]: "actions_ok sha blank_store n"
  by (simp add: actions_ok_def action_at_def)

lemma blank_schema [simp]: "contract_actions blank_store = ContractActionsV2" "schema blank_store = 2"
  by (simp_all add: blank_store_def)

definition demo_left :: utxo_set where
  "demo_left = [utxo_key 3 1 \<mapsto> (1, 2, 20), utxo_key 3 2 \<mapsto> (1, 2, 5)]"

lemma demo_abs: "try_fold abs_tx (unspent_set blank_store) demo_txs = Inr demo_left"
  by (simp add: demo_txs_def demo_tx_def abs_tx_def abs_create_def abs_spend_def key_of_utxo_def
      demo_utxo_def core_def demo_left_def fun_upd_twist)

lemma demo_total: "0 \<le> sint (total demo_left owner token)"
proof -
  have "total demo_left owner token = worth owner token (Some (1, 2, 20)) + worth owner token (Some (1, 2, 5))"
    by (simp add: total_def demo_left_def)
  then show ?thesis by (simp add: worth_def)
qed

lemma demo_run_ok: "\<exists>st' ids'. demo_run evs blank_store = Inr (st', ids')"
  unfolding demo_run_def
  by (rule write_block_returns [OF _ _ _ demo_abs]) (simp_all add: demo_total demo_ops_def)

section \<open>The witnesses\<close>

theorem write_block_typed_witness:
  "\<exists>st' ids'. demo_run [] blank_store = Inr (st', ids') \<and> store_ok st'"
proof -
  obtain st' ids' where run: "demo_run [] blank_store = Inr (st', ids')" using demo_run_ok by blast
  then show ?thesis
    using write_block_typed [OF blank_store_ok _ run [unfolded demo_run_def]]
    by (simp add: SCHEMA_CURRENT_def)
qed

theorem write_block_resumes_witness:
  "\<exists>st' ids'. demo_run [] blank_store = Inr (st', ids') \<and> last_indexed_height st' = Inr (Some 5)
    \<and> counters_load st' = Inr ids' \<and> next_action_id ids' = 3"
proof -
  obtain st' ids' where run: "demo_run [] blank_store = Inr (st', ids')" using demo_run_ok by blast
  then show ?thesis
    using write_block_resumes [OF run [unfolded demo_run_def] blank_schema(1)]
    by (simp add: demo_block_def ids_after_def count_actions_def demo_txs_def demo_tx_def zero_ids_def)
qed

theorem write_block_transactions_witness:
  "\<exists>st' ids' r. demo_run [] blank_store = Inr (st', ids') \<and> store_tx st' 1 = Inr (Some r)
    \<and> tx_hash r = 12 \<and> tx_contract_action_ids r = [1, 2]"
proof -
  obtain st' ids' where run: "demo_run [] blank_store = Inr (st', ids')" using demo_run_ok by blast
  have "\<exists>r. store_tx st' 1 = Inr (Some r) \<and> tx_hash r = 12 \<and> tx_contract_action_ids r = [1, 2]"
    using write_block_transactions [OF run [unfolded demo_run_def] blank_schema(1), of 1]
    by (auto simp: demo_txs_def demo_tx_def zero_ids_def action_ids_from_def count_actions_def)
  with run show ?thesis by blast
qed

theorem write_block_utxos_witness:
  "\<exists>st' ids'. demo_run [] blank_store = Inr (st', ids') \<and> unspent_set st' = demo_left
    \<and> stored_balance st' 1 2 = 25"
proof -
  obtain st' ids' where run: "demo_run [] blank_store = Inr (st', ids')" using demo_run_ok by blast
  have "total demo_left 1 2 = 25" by (simp add: total_def demo_left_def worth_def)
  then show ?thesis
    using run write_block_utxos [OF run [unfolded demo_run_def] blank_schema(1) blank_books demo_abs]
    by simp
qed

theorem write_block_contracts_witness:
  "\<exists>st' ids'. demo_run [] blank_store = Inr (st', ids') \<and> actions_ok demo_sha st' (next_action_id ids')"
proof -
  obtain st' ids' where run: "demo_run [] blank_store = Inr (st', ids')" using demo_run_ok by blast
  have "actions_ok demo_sha st' (next_action_id ids')"
    by (rule write_block_contracts [OF run [unfolded demo_run_def] blank_schema(1) blank_actions])
      (simp_all add: demo_txs_def demo_tx_def demo_action_def wf_action_def count_actions_def
        zero_ids_def)
  with run show ?thesis by blast
qed


theorem registrations_in_order_witness:
  "\<exists>st' ids' r. demo_run [Registration 5 [6]] blank_store = Inr (st', ids')
    \<and> registrations st' (bytes29_bytes 5 @ [6]) = Some r \<and> cn_valid r"
proof -
  obtain st' ids' where run: "demo_run [Registration 5 [6]] blank_store = Inr (st', ids')"
    using demo_run_ok by blast
  have "registrations st' = fold (apply_in_order 5) [Registration 5 [6]] (registrations blank_store)"
    using registrations_in_order [OF run [unfolded demo_run_def] blank_schema(1)]
    by (simp add: demo_block_def)
  moreover have "registrations blank_store = (\<lambda>_. None)" by (simp add: registrations_def)
  ultimately show ?thesis using run by (simp add: apply_in_order_def registration_key_def)
qed

definition registered_store :: Store where
  "registered_store = commit blank_store (batch_insert CnightRegistrations (bytes29_bytes 5 @ [6])
     (VRegistration \<lparr>cn_cardano_stake_key = bytes29_bytes 5, cn_dust_address = [6], cn_valid = True,
        cn_registered_at_height = 1, cn_removed_at_height = None, cn_utxo_id = Some [1],
        cn_utxo_index = Some 0\<rparr>) [])"

theorem deregistration_lost_witness:
  "\<exists>st' ids' r. write_block demo_ops registered_store
        (demo_block 5 [Deregistration 5 [6], MappingRemoved 5 [6] [1] 0]) [] [3] [] zero_ids
      = Inr (st', ids')
    \<and> registrations st' (bytes29_bytes 5 @ [6]) = Some r \<and> cn_valid r"
proof -
  have view: "store_get registered_store p k = None" if "p \<noteq> CnightRegistrations" for p k
    using that by (simp add: registered_store_def store_simps)
  have ok: "store_ok registered_store"
    unfolding registered_store_def by (intro store_ok_insert) simp_all
  have none: "unspent_set registered_store = (\<lambda>_. None)" by (simp add: unspent_set_def view)
  have books: "books_ok registered_store"
    by (simp add: books_ok_def utxo_records_ok_def unspent_index_ok_def stored_balance_def view none
        total_def)
  have current: "contract_actions registered_store = ContractActionsV2"
    by (simp add: registered_store_def)
  obtain st' ids' where run: "write_block demo_ops registered_store
        (demo_block 5 [Deregistration 5 [6], MappingRemoved 5 [6] [1] 0]) [] [3] [] zero_ids
      = Inr (st', ids')"
    using write_block_returns [OF ok current books, of "[]" "\<lambda>_. None" demo_ops
        "demo_block 5 [Deregistration 5 [6], MappingRemoved 5 [6] [1] 0]" "[0]" "[3]" "[]" zero_ids]
    by (auto simp: none total_def demo_ops_def)
  then show ?thesis
    using deregistration_lost [OF run current, of 5 "[6]" "[1]" 0]
    by (fastforce simp: demo_block_def registrations_def registered_store_def store_simps)
qed

end
