(* ===== verification/RunWitness.thy ===== *)
theory RunWitness
  imports RunFacts BlockWitness
begin

text \<open>
  The properties of replay, root counts and the indexing loop at concrete inputs: a block of two
  transactions replayed on an empty store, a root that is under-counted, and a run that starts on an
  empty data directory, indexes the genesis block, crashes before it trims, and starts again.
\<close>

section \<open>Replay\<close>

definition tx_block :: Block where
  "tx_block = (demo_block 5 [])\<lparr>b_transactions :=
     [SystemTx \<lparr>st_hash = 31, st_protocol_version = PV2_0 2000000, st_raw = [1]\<rparr>,
      RegularTx \<lparr>rt_hash = 32, rt_protocol_version = PV2_0 2000000, rt_raw = [2],
        rt_identifiers = [[1, 2]], rt_contract_actions =
          [\<lparr>ca_address = [9], ca_state = [7], ca_attributes = Deploy\<rparr>]\<rparr>]\<rparr>"

lemma tx_block_fields [simp]:
  "b_height tx_block = 5" "b_timestamp tx_block = 60000" "b_ledger_state_root tx_block = Some [2]"
  "b_protocol_version tx_block = PV2_0 2000000" "b_parent_hash tx_block = 20"
  "b_zswap_merkle_tree_root tx_block = ZRootV9 []" "b_dust_registration_events tx_block = []"
  by (simp_all add: tx_block_def demo_block_def)

definition demo_outcome :: ApplyRegularTransactionOutcome where
  "demo_outcome = \<lparr>ro_transaction_result = Success, ro_created_unshielded_utxos = [],
     ro_spent_unshielded_utxos = [], ro_ledger_events = [], ro_fees = 7, ro_bridge_claim = None\<rparr>"

lemma demo_apply [simp]:
  "lo_apply_regular demo_ops s raw p t pt w = Inr (s + 1, demo_outcome)"
  "lo_apply_system demo_ops s raw t
    = Inr (s + 1, \<lparr>so_created_unshielded_utxos = [], so_ledger_events = []\<rparr>)"
  by (simp_all add: demo_ops_def demo_outcome_def)

lemma tx_block_replay:
  obtains derived where "replay_block demo_ops tx_block None 0 [] 48000 = Inr (2, derived, 60000)"
    "try_fold abs_tx (unspent_set blank_store) derived = Inr (\<lambda>_. None)"
proof -
  have "initial_ledger_state demo_ops tx_block 0 [] = Inr 0"
    by (simp add: initial_ledger_state_def demo_ops_def)
  moreover have "check_roots demo_ops tx_block 2 = Inr ()"
    by (simp add: check_roots_def demo_ops_def)
  moreover have "lo_finalize demo_ops s t = Inr s" for s t by (simp add: demo_ops_def)
  moreover have "\<exists>fr derived. try_fold (apply_transactions demo_ops tx_block 48000) (0, True, [])
      (b_transactions tx_block) = Inr (2, fr, derived)
      \<and> try_fold abs_tx (unspent_set blank_store) derived = Inr (\<lambda>_. None)"
    by (auto simp: tx_block_def demo_block_def apply_regular_with_retry_def demo_outcome_def abs_tx_def
        numeral_2_eq_2)
  ultimately show ?thesis using that by (auto simp: replay_block_def genesis_cases_def)
qed

lemma tx_block_indexed:
  obtains st' ids' where "index_block demo_ops blank_store tx_block None 0 [] 48000 [] zero_ids
    = Inr (st', ids', 2, [2], 60000)"
proof -
  obtain derived where d: "replay_block demo_ops tx_block None 0 [] 48000 = Inr (2, derived, 60000)"
    "try_fold abs_tx (unspent_set blank_store) derived = Inr (\<lambda>_. None)" by (rule tx_block_replay)
  have persist: "lo_persist demo_ops 2 = Inr (2, [2])" by (simp add: demo_ops_def)
  have root: "lo_serialize_root demo_ops (b_zswap_merkle_tree_root tx_block) = Inr [0]"
    by (simp add: demo_ops_def)
  obtain st' ids' where "write_block demo_ops blank_store tx_block derived [2] [] zero_ids = Inr (st', ids')"
    using write_block_returns [OF blank_store_ok blank_schema(1) blank_books d(2) _ root, of "[2]" "[]" zero_ids]
    by (auto simp: total_def)
  with d(1) persist show ?thesis using that by (simp add: index_block_def)
qed

theorem index_block_guarded_witness:
  "\<exists>derived root. replay_block demo_ops tx_block None 0 [] 48000 = Inr (2, derived, 60000)
    \<and> lo_root demo_ops 2 = Inr root \<and> root = [2]"
proof -
  obtain st' ids' where run: "index_block demo_ops blank_store tx_block None 0 [] 48000 [] zero_ids
    = Inr (st', ids', 2, [2], 60000)" by (rule tx_block_indexed)
  obtain ls1 derived root where "replay_block demo_ops tx_block None 0 [] 48000 = Inr (ls1, derived, 60000)"
    "lo_persist demo_ops ls1 = Inr (2, [2])" "lo_root demo_ops ls1 = Inr root" "root = [2]"
    using index_block_guarded [THEN mp, OF run] by auto
  then show ?thesis by (auto simp: demo_ops_def)
qed

theorem bump_and_retry_witness:
  "\<exists>derived ls1 ls2 pts'. replay_block demo_ops tx_block None 0 [] 48000 = Inr (2, derived, 60000)
    \<and> apply_transaction demo_ops ls1 (b_transactions tx_block ! 1) tx_block pts' True = Inr (ls2, derived ! 1)"
proof -
  obtain derived where d: "replay_block demo_ops tx_block None 0 [] 48000 = Inr (2, derived, 60000)"
    by (rule tx_block_replay)
  have "length (b_transactions tx_block) = 2" "\<not> list_ex is_regular (take 1 (b_transactions tx_block))"
    by (simp_all add: tx_block_def)
  with conjunct2 [OF bump_and_retry, THEN mp, OF d, THEN spec, of 1] d show ?thesis by auto
qed

theorem index_block_invariants_witness:
  "\<exists>st' ids'. index_block demo_ops blank_store tx_block None 0 [] 48000 [] zero_ids
      = Inr (st', ids', 2, [2], 60000)
    \<and> store_ok st' \<and> actions_ok (lo_sha256 demo_ops) st' (next_action_id ids')"
proof -
  obtain st' ids' where run: "index_block demo_ops blank_store tx_block None 0 [] 48000 [] zero_ids
    = Inr (st', ids', 2, [2], 60000)" by (rule tx_block_indexed)
  show ?thesis
    using index_block_invariants [OF run] run
    by (auto simp: SCHEMA_CURRENT_def tx_block_def zero_ids_def demo_block_def)
qed

section \<open>Root counts\<close>

text \<open>A cyclic graph with a hole under one of its two roots.\<close>

definition demo_nodes :: arena_nodes where
  "demo_nodes = [([1], [[2], [3]]), ([2], [[1]]), ([3], []), ([4], [[5]])]"

theorem dag_is_complete_iff_witness:
  "dag_is_complete demo_nodes [1] \<and> \<not> dag_is_complete demo_nodes [4]
    \<and> (\<exists>a. reachable demo_nodes [4] a \<and> map_of demo_nodes a = None)"
proof -
  have "dag_is_complete demo_nodes [1]" "\<not> dag_is_complete demo_nodes [4]"
    by (simp_all add: dag_is_complete_def demo_nodes_def)
  then show ?thesis using dag_is_complete_iff [of demo_nodes "[4]"] by auto
qed

definition demo_backend :: Backend where
  "demo_backend = \<lparr>be_disk = set_root_count [1] 1 \<lparr>keyspace = (\<lambda>_. []), existing = []\<rparr>, be_deltas = []\<rparr>"

lemma demo_roots: "get_root_count (be_disk demo_backend) k = Inr (if k = [1] then 1 else 0)"
  by (simp add: demo_backend_def get_root_count_set) (simp add: get_root_count_def disk_get_def
      ks_get_def part_get_def)

lemma demo_backend_ok: "backend_ok demo_backend" "hashes_ok demo_codec (be_disk demo_backend)"
proof -
  show "backend_ok demo_backend"
    using demo_roots by (auto simp: backend_ok_def roots_ok_def) (simp add: demo_backend_def)
  show "hashes_ok demo_codec (be_disk demo_backend)"
    by (simp add: hashes_ok_def demo_codec_def demo_backend_def set_root_count_def disk_insert_def
        part_ok_def)
qed


section \<open>A run\<close>

text \<open>A ledger whose state is a number and the version it was last brought to.\<close>

definition run_ops :: "(nat \<times> LedgerVersion) ledger_ops" where
  "run_ops = \<lparr>lo_new = (\<lambda>_ v. Inr (0, v)), lo_from_genesis = (\<lambda>_ v. Inr (2, v)),
     lo_load = (\<lambda>k v. Inr (of_be_bytes k, v)), lo_translate = (\<lambda>s v. Inr (fst s, v)),
     lo_ledger_version = snd, lo_root = (\<lambda>s. Inr [word_of_nat (fst s)]),
     lo_persist = (\<lambda>s. Inr (s, [word_of_nat (fst s)])),
     lo_apply_regular = (\<lambda>s _ _ _ _ _. Inr ((fst s + 1, snd s), demo_outcome)),
     lo_apply_system = (\<lambda>s _ _. Inr ((fst s + 1, snd s),
       \<lparr>so_created_unshielded_utxos = [], so_ledger_events = []\<rparr>)),
     lo_finalize = (\<lambda>s _. Inr s), lo_zswap_first_free = (\<lambda>s. word_of_nat (fst s)),
     lo_zswap_merkle_tree_root = (\<lambda>_. ZRootV9 []), lo_serialize_root = (\<lambda>_. Inr [0]),
     lo_contract_balances = (\<lambda>_ _. Inr []), lo_sha256 = demo_sha\<rparr>"

definition run_demo :: "(nat \<times> LedgerVersion, bytes) run_env" where
  "run_demo = \<lparr>re_ops = run_ops, re_root_hash = (\<lambda>k _. Inr k), re_codec = demo_codec,
     re_node_genesis = hash_bytes 21, re_network = ''undeployed'', re_genesis_state = Some [1]\<rparr>"

lemma run_demo_ok: "versions_ok (re_ops run_demo)" "root_hash_ok (re_root_hash run_demo) (re_codec run_demo)"
  by (simp_all add: versions_ok_def run_demo_def run_ops_def root_hash_ok_def demo_codec_def)

definition genesis_block :: Block where
  "genesis_block = (demo_block 0 [])\<lparr>b_parent_hash := 0\<rparr>"

lemma genesis_fields [simp]:
  "b_height genesis_block = 0" "b_timestamp genesis_block = 60000" "b_hash genesis_block = 21"
  "b_parent_hash genesis_block = 0" "b_protocol_version genesis_block = PV2_0 2000000"
  "b_ledger_state_root genesis_block = Some [2]" "b_zswap_merkle_tree_root genesis_block = ZRootV9 []"
  "b_transactions genesis_block = []" "b_dust_registration_events genesis_block = []"
  by (simp_all add: genesis_block_def demo_block_def)

definition empty_backend :: Backend where
  "empty_backend = \<lparr>be_disk = \<lparr>keyspace = (\<lambda>_. []), existing = []\<rparr>, be_deltas = []\<rparr>"

definition s0 :: "(nat \<times> LedgerVersion) pstate" where
  "s0 = \<lparr>ps_store = blank_store, ps_backend = empty_backend, ps_phase = Down, ps_log = []\<rparr>"

lemma blank_reads:
  "last_indexed_height blank_store = Inr None" "ledger_state_window blank_store = Inr []"
  "tip_timestamp blank_store = Inr None" "counters_load blank_store = Inr zero_ids"
  by (simp_all add: last_indexed_height_def ledger_state_window_def tip_timestamp_def meta_u64_def
      get_decoded_def counters_load_def next_id_def zero_ids_def)

lemma empty_roots: "get_root_count (be_disk empty_backend) k = Inr 0"
  by (simp add: empty_backend_def get_root_count_def disk_get_def ks_get_def part_get_def)

lemma s0_reached: "reaches run_demo s0"
proof (rule reaches_initial)
  show "initial run_demo s0"
    using empty_roots blank_reads
    by (simp add: initial_def s0_def SCHEMA_CURRENT_def roots_ok_def hashes_ok_def run_demo_def)
      (simp add: empty_backend_def part_ok_def disk_get_def ks_get_def part_get_def)
qed

definition rn0 :: "(nat \<times> LedgerVersion) Running" where
  "rn0 = \<lparr>rn_ledger = (0, LV8), rn_window = [], rn_ids = zero_ids, rn_parent_timestamp = 0,
     rn_highest = None\<rparr>"

lemma s1_reached: "reaches run_demo (s0\<lparr>ps_phase := Ready rn0\<rparr>)"
proof -
  have "startup (re_ops run_demo) (re_root_hash run_demo) (re_codec run_demo) [] (re_node_genesis run_demo)
      (re_network run_demo) (ps_store s0) (ps_backend s0) = Inr (empty_backend, rn0)"
    using restart_point [OF s0_reached run_demo_ok, of zero_ids "[]" "(0, LV8)" "[]"] blank_reads
    by (simp add: s0_def check_genesis_def load_ledger_state_def run_demo_def run_ops_def rn0_def)
  then have "pstep run_demo s0 (s0\<lparr>ps_backend := empty_backend, ps_phase := Ready rn0\<rparr>)"
    by (intro run_start) (simp_all add: s0_def)
  from reaches_step [OF s0_reached this] show ?thesis by (simp add: s0_def)
qed

definition backend1 :: Backend where
  "backend1 = \<lparr>be_disk = set_root_count [2] 1 (be_disk empty_backend), be_deltas = []\<rparr>"

definition rn1 :: "(nat \<times> LedgerVersion) Running" where
  "rn1 = rn0\<lparr>rn_ledger := (2, LV9), rn_parent_timestamp := 60000,
     rn_highest := Some (block_ref_from genesis_block)\<rparr>"

lemma genesis_persists:
  "pstep run_demo (s0\<lparr>ps_phase := Ready rn0\<rparr>)
    (s0\<lparr>ps_backend := backend1, ps_phase := Persisted genesis_block [] [2] rn1\<rparr>)"
proof -
  have "replay_block run_ops genesis_block (Some [1]) (0, LV8) ''undeployed'' 0 = Inr ((2, LV9), [], 60000)"
    by (simp add: replay_block_def initial_ledger_state_def genesis_cases_def check_roots_def run_ops_def)
  moreover have "persist_root (\<lambda>k _. Inr k) [2] LV9 empty_backend = Inr backend1"
    using empty_roots [of "[2]"]
    by (simp add: persist_root_def backend_persist_def flush_all_changes_to_db_def flush_delta_def
        empty_backend_def backend1_def)
  moreover have "lo_persist run_ops (2, LV9) = Inr ((2, LV9), [2])" by (simp add: run_ops_def)
  moreover have "lo_ledger_version run_ops (2, LV9) = LV9" by (simp add: run_ops_def)
  ultimately have "pstep run_demo (s0\<lparr>ps_phase := Ready rn0\<rparr>)
      ((s0\<lparr>ps_phase := Ready rn0\<rparr>)\<lparr>ps_backend := backend1, ps_phase := Persisted genesis_block [] [2]
        (rn0\<lparr>rn_ledger := (2, LV9), rn_parent_timestamp := 60000,
          rn_highest := Some (block_ref_from genesis_block)\<rparr>)\<rparr>)"
    by (intro run_persist [where ?ls1.0 = "(2, LV9)"])
      (simp_all add: run_demo_def s0_def rn0_def genesis_for_def expected_parent_def)
  then show ?thesis by (simp add: rn1_def s0_def)
qed

lemma genesis_written:
  obtains st' ids' where
    "write_block run_ops blank_store genesis_block [] [2] [] zero_ids = Inr (st', ids')"
    "reaches run_demo (s0\<lparr>ps_backend := backend1, ps_store := st', ps_log := [genesis_block],
      ps_phase := Written [2] (rn1\<lparr>rn_ids := ids'\<rparr>)\<rparr>)"
proof -
  have root: "lo_serialize_root run_ops (b_zswap_merkle_tree_root genesis_block) = Inr [0]"
    by (simp add: run_ops_def)
  obtain st' ids' where w: "write_block run_ops blank_store genesis_block [] [2] [] zero_ids = Inr (st', ids')"
    using write_block_returns [OF blank_store_ok blank_schema(1) blank_books _ _ root, of "[]" "\<lambda>_. None"
        "[2]" "[]" zero_ids]
    by (auto simp: total_def)
  let ?s = "s0\<lparr>ps_backend := backend1, ps_phase := Persisted genesis_block [] [2] rn1\<rparr>"
  have "pstep run_demo ?s (?s\<lparr>ps_store := st', ps_log := ps_log ?s @ [genesis_block],
      ps_phase := Written [2] (rn1\<lparr>rn_ids := ids'\<rparr>)\<rparr>)"
    by (rule run_write) (simp_all add: s0_def run_demo_def rn1_def rn0_def, rule w)
  from reaches_step [OF reaches_step [OF s1_reached genesis_persists] this] show ?thesis
    by (intro that [OF w]) (simp add: s0_def)
qed

theorem run_recoverable_witness:
  "\<exists>s. reaches run_demo s \<and> ps_log s = [genesis_block]
    \<and> resume_from (ps_store s) = Inr (Some \<lparr>br_hash = 21, br_height = 0\<rparr>)"
proof -
  obtain st' ids' where r: "reaches run_demo (s0\<lparr>ps_backend := backend1, ps_store := st',
      ps_log := [genesis_block], ps_phase := Written [2] (rn1\<lparr>rn_ids := ids'\<rparr>)\<rparr>)"
    by (rule genesis_written)
  from run_recoverable [OF r run_demo_ok] have "tip_ok st' [genesis_block]" by simp
  then have "resume_from st' = Inr (Some \<lparr>br_hash = 21, br_height = 0\<rparr>)"
    by (simp add: tip_ok_def block_ref_from_def)
  then show ?thesis by (intro exI conjI) (rule r, simp_all)
qed

theorem run_bookkeeping_witness:
  "\<exists>s b. reaches run_demo s \<and> ps_phase s = Ready rn0
    \<and> persist_root (re_root_hash run_demo) [2] LV9 (ps_backend s) = Inr b"
proof -
  have "\<forall>k. root_count (ps_backend (s0\<lparr>ps_phase := Ready rn0\<rparr>)) k < 2 ^ 32 - 1"
    using empty_roots by (simp add: s0_def root_count_def stored_count_def) (simp add: empty_backend_def)
  with run_bookkeeping [OF s1_reached run_demo_ok] have
    "\<exists>b. persist_root (re_root_hash run_demo) [2] LV9 (ps_backend (s0\<lparr>ps_phase := Ready rn0\<rparr>)) = Inr b"
    by (simp add: run_demo_def)
  then obtain b where
    "persist_root (re_root_hash run_demo) [2] LV9 (ps_backend (s0\<lparr>ps_phase := Ready rn0\<rparr>)) = Inr b" by blast
  with s1_reached show ?thesis
    by (intro exI [of _ "s0\<lparr>ps_phase := Ready rn0\<rparr>"] exI [of _ b] conjI) simp_all
qed

text \<open>The crash comes after the genesis block is committed and before its iteration is finished.\<close>

theorem restart_resumes_witness:
  "\<exists>s ids. reaches run_demo s \<and> ps_phase s = Down \<and> ps_log s = [genesis_block]
    \<and> startup run_ops (\<lambda>k _. Inr k) demo_codec [] (hash_bytes 21) ''undeployed'' (ps_store s) (ps_backend s)
      = Inr (ps_backend s, \<lparr>rn_ledger = (2, LV9), rn_window = [([2], SLV9)], rn_ids = ids,
          rn_parent_timestamp = 60000, rn_highest = Some \<lparr>br_hash = 21, br_height = 0\<rparr>\<rparr>)"
proof -
  obtain st' ids' where w: "write_block run_ops blank_store genesis_block [] [2] [] zero_ids = Inr (st', ids')"
    and r: "reaches run_demo (s0\<lparr>ps_backend := backend1, ps_store := st',
      ps_log := [genesis_block], ps_phase := Written [2] (rn1\<lparr>rn_ids := ids'\<rparr>)\<rparr>)"
    by (rule genesis_written)
  define s where "s = s0\<lparr>ps_backend := backend1, ps_store := st', ps_log := [genesis_block]\<rparr>"
  have s: "ps_phase s = Down" "ps_log s = [genesis_block]" "ps_store s = st'"
    by (simp_all add: s_def s0_def)
  have reach: "reaches run_demo s"
    using reaches_step [OF r run_crash] by (simp add: s_def s0_def backend1_def)
  have ids: "counters_load st' = Inr ids'" and win: "ledger_state_window st' = Inr [([2], SLV9)]"
    using block_resumes [OF w blank_schema(1)] by auto
  have "store_get st' Meta GENESIS_HASH = Some (Raw (hash_bytes 21))"
    by (rule write_block_stages [OF w]) (simp only: tail_view genesis_fields simp_thms if_True)
  then have "check_genesis (ps_store s) (re_node_genesis run_demo) = Inr ()"
    by (simp add: s check_genesis_def run_demo_def)
  moreover have "load_ledger_state (re_ops run_demo) (re_network run_demo) [([2], SLV9)]
      (if ps_log s = [] then None else Some (block_ref_from (last (ps_log s)))) = Inr (2, LV9)"
    by (simp add: load_ledger_state_def run_demo_def run_ops_def of_be_bytes_def)
  ultimately have "startup run_ops (\<lambda>k _. Inr k) demo_codec [] (hash_bytes 21) ''undeployed'' (ps_store s)
      (ps_backend s) = Inr (ps_backend s, \<lparr>rn_ledger = (2, LV9), rn_window = [([2], SLV9)], rn_ids = ids',
          rn_parent_timestamp = 60000, rn_highest = Some \<lparr>br_hash = 21, br_height = 0\<rparr>\<rparr>)"
    using restart_resumes [OF reach run_demo_ok s(1), of ids' "[([2], SLV9)]" "(2, LV9)" "[]"] ids win
    by (simp add: run_demo_def block_ref_from_def s(2,3))
  with reach s(1,2) show ?thesis by blast
qed

end
