(* ===== verification/Pagination.thy ===== *)
theory Pagination
  imports Store
begin

text \<open>
  Cursor pagination (\<open>nightfrost-api/src/pagination.rs\<close>) and the error envelope
  (\<open>nightfrost-api/src/error.rs\<close>). A cursor is a token of the server: the version, the tip at which
  the first page was served, a hash of the query, and the position of the last row, with a MAC over
  all of it. HMAC, SHA-256 and base64 are third-party crates and the parameters \<open>crypto\<close>; what the
  cursors need of base64 is the locale \<open>text_coding\<close>. A \<open>String\<close> is the list of its UTF-8 bytes as
  characters; \<open>usize\<close> is \<open>nat\<close>.
\<close>

section \<open>Errors of the API\<close>

record ApiError =
  ae_status_code :: u16
  ae_error :: string
  ae_message :: string

definition not_found :: "string \<Rightarrow> ApiError" where
  "not_found message = \<lparr>ae_status_code = 404, ae_error = ''Not Found'', ae_message = message\<rparr>"

definition bad_request :: "string \<Rightarrow> ApiError" where
  "bad_request message = \<lparr>ae_status_code = 400, ae_error = ''Bad Request'', ae_message = message\<rparr>"

definition gone :: "string \<Rightarrow> ApiError" where
  "gone message = \<lparr>ae_status_code = 410, ae_error = ''Gone'', ae_message = message\<rparr>"

definition internal_error :: "string \<Rightarrow> ApiError" where
  "internal_error message =
     \<lparr>ae_status_code = 500, ae_error = ''Internal Server Error'', ae_message = message\<rparr>"

text \<open>A handler returns an error, or panics where the code does (\<open>expect\<close>, slices, \<open>decode\<close>). An
  error of the store goes through \<open>map_err(internal)\<close>; a panic does not.\<close>

datatype ApiFailure = ApiErr ApiError | ApiPanic string

fun internal :: "rust_error \<Rightarrow> ApiFailure" where
  "internal (Fail msg) = ApiErr (internal_error msg)"
| "internal (Panic msg) = ApiPanic msg"

section \<open>The query parameters\<close>

datatype Order = Asc | Desc

record Pagination =
  pg_count :: nat
  pg_order :: Order
  pg_cursor :: "string option"
  pg_page :: "nat option"

definition default_pagination :: Pagination where
  "default_pagination = \<lparr>pg_count = 100, pg_order = Asc, pg_cursor = None, pg_page = None\<rparr>"

definition MAX_CURSOR_LEN :: nat where
  "MAX_CURSOR_LEN = 1024"

definition pagination_validate :: "Pagination \<Rightarrow> ApiFailure + unit" where
  "pagination_validate p =
     (if \<not> (1 \<le> pg_count p \<and> pg_count p \<le> 5000)
      then Inl (ApiErr (bad_request ''querystring count should be within range 1-5000''))
      else if pg_page p \<noteq> None
      then Inl (ApiErr (bad_request
             ''querystring page is no longer supported; use next_cursor as cursor''))
      else if (case pg_cursor p of None \<Rightarrow> False | Some cursor \<Rightarrow> length cursor > MAX_CURSOR_LEN)
      then Inl (ApiErr (bad_request ''cursor is too long''))
      else Inr ())"

section \<open>Cursors\<close>

record TipAnchor =
  ta_height :: u64
  ta_hash :: hash32

record DecodedCursor =
  dc_anchor :: TipAnchor
  dc_position :: bytes

record crypto =
  cx_hmac :: "bytes \<Rightarrow> bytes \<Rightarrow> hash32"
  cx_sha256 :: "bytes \<Rightarrow> hash32"
  cx_b64_encode :: "bytes \<Rightarrow> string"
  cx_b64_decode :: "string \<Rightarrow> bytes option"

definition CURSOR_PREFIX :: string where
  "CURSOR_PREFIX = ''nf1.''"

definition CURSOR_VERSION :: u8 where
  "CURSOR_VERSION = 1"

definition QUERY_HASH_LEN :: nat where
  "QUERY_HASH_LEN = 16"

definition MAC_LEN :: nat where
  "MAC_LEN = 16"

definition FIXED_PAYLOAD_LEN :: nat where
  "FIXED_PAYLOAD_LEN = 1 + 8 + 32 + QUERY_HASH_LEN + 2"

definition query_hash :: "crypto \<Rightarrow> bytes \<Rightarrow> bytes" where
  "query_hash X scope = take QUERY_HASH_LEN (hash_bytes (cx_sha256 X scope))"

definition cursor_mac :: "crypto \<Rightarrow> bytes \<Rightarrow> bytes \<Rightarrow> bytes" where
  "cursor_mac X key payload = hash_bytes (cx_hmac X key payload)"

definition cursor_payload :: "crypto \<Rightarrow> bytes \<Rightarrow> TipAnchor \<Rightarrow> u16 \<Rightarrow> bytes \<Rightarrow> bytes" where
  "cursor_payload X scope anchor position_len position =
     [CURSOR_VERSION] @ u64_to_be_bytes (ta_height anchor) @ hash_bytes (ta_hash anchor)
       @ query_hash X scope @ u16_to_be_bytes position_len @ position"

definition cursor_encode ::
    "crypto \<Rightarrow> bytes \<Rightarrow> bytes \<Rightarrow> TipAnchor \<Rightarrow> bytes \<Rightarrow> ApiFailure + string" where
  "cursor_encode X key scope anchor position =
     (if length position > 65535 then Inl (ApiPanic ''cursor position <= u16::MAX'')
      else let payload = cursor_payload X scope anchor (word_of_nat (length position)) position;
               mac = cursor_mac X key payload
           in Inr (CURSOR_PREFIX @ cx_b64_encode X (payload @ take MAC_LEN mac)))"

text \<open>\<open>payload[a..b]\<close>; the indices are in range where it is used, the length being checked.\<close>

definition byte_slice :: "nat \<Rightarrow> nat \<Rightarrow> 'a list \<Rightarrow> 'a list" where
  "byte_slice a b xs = take (b - a) (drop a xs)"

definition strip_prefix :: "'a list \<Rightarrow> 'a list \<Rightarrow> 'a list option" where
  "strip_prefix pre xs = (if take (length pre) xs = pre then Some (drop (length pre) xs) else None)"

definition cursor_decode ::
    "crypto \<Rightarrow> bytes \<Rightarrow> string \<Rightarrow> bytes \<Rightarrow> ApiFailure + DecodedCursor" where
  "cursor_decode X key token scope =
     and_then (ok_or (ApiErr (bad_request ''invalid cursor prefix'')) (strip_prefix CURSOR_PREFIX token))
       (\<lambda>encoded.
     and_then (ok_or (ApiErr (bad_request ''invalid cursor encoding'')) (cx_b64_decode X encoded))
       (\<lambda>bs.
     if length bs < FIXED_PAYLOAD_LEN + MAC_LEN then Inl (ApiErr (bad_request ''truncated cursor''))
     else
       let payload = take (length bs - MAC_LEN) bs;
           supplied_mac = drop (length bs - MAC_LEN) bs;
           expected_mac = cursor_mac X key payload
       in if supplied_mac \<noteq> take MAC_LEN expected_mac
          then Inl (ApiErr (bad_request ''invalid cursor signature''))
          else if payload ! 0 \<noteq> CURSOR_VERSION
          then Inl (ApiErr (bad_request ''unsupported cursor version''))
          else
     and_then (ok_or (ApiPanic ''8-byte height'') (u64_from_be_bytes (byte_slice 1 9 payload))) (\<lambda>height.
     and_then (ok_or (ApiPanic ''32-byte hash'') (hash_of_bytes (byte_slice 9 41 payload))) (\<lambda>hash.
     if byte_slice 41 57 payload \<noteq> query_hash X scope
     then Inl (ApiErr (bad_request ''cursor does not belong to this query''))
     else
     and_then (ok_or (ApiPanic ''2-byte length'') (u16_from_be_bytes (byte_slice 57 59 payload)))
       (\<lambda>position_len.
     if length payload \<noteq> FIXED_PAYLOAD_LEN + unat position_len
     then Inl (ApiErr (bad_request ''invalid cursor position length''))
     else Inr \<lparr>dc_anchor = \<lparr>ta_height = height, ta_hash = hash\<rparr>,
               dc_position = drop FIXED_PAYLOAD_LEN payload\<rparr>)))))"

section \<open>The scope of a query\<close>

fun order_tag :: "Order \<Rightarrow> u8" where
  "order_tag Asc = 0"
| "order_tag Desc = 1"

definition scope :: "bytes list \<Rightarrow> Order \<Rightarrow> bytes" where
  "scope parts order =
     order_tag order # concat (map (\<lambda>part. u32_to_be_bytes (word_of_nat (length part)) @ part) parts)"

section \<open>The end of a key prefix\<close>

text \<open>The loop of \<open>prefix_end\<close> on the reversed prefix: drop trailing \<open>0xff\<close>, increment the last
  byte that is left.\<close>

fun bump_last :: "bytes \<Rightarrow> bytes option" where
  "bump_last [] = None"
| "bump_last (b # bs) = (if b \<noteq> 255 then Some (rev ((b + 1) # bs)) else bump_last bs)"

definition prefix_end :: "bytes \<Rightarrow> bytes option" where
  "prefix_end pre = bump_last (rev pre)"

end
