(* ===== verification/PaginationFacts.thy ===== *)
theory PaginationFacts
  imports Pagination
begin

text \<open>
  Cursors are faithful and bound to their query: a token decodes to the anchor and the position it
  was issued with, only a token whose bytes the server would issue itself is accepted, and the scope
  of a query determines its parts. The upper bound of a prefix scan is exact.
\<close>

section \<open>What is needed of base64\<close>

locale text_coding =
  fixes enc :: "bytes \<Rightarrow> string" and dec :: "string \<Rightarrow> bytes option"
  assumes dec_enc: "dec (enc bs) = Some bs"
    and canonical: "dec s = Some bs \<Longrightarrow> s = enc bs"
begin

lemma dec_iff: "dec s = Some bs \<longleftrightarrow> s = enc bs"
  using dec_enc canonical by blast

lemma enc_inject: "enc a = enc b \<longleftrightarrow> a = b"
  by (metis dec_enc option.inject)

end

text \<open>Unpadded base64 as the crate decodes it: trailing bits must be zero, so that every byte string
  has one encoding; it has at most two characters a byte.\<close>

definition crypto_ok :: "crypto \<Rightarrow> bool" where
  "crypto_ok X = (text_coding (cx_b64_encode X) (cx_b64_decode X)
     \<and> (\<forall>bs. length (cx_b64_encode X bs) \<le> 2 * length bs))"

text \<open>An instance: two hexadecimal digits a byte.\<close>

definition hex_digit :: "nat \<Rightarrow> char" where
  "hex_digit n = char_of (if n < 10 then 48 + n else 87 + n)"

definition hex_value :: "char \<Rightarrow> nat option" where
  "hex_value c = (let n = of_char c in
     if 48 \<le> n \<and> n < 58 then Some (n - 48) else if 97 \<le> n \<and> n < 103 then Some (n - 87) else None)"

definition hex_encode :: "bytes \<Rightarrow> string" where
  "hex_encode bs = concat (map (\<lambda>b. [hex_digit (unat b div 16), hex_digit (unat b mod 16)]) bs)"

fun hex_decode :: "string \<Rightarrow> bytes option" where
  "hex_decode [] = Some []"
| "hex_decode [c] = None"
| "hex_decode (c # d # s) =
     (case (hex_value c, hex_value d, hex_decode s) of
        (Some m, Some n, Some bs) \<Rightarrow> Some (word_of_nat (m * 16 + n) # bs)
      | _ \<Rightarrow> None)"

lemma hex_value_digit: "n < 16 \<Longrightarrow> hex_value (hex_digit n) = Some n"
  by (auto simp: hex_value_def hex_digit_def Let_def)

lemma hex_digit_value:
  assumes "hex_value c = Some n"
  shows "n < 16 \<and> hex_digit n = c"
proof -
  have "char_of (of_char c :: nat) = c" by simp
  with assms show ?thesis by (auto simp: hex_value_def hex_digit_def Let_def split: if_splits)
qed

interpretation hex: text_coding hex_encode hex_decode
proof
  fix bs show "hex_decode (hex_encode bs) = Some bs"
  proof (induction bs)
    case (Cons b bs)
    have "unat b < 256" using unsigned_less [of b] by simp
    then have "unat b div 16 < 16" "unat b mod 16 < 16" by simp_all
    then show ?case using Cons by (simp add: hex_encode_def hex_value_digit)
  qed (simp add: hex_encode_def)
next
  fix s bs assume "hex_decode s = Some bs"
  then show "s = hex_encode bs"
  proof (induction s arbitrary: bs rule: hex_decode.induct)
    case (3 c d s)
    then obtain m n bs' where v: "hex_value c = Some m" "hex_value d = Some n" "hex_decode s = Some bs'"
      "bs = word_of_nat (m * 16 + n) # bs'"
      by (auto split: option.splits)
    have mn: "m < 16" "n < 16" "hex_digit m = c" "hex_digit n = d"
      using hex_digit_value v(1,2) by blast+
    then have "m * 16 + n < 256" by simp
    then have "unat (word_of_nat (m * 16 + n) :: u8) = m * 16 + n"
      by (simp add: unat_of_nat del: of_nat_add of_nat_mult)
    with mn have "hex_encode bs = c # d # hex_encode bs'"
      by (simp add: hex_encode_def v(4))
    with "3.IH" [OF v(3)] show ?case by simp
  qed (simp_all add: hex_encode_def)
qed

definition demo_crypto :: crypto where
  "demo_crypto = \<lparr>cx_hmac = (\<lambda>key payload. word_of_nat (of_be_bytes (key @ payload))),
     cx_sha256 = (\<lambda>bs. word_of_nat (of_be_bytes bs)),
     cx_b64_encode = hex_encode, cx_b64_decode = hex_decode\<rparr>"

lemma demo_crypto_ok: "crypto_ok demo_crypto"
proof -
  have "length (hex_encode bs) = 2 * length bs" for bs
    by (induction bs) (simp_all add: hex_encode_def)
  then show ?thesis by (simp add: crypto_ok_def demo_crypto_def hex.text_coding_axioms)
qed

section \<open>Cursors\<close>

lemma length_query_hash [simp]: "length (query_hash X s) = 16"
  by (simp add: query_hash_def QUERY_HASH_LEN_def)

lemma length_cursor_mac [simp]: "length (cursor_mac X key p) = 32"
  by (simp add: cursor_mac_def)

lemma length_cursor_payload [simp]: "length (cursor_payload X s a n p) = 59 + length p"
  by (simp add: cursor_payload_def)

lemma payload_parts:
  "cursor_payload X s a n p ! 0 = CURSOR_VERSION"
  "byte_slice 1 9 (cursor_payload X s a n p) = u64_to_be_bytes (ta_height a)"
  "byte_slice 9 41 (cursor_payload X s a n p) = hash_bytes (ta_hash a)"
  "byte_slice 41 57 (cursor_payload X s a n p) = query_hash X s"
  "byte_slice 57 59 (cursor_payload X s a n p) = u16_to_be_bytes n"
  "drop 59 (cursor_payload X s a n p) = p"
  by (simp_all add: cursor_payload_def byte_slice_def)

lemma unat_u16_length: "n \<le> 65535 \<Longrightarrow> unat (word_of_nat n :: u16) = n"
  by (simp add: unat_of_nat)

lemma unat_u16: "unat n < 65536" for n :: u16
  using unsigned_less [of n] by simp

lemma unat_u8: "unat b < 256" for b :: u8
  using unsigned_less [of b] by simp

lemma decode_encoded:
  assumes "crypto_ok X" and "cursor_encode X key s a p = Inr token"
  shows "cursor_decode X key token s = Inr \<lparr>dc_anchor = a, dc_position = p\<rparr>"
proof -
  let ?p = "cursor_payload X s a (word_of_nat (length p)) p"
  let ?bs = "?p @ take 16 (cursor_mac X key ?p)"
  have len: "length p \<le> 65535" and token: "token = CURSOR_PREFIX @ cx_b64_encode X ?bs"
    using assms(2) by (auto simp: cursor_encode_def Let_def MAC_LEN_def split: if_splits)
  have dec: "cx_b64_decode X (cx_b64_encode X ?bs) = Some ?bs"
    using assms(1) by (simp add: crypto_ok_def text_coding.dec_enc)
  show ?thesis
    using len dec
    by (simp add: cursor_decode_def token strip_prefix_def FIXED_PAYLOAD_LEN_def QUERY_HASH_LEN_def
        MAC_LEN_def Let_def payload_parts payload_parts(2) [unfolded One_nat_def] unat_u16_length)
qed

lemma slices:
  assumes "a \<le> b"
  shows "drop a xs = byte_slice a b xs @ drop b xs"
proof -
  have "drop a xs = take (b - a) (drop a xs) @ drop (b - a) (drop a xs)"
    by (simp only: append_take_drop_id)
  also have "drop (b - a) (drop a xs) = drop b xs" using assms by simp
  finally show ?thesis by (simp add: byte_slice_def)
qed

lemma payload_rebuild:
  assumes "59 \<le> length pl"
  shows "pl = [pl ! 0] @ byte_slice 1 9 pl @ byte_slice 9 41 pl @ byte_slice 41 57 pl @ byte_slice 57 59 pl @ drop 59 pl"
proof -
  have "pl = [pl ! 0] @ drop 1 pl"
    using assms by (cases pl) auto
  also have "drop 1 pl = byte_slice 1 9 pl @ byte_slice 9 41 pl @ byte_slice 41 57 pl @ byte_slice 57 59 pl @ drop 59 pl"
    using slices [of 1 9 pl] slices [of 9 41 pl] slices [of 41 57 pl] slices [of 57 59 pl] by simp
  finally show ?thesis .
qed

lemma decoded_issued:
  assumes "crypto_ok X" and "cursor_decode X key token s = Inr c"
  shows "cursor_encode X key s (dc_anchor c) (dc_position c) = Inr token"
proof -
  obtain enc bs height hash n where d:
    "strip_prefix CURSOR_PREFIX token = Some enc" "cx_b64_decode X enc = Some bs" "75 \<le> length bs"
    "drop (length bs - 16) bs = take 16 (cursor_mac X key (take (length bs - 16) bs))"
    "take (length bs - 16) bs ! 0 = CURSOR_VERSION"
    "u64_from_be_bytes (byte_slice 1 9 (take (length bs - 16) bs)) = Some height"
    "hash_of_bytes (byte_slice 9 41 (take (length bs - 16) bs)) = Some hash"
    "byte_slice 41 57 (take (length bs - 16) bs) = query_hash X s"
    "u16_from_be_bytes (byte_slice 57 59 (take (length bs - 16) bs)) = Some n"
    "length (take (length bs - 16) bs) = 59 + unat n"
    "c = \<lparr>dc_anchor = \<lparr>ta_height = height, ta_hash = hash\<rparr>, dc_position = drop 59 (take (length bs - 16) bs)\<rparr>"
    using assms(2)
    by (simp only: cursor_decode_def FIXED_PAYLOAD_LEN_def QUERY_HASH_LEN_def MAC_LEN_def Let_def
        and_then_Inr_iff ok_or_Inr_iff) (auto simp: result_simps split: if_splits)
  define pl where "pl = take (length bs - 16) bs"
  have n: "word_of_nat (length (drop 59 pl)) = n" "length (drop 59 pl) \<le> 65535"
    using d(10) unat_u16 [of n] by (simp_all add: pl_def)
  have "pl = [pl ! 0] @ byte_slice 1 9 pl @ byte_slice 9 41 pl @ byte_slice 41 57 pl @ byte_slice 57 59 pl @ drop 59 pl"
    by (rule payload_rebuild) (use d(3) in \<open>simp add: pl_def\<close>)
  also have "\<dots> = cursor_payload X s (dc_anchor c) (word_of_nat (length (dc_position c))) (dc_position c)"
    using d(5,8) u64c.dec_width [OF d(6)] hashc.dec_width [OF d(7)] u16c.dec_width [OF d(9)] n(1)
    by (simp add: cursor_payload_def d(11) pl_def)
  finally have pl: "cursor_payload X s (dc_anchor c) (word_of_nat (length (dc_position c))) (dc_position c) = pl"
    by simp
  have c: "length (dc_position c) \<le> 65535" using n(2) by (simp add: d(11) pl_def)
  have "bs = pl @ take 16 (cursor_mac X key pl)"
    using d(4) by (metis append_take_drop_id pl_def)
  moreover have "enc = cx_b64_encode X bs"
    using assms(1) d(2) text_coding.canonical by (auto simp: crypto_ok_def)
  moreover have "token = CURSOR_PREFIX @ enc"
    using d(1) by (auto simp: strip_prefix_def split: if_splits) (metis append_take_drop_id)
  ultimately show ?thesis
    using c by (simp add: cursor_encode_def pl Let_def MAC_LEN_def)
qed

text \<open>
  C23. Cursors round-trip and are bound to their query and to the key. A token issued by
  \<open>CursorCodec::encode\<close> decodes, for the same query, to the anchor and position it was issued with;
  and \<open>decode\<close> accepts a token only if it is, byte for byte, the token \<open>encode\<close> would issue under
  this key for this query, the decoded anchor and the decoded position, so that no other token with
  a valid MAC is accepted.
\<close>

theorem cursor_accepts_issued:
  assumes "crypto_ok X"
  shows "cursor_decode X key token query = Inr c
    \<longleftrightarrow> cursor_encode X key query (dc_anchor c) (dc_position c) = Inr token"
proof
  show "cursor_decode X key token query = Inr c"
    if "cursor_encode X key query (dc_anchor c) (dc_position c) = Inr token"
    using decode_encoded [OF assms that] by simp
qed (rule decoded_issued [OF assms])

definition demo_cursor :: DecodedCursor where
  "demo_cursor = \<lparr>dc_anchor = \<lparr>ta_height = 42, ta_hash = 7\<rparr>, dc_position = [1, 2]\<rparr>"

theorem cursor_accepts_issued_witness:
  "\<exists>token. cursor_encode demo_crypto [9] [5] (dc_anchor demo_cursor) (dc_position demo_cursor) = Inr token
    \<and> cursor_decode demo_crypto [9] token [5] = Inr demo_cursor"
proof -
  obtain token where
    "cursor_encode demo_crypto [9] [5] (dc_anchor demo_cursor) (dc_position demo_cursor) = Inr token"
    by (simp add: cursor_encode_def demo_cursor_def Let_def)
  with cursor_accepts_issued [OF demo_crypto_ok, of "[9]" token "[5]" demo_cursor] show ?thesis by blast
qed

section \<open>Scopes\<close>

lemma u32_length_inject:
  assumes "length a < 2 ^ 32" and "length b < 2 ^ 32"
  shows "u32_to_be_bytes (word_of_nat (length a)) @ a @ xs = u32_to_be_bytes (word_of_nat (length b)) @ b @ ys
    \<longleftrightarrow> a = b \<and> xs = ys"
proof -
  have "word_of_nat (length a) = (word_of_nat (length b) :: u32) \<longleftrightarrow> length a = length b"
    using assms by (simp add: word_of_nat_eq_iff take_bit_nat_eq_self)
  then show ?thesis by (auto simp: u32c.enc_append_inject append_eq_append_conv)
qed

text \<open>
  A query scope determines its query: parts of less than \<open>2^32\<close> bytes are recovered from the
  scope by their length prefixes, so two different queries of an endpoint, or two orders, never
  share a scope.
\<close>

theorem scope_injective:
  assumes "\<forall>part \<in> set parts \<union> set parts'. length part < 2 ^ 32"
  shows "scope parts order = scope parts' order' \<longleftrightarrow> parts = parts' \<and> order = order'"
proof -
  have "concat (map (\<lambda>part. u32_to_be_bytes (word_of_nat (length part)) @ part) parts)
      = concat (map (\<lambda>part. u32_to_be_bytes (word_of_nat (length part)) @ part) parts')
      \<longleftrightarrow> parts = parts'"
    using assms
  proof (induction parts arbitrary: parts')
    case Nil
    have "u32_to_be_bytes x \<noteq> []" for x
      by (metis length_0_conv u32c.length_enc zero_neq_numeral)
    then show ?case by (cases parts') auto
  next
    case (Cons a parts)
    have "u32_to_be_bytes x \<noteq> []" for x
      by (metis length_0_conv u32c.length_enc zero_neq_numeral)
    then show ?case
      using Cons by (cases parts') (auto simp: u32_length_inject simp del: append_eq_append_conv)
  qed
  moreover have "order_tag order = order_tag order' \<longleftrightarrow> order = order'"
    by (cases order; cases order') simp_all
  ultimately show ?thesis by (auto simp: scope_def)
qed

theorem scope_injective_witness:
  "scope [[1], [2, 3]] Asc \<noteq> scope [[1, 2], [3]] Asc"
  by (subst scope_injective) simp_all

section \<open>The bound of a prefix\<close>

lemma between_prefixed:
  assumes "(p :: bytes) @ xs \<le> k" and "k < p @ ys"
  shows "\<exists>s. k = p @ s \<and> xs \<le> s \<and> s < ys"
  using assms
proof (induction p arbitrary: k)
  case (Cons a p)
  then obtain k' where k: "k = a # k'" by (cases k) auto
  with Cons show ?case by auto
qed simp

lemma byte_le_255: "255 \<le> b \<longleftrightarrow> b = 255" for b :: u8
  using unat_u8 [of b] by (auto simp: word_le_nat_alt word_unat_eq_iff)

lemma byte_succ: "b \<noteq> 255 \<Longrightarrow> unat (b + 1) = unat b + 1" for b :: u8
  using unat_u8 [of b] by (simp add: word_unat_eq_iff unat_word_ariths)

lemma prefix_le: "starts_with k p \<Longrightarrow> p \<le> k"
  by (auto simp: starts_with_iff list_le_prefix)

lemma prefix_end_above:
  assumes "prefix_end p = Some e" and "starts_with k p"
  shows "k < e"
  using assms
proof (induction p arbitrary: k rule: rev_induct)
  case (snoc b p)
  then obtain s where k: "k = p @ [b] @ s" by (auto simp: starts_with_iff)
  show ?case
  proof (cases "b = 255")
    case True
    then show ?thesis using snoc k by (simp add: prefix_end_def starts_with_iff)
  next
    case False
    then have "e = p @ [b + 1]" using snoc.prems(1) by (simp add: prefix_end_def)
    moreover have "b < b + 1" using byte_succ [OF False] by (simp add: word_less_nat_alt)
    ultimately show ?thesis using k list_less_append_same_length [of p p "[b] @ s" "[b + 1]"] by simp
  qed
qed (simp add: prefix_end_def)

lemma prefix_end_below:
  assumes "p \<le> k" and "case prefix_end p of None \<Rightarrow> True | Some e \<Rightarrow> k < e"
  shows "starts_with k p"
  using assms
proof (induction p arbitrary: k rule: rev_induct)
  case Nil
  then show ?case by (simp add: starts_with_def)
next
  case (snoc b p)
  show ?case
  proof (cases "b = 255")
    case True
    have "p \<le> k" using snoc.prems(1) list_le_prefix [of p "[b]"] by (rule order_trans [rotated])
    with snoc True have "starts_with k p" by (simp add: prefix_end_def)
    then obtain s where k: "k = p @ s" by (auto simp: starts_with_iff)
    with snoc.prems(1) have "[b] \<le> s" using list_le_append_same_length [of p p "[b]" s] by simp
    then obtain c s' where "s = c # s'" "b \<le> c" by (cases s) auto
    have "c = 255" using byte_le_255 [of c] \<open>b \<le> c\<close> True by simp
    with True k \<open>s = c # s'\<close> show ?thesis by (simp add: starts_with_iff)
  next
    case False
    then have "k < p @ [b + 1]" using snoc.prems(2) by (simp add: prefix_end_def)
    then obtain s where s: "k = p @ s" "[b] \<le> s" "s < [b + 1]"
      using between_prefixed [OF snoc.prems(1)] by blast
    then obtain c s' where c: "s = c # s'" "b \<le> c" "c < b + 1 \<or> c = b + 1 \<and> s' < []"
      by (cases s) auto
    then have "unat c = unat b"
      using byte_succ [OF False] by (auto simp: word_less_nat_alt word_le_nat_alt)
    then have "c = b" by (simp add: word_unat_eq_iff)
    with s c show ?thesis by (simp add: starts_with_iff)
  qed
qed

text \<open>
  \<open>prefix_end\<close> is the exact upper bound of a prefix scan: the keys from the prefix (inclusive)
  to its end (exclusive, or without a bound when there is none) are exactly the keys that start with
  the prefix, trailing \<open>0xff\<close> bytes and the empty prefix included.
\<close>

theorem prefix_end_exact:
  "starts_with k p \<longleftrightarrow> p \<le> k \<and> below (case prefix_end p of None \<Rightarrow> Unbounded | Some e \<Rightarrow> Excluded e) k"
  using prefix_le prefix_end_above prefix_end_below [of p k] by (cases "prefix_end p") auto

end
