(* ===== verification/ApiCore.thy ===== *)
theory ApiCore
  imports PaginationFacts LedgerApi
begin

text \<open>
  The server state, the page protocol and the block endpoints of the REST API
  (\<open>nightfrost-api/src/routes.rs\<close>). A handler is a function of the state; the store is the snapshot it
  reads. Hex, bech32 and the arena-backed reads of the ledger are third-party code and the parameters
  \<open>api_env\<close>. Axum's extraction of requests and the JSON of responses are not modelled: a handler takes
  the decoded request and returns the response record.
\<close>

section \<open>Numbers as text\<close>

text \<open>\<open>str::parse\<close> to \<open>u64\<close>: an optional plus, then at least one digit, without overflow.\<close>

definition dec_digit :: "char \<Rightarrow> nat option" where
  "dec_digit c = (let n = of_char c in if 48 \<le> n \<and> n < 58 then Some (n - 48) else None)"

fun dec_value :: "nat \<Rightarrow> string \<Rightarrow> nat option" where
  "dec_value acc [] = Some acc"
| "dec_value acc (c # s) =
     (case dec_digit c of None \<Rightarrow> None | Some d \<Rightarrow> dec_value (acc * 10 + d) s)"

definition parse_u64 :: "string \<Rightarrow> u64 option" where
  "parse_u64 s =
     (let digits = (case s of c # s' \<Rightarrow> if c = CHR ''+'' then s' else s | [] \<Rightarrow> [])
      in if digits = [] then None
         else case dec_value 0 digits of
           None \<Rightarrow> None
         | Some n \<Rightarrow> if n < 2 ^ 64 then Some (word_of_nat n) else None)"

section \<open>State and environment\<close>

record api_env =
  en_crypto :: crypto
  en_hex_encode :: "bytes \<Rightarrow> string"
  en_hex_decode :: "string \<Rightarrow> bytes option"
  en_bech32_decode :: "string \<Rightarrow> bytes option"
  en_ledger_parameters :: "bytes \<Rightarrow> LedgerVersion \<Rightarrow> LedgerError + bytes"

record ApiState =
  ap_store :: Store
  ap_network_id :: string
  ap_node_url :: string
  ap_highest_block :: "u64 option"
  ap_cursor_key :: bytes

text \<open>\<open>map_err(internal)?\<close> on a read of the store.\<close>

definition db :: "rust_error + 'a \<Rightarrow> ApiFailure + 'a" where
  "db r = map_err internal r"

lemma db_simps [simp]: "db (Inr a) = Inr a" "db (Inl e) = Inl (internal e)"
  by (simp_all add: db_def)

lemma db_Inr_iff [result_simps]: "db r = Inr a \<longleftrightarrow> r = Inr a"
  by (cases r) simp_all

definition or_api :: "ApiError \<Rightarrow> 'a option \<Rightarrow> ApiFailure + 'a" where
  "or_api e x = ok_or (ApiErr e) x"

lemma or_api_simps [simp]: "or_api e None = Inl (ApiErr e)" "or_api e (Some a) = Inr a"
  by (simp_all add: or_api_def)

lemma or_api_Inr_iff [result_simps]: "or_api e x = Inr a \<longleftrightarrow> x = Some a"
  by (cases x) simp_all

section \<open>Responses\<close>

record TipResponse =
  tr_hash :: string
  tr_height :: u64

definition tip_response :: "api_env \<Rightarrow> TipAnchor \<Rightarrow> TipResponse" where
  "tip_response V tip = \<lparr>tr_hash = en_hex_encode V (hash_bytes (ta_hash tip)), tr_height = ta_height tip\<rparr>"

record 'a ApiResponse =
  rs_results :: 'a
  rs_tip :: "TipResponse option"
  rs_next_cursor :: "string option"

record 'a PointResponse =
  pt_results :: 'a
  pt_tip :: "TipResponse option"

definition current_tip :: "ApiState \<Rightarrow> ApiFailure + TipAnchor option" where
  "current_tip s =
     and_then (db (last_indexed_height (ap_store s))) (\<lambda>height.
       case height of
         None \<Rightarrow> Inr None
       | Some height \<Rightarrow>
           and_then (db (store_block (ap_store s) height)) (\<lambda>b.
           and_then (or_api (internal_error ''indexed tip block is missing'') b) (\<lambda>block.
             Inr (Some \<lparr>ta_height = height, ta_hash = bk_hash block\<rparr>))))"

definition validate_anchor :: "ApiState \<Rightarrow> TipAnchor \<Rightarrow> ApiFailure + unit" where
  "validate_anchor s anchor =
     and_then (db (store_block (ap_store s) (ta_height anchor))) (\<lambda>b.
       case b of
         None \<Rightarrow> Inl (ApiErr (gone ''cursor tip is no longer available''))
       | Some block \<Rightarrow>
           (if bk_hash block \<noteq> ta_hash anchor
            then Inl (ApiErr (gone ''cursor belongs to a different chain history''))
            else Inr ()))"

record PageContext =
  pc_anchor :: "TipAnchor option"
  pc_position :: "bytes option"

definition page_context ::
    "api_env \<Rightarrow> ApiState \<Rightarrow> Pagination \<Rightarrow> bytes \<Rightarrow> ApiFailure + PageContext" where
  "page_context V s pagination query =
     and_then (pagination_validate pagination) (\<lambda>_.
       case pg_cursor pagination of
         Some token \<Rightarrow>
           and_then (cursor_decode (en_crypto V) (ap_cursor_key s) token query) (\<lambda>decoded.
           and_then (validate_anchor s (dc_anchor decoded)) (\<lambda>_.
             Inr \<lparr>pc_anchor = Some (dc_anchor decoded), pc_position = Some (dc_position decoded)\<rparr>))
       | None \<Rightarrow>
           and_then (current_tip s) (\<lambda>tip. Inr \<lparr>pc_anchor = tip, pc_position = None\<rparr>))"

definition next_cursor ::
    "api_env \<Rightarrow> ApiState \<Rightarrow> bytes \<Rightarrow> TipAnchor option \<Rightarrow> bytes option \<Rightarrow> bool \<Rightarrow>
       ApiFailure + string option" where
  "next_cursor V s query anchor position has_more =
     (if \<not> has_more then Inr None
      else case anchor of
        None \<Rightarrow> Inr None
      | Some anchor \<Rightarrow>
          (case position of
             None \<Rightarrow> Inr None
           | Some position \<Rightarrow>
               and_then (cursor_encode (en_crypto V) (ap_cursor_key s) query anchor position)
                 (\<lambda>token. Inr (Some token))))"

definition response :: "api_env \<Rightarrow> ApiState \<Rightarrow> 'a \<Rightarrow> ApiFailure + 'a PointResponse" where
  "response V s results =
     and_then (current_tip s) (\<lambda>tip.
       Inr \<lparr>pt_results = results, pt_tip = map_option (tip_response V) tip\<rparr>)"

definition response_at ::
    "api_env \<Rightarrow> 'a \<Rightarrow> TipAnchor option \<Rightarrow> string option \<Rightarrow> ApiFailure + 'a ApiResponse" where
  "response_at V results tip cursor =
     Inr \<lparr>rs_results = results, rs_tip = map_option (tip_response V) tip, rs_next_cursor = cursor\<rparr>"

text \<open>The end of every paginated handler: rows with their cursor positions, one more than the page
  holds when there is a next page. One handler still has to look up what it shows of the rows of the
  page (\<open>render\<close>).\<close>

definition finish_page_with ::
    "('x \<Rightarrow> ApiFailure + 'a) \<Rightarrow> api_env \<Rightarrow> ApiState \<Rightarrow> bytes \<Rightarrow> PageContext \<Rightarrow> nat \<Rightarrow> (bytes \<times> 'x) list \<Rightarrow>
       ApiFailure + 'a list ApiResponse" where
  "finish_page_with render V s query page count rows =
     (let has_more = length rows > count;
          rows = take count rows;
          cursor_position = (if rows = [] then None else Some (fst (last rows)))
      in and_then (try_map (\<lambda>row. render (snd row)) rows) (\<lambda>results.
         and_then (next_cursor V s query (pc_anchor page) cursor_position has_more) (\<lambda>cursor.
           response_at V results (pc_anchor page) cursor)))"

definition finish_page ::
    "api_env \<Rightarrow> ApiState \<Rightarrow> bytes \<Rightarrow> PageContext \<Rightarrow> nat \<Rightarrow> (bytes \<times> 'a) list \<Rightarrow>
       ApiFailure + 'a list ApiResponse" where
  "finish_page V s query page count rows = finish_page_with Inr V s query page count rows"

lemma try_map_Inr: "try_map (\<lambda>x. Inr (f x)) xs = Inr (map f xs)"
  by (rule try_map_total) simp

lemma finish_page_render:
  assumes "\<And>row. row \<in> set (take count rows) \<Longrightarrow> render (snd row) = Inr (g (snd row))"
  shows "finish_page_with render V s query page count rows
    = finish_page V s query page count (map (map_prod id g) rows)"
proof -
  have "try_map (\<lambda>row. render (snd row)) (take count rows) = Inr (map (\<lambda>row. g (snd row)) (take count rows))"
    by (rule try_map_total) (rule assms)
  then show ?thesis
    by (auto simp: finish_page_def finish_page_with_def Let_def try_map_Inr take_map last_map comp_def)
qed

fun in_order :: "Order \<Rightarrow> 'a list \<Rightarrow> 'a list" where
  "in_order Asc xs = xs"
| "in_order Desc xs = rev xs"

section \<open>Network, status and statistics\<close>

record NetworkResponse =
  nw_network_id :: string
  nw_node_url :: string
  nw_genesis_hash :: "string option"

definition network :: "api_env \<Rightarrow> ApiState \<Rightarrow> ApiFailure + NetworkResponse PointResponse" where
  "network V s =
     (let genesis_hash = (case store_get (ap_store s) Meta GENESIS_HASH of
            None \<Rightarrow> Inr None
          | Some v \<Rightarrow> and_then (ok_or (ApiPanic ''raw value'') (as_raw v)) (\<lambda>bs.
              Inr (Some (en_hex_encode V bs))))
      in and_then genesis_hash (\<lambda>genesis_hash.
         response V s \<lparr>nw_network_id = ap_network_id s, nw_node_url = ap_node_url s,
           nw_genesis_hash = genesis_hash\<rparr>))"

text \<open>The percentage is an \<open>f64\<close> rounded to two decimals; it is kept in hundredths of a percent, computed
  exactly.\<close>

record SyncStatusResponse =
  ss_indexed_height :: "u64 option"
  ss_node_height :: "u64 option"
  ss_percentage_hundredths :: "nat option"
  ss_caught_up :: bool

definition percentage_hundredths :: "u64 \<Rightarrow> u64 \<Rightarrow> nat" where
  "percentage_hundredths indexed node =
     min 10000 ((2 * unat indexed * 10000 + unat node) div (2 * unat node))"

definition sync_status :: "api_env \<Rightarrow> ApiState \<Rightarrow> ApiFailure + SyncStatusResponse PointResponse" where
  "sync_status V s =
     and_then (db (last_indexed_height (ap_store s))) (\<lambda>indexed_height.
       let node_height = ap_highest_block s;
           caught_up = (case (indexed_height, node_height) of
               (Some indexed, Some node) \<Rightarrow> saturating_sub node indexed \<le> 10 | _ \<Rightarrow> False);
           percentage = (case (indexed_height, node_height) of
               (Some indexed, Some node) \<Rightarrow>
                 if node > 0 then Some (percentage_hundredths indexed node) else None
             | _ \<Rightarrow> None)
       in response V s \<lparr>ss_indexed_height = indexed_height, ss_node_height = node_height,
            ss_percentage_hundredths = percentage, ss_caught_up = caught_up\<rparr>)"

record StatsResponse =
  sr_total_transactions :: u64
  sr_total_contract_actions :: u64
  sr_total_ledger_events :: u64
  sr_total_contracts :: u64

definition stats :: "api_env \<Rightarrow> ApiState \<Rightarrow> ApiFailure + StatsResponse PointResponse" where
  "stats V s =
     and_then (db (next_id (ap_store s) NEXT_TX_ID)) (\<lambda>txs.
     and_then (db (next_id (ap_store s) NEXT_ACTION_ID)) (\<lambda>actions.
     and_then (db (next_id (ap_store s) NEXT_EVENT_ID)) (\<lambda>events.
       response V s \<lparr>sr_total_transactions = txs, sr_total_contract_actions = actions,
         sr_total_ledger_events = events,
         sr_total_contracts = word_of_nat (length (store_iter (ap_store s) Contracts))\<rparr>)))"

section \<open>Blocks\<close>

record BlockResponse =
  br_hash_hex :: string
  br_block_height :: u64
  br_parent_hash :: string
  br_timestamp :: u64
  br_protocol_version :: u32
  br_author :: "string option"
  br_tx_count :: u32
  br_zswap_merkle_tree_root :: string
  br_ledger_state_root :: "string option"

definition block_response :: "api_env \<Rightarrow> u64 \<Rightarrow> BlockRecord \<Rightarrow> BlockResponse" where
  "block_response V height record =
     \<lparr>br_hash_hex = en_hex_encode V (hash_bytes (bk_hash record)), br_block_height = height,
      br_parent_hash = en_hex_encode V (hash_bytes (bk_parent_hash record)),
      br_timestamp = bk_timestamp record, br_protocol_version = bk_protocol_version record,
      br_author = map_option (\<lambda>h. en_hex_encode V (hash_bytes h)) (bk_author record),
      br_tx_count = bk_tx_count record,
      br_zswap_merkle_tree_root = en_hex_encode V (bk_zswap_merkle_tree_root record),
      br_ledger_state_root = map_option (en_hex_encode V) (bk_ledger_state_root record)\<rparr>"

definition block_latest :: "api_env \<Rightarrow> ApiState \<Rightarrow> ApiFailure + BlockResponse PointResponse" where
  "block_latest V s =
     and_then (db (last_indexed_height (ap_store s))) (\<lambda>h.
     and_then (or_api (not_found ''no blocks indexed yet'') h) (\<lambda>height.
     and_then (db (store_block (ap_store s) height)) (\<lambda>b.
     and_then (or_api (not_found ''block not found'') b) (\<lambda>record.
       response V s (block_response V height record)))))"

record LedgerParametersResponse =
  lp_block_hash :: string
  lp_block_height :: u64
  lp_block_time :: u64
  lp_protocol_version :: u32
  lp_ledger_parameters :: string

definition ledger_parameters_latest ::
    "api_env \<Rightarrow> ApiState \<Rightarrow> ApiFailure + LedgerParametersResponse PointResponse" where
  "ledger_parameters_latest V s =
     and_then (db (last_indexed_height (ap_store s))) (\<lambda>h.
     and_then (or_api (not_found ''no indexed block'') h) (\<lambda>height.
     and_then (db (store_block (ap_store s) height)) (\<lambda>b.
     and_then (or_api (internal_error ''indexed tip block is missing'') b) (\<lambda>block.
     and_then (or_api (internal_error ''indexed tip has no persisted ledger state'')
                 (bk_ledger_state_root block)) (\<lambda>state_key.
     and_then (map_err (\<lambda>_. ApiErr (internal_error ''unsupported protocol version''))
                 (try_from_u32 (bk_protocol_version block))) (\<lambda>version.
     and_then (map_err (\<lambda>_. ApiErr (internal_error ''ledger state''))
                 (en_ledger_parameters V state_key (ledger_version version))) (\<lambda>parameters.
       response V s \<lparr>lp_block_hash = en_hex_encode V (hash_bytes (bk_hash block)),
         lp_block_height = height, lp_block_time = bk_timestamp block,
         lp_protocol_version = bk_protocol_version block,
         lp_ledger_parameters = en_hex_encode V parameters\<rparr>)))))))"

text \<open>Resolve \<open>{hash_or_height}\<close>: decimal height or hex block hash.\<close>

definition resolve_block :: "api_env \<Rightarrow> Store \<Rightarrow> string \<Rightarrow> ApiFailure + u64 \<times> BlockRecord" where
  "resolve_block V st ident =
     and_then
       (case parse_u64 ident of
          Some height \<Rightarrow> Inr height
        | None \<Rightarrow>
            and_then (or_api (bad_request ''invalid block hash or height'')
                (case en_hex_decode V ident of
                   Some hash \<Rightarrow> if length hash = 32 then Some hash else None
                 | None \<Rightarrow> None)) (\<lambda>hash.
            and_then (db (block_height_by_hash st hash)) (\<lambda>h.
              or_api (not_found ''block not found'') h)))
       (\<lambda>height.
          and_then (db (store_block st height)) (\<lambda>b.
          and_then (or_api (not_found ''block not found'') b) (\<lambda>record. Inr (height, record))))"

definition block_by_id :: "api_env \<Rightarrow> ApiState \<Rightarrow> string \<Rightarrow> ApiFailure + BlockResponse PointResponse" where
  "block_by_id V s ident =
     and_then (resolve_block V (ap_store s) ident) (\<lambda>(height, record).
       response V s (block_response V height record))"

text \<open>A cursor position of a fixed width.\<close>

definition position_at :: "(bytes \<Rightarrow> 'a option) \<Rightarrow> string \<Rightarrow> PageContext \<Rightarrow> ApiFailure + 'a option" where
  "position_at dec msg page =
     (case pc_position page of
        None \<Rightarrow> Inr None
      | Some bs \<Rightarrow> and_then (or_api (bad_request msg) (dec bs)) (\<lambda>p. Inr (Some p)))"

definition block_tx_indexes :: "Order \<Rightarrow> u32 \<Rightarrow> u32 option \<Rightarrow> u32 list" where
  "block_tx_indexes order tx_count after =
     (let indexes = map word_of_nat [0..<unat tx_count]
      in case order of
           Asc \<Rightarrow> filter (\<lambda>index. case after of None \<Rightarrow> True | Some a \<Rightarrow> index > a) indexes
         | Desc \<Rightarrow> filter (\<lambda>index. case after of None \<Rightarrow> True | Some a \<Rightarrow> index < a) (rev indexes))"

definition block_tx_row ::
    "api_env \<Rightarrow> Store \<Rightarrow> BlockRecord \<Rightarrow> u32 \<Rightarrow> ApiFailure + bytes \<times> string" where
  "block_tx_row V st record index =
     and_then (db (store_tx st (bk_first_tx_id record + ucast index))) (\<lambda>t.
     and_then (or_api (internal_error ''missing tx record'') t) (\<lambda>tx.
       Inr (u32_to_be_bytes index, en_hex_encode V (hash_bytes (tx_hash tx)))))"

definition block_txs ::
    "api_env \<Rightarrow> ApiState \<Rightarrow> string \<Rightarrow> Pagination \<Rightarrow> ApiFailure + string list ApiResponse" where
  "block_txs V s ident pagination =
     and_then (resolve_block V (ap_store s) ident) (\<lambda>(height, record).
     let query = scope [as_bytes ''block_txs'', u64_to_be_bytes height] (pg_order pagination)
     in and_then (page_context V s pagination query) (\<lambda>page.
        and_then (position_at u32_from_be_bytes ''invalid block transaction cursor'' page) (\<lambda>after.
        and_then (try_map (block_tx_row V (ap_store s) record)
                    (take (pg_count pagination + 1)
                      (block_tx_indexes (pg_order pagination) (bk_tx_count record) after))) (\<lambda>rows.
          finish_page V s query page (pg_count pagination) rows))))"

end
