(* ===== verification/ApiPages.thy ===== *)
theory ApiPages
  imports ApiCore
begin

text \<open>
  The page protocol of the collection endpoints. What a handler provides is the locale
  \<open>paged_handler\<close>: rows with strictly increasing cursor positions, of which it fetches one page and one
  row from the start or from beyond a position. What the client gets is proved once: following the
  cursors of the responses from the first page visits every row once, in order, and ends, even when
  the server's state changes between two requests, as long as the rows visible at the anchor of the
  first page stay the same.
\<close>

section \<open>Loops that stop at a full page\<close>

text \<open>The loop of the filtering handlers: a row is pushed unless the entry is skipped, and the loop
  breaks when one row more than the page holds has been pushed.\<close>

fun collect_page :: "nat \<Rightarrow> ('x \<Rightarrow> 'e + 'r option) \<Rightarrow> 'x list \<Rightarrow> 'e + 'r list" where
  "collect_page count f [] = Inr []"
| "collect_page count f (x # xs) =
     and_then (f x) (\<lambda>r. case r of
         None \<Rightarrow> collect_page count f xs
       | Some y \<Rightarrow>
           (case count of
              0 \<Rightarrow> Inr [y]
            | Suc count' \<Rightarrow> and_then (collect_page count' f xs) (\<lambda>ys. Inr (y # ys))))"

lemma collect_page_take:
  assumes "\<And>x. x \<in> set xs \<Longrightarrow> f x = Inr (g x)"
  shows "collect_page count f xs = Inr (take (Suc count) (List.map_filter g xs))"
  using assms
proof (induction xs arbitrary: count)
  case (Cons x xs)
  then show ?case by (cases count) (auto simp: List.map_filter_def split: option.split)
qed (simp add: List.map_filter_def)

text \<open>The bounds of a scan that goes on behind a cursor.\<close>

fun cursor_bounds :: "Order \<Rightarrow> bytes option \<Rightarrow> bound \<Rightarrow> bound \<Rightarrow> bound \<times> bound" where
  "cursor_bounds Asc (Some key) lo hi = (Excluded key, hi)"
| "cursor_bounds Desc (Some key) lo hi = (lo, Excluded key)"
| "cursor_bounds ord None lo hi = (lo, hi)"

definition ordered_range ::
    "Store \<Rightarrow> part_id \<Rightarrow> Order \<Rightarrow> bound \<times> bound \<Rightarrow> (bytes \<times> store_value) list" where
  "ordered_range st p order bounds = in_order order (store_range st p (fst bounds) (snd bounds))"

section \<open>Pages\<close>

fun beyond :: "Order \<Rightarrow> bytes \<Rightarrow> (bytes \<times> 'r) list \<Rightarrow> (bytes \<times> 'r) list" where
  "beyond Asc p rs = filter (\<lambda>r. p < fst r) rs"
| "beyond Desc p rs = rev (filter (\<lambda>r. fst r < p) rs)"

record feed =
  fd_env :: api_env
  fd_state :: ApiState
  fd_path :: string
  fd_from :: u64

definition pagination_of :: "Order \<Rightarrow> nat \<Rightarrow> string option \<Rightarrow> Pagination" where
  "pagination_of order n token =
     \<lparr>pg_count = n, pg_order = order, pg_cursor = token, pg_page = None\<rparr>"

definition run_page ::
    "(PageContext \<Rightarrow> ApiFailure + (bytes \<times> 'r) list) \<Rightarrow> feed \<Rightarrow> Order \<Rightarrow> nat \<Rightarrow> bytes \<Rightarrow> string option \<Rightarrow>
       ApiFailure + 'r list ApiResponse" where
  "run_page fetch f order n query token =
     and_then (page_context (fd_env f) (fd_state f) (pagination_of order n token) query) (\<lambda>page.
     and_then (fetch page) (\<lambda>rows. finish_page (fd_env f) (fd_state f) query page n rows))"

definition page_result :: "'r list ApiResponse \<Rightarrow> 'r list \<times> string option" where
  "page_result r = (rs_results r, rs_next_cursor r)"

text \<open>A client that follows \<open>next_cursor\<close>; \<open>serve i\<close> is the endpoint at its \<open>i\<close>-th request.\<close>

fun follow_pages ::
    "nat \<Rightarrow> (nat \<Rightarrow> string option \<Rightarrow> ApiFailure + 'r list ApiResponse) \<Rightarrow> nat \<Rightarrow> string option \<Rightarrow>
       ApiFailure + 'r list option" where
  "follow_pages 0 serve i token = Inr None"
| "follow_pages (Suc fuel) serve i token =
     and_then (serve i token) (\<lambda>r.
       case rs_next_cursor r of
         None \<Rightarrow> Inr (Some (rs_results r))
       | Some t \<Rightarrow>
           and_then (follow_pages fuel serve (Suc i) (Some t)) (\<lambda>rest.
             Inr (map_option (\<lambda>rest. rs_results r @ rest) rest)))"

lemma sorted_beyond:
  assumes "sorted_wrt (<) (map fst rs)" and "in_order order rs = xs @ ys" and "xs \<noteq> []"
  shows "beyond order (fst (last xs)) rs = ys"
proof (cases order)
  case Asc
  obtain us x where xs: "xs = us @ [x]" using assms(3) by (metis append_butlast_last_id)
  have rs: "rs = us @ [x] @ ys" using Asc assms(2) xs by simp
  then show ?thesis
    using assms(1) Asc xs by (auto simp: sorted_wrt_append filter_empty_conv filter_id_conv)
next
  case Desc
  obtain us x where xs: "xs = us @ [x]" using assms(3) by (metis append_butlast_last_id)
  have "rs = rev (us @ [x] @ ys)" using Desc assms(2) xs by (metis append.assoc in_order.simps(2) rev_rev_ident)
  then have rs: "rs = rev ys @ [x] @ rev us" by simp
  then show ?thesis
    using assms(1) Desc xs by (auto simp: sorted_wrt_append filter_empty_conv filter_id_conv)
qed

lemma token_length:
  assumes "crypto_ok X" and "cursor_encode X key query a p = Inr token" and "length p \<le> 400"
  shows "length token \<le> MAX_CURSOR_LEN"
proof -
  let ?bs = "cursor_payload X query a (word_of_nat (length p)) p
    @ take 16 (cursor_mac X key (cursor_payload X query a (word_of_nat (length p)) p))"
  have token: "token = CURSOR_PREFIX @ cx_b64_encode X ?bs"
    using assms(2) by (auto simp: cursor_encode_def Let_def MAC_LEN_def split: if_splits)
  have "length (cx_b64_encode X ?bs) \<le> 2 * length ?bs" using assms(1) unfolding crypto_ok_def by blast
  then show ?thesis using assms(3) by (simp add: token CURSOR_PREFIX_def MAX_CURSOR_LEN_def)
qed

lemma encode_short:
  "length p \<le> 400 \<Longrightarrow> \<exists>token. cursor_encode X key query a p = Inr token"
  by (simp add: cursor_encode_def Let_def)

section \<open>The contract\<close>

locale paged_handler =
  fixes ok :: "feed \<Rightarrow> TipAnchor \<Rightarrow> bool"
    and rows :: "feed \<Rightarrow> TipAnchor \<Rightarrow> (bytes \<times> 'r) list"
    and query :: "feed \<Rightarrow> Order \<Rightarrow> bytes"
    and fetch :: "feed \<Rightarrow> Order \<Rightarrow> nat \<Rightarrow> PageContext \<Rightarrow> ApiFailure + (bytes \<times> 'r) list"
  assumes increasing: "ok f a \<Longrightarrow> sorted_wrt (<) (map fst (rows f a))"
    and crypto: "ok f a \<Longrightarrow> crypto_ok (en_crypto (fd_env f))"
    and anchored: "ok f a \<Longrightarrow> validate_anchor (fd_state f) a = Inr ()"
    and short: "ok f a \<Longrightarrow> p \<in> fst ` set (rows f a) \<Longrightarrow> length p \<le> 400"
    and fetch_first: "ok f a \<Longrightarrow> fetch f order n \<lparr>pc_anchor = Some a, pc_position = None\<rparr>
      = Inr (take (Suc n) (in_order order (rows f a)))"
    and fetch_next: "ok f a \<Longrightarrow> p \<in> fst ` set (rows f a) \<Longrightarrow>
      fetch f order n \<lparr>pc_anchor = Some a, pc_position = Some p\<rparr>
      = Inr (take (Suc n) (beyond order p (rows f a)))"
begin

definition serve :: "feed \<Rightarrow> Order \<Rightarrow> nat \<Rightarrow> string option \<Rightarrow> ApiFailure + 'r list ApiResponse" where
  "serve f order n token = run_page (fetch f order n) f order n (query f order) token"

definition token_at :: "feed \<Rightarrow> Order \<Rightarrow> TipAnchor \<Rightarrow> bytes \<Rightarrow> string" where
  "token_at f order a p =
     (case cursor_encode (en_crypto (fd_env f)) (ap_cursor_key (fd_state f)) (query f order) a p of
        Inr token \<Rightarrow> token | Inl _ \<Rightarrow> [])"

lemma finish:
  assumes "ok f a" and "1 \<le> n" and "\<forall>r \<in> set rs. length (fst r) \<le> 400"
  shows "\<exists>r. finish_page (fd_env f) (fd_state f) (query f order) \<lparr>pc_anchor = Some a, pc_position = pos\<rparr> n
      (take (Suc n) rs) = Inr r
    \<and> rs_results r = map snd (take n rs)
    \<and> rs_next_cursor r = (if length rs > n then Some (token_at f order a (fst (last (take n rs)))) else None)"
proof (cases "length rs > n")
  case True
  then have "take n rs \<noteq> []" using assms(2) by auto
  then have "last (take n rs) \<in> set rs" by (meson in_set_takeD last_in_set)
  then obtain token where "cursor_encode (en_crypto (fd_env f)) (ap_cursor_key (fd_state f)) (query f order) a
      (fst (last (take n rs))) = Inr token"
    using assms(3) encode_short by metis
  then show ?thesis
    using True \<open>take n rs \<noteq> []\<close>
    by (auto simp: finish_page_def finish_page_with_def try_map_Inr Let_def next_cursor_def response_at_def token_at_def min_def)
qed (auto simp: finish_page_def finish_page_with_def try_map_Inr Let_def next_cursor_def response_at_def)

lemma serve_first:
  assumes "ok f a" and "current_tip (fd_state f) = Inr (Some a)" and "1 \<le> n" and "n \<le> 5000"
  shows "\<exists>r. serve f order n None = Inr r
    \<and> rs_results r = map snd (take n (in_order order (rows f a)))
    \<and> rs_next_cursor r = (if length (rows f a) > n
        then Some (token_at f order a (fst (last (take n (in_order order (rows f a)))))) else None)"
proof -
  have "\<forall>r \<in> set (in_order order (rows f a)). length (fst r) \<le> 400"
    using short [OF assms(1)] by (cases order) auto
  from finish [OF assms(1,3) this, of order None] show ?thesis
    using assms(2-4) fetch_first [OF assms(1)]
    by (cases order) (auto simp: serve_def run_page_def page_context_def pagination_of_def
        pagination_validate_def)
qed

lemma serve_next:
  assumes "ok f a" and "1 \<le> n" and "n \<le> 5000" and "p \<in> fst ` set (rows f a)"
  shows "\<exists>r. serve f order n (Some (token_at f order a p)) = Inr r
    \<and> rs_results r = map snd (take n (beyond order p (rows f a)))
    \<and> rs_next_cursor r = (if length (beyond order p (rows f a)) > n
        then Some (token_at f order a (fst (last (take n (beyond order p (rows f a)))))) else None)"
proof -
  have len: "length p \<le> 400" by (rule short [OF assms(1,4)])
  then obtain token where t:
    "cursor_encode (en_crypto (fd_env f)) (ap_cursor_key (fd_state f)) (query f order) a p = Inr token"
    using encode_short by blast
  then have tok: "token_at f order a p = token" by (simp add: token_at_def)
  have "cursor_decode (en_crypto (fd_env f)) (ap_cursor_key (fd_state f)) token (query f order)
      = Inr \<lparr>dc_anchor = a, dc_position = p\<rparr>"
    by (rule decode_encoded [OF crypto [OF assms(1)] t])
  then have page: "page_context (fd_env f) (fd_state f) (pagination_of order n (Some token)) (query f order)
      = Inr \<lparr>pc_anchor = Some a, pc_position = Some p\<rparr>"
    using assms(2,3) token_length [OF crypto [OF assms(1)] t len] anchored [OF assms(1)]
    by (simp add: page_context_def pagination_of_def pagination_validate_def)
  have "\<forall>r \<in> set (beyond order p (rows f a)). length (fst r) \<le> 400"
    using short [OF assms(1)] by (cases order) auto
  from finish [OF assms(1,2) this, of order "Some p"] show ?thesis
    using fetch_next [OF assms(1,4)] by (simp add: serve_def run_page_def tok page)
qed

text \<open>Following the cursors, with the state of the server at each request.\<close>

lemma follow_rest:
  assumes states: "\<And>i. ok (fs i) a \<and> rows (fs i) a = R \<and> token_at (fs i) order a = tok"
    and "1 \<le> n" and "n \<le> 5000" and "in_order order R = xs @ ys" and "xs \<noteq> []" and "length ys < fuel"
  shows "follow_pages fuel (\<lambda>i. serve (fs i) order n) i (Some (tok (fst (last xs))))
    = Inr (Some (map snd ys))"
  using assms(4-6)
proof (induction fuel arbitrary: i xs ys)
  case (Suc fuel)
  have sorted: "sorted_wrt (<) (map fst R)" using increasing states [of i] by metis
  have "last xs \<in> set (in_order order R)" using Suc.prems(1,2) by (auto simp: last_in_set)
  then have "fst (last xs) \<in> fst ` set (rows (fs i) a)"
    using states [of i] by (cases order) auto
  from serve_next [OF _ assms(2,3) this, of order] obtain r where r:
    "serve (fs i) order n (Some (tok (fst (last xs)))) = Inr r" "rs_results r = map snd (take n ys)"
    "rs_next_cursor r = (if length ys > n then Some (tok (fst (last (take n ys)))) else None)"
    using states [of i] sorted_beyond [OF sorted Suc.prems(1,2)] by auto
  show ?case
  proof (cases "length ys > n")
    case True
    have split: "in_order order R = (xs @ take n ys) @ drop n ys" using Suc.prems(1) by simp
    have "take n ys \<noteq> []" using True assms(2) by auto
    then have "last (xs @ take n ys) = last (take n ys)" by simp
    moreover have "length (drop n ys) < fuel" using Suc.prems(3) assms(2) True by simp
    moreover have "xs @ take n ys \<noteq> []" using \<open>take n ys \<noteq> []\<close> by simp
    ultimately have "follow_pages fuel (\<lambda>i. serve (fs i) order n) (Suc i) (Some (tok (fst (last (take n ys)))))
        = Inr (Some (map snd (drop n ys)))"
      using Suc.IH [OF split, of "Suc i"] by simp
    then show ?thesis using r True by (simp flip: map_append)
  qed (use r in simp)
qed simp

lemma follow_all:
  assumes states: "\<And>i. ok (fs i) a \<and> rows (fs i) a = R \<and> token_at (fs i) order a = tok"
    and "current_tip (fd_state (fs 0)) = Inr (Some a)"
    and "1 \<le> n" and "n \<le> 5000" and "length R < fuel"
  shows "follow_pages fuel (\<lambda>i. serve (fs i) order n) 0 None = Inr (Some (map snd (in_order order R)))"
proof -
  obtain fuel' where fuel: "fuel = Suc fuel'" using assms(5) by (cases fuel) auto
  let ?ys = "in_order order R"
  have len: "length ?ys = length R" by (cases order) simp_all
  from serve_first [OF _ assms(2-4), of order] obtain r where r:
    "serve (fs 0) order n None = Inr r" "rs_results r = map snd (take n ?ys)"
    "rs_next_cursor r = (if length R > n then Some (tok (fst (last (take n ?ys)))) else None)"
    using states [of 0] by auto
  show ?thesis
  proof (cases "length R > n")
    case True
    have "take n ?ys \<noteq> []" using True assms(3) len by auto
    then have "follow_pages fuel' (\<lambda>i. serve (fs i) order n) (Suc 0) (Some (tok (fst (last (take n ?ys)))))
        = Inr (Some (map snd (drop n ?ys)))"
      using follow_rest [OF states assms(3,4), where xs = "take n ?ys" and ys = "drop n ?ys" and fuel = fuel'
          and i = "Suc 0"] fuel len True assms(3,5)
      by simp
    then show ?thesis using r True by (simp add: fuel flip: map_append)
  qed (use r len in \<open>simp add: fuel\<close>)
qed

lemma token_at_same:
  "fd_env f = fd_env g \<Longrightarrow> ap_cursor_key (fd_state f) = ap_cursor_key (fd_state g) \<Longrightarrow>
    query f order = query g order \<Longrightarrow> token_at f order = token_at g order"
  by (simp add: token_at_def fun_eq_iff)

lemma follow_same:
  assumes "\<And>i. ok (fs i) a" and rows: "\<And>i. rows (fs i) a = rows (fs 0) a"
    and "\<And>i. fd_env (fs i) = fd_env (fs 0)"
    and "\<And>i. ap_cursor_key (fd_state (fs i)) = ap_cursor_key (fd_state (fs 0))"
    and "\<And>i. query (fs i) order = query (fs 0) order"
    and "current_tip (fd_state (fs 0)) = Inr (Some a)"
    and "1 \<le> n" and "n \<le> 5000" and "length (rows (fs 0) a) < fuel"
  shows "follow_pages fuel (\<lambda>i. serve (fs i) order n) 0 None
    = Inr (Some (in_order order (map snd (rows (fs 0) a))))"
proof -
  have "ok (fs i) a \<and> rows (fs i) a = rows (fs 0) a
      \<and> token_at (fs i) order a = token_at (fs 0) order a" for i
    using assms(1) rows [of i] token_at_same [OF assms(3-5), of i] by simp
  then have "follow_pages fuel (\<lambda>i. serve (fs i) order n) 0 None
      = Inr (Some (map snd (in_order order (rows (fs 0) a))))"
    by (rule follow_all [where tok = "token_at (fs 0) order a"]) (use assms(6-9) in simp_all)
  then show ?thesis
    by (cases order) (simp_all add: rev_map)
qed

end

end
