(* ===== verification/ApiTxs.thy ===== *)
theory ApiTxs
  imports ApiPages
begin

text \<open>
  The transaction and address endpoints (\<open>nightfrost-api/src/routes/entities.rs\<close>, first part): look-ups
  by hash and identifier, the UTXOs and events of a transaction, the balances of an address, and the
  paginated unspent outputs and transactions of an address. A paginated handler is split into what it
  fetches for one page (the scan, the skipped rows, the limit) and the page protocol.
\<close>

section \<open>Parsing path segments\<close>

definition parse_addr32 :: "api_env \<Rightarrow> string \<Rightarrow> ApiFailure + hash32" where
  "parse_addr32 V input =
     (case en_bech32_decode V input of
        Some data \<Rightarrow> or_api (bad_request ''bech32 address must decode to 32 bytes'') (hash_of_bytes data)
      | None \<Rightarrow>
          or_api (bad_request ''invalid address: expected hex or bech32m'')
            (Option.bind (en_hex_decode V input) hash_of_bytes))"

text \<open>\<open>trim_start_matches("0x")\<close> removes the prefix as often as it occurs.\<close>

fun trim_0x :: "string \<Rightarrow> string" where
  "trim_0x (c # d # s) = (if c = CHR ''0'' \<and> d = CHR ''x'' then trim_0x s else c # d # s)"
| "trim_0x s = s"

section \<open>Transactions\<close>

record TxResponse =
  txr_id :: u64
  txr_hash :: string
  txr_block_height :: u64
  txr_block_hash :: string
  txr_block_time :: u64
  txr_block_author :: "string option"
  txr_index :: u32
  txr_protocol_version :: u32
  txr_variant :: TransactionVariant
  txr_status :: string
  txr_segments :: "(u16 \<times> bool) list option"
  txr_paid_fees :: string
  txr_estimated_fees :: string
  txr_identifiers :: "string list"
  txr_utxo_created_count :: nat
  txr_utxo_spent_count :: nat
  txr_event_count :: u32
  txr_contract_action_count :: nat

fun tx_status :: "TransactionResult \<Rightarrow> string \<times> (u16 \<times> bool) list option" where
  "tx_status Success = (''success'', None)"
| "tx_status (PartialSuccess segments) = (''partial_success'', Some segments)"
| "tx_status Failure = (''failure'', None)"

text \<open>\<open>Vec::pop\<close>: the last element.\<close>

definition pop_last :: "'a list \<Rightarrow> 'a option" where
  "pop_last xs = (if xs = [] then None else Some (last xs))"

definition tx_at :: "Store \<Rightarrow> u64 \<Rightarrow> ApiFailure + TxRecord" where
  "tx_at st tx_id =
     and_then (db (store_tx st tx_id)) (\<lambda>t. or_api (not_found ''transaction not found'') t)"

definition tx_by_hash :: "api_env \<Rightarrow> ApiState \<Rightarrow> string \<Rightarrow> ApiFailure + u64 \<times> TxRecord" where
  "tx_by_hash V s hash =
     and_then (or_api (bad_request ''invalid transaction hash'')
                (Option.bind (en_hex_decode V hash) hash_of_bytes)) (\<lambda>hash.
     and_then (db (tx_ids_by_hash (ap_store s) hash)) (\<lambda>ids.
     and_then (or_api (not_found ''transaction not found'') (pop_last ids)) (\<lambda>tx_id.
     and_then (tx_at (ap_store s) tx_id) (\<lambda>record. Inr (tx_id, record)))))"

definition tx_response :: "api_env \<Rightarrow> ApiState \<Rightarrow> u64 \<Rightarrow> TxRecord \<Rightarrow> ApiFailure + TxResponse" where
  "tx_response V s tx_id record =
     and_then (db (store_block (ap_store s) (tx_block_height record))) (\<lambda>b.
     and_then (or_api (internal_error ''missing block for tx'') b) (\<lambda>block.
       let (status, segments) = tx_status (tx_result record)
       in Inr \<lparr>txr_id = tx_id, txr_hash = en_hex_encode V (hash_bytes (tx_hash record)),
            txr_block_height = tx_block_height record,
            txr_block_hash = en_hex_encode V (hash_bytes (bk_hash block)),
            txr_block_time = bk_timestamp block,
            txr_block_author = map_option (\<lambda>h. en_hex_encode V (hash_bytes h)) (bk_author block),
            txr_index = tx_index_in_block record, txr_protocol_version = bk_protocol_version block,
            txr_variant = tx_variant record, txr_status = status, txr_segments = segments,
            txr_paid_fees = dec_string (unat (tx_paid_fees record)),
            txr_estimated_fees = dec_string (unat (tx_estimated_fees record)),
            txr_identifiers = map (en_hex_encode V) (tx_identifiers record),
            txr_utxo_created_count = length (tx_created_utxos record),
            txr_utxo_spent_count = length (tx_spent_utxos record),
            txr_event_count = tx_event_count record,
            txr_contract_action_count = length (tx_contract_action_ids record)\<rparr>))"

definition tx :: "api_env \<Rightarrow> ApiState \<Rightarrow> string \<Rightarrow> ApiFailure + TxResponse PointResponse" where
  "tx V s hash =
     and_then (tx_by_hash V s hash) (\<lambda>(tx_id, record).
     and_then (tx_response V s tx_id record) (\<lambda>r. response V s r))"

text \<open>The raw bytes with a strong ETag; \<open>if_none_match\<close> lists the header values of the request that
  are valid text.\<close>

definition is_space :: "char \<Rightarrow> bool" where
  "is_space c = (of_char c \<in> {9 :: nat, 10, 11, 12, 13, 32})"

definition trim :: "string \<Rightarrow> string" where
  "trim s = rev (dropWhile is_space (rev (dropWhile is_space s)))"

fun split_commas :: "string \<Rightarrow> string list" where
  "split_commas [] = [[]]"
| "split_commas (c # s) =
     (if c = CHR '','' then [] # split_commas s
      else case split_commas s of [] \<Rightarrow> [[c]] | w # ws \<Rightarrow> (c # w) # ws)"

definition etag_matches :: "string \<Rightarrow> string list \<Rightarrow> bool" where
  "etag_matches etag if_none_match =
     list_ex (\<lambda>value.
         let tag = trim value
         in tag = ''*'' \<or> (case strip_prefix ''W/'' tag of Some t \<Rightarrow> t | None \<Rightarrow> tag) = etag)
       (concat (map split_commas if_none_match))"

record RawResponse =
  rw_status :: u16
  rw_body :: bytes
  rw_etag :: string
  rw_cache_control :: string

definition tx_raw_response ::
    "api_env \<Rightarrow> ApiState \<Rightarrow> string \<Rightarrow> string list \<Rightarrow> ApiFailure + RawResponse" where
  "tx_raw_response V s hash if_none_match =
     and_then (tx_by_hash V s hash) (\<lambda>(_, record).
       let etag = ''\"'' @ en_hex_encode V (hash_bytes (cx_sha256 (en_crypto V) (tx_raw record))) @ ''\"'';
           unchanged = etag_matches etag if_none_match
       in Inr \<lparr>rw_status = (if unchanged then 304 else 200),
               rw_body = (if unchanged then [] else tx_raw record),
               rw_etag = etag, rw_cache_control = ''public, no-cache''\<rparr>)"

definition tx_by_identifier ::
    "api_env \<Rightarrow> ApiState \<Rightarrow> string \<Rightarrow> ApiFailure + TxResponse PointResponse" where
  "tx_by_identifier V s ident =
     and_then (or_api (bad_request ''invalid transaction identifier'')
                (en_hex_decode V (trim_0x ident))) (\<lambda>ident.
     if length ident \<noteq> 33
     then Inl (ApiErr (bad_request ''transaction identifier must be 33 bytes''))
     else
     and_then (db (tx_ids_by_identifier (ap_store s) ident)) (\<lambda>ids.
     and_then (or_api (not_found ''transaction not found'') (pop_last ids)) (\<lambda>tx_id.
     and_then (tx_at (ap_store s) tx_id) (\<lambda>record.
     and_then (tx_response V s tx_id record) (\<lambda>r. response V s r)))))"

record UtxoResponse =
  ux_owner :: string
  ux_token_type :: string
  ux_value :: string
  ux_intent_hash :: string
  ux_output_index :: u32
  ux_ctime :: "u64 option"
  ux_registered_for_dust_generation :: bool

definition utxo_response :: "api_env \<Rightarrow> UnshieldedUtxo \<Rightarrow> UtxoResponse" where
  "utxo_response V utxo =
     \<lparr>ux_owner = en_hex_encode V (hash_bytes (uu_owner utxo)),
      ux_token_type = en_hex_encode V (hash_bytes (uu_token_type utxo)),
      ux_value = dec_string (unat (uu_value utxo)),
      ux_intent_hash = en_hex_encode V (hash_bytes (uu_intent_hash utxo)),
      ux_output_index = uu_output_index utxo, ux_ctime = uu_ctime utxo,
      ux_registered_for_dust_generation = uu_registered_for_dust_generation utxo\<rparr>"

record TxUtxosResponse =
  tu_hash :: string
  tu_inputs :: "UtxoResponse list"
  tu_outputs :: "UtxoResponse list"

text \<open>A spent output comes without its creation time from the replay; it is taken from the record
  written when the output was created.\<close>

definition input_response :: "api_env \<Rightarrow> Store \<Rightarrow> UnshieldedUtxo \<Rightarrow> ApiFailure + UtxoResponse" where
  "input_response V st utxo =
     (let r = utxo_response V utxo
      in if ux_ctime r = None then
           case store_get st Utxos (utxo_key (uu_intent_hash utxo) (uu_output_index utxo)) of
             Some v \<Rightarrow>
               and_then (db (store_decode as_utxo v)) (\<lambda>stored.
                 Inr (r\<lparr>ux_ctime := uu_ctime (ur_utxo stored)\<rparr>))
           | None \<Rightarrow> Inr r
         else Inr r)"

definition tx_utxos :: "api_env \<Rightarrow> ApiState \<Rightarrow> string \<Rightarrow> ApiFailure + TxUtxosResponse PointResponse" where
  "tx_utxos V s hash =
     and_then (tx_by_hash V s hash) (\<lambda>(_, record).
     and_then (try_map (input_response V (ap_store s)) (tx_spent_utxos record)) (\<lambda>inputs.
       response V s \<lparr>tu_hash = en_hex_encode V (hash_bytes (tx_hash record)), tu_inputs = inputs,
         tu_outputs = map (utxo_response V) (tx_created_utxos record)\<rparr>))"

record EventResponse =
  ev_id :: u64
  ev_grouping :: LedgerEventGrouping
  ev_attributes :: LedgerEventAttributes
  ev_raw :: string
  ev_tx_id :: u64
  ev_block_height :: u64
  ev_protocol_version :: u32

definition event_response :: "api_env \<Rightarrow> Store \<Rightarrow> u64 \<Rightarrow> EventRecord \<Rightarrow> ApiFailure + EventResponse" where
  "event_response V st event_id record =
     and_then (db (store_block st (er_block_height record))) (\<lambda>b.
     and_then (or_api (internal_error ''missing block for ledger event'') b) (\<lambda>block.
       Inr \<lparr>ev_id = event_id, ev_grouping = le_grouping (er_event record),
            ev_attributes = le_attributes (er_event record),
            ev_raw = en_hex_encode V (le_raw (er_event record)), ev_tx_id = er_tx_id record,
            ev_block_height = er_block_height record,
            ev_protocol_version = bk_protocol_version block\<rparr>))"

definition event_at :: "Store \<Rightarrow> string \<Rightarrow> u64 \<Rightarrow> ApiFailure + EventRecord" where
  "event_at st msg event_id =
     and_then (db (get_decoded as_event st LedgerEvents (u64_to_be_bytes event_id))) (\<lambda>e.
       or_api (internal_error msg) e)"

text \<open>The range \<open>first_event_id..first_event_id + event_count\<close>.\<close>

definition event_ids :: "TxRecord \<Rightarrow> u64 list" where
  "event_ids record =
     map word_of_nat [unat (tx_first_event_id record)
       ..< unat (tx_first_event_id record + ucast (tx_event_count record))]"

definition tx_events :: "api_env \<Rightarrow> ApiState \<Rightarrow> string \<Rightarrow> ApiFailure + EventResponse list PointResponse" where
  "tx_events V s hash =
     and_then (tx_by_hash V s hash) (\<lambda>(_, record).
     and_then (try_map (\<lambda>event_id.
         and_then (event_at (ap_store s) ''missing event record'' event_id)
           (event_response V (ap_store s) event_id)) (event_ids record)) (\<lambda>events.
       response V s events))"

section \<open>Addresses\<close>

record BalanceResponse =
  bl_token_type :: string
  bl_amount :: string

definition balance_row :: "api_env \<Rightarrow> bytes \<times> store_value \<Rightarrow> ApiFailure + BalanceResponse" where
  "balance_row V entry =
     (if length (fst entry) < 64 then Inl (ApiPanic ''slice index out of range'')
      else and_then (ok_or (ApiPanic ''16-byte balance'')
             (Option.bind (as_raw (snd entry)) u128_from_be_bytes)) (\<lambda>amount.
        Inr \<lparr>bl_token_type = en_hex_encode V (byte_slice 32 64 (fst entry)),
             bl_amount = dec_string (unat amount)\<rparr>))"

definition address_balances ::
    "api_env \<Rightarrow> ApiState \<Rightarrow> string \<Rightarrow> ApiFailure + BalanceResponse list PointResponse" where
  "address_balances V s addr =
     and_then (parse_addr32 V addr) (\<lambda>owner.
     and_then (try_map (balance_row V) (store_prefix (ap_store s) Balances (hash_bytes owner))) (\<lambda>balances.
       response V s balances))"

text \<open>The upper bound of the keys with a prefix.\<close>

definition prefix_upper :: "bytes \<Rightarrow> bound" where
  "prefix_upper pre = (case prefix_end pre of None \<Rightarrow> Unbounded | Some e \<Rightarrow> Excluded e)"

text \<open>The page of unspent outputs: the cursor is the index key behind the owner.\<close>

definition render_utxo :: "api_env \<Rightarrow> Store \<Rightarrow> store_value \<Rightarrow> ApiFailure + UtxoResponse" where
  "render_utxo V st v =
     and_then (ok_or (ApiPanic ''raw value'') (as_raw v)) (\<lambda>utxo_key.
     and_then (db (get_decoded as_utxo st Utxos utxo_key)) (\<lambda>u.
     and_then (or_api (internal_error ''missing utxo record'') u) (\<lambda>record.
       Inr (utxo_response V (ur_utxo record)))))"

definition address_utxos_fetch ::
    "Store \<Rightarrow> bytes \<Rightarrow> bytes \<Rightarrow> Order \<Rightarrow> nat \<Rightarrow> PageContext \<Rightarrow> ApiFailure + (bytes \<times> store_value) list" where
  "address_utxos_fetch st owner pre order count page =
     and_then (case pc_position page of
         None \<Rightarrow> Inr None
       | Some position \<Rightarrow>
           (if length position \<noteq> 68 then Inl (ApiErr (bad_request ''invalid UTXO cursor position''))
            else Inr (Some (owner @ position)))) (\<lambda>cursor_key.
       Inr (map (\<lambda>(index_key, v). (drop 32 index_key, v))
         (take (count + 1) (ordered_range st UtxosUnspentByOwner order
            (cursor_bounds order cursor_key (Included pre) (prefix_upper pre))))))"

definition utxo_prefix :: "api_env \<Rightarrow> hash32 \<Rightarrow> string option \<Rightarrow> ApiFailure + bytes" where
  "utxo_prefix V owner token_type =
     (case token_type of
        None \<Rightarrow> Inr (hash_bytes owner)
      | Some token_type \<Rightarrow>
          and_then (or_api (bad_request ''invalid token_type'')
              (Option.bind (en_hex_decode V token_type) hash_of_bytes)) (\<lambda>token.
            Inr (hash_bytes owner @ hash_bytes token)))"

definition address_utxos_inner ::
    "api_env \<Rightarrow> ApiState \<Rightarrow> string \<Rightarrow> string option \<Rightarrow> Pagination \<Rightarrow>
       ApiFailure + UtxoResponse list ApiResponse" where
  "address_utxos_inner V s addr token_type pagination =
     and_then (parse_addr32 V addr) (\<lambda>owner.
     and_then (utxo_prefix V owner token_type) (\<lambda>pre.
     let query = scope [as_bytes ''address_utxos'', hash_bytes owner,
                   as_bytes (case token_type of Some t \<Rightarrow> t | None \<Rightarrow> [])] (pg_order pagination)
     in and_then (page_context V s pagination query) (\<lambda>page.
        and_then (address_utxos_fetch (ap_store s) (hash_bytes owner) pre (pg_order pagination)
                    (pg_count pagination) page) (\<lambda>rows.
          finish_page_with (render_utxo V (ap_store s)) V s query page (pg_count pagination) rows))))"

definition address_utxos ::
    "api_env \<Rightarrow> ApiState \<Rightarrow> string \<Rightarrow> Pagination \<Rightarrow> ApiFailure + UtxoResponse list ApiResponse" where
  "address_utxos V s addr pagination = address_utxos_inner V s addr None pagination"

definition address_utxos_by_token ::
    "api_env \<Rightarrow> ApiState \<Rightarrow> string \<Rightarrow> string \<Rightarrow> Pagination \<Rightarrow> ApiFailure + UtxoResponse list ApiResponse" where
  "address_utxos_by_token V s addr token_type pagination =
     address_utxos_inner V s addr (Some token_type) pagination"

text \<open>Rows above the height of the anchor are skipped.\<close>

definition above_tip :: "PageContext \<Rightarrow> u64 \<Rightarrow> bool" where
  "above_tip page height = (case pc_anchor page of None \<Rightarrow> False | Some tip \<Rightarrow> height > ta_height tip)"

definition address_tx_row ::
    "api_env \<Rightarrow> Store \<Rightarrow> PageContext \<Rightarrow> bytes \<times> store_value \<Rightarrow> ApiFailure + (bytes \<times> string) option" where
  "address_tx_row V st page entry =
     and_then (db (key_u64_suffix (fst entry))) (\<lambda>tx_id.
     and_then (db (store_tx st tx_id)) (\<lambda>t.
     and_then (or_api (internal_error ''missing tx record'') t) (\<lambda>record.
       if above_tip page (tx_block_height record) then Inr None
       else Inr (Some (u64_to_be_bytes tx_id, en_hex_encode V (hash_bytes (tx_hash record)))))))"

definition address_txs_fetch ::
    "api_env \<Rightarrow> Store \<Rightarrow> bytes \<Rightarrow> u64 \<Rightarrow> Order \<Rightarrow> nat \<Rightarrow> PageContext \<Rightarrow> ApiFailure + (bytes \<times> string) list" where
  "address_txs_fetch V st owner from_id order count page =
     and_then (position_at u64_from_be_bytes ''invalid transaction cursor position'' page) (\<lambda>position.
       collect_page count (address_tx_row V st page)
         (ordered_range st AddrTxs order
            (cursor_bounds order (map_option (prefixed_u64_key owner) position)
               (Included (prefixed_u64_key owner from_id)) (prefix_upper owner))))"

definition address_txs ::
    "api_env \<Rightarrow> ApiState \<Rightarrow> string \<Rightarrow> u64 \<Rightarrow> Pagination \<Rightarrow> ApiFailure + string list ApiResponse" where
  "address_txs V s addr from_id pagination =
     and_then (parse_addr32 V addr) (\<lambda>owner.
     let query = scope [as_bytes ''address_txs'', hash_bytes owner, u64_to_be_bytes from_id]
                   (pg_order pagination)
     in and_then (page_context V s pagination query) (\<lambda>page.
        and_then (address_txs_fetch V (ap_store s) (hash_bytes owner) from_id (pg_order pagination)
                    (pg_count pagination) page) (\<lambda>rows.
          finish_page V s query page (pg_count pagination) rows)))"

end
