(* ===== verification/ApiFeeds.thy ===== *)
theory ApiFeeds
  imports ApiTxs
begin

text \<open>
  The contract and event endpoints (\<open>nightfrost-api/src/routes/entities.rs\<close>, second part): a contract
  and its latest state, the paginated contracts, actions, ledger events, contract events and dust
  registrations.
\<close>

section \<open>Contracts\<close>

definition parse_contract_addr :: "api_env \<Rightarrow> string \<Rightarrow> ApiFailure + bytes" where
  "parse_contract_addr V addr =
     or_api (bad_request ''invalid contract address (hex)'') (en_hex_decode V addr)"

definition contract_action :: "Store \<Rightarrow> u64 \<Rightarrow> ApiFailure + ContractActionRecord" where
  "contract_action st action_id =
     and_then (db (get_decoded as_action st (contract_actions st) (u64_to_be_bytes action_id))) (\<lambda>a.
       or_api (internal_error ''missing contract action record'') a)"

fun action_type :: "ContractAttributes \<Rightarrow> string" where
  "action_type Deploy = ''deploy''"
| "action_type (Call _) = ''call''"
| "action_type Update = ''update''"

record ContractResponse =
  ct_address :: string
  ct_deploy_action_id :: u64
  ct_latest_action_id :: u64
  ct_latest_action_type :: string
  ct_latest_block_height :: u64
  ct_state_hash :: "string option"
  ct_balances :: "BalanceResponse list"

definition contract_record :: "Store \<Rightarrow> bytes \<Rightarrow> ApiFailure + ContractRecord" where
  "contract_record st address =
     and_then (db (get_decoded as_contract st Contracts address)) (\<lambda>r.
       or_api (not_found ''contract not found'') r)"

definition contract_endpoint :: "api_env \<Rightarrow> ApiState \<Rightarrow> string \<Rightarrow> ApiFailure + ContractResponse PointResponse" where
  "contract_endpoint V s addr =
     and_then (parse_contract_addr V addr) (\<lambda>address.
     and_then (contract_record (ap_store s) address) (\<lambda>record.
     and_then (contract_action (ap_store s) (cr_latest_action_id record)) (\<lambda>latest.
       response V s \<lparr>ct_address = en_hex_encode V address,
         ct_deploy_action_id = cr_deploy_action_id record,
         ct_latest_action_id = cr_latest_action_id record,
         ct_latest_action_type = action_type (ar_attributes latest),
         ct_latest_block_height = ar_block_height latest,
         ct_state_hash = map_option (\<lambda>h. en_hex_encode V (hash_bytes h)) (ar_state_hash latest),
         ct_balances = map (\<lambda>b. \<lparr>bl_token_type = en_hex_encode V (hash_bytes (cb_token_type b)),
            bl_amount = dec_string (unat (cb_amount b))\<rparr>) (ar_balances latest)\<rparr>)))"

record ContractStateResponse =
  cs_address :: string
  cs_block_height :: u64
  cs_state :: string

definition contract_state :: "api_env \<Rightarrow> ApiState \<Rightarrow> string \<Rightarrow> ApiFailure + ContractStateResponse PointResponse" where
  "contract_state V s addr =
     and_then (parse_contract_addr V addr) (\<lambda>address.
     and_then (contract_record (ap_store s) address) (\<lambda>record.
     and_then (contract_action (ap_store s) (cr_latest_action_id record)) (\<lambda>latest.
     and_then (or_api (internal_error ''latest contract action has no state'') (ar_state_hash latest))
       (\<lambda>state_hash.
     and_then (or_api (internal_error ''contract state blob missing for hash'')
                (store_get (ap_store s) ContractStates (hash_bytes state_hash))) (\<lambda>v.
     and_then (ok_or (ApiPanic ''raw value'') (as_raw v)) (\<lambda>blob.
       response V s \<lparr>cs_address = en_hex_encode V address, cs_block_height = ar_block_height latest,
         cs_state = en_hex_encode V blob\<rparr>))))))"

record ContractListItem =
  cl_address :: string
  cl_deploy_action_id :: u64
  cl_latest_action_id :: u64

definition contract_row :: "api_env \<Rightarrow> bytes \<times> store_value \<Rightarrow> ApiFailure + bytes \<times> ContractListItem" where
  "contract_row V entry =
     and_then (db (store_decode as_contract (snd entry))) (\<lambda>record.
       Inr (fst entry, \<lparr>cl_address = en_hex_encode V (fst entry),
         cl_deploy_action_id = cr_deploy_action_id record,
         cl_latest_action_id = cr_latest_action_id record\<rparr>))"

definition contracts_fetch ::
    "api_env \<Rightarrow> Store \<Rightarrow> Order \<Rightarrow> nat \<Rightarrow> PageContext \<Rightarrow> ApiFailure + (bytes \<times> ContractListItem) list" where
  "contracts_fetch V st order count page =
     try_map (contract_row V)
       (take (count + 1) (ordered_range st Contracts order
          (cursor_bounds order (pc_position page) Unbounded Unbounded)))"

definition contracts_query :: "Order \<Rightarrow> bytes" where
  "contracts_query order = scope [as_bytes ''contracts''] order"

definition contracts ::
    "api_env \<Rightarrow> ApiState \<Rightarrow> Pagination \<Rightarrow> ApiFailure + ContractListItem list ApiResponse" where
  "contracts V s pagination =
     (let query = contracts_query (pg_order pagination)
      in and_then (page_context V s pagination query) (\<lambda>page.
         and_then (contracts_fetch V (ap_store s) (pg_order pagination) (pg_count pagination) page) (\<lambda>rows.
           finish_page V s query page (pg_count pagination) rows)))"

record ContractActionResponse =
  ca_id :: u64
  ca_type :: string
  ca_entry_point :: "string option"
  ca_tx_hash :: string
  ca_block_height :: u64
  ca_state_hash_hex :: "string option"

fun action_entry_point :: "ContractAttributes \<Rightarrow> string option" where
  "action_entry_point (Call entry_point) = Some entry_point"
| "action_entry_point _ = None"

definition action_response ::
    "api_env \<Rightarrow> Store \<Rightarrow> u64 \<Rightarrow> ContractActionRecord \<Rightarrow> ApiFailure + ContractActionResponse" where
  "action_response V st action_id record =
     and_then (db (store_tx st (ar_tx_id record))) (\<lambda>t.
     and_then (or_api (internal_error ''missing tx record'') t) (\<lambda>tx.
       Inr \<lparr>ca_id = action_id, ca_type = action_type (ar_attributes record),
            ca_entry_point = action_entry_point (ar_attributes record),
            ca_tx_hash = en_hex_encode V (hash_bytes (tx_hash tx)),
            ca_block_height = ar_block_height record,
            ca_state_hash_hex = map_option (\<lambda>h. en_hex_encode V (hash_bytes h)) (ar_state_hash record)\<rparr>))"

text \<open>Index keys are the address and the action id, so that an address that is a prefix of another one
  matches its keys too: only exact ones are kept.\<close>

definition action_row ::
    "api_env \<Rightarrow> Store \<Rightarrow> bytes \<Rightarrow> PageContext \<Rightarrow> bytes \<times> store_value \<Rightarrow>
       ApiFailure + (bytes \<times> ContractActionResponse) option" where
  "action_row V st address page entry =
     and_then (db (key_u64_suffix (fst entry))) (\<lambda>action_id.
     and_then (contract_action st action_id) (\<lambda>record.
       if ar_address record \<noteq> address then Inr None
       else if above_tip page (ar_block_height record) then Inr None
       else and_then (action_response V st action_id record) (\<lambda>r.
         Inr (Some (u64_to_be_bytes action_id, r)))))"

definition contract_actions_fetch ::
    "api_env \<Rightarrow> Store \<Rightarrow> bytes \<Rightarrow> Order \<Rightarrow> nat \<Rightarrow> PageContext \<Rightarrow>
       ApiFailure + (bytes \<times> ContractActionResponse) list" where
  "contract_actions_fetch V st address order count page =
     and_then (position_at u64_from_be_bytes ''invalid contract action cursor position'' page) (\<lambda>position.
       collect_page count (action_row V st address page)
         (ordered_range st ContractActionsByAddr order
            (cursor_bounds order (map_option (prefixed_u64_key address) position)
               (Included address) (prefix_upper address))))"

definition actions_query :: "bytes \<Rightarrow> Order \<Rightarrow> bytes" where
  "actions_query address order = scope [as_bytes ''contract_actions'', address] order"

definition contract_actions_endpoint ::
    "api_env \<Rightarrow> ApiState \<Rightarrow> string \<Rightarrow> Pagination \<Rightarrow> ApiFailure + ContractActionResponse list ApiResponse" where
  "contract_actions_endpoint V s addr pagination =
     and_then (parse_contract_addr V addr) (\<lambda>address.
     let query = actions_query address (pg_order pagination)
     in and_then (page_context V s pagination query) (\<lambda>page.
        and_then (contract_actions_fetch V (ap_store s) address (pg_order pagination)
                    (pg_count pagination) page) (\<lambda>rows.
          finish_page V s query page (pg_count pagination) rows)))"

section \<open>Ledger events\<close>

text \<open>The rows of the loop in \<open>ledger_events\<close>: key and value of the event partition.\<close>

definition ledger_event_row ::
    "api_env \<Rightarrow> Store \<Rightarrow> PageContext \<Rightarrow> bytes \<times> store_value \<Rightarrow>
       ApiFailure + (bytes \<times> EventResponse) option" where
  "ledger_event_row V st page entry =
     and_then (ok_or (ApiPanic ''8-byte event id'') (u64_from_be_bytes (fst entry))) (\<lambda>event_id.
     and_then (db (store_decode as_event (snd entry))) (\<lambda>record.
       if above_tip page (er_block_height record) then Inr None
       else and_then (event_response V st event_id record) (\<lambda>r.
         Inr (Some (u64_to_be_bytes event_id, r)))))"

definition ledger_events_fetch ::
    "api_env \<Rightarrow> Store \<Rightarrow> u64 \<Rightarrow> Order \<Rightarrow> nat \<Rightarrow> PageContext \<Rightarrow> ApiFailure + (bytes \<times> EventResponse) list" where
  "ledger_events_fetch V st from_id order count page =
     and_then (position_at u64_from_be_bytes ''invalid ledger event cursor position'' page) (\<lambda>position.
       collect_page count (ledger_event_row V st page)
         (ordered_range st LedgerEvents order
            (cursor_bounds order (map_option u64_to_be_bytes position)
               (Included (u64_to_be_bytes from_id)) Unbounded)))"

definition ledger_events_query :: "u64 \<Rightarrow> Order \<Rightarrow> bytes" where
  "ledger_events_query from_id order = scope [as_bytes ''ledger_events'', u64_to_be_bytes from_id] order"

definition ledger_events ::
    "api_env \<Rightarrow> ApiState \<Rightarrow> u64 \<Rightarrow> Pagination \<Rightarrow> ApiFailure + EventResponse list ApiResponse" where
  "ledger_events V s from_id pagination =
     (let query = ledger_events_query from_id (pg_order pagination)
      in and_then (page_context V s pagination query) (\<lambda>page.
         and_then (ledger_events_fetch V (ap_store s) from_id (pg_order pagination)
                     (pg_count pagination) page) (\<lambda>rows.
           finish_page V s query page (pg_count pagination) rows)))"

section \<open>Contract events\<close>

record ContractEventResponse =
  ce_id :: u64
  ce_grouping :: LedgerEventGrouping
  ce_attributes :: LedgerEventAttributes
  ce_raw :: string
  ce_tx_id :: u64
  ce_tx_hash :: string
  ce_block_height :: u64
  ce_contract_address :: string
  ce_contract_action_id :: "u64 option"

definition contract_event_response ::
    "api_env \<Rightarrow> Store \<Rightarrow> bytes \<Rightarrow> u64 \<Rightarrow> EventRecord \<Rightarrow> ApiFailure + ContractEventResponse" where
  "contract_event_response V st address event_id record =
     and_then (db (store_tx st (er_tx_id record))) (\<lambda>t.
     and_then (or_api (internal_error ''missing tx record'') t) (\<lambda>tx.
       Inr \<lparr>ce_id = event_id, ce_grouping = le_grouping (er_event record),
            ce_attributes = le_attributes (er_event record),
            ce_raw = en_hex_encode V (le_raw (er_event record)), ce_tx_id = er_tx_id record,
            ce_tx_hash = en_hex_encode V (hash_bytes (tx_hash tx)),
            ce_block_height = er_block_height record,
            ce_contract_address = en_hex_encode V address,
            ce_contract_action_id = le_contract_action_id (er_event record)\<rparr>))"

definition contract_event_row ::
    "api_env \<Rightarrow> Store \<Rightarrow> bytes \<Rightarrow> PageContext \<Rightarrow> bytes \<times> store_value \<Rightarrow>
       ApiFailure + (bytes \<times> ContractEventResponse) option" where
  "contract_event_row V st address page entry =
     and_then (db (key_u64_suffix (fst entry))) (\<lambda>event_id.
     and_then (event_at st ''missing event record'' event_id) (\<lambda>record.
       if le_contract_address (er_event record) \<noteq> Some address then Inr None
       else if above_tip page (er_block_height record) then Inr None
       else and_then (contract_event_response V st address event_id record) (\<lambda>r.
         Inr (Some (u64_to_be_bytes event_id, r)))))"

text \<open>\<open>takeWhile\<close>: the loop breaks at the first key that does not start with the address.\<close>

definition contract_events_fetch ::
    "api_env \<Rightarrow> Store \<Rightarrow> bytes \<Rightarrow> u64 \<Rightarrow> Order \<Rightarrow> nat \<Rightarrow> PageContext \<Rightarrow>
       ApiFailure + (bytes \<times> ContractEventResponse) list" where
  "contract_events_fetch V st address from_id order count page =
     and_then (position_at u64_from_be_bytes ''invalid contract event cursor position'' page) (\<lambda>position.
       collect_page count (contract_event_row V st address page)
         (takeWhile (\<lambda>(key, _). starts_with key address)
           (ordered_range st EventsByContract order
              (cursor_bounds order (map_option (prefixed_u64_key address) position)
                 (Included (prefixed_u64_key address from_id)) (prefix_upper address)))))"

definition contract_events_query :: "bytes \<Rightarrow> u64 \<Rightarrow> Order \<Rightarrow> bytes" where
  "contract_events_query address from_id order =
     scope [as_bytes ''contract_events'', address, u64_to_be_bytes from_id] order"

definition contract_events ::
    "api_env \<Rightarrow> ApiState \<Rightarrow> string \<Rightarrow> u64 \<Rightarrow> Pagination \<Rightarrow>
       ApiFailure + ContractEventResponse list ApiResponse" where
  "contract_events V s addr from_id pagination =
     and_then (parse_contract_addr V addr) (\<lambda>address.
     let query = contract_events_query address from_id (pg_order pagination)
     in and_then (page_context V s pagination query) (\<lambda>page.
        and_then (contract_events_fetch V (ap_store s) address from_id (pg_order pagination)
                    (pg_count pagination) page) (\<lambda>rows.
          finish_page V s query page (pg_count pagination) rows)))"

section \<open>Dust registrations\<close>

definition parse_stake_key :: "api_env \<Rightarrow> string \<Rightarrow> ApiFailure + bytes29" where
  "parse_stake_key V input =
     (case en_bech32_decode V input of
        Some data \<Rightarrow> or_api (bad_request ''bech32 stake key must decode to 29 bytes'') (bytes29_of_bytes data)
      | None \<Rightarrow>
          or_api (bad_request ''invalid stake key: expected 29-byte hex or bech32'')
            (Option.bind (en_hex_decode V input) bytes29_of_bytes))"

record RegistrationResponse =
  rg_cardano_stake_key :: string
  rg_dust_address :: string
  rg_valid :: bool
  rg_registered_at_height :: u64
  rg_removed_at_height :: "u64 option"
  rg_utxo_id :: "string option"
  rg_utxo_index :: "u64 option"

definition registration_response :: "api_env \<Rightarrow> CnightRegistrationRecord \<Rightarrow> RegistrationResponse" where
  "registration_response V record =
     \<lparr>rg_cardano_stake_key = en_hex_encode V (cn_cardano_stake_key record),
      rg_dust_address = en_hex_encode V (cn_dust_address record),
      rg_valid = (cn_valid record \<or> cn_utxo_id record \<noteq> None \<and> cn_removed_at_height record = None),
      rg_registered_at_height = cn_registered_at_height record,
      rg_removed_at_height = cn_removed_at_height record,
      rg_utxo_id = map_option (en_hex_encode V) (cn_utxo_id record),
      rg_utxo_index = cn_utxo_index record\<rparr>"

definition registration_row ::
    "api_env \<Rightarrow> bytes \<times> store_value \<Rightarrow> ApiFailure + (bytes \<times> RegistrationResponse) option" where
  "registration_row V entry =
     and_then (db (store_decode as_registration (snd entry))) (\<lambda>record.
       Inr (Some (fst entry, registration_response V record)))"

definition dust_registrations_fetch ::
    "api_env \<Rightarrow> Store \<Rightarrow> bytes \<Rightarrow> Order \<Rightarrow> nat \<Rightarrow> PageContext \<Rightarrow>
       ApiFailure + (bytes \<times> RegistrationResponse) list" where
  "dust_registrations_fetch V st pre order count page =
     collect_page count (registration_row V)
       (ordered_range st CnightRegistrations order
          (cursor_bounds order (pc_position page)
             (if pre = [] then Unbounded else Included pre) (prefix_upper pre)))"

definition registrations_query :: "bytes \<Rightarrow> Order \<Rightarrow> bytes" where
  "registrations_query pre order = scope [as_bytes ''dust_registrations'', pre] order"

definition dust_registrations_inner ::
    "api_env \<Rightarrow> ApiState \<Rightarrow> string option \<Rightarrow> Pagination \<Rightarrow>
       ApiFailure + RegistrationResponse list ApiResponse" where
  "dust_registrations_inner V s stake_key pagination =
     and_then (case stake_key of
         Some stake_key \<Rightarrow> and_then (parse_stake_key V stake_key) (\<lambda>k. Inr (bytes29_bytes k))
       | None \<Rightarrow> Inr []) (\<lambda>pre.
     let query = registrations_query pre (pg_order pagination)
     in and_then (page_context V s pagination query) (\<lambda>page.
        and_then (dust_registrations_fetch V (ap_store s) pre (pg_order pagination)
                    (pg_count pagination) page) (\<lambda>rows.
          finish_page V s query page (pg_count pagination) rows)))"

definition dust_registrations ::
    "api_env \<Rightarrow> ApiState \<Rightarrow> Pagination \<Rightarrow> ApiFailure + RegistrationResponse list ApiResponse" where
  "dust_registrations V s pagination = dust_registrations_inner V s None pagination"

definition dust_registrations_by_stake ::
    "api_env \<Rightarrow> ApiState \<Rightarrow> string \<Rightarrow> Pagination \<Rightarrow> ApiFailure + RegistrationResponse list ApiResponse" where
  "dust_registrations_by_stake V s stake_key pagination =
     dust_registrations_inner V s (Some stake_key) pagination"

end
