(* ===== verification/LedgerTx.thy ===== *)
theory LedgerTx
  imports LedgerApi
begin

text \<open>
  The read-only part of the transaction facade (\<open>ledger/transaction.rs\<close>) that the wallet endpoints
  use: deserialization by ledger version, viewing keys, and whether a transaction holds an output a
  viewing key decrypts. The midnight crates behind it are the record \<open>tx_crypto\<close>: tagged
  deserialization, key construction and trial decryption. Of an offer the code reads the optional
  ciphertexts of its outputs and transients.
\<close>

record zswap_offer =
  zo_outputs :: "bytes option list"
  zo_transient :: "bytes option list"

datatype coin_tx = Standard "zswap_offer option" "(u16 \<times> zswap_offer) list" | ClaimRewards

datatype LedgerTransaction = TxV8 coin_tx | TxV9 coin_tx

record 'k tx_crypto =
  tc_deserialize_v8 :: "bytes \<Rightarrow> coin_tx option"
  tc_deserialize_v9 :: "bytes \<Rightarrow> coin_tx option"
  tc_secret_key_v8 :: "hash32 \<Rightarrow> 'k option"
  tc_secret_key_v9 :: "hash32 \<Rightarrow> 'k option"
  tc_decrypts_v8 :: "'k \<Rightarrow> bytes \<Rightarrow> bool"
  tc_decrypts_v9 :: "'k \<Rightarrow> bytes \<Rightarrow> bool"
  tc_deserialize_key :: "bytes \<Rightarrow> (hash32 \<times> bytes) option"

definition tx_deserialize :: "'k tx_crypto \<Rightarrow> bytes \<Rightarrow> LedgerVersion \<Rightarrow> LedgerError + LedgerTransaction" where
  "tx_deserialize X raw version =
     (case version of
        LV8 \<Rightarrow> and_then (ok_or (DeserializeError ''LedgerTransactionV8'') (tc_deserialize_v8 X raw))
                 (\<lambda>t. Inr (TxV8 t))
      | LV9 \<Rightarrow> and_then (ok_or (DeserializeError ''LedgerTransactionV9'') (tc_deserialize_v9 X raw))
                 (\<lambda>t. Inr (TxV9 t)))"

definition some_values :: "'a option list \<Rightarrow> 'a list" where
  "some_values xs = List.map_filter (\<lambda>x. x) xs"

definition can_decrypt_v8 :: "'k tx_crypto \<Rightarrow> 'k \<Rightarrow> zswap_offer \<Rightarrow> bool" where
  "can_decrypt_v8 X key offer =
     list_ex (tc_decrypts_v8 X key) (some_values (zo_outputs offer) @ some_values (zo_transient offer))"

definition can_decrypt_v9 :: "'k tx_crypto \<Rightarrow> 'k \<Rightarrow> zswap_offer \<Rightarrow> bool" where
  "can_decrypt_v9 X key offer =
     list_ex (tc_decrypts_v9 X key) (some_values (zo_outputs offer) @ some_values (zo_transient offer))"

definition is_some_and :: "'a option \<Rightarrow> ('a \<Rightarrow> bool) \<Rightarrow> bool" where
  "is_some_and x P = (case x of None \<Rightarrow> False | Some a \<Rightarrow> P a)"

fun tx_relevant :: "'k tx_crypto \<Rightarrow> LedgerTransaction \<Rightarrow> hash32 \<Rightarrow> bool" where
  "tx_relevant X (TxV8 (Standard guaranteed_coins fallible_coins)) viewing_key =
     (case tc_secret_key_v8 X viewing_key of
        None \<Rightarrow> False
      | Some secret_key \<Rightarrow>
          is_some_and guaranteed_coins (can_decrypt_v8 X secret_key)
          \<or> list_ex (can_decrypt_v8 X secret_key) (map snd fallible_coins))"
| "tx_relevant X (TxV9 (Standard guaranteed_coins fallible_coins)) viewing_key =
     (case tc_secret_key_v9 X viewing_key of
        None \<Rightarrow> False
      | Some secret_key \<Rightarrow>
          is_some_and guaranteed_coins (can_decrypt_v9 X secret_key)
          \<or> list_ex (can_decrypt_v9 X secret_key) (map snd fallible_coins))"
| "tx_relevant X (TxV8 ClaimRewards) viewing_key = False"
| "tx_relevant X (TxV9 ClaimRewards) viewing_key = False"

text \<open>A raw 32-byte key, or the serialization of the wallet SDK with nothing behind it.\<close>

definition viewing_key_repr :: "'k tx_crypto \<Rightarrow> bytes \<Rightarrow> hash32 option" where
  "viewing_key_repr X serialized =
     (case hash_of_bytes serialized of
        Some raw \<Rightarrow> Some raw
      | None \<Rightarrow>
          (case tc_deserialize_key X serialized of
             None \<Rightarrow> None
           | Some (repr, input) \<Rightarrow> if input \<noteq> [] then None else Some repr))"

end
