(* ===== verification/ApiWallet.thy ===== *)
theory ApiWallet
  imports ApiFeeds LedgerTx
begin

text \<open>
  The wallet endpoints (\<open>nightfrost-api/src/routes/entities.rs\<close>, last part): the chain-complete event
  feed with trial decryption, the DUST generation status, the relevance scan of a viewing key with its
  persisted progress, and the two sync endpoints. The ledger state behind the collapsed Merkle updates,
  the transaction facade and the DUST parameters come with \<open>wallet_env\<close>.
\<close>

record ('ls, 'k) wallet_env =
  wl_api :: api_env
  wl_tx :: "'k tx_crypto"
  wl_ledger :: "'ls ledger_ops"
  wl_collapsed :: "'ls \<Rightarrow> u64 \<Rightarrow> u64 \<Rightarrow> LedgerError + bytes"
  wl_dust_parameters :: "LedgerVersion \<Rightarrow> LedgerError + DustParameters"

text \<open>Errors whose \<open>Display\<close> becomes the message of an internal error.\<close>

definition or_internal :: "string \<Rightarrow> 'e + 'a \<Rightarrow> ApiFailure + 'a" where
  "or_internal msg r = map_err (\<lambda>_. ApiErr (internal_error msg)) r"

definition wallet_viewing_key :: "('ls, 'k) wallet_env \<Rightarrow> string \<Rightarrow> ApiFailure + hash32" where
  "wallet_viewing_key W viewing_key =
     and_then (or_api (bad_request ''viewing_key must be hex-encoded'')
                (en_hex_decode (wl_api W) (trim_0x viewing_key))) (\<lambda>bs.
       or_api (bad_request ''viewing_key must be a raw 32-byte key or official SDK serialization'')
         (viewing_key_repr (wl_tx W) bs))"

section \<open>Wallet events\<close>

record WalletEventsRequest =
  we_viewing_key :: string
  we_from :: u64
  we_count :: nat
  we_cursor :: "string option"

definition wallet_events_default_count :: nat where
  "wallet_events_default_count = 5000"

record WalletEventResponse =
  wr_event :: EventResponse
  wr_relevant :: "bool option"

record WalletEventsResult =
  ws_events :: "WalletEventResponse list"
  ws_scanned_through :: u64
  ws_highest_event_id :: u64

text \<open>Whether the transaction of an event concerns the viewing key: system transactions never do, regular
  ones are decrypted at the ledger version of their block.\<close>

definition tx_relevance :: "('ls, 'k) wallet_env \<Rightarrow> Store \<Rightarrow> hash32 \<Rightarrow> u64 \<Rightarrow> ApiFailure + bool" where
  "tx_relevance W st viewing_key tx_id =
     and_then (db (store_tx st tx_id)) (\<lambda>t.
     and_then (or_api (internal_error ''missing transaction for wallet event'') t) (\<lambda>tx.
       if tx_variant tx = Regular then
         and_then (db (store_block st (tx_block_height tx))) (\<lambda>b.
         and_then (or_api (internal_error ''missing block for wallet event'') b) (\<lambda>block.
         and_then (or_internal ''unsupported protocol version'' (try_from_u32 (bk_protocol_version block)))
           (\<lambda>version.
         and_then (or_internal ''deserialize'' (tx_deserialize (wl_tx W) (tx_raw tx) (ledger_version version)))
           (\<lambda>ltx. Inr (tx_relevant (wl_tx W) ltx viewing_key)))))
       else Inr False))"

text \<open>The relevance shown with an event; the answers per transaction are kept in \<open>relevant_txs\<close>.\<close>

definition event_relevance ::
    "('ls, 'k) wallet_env \<Rightarrow> Store \<Rightarrow> hash32 \<Rightarrow> (u64 \<rightharpoonup> bool) \<Rightarrow> EventRecord \<Rightarrow>
       ApiFailure + (u64 \<rightharpoonup> bool) \<times> bool option" where
  "event_relevance W st viewing_key relevant_txs record =
     (case le_grouping (er_event record) of
        Zswap \<Rightarrow>
          (case relevant_txs (er_tx_id record) of
             Some relevant \<Rightarrow> Inr (relevant_txs, Some relevant)
           | None \<Rightarrow>
               and_then (tx_relevance W st viewing_key (er_tx_id record)) (\<lambda>relevant.
                 Inr (relevant_txs(er_tx_id record \<mapsto> relevant), Some relevant)))
      | _ \<Rightarrow> Inr (relevant_txs, None))"

record wallet_scan =
  sc_events :: "WalletEventResponse list"
  sc_scanned :: nat
  sc_scanned_through :: u64
  sc_cursor_position :: "bytes option"
  sc_has_more :: bool
  sc_relevant_txs :: "u64 \<rightharpoonup> bool"

definition saturating_add :: "u64 \<Rightarrow> u64 \<Rightarrow> u64" where
  "saturating_add a b = (if a \<le> a + b then a + b else - 1)"

fun wallet_events_loop ::
    "('ls, 'k) wallet_env \<Rightarrow> Store \<Rightarrow> hash32 \<Rightarrow> PageContext \<Rightarrow> nat \<Rightarrow> (bytes \<times> store_value) list \<Rightarrow>
       wallet_scan \<Rightarrow> ApiFailure + wallet_scan" where
  "wallet_events_loop W st viewing_key page count [] s = Inr s"
| "wallet_events_loop W st viewing_key page count ((key, v) # entries) s =
     and_then (ok_or (ApiPanic ''8-byte event id'') (u64_from_be_bytes key)) (\<lambda>event_id.
     and_then (db (store_decode as_event v)) (\<lambda>record.
       if above_tip page (er_block_height record)
       then wallet_events_loop W st viewing_key page count entries s
       else if sc_scanned s = count then Inr (s\<lparr>sc_has_more := True\<rparr>)
       else
         let s = s\<lparr>sc_scanned := sc_scanned s + 1, sc_scanned_through := saturating_add event_id 1,
                   sc_cursor_position := Some (u64_to_be_bytes event_id)\<rparr>
         in if le_grouping (er_event record) = ContractGrouping
            then wallet_events_loop W st viewing_key page count entries s
            else
              and_then (event_relevance W st viewing_key (sc_relevant_txs s) record)
                (\<lambda>(relevant_txs, relevance).
              and_then (event_response (wl_api W) st event_id record) (\<lambda>event.
                wallet_events_loop W st viewing_key page count entries
                  (s\<lparr>sc_relevant_txs := relevant_txs,
                     sc_events := sc_events s @ [\<lparr>wr_event = event, wr_relevant = relevance\<rparr>]\<rparr>)))))"

definition wallet_events ::
    "('ls, 'k) wallet_env \<Rightarrow> ApiState \<Rightarrow> WalletEventsRequest \<Rightarrow>
       ApiFailure + WalletEventsResult ApiResponse" where
  "wallet_events W s request =
     and_then (wallet_viewing_key W (we_viewing_key request)) (\<lambda>viewing_key.
     let pagination = \<lparr>pg_count = we_count request, pg_order = Asc, pg_cursor = we_cursor request,
           pg_page = None\<rparr>;
         query = scope [as_bytes ''wallet_events'', u64_to_be_bytes (we_from request),
           hash_bytes viewing_key] Asc
     in and_then (page_context (wl_api W) s pagination query) (\<lambda>page.
        and_then (position_at u64_from_be_bytes ''invalid wallet event cursor position'' page) (\<lambda>position.
        let lower = (case position of
              Some i \<Rightarrow> Excluded (u64_to_be_bytes i)
            | None \<Rightarrow> Included (u64_to_be_bytes (we_from request)))
        in and_then (wallet_events_loop W (ap_store s) viewing_key page (pg_count pagination)
             (store_range (ap_store s) LedgerEvents lower Unbounded)
             \<lparr>sc_events = [], sc_scanned = 0, sc_scanned_through = we_from request,
              sc_cursor_position = None, sc_has_more = False, sc_relevant_txs = Map.empty\<rparr>) (\<lambda>scan.
           and_then (next_cursor (wl_api W) s query (pc_anchor page) (sc_cursor_position scan)
               (sc_has_more scan)) (\<lambda>next.
           and_then (db (next_id (ap_store s) NEXT_EVENT_ID)) (\<lambda>highest.
             response_at (wl_api W)
               \<lparr>ws_events = sc_events scan, ws_scanned_through = sc_scanned_through scan,
                ws_highest_event_id = highest\<rparr>
               (pc_anchor page) next))))))"

section \<open>DUST generation status\<close>

record DustGenerationStatusResponse =
  ds_cardano_stake_key :: string
  ds_registered :: bool
  ds_dust_address :: "string option"
  ds_night_balance :: string
  ds_generation_rate :: string
  ds_current_capacity :: string
  ds_max_capacity :: string

text \<open>One step of the loop over the rows of the stake key: rows that are removed or invalid are skipped,
  a later row wins a tie.\<close>

definition latest_registration ::
    "CnightRegistrationRecord option \<Rightarrow> bytes \<times> store_value \<Rightarrow>
       ApiFailure + CnightRegistrationRecord option" where
  "latest_registration registration entry =
     and_then (db (store_decode as_registration (snd entry))) (\<lambda>record.
       if cn_removed_at_height record \<noteq> None \<or> \<not> (cn_valid record \<or> cn_utxo_id record \<noteq> None)
       then Inr registration
       else case registration of
              None \<Rightarrow> Inr (Some record)
            | Some current \<Rightarrow>
                Inr (if cn_registered_at_height record \<ge> cn_registered_at_height current
                     then Some record else registration))"

definition latest_generation ::
    "Store \<Rightarrow> bytes \<Rightarrow> DustGenerationInfo option \<Rightarrow> bytes \<times> store_value \<Rightarrow>
       ApiFailure + DustGenerationInfo option" where
  "latest_generation st owner active entry =
     (let key = fst entry
      in if length key < 32 then Inl (ApiPanic ''attempt to subtract with overflow'')
         else
         and_then (db (get_decoded as_dust_gen st DustGeneration (drop (length key - 32) key))) (\<lambda>r.
         and_then (or_api (internal_error ''missing dust generation record'') r) (\<lambda>record.
           if dg_owner (dr_info record) \<noteq> owner \<or> dg_dtime (dr_info record) \<noteq> - 1 then Inr active
           else case active of
                  None \<Rightarrow> Inr (Some (dr_info record))
                | Some current \<Rightarrow>
                    Inr (if dg_ctime (dr_info record) \<ge> dg_ctime current
                         then Some (dr_info record) else active))))"

definition saturating_mul :: "u128 \<Rightarrow> u128 \<Rightarrow> u128" where
  "saturating_mul a b = (if unat a * unat b < 2 ^ 128 then a * b else - 1)"

text \<open>Rate, maximum and current capacity of an active generation, at the given parameters and tip time.\<close>

definition dust_capacity :: "DustParameters \<Rightarrow> DustGenerationInfo \<Rightarrow> u64 option \<Rightarrow> u128 \<times> u128 \<times> u128" where
  "dust_capacity params info tip =
     (let rate = saturating_mul (dg_value info) (ucast (dp_generation_decay_rate params));
          max_capacity = saturating_mul (dg_value info) (ucast (dp_night_dust_ratio params));
          ctime = to_ms (dg_ctime info);
          now = (case tip of None \<Rightarrow> ctime | Some now \<Rightarrow> now);
          elapsed = elapsed_seconds_since now ctime
      in (rate, min (saturating_mul rate (ucast elapsed)) max_capacity, max_capacity))"

definition dust_generation_status ::
    "('ls, 'k) wallet_env \<Rightarrow> ApiState \<Rightarrow> string \<Rightarrow> ApiFailure + DustGenerationStatusResponse PointResponse" where
  "dust_generation_status W s input =
     (let V = wl_api W; st = ap_store s
      in and_then (parse_stake_key V input) (\<lambda>stake_key.
         and_then (try_fold latest_registration None
             (store_prefix st CnightRegistrations (bytes29_bytes stake_key))) (\<lambda>registration.
         and_then
           (case registration of
              None \<Rightarrow> Inr (0, 0, 0, 0)
            | Some registration \<Rightarrow>
                and_then (or_internal ''dust parameters'' (wl_dust_parameters W LV9)) (\<lambda>params.
                let owner = cn_dust_address registration
                in and_then (try_fold (latest_generation st owner) None (store_prefix st DustGenByOwner owner))
                     (\<lambda>active.
                   case active of
                     None \<Rightarrow> Inr (0, 0, 0, 0)
                   | Some info \<Rightarrow>
                       and_then (db (tip_timestamp st)) (\<lambda>tip.
                         Inr (dg_value info, dust_capacity params info tip)))))
           (\<lambda>(night_balance, generation_rate, current_capacity, max_capacity).
              response V s
                \<lparr>ds_cardano_stake_key = en_hex_encode V (bytes29_bytes stake_key),
                 ds_registered = (registration \<noteq> None),
                 ds_dust_address = map_option (\<lambda>r. en_hex_encode V (cn_dust_address r)) registration,
                 ds_night_balance = dec_string (unat night_balance),
                 ds_generation_rate = dec_string (unat generation_rate),
                 ds_current_capacity = dec_string (unat current_capacity),
                 ds_max_capacity = dec_string (unat max_capacity)\<rparr>))))"

section \<open>The relevance scan of a viewing key\<close>

definition wallet_relevance_key :: "hash32 \<Rightarrow> u64 \<Rightarrow> bytes" where
  "wallet_relevance_key viewing_hash tx_id = hash_bytes viewing_hash @ u64_to_be_bytes tx_id"

text \<open>Whether the scan inserts a row for the transaction.\<close>

definition scan_relevant :: "('ls, 'k) wallet_env \<Rightarrow> Store \<Rightarrow> hash32 \<Rightarrow> u64 \<Rightarrow> rust_error + bool" where
  "scan_relevant W st viewing_key tx_id =
     and_then (store_tx st tx_id) (\<lambda>t.
     and_then (ok_or (Fail ''missing transaction'') t) (\<lambda>tx.
       if tx_variant tx \<noteq> Regular then Inr False
       else
         and_then (get_decoded as_wallet_tx st WalletTxIndices (u64_to_be_bytes tx_id)) (\<lambda>i.
         and_then (ok_or (Fail ''missing wallet transaction index'') i) (\<lambda>index.
         and_then (map_err (\<lambda>_. Fail ''unsupported protocol version'') (try_from_u32 (wt_protocol_version index)))
           (\<lambda>version.
         and_then (map_err (\<lambda>_. Fail ''deserialize'')
             (tx_deserialize (wl_tx W) (tx_raw tx) (ledger_version version))) (\<lambda>ltx.
           Inr (tx_relevant (wl_tx W) ltx viewing_key)))))))"

definition scan_tx ::
    "('ls, 'k) wallet_env \<Rightarrow> Store \<Rightarrow> hash32 \<Rightarrow> hash32 \<Rightarrow> (part_id, store_value) batch \<Rightarrow> u64 \<Rightarrow>
       rust_error + (part_id, store_value) batch" where
  "scan_tx W st viewing_hash viewing_key batch tx_id =
     and_then (scan_relevant W st viewing_key tx_id) (\<lambda>relevant.
       Inr (if relevant
            then batch_insert WalletRelevantTxs (wallet_relevance_key viewing_hash tx_id) (Raw []) batch
            else batch))"

text \<open>One iteration of the loop: the next thousand transactions in one batch with the new progress.\<close>

definition scan_batch ::
    "('ls, 'k) wallet_env \<Rightarrow> hash32 \<Rightarrow> hash32 \<Rightarrow> Store \<Rightarrow> u64 \<Rightarrow> u64 \<Rightarrow> rust_error + Store" where
  "scan_batch W viewing_hash viewing_key st scanned batch_end =
     and_then (try_fold (scan_tx W st viewing_hash viewing_key) []
         (map word_of_nat [unat scanned ..< unat batch_end])) (\<lambda>batch.
       Inr (commit st (batch_insert WalletScanProgress (hash_bytes viewing_hash)
              (Raw (u64_to_be_bytes batch_end)) batch)))"

text \<open>The loop commits batch after batch; when it fails, what it has committed stays. \<open>scanned + 1_000\<close>
  wraps in a release build, so that returning is part of what is to be proved.\<close>

partial_function (option) scan_batches ::
    "('ls, 'k) wallet_env \<Rightarrow> hash32 \<Rightarrow> hash32 \<Rightarrow> u64 \<Rightarrow> Store \<Rightarrow> u64 \<Rightarrow> (Store \<times> rust_error option) option" where
  "scan_batches W viewing_hash viewing_key target_tx st scanned =
     (if scanned < target_tx then
        (let batch_end = min target_tx (scanned + 1000)
         in case scan_batch W viewing_hash viewing_key st scanned batch_end of
              Inl e \<Rightarrow> Some (st, Some e)
            | Inr st \<Rightarrow> scan_batches W viewing_hash viewing_key target_tx st batch_end)
      else Some (st, None))"

definition scan_progress :: "Store \<Rightarrow> hash32 \<Rightarrow> rust_error + u64" where
  "scan_progress st viewing_hash =
     (case store_get st WalletScanProgress (hash_bytes viewing_hash) of
        None \<Rightarrow> Inr 0
      | Some v \<Rightarrow> as_u64 ''8-byte progress'' v)"

definition scan_wallet_relevance ::
    "('ls, 'k) wallet_env \<Rightarrow> Store \<Rightarrow> hash32 \<Rightarrow> hash32 \<Rightarrow> u64 \<Rightarrow> (Store \<times> rust_error option) option" where
  "scan_wallet_relevance W st viewing_hash viewing_key target_tx =
     (case scan_progress st viewing_hash of
        Inl e \<Rightarrow> Some (st, Some e)
      | Inr scanned \<Rightarrow> scan_batches W viewing_hash viewing_key target_tx st scanned)"

section \<open>Shielded sync\<close>

record ShieldedSyncRequest =
  sr_viewing_key :: string
  sr_from_index :: u64

text \<open>Fields in the order of the source: from, to, protocol version, then the update, or the id, hash and
  events of the transaction.\<close>

datatype ShieldedSyncUpdate =
    CollapsedUpdate u64 u64 u32 string
  | TransactionUpdate u64 u64 u32 u64 string "EventResponse list"

record ShieldedSyncResult =
  ss_updates :: "ShieldedSyncUpdate list"
  ss_applied_through :: u64
  ss_highest_index :: u64
  ss_scanned_transactions :: u64

definition wallet_tx_index :: "Store \<Rightarrow> string \<Rightarrow> u64 \<Rightarrow> ApiFailure + WalletTxIndexRecord" where
  "wallet_tx_index st msg tx_id =
     and_then (db (get_decoded as_wallet_tx st WalletTxIndices (u64_to_be_bytes tx_id))) (\<lambda>i.
       or_api (internal_error msg) i)"

definition collapsed_update ::
    "('ls, 'k) wallet_env \<Rightarrow> 'ls \<Rightarrow> u32 \<Rightarrow> u64 \<Rightarrow> u64 \<Rightarrow> ApiFailure + ShieldedSyncUpdate" where
  "collapsed_update W ledger_state tip_protocol from_index to_index =
     and_then (or_internal ''collapsed update'' (wl_collapsed W ledger_state from_index (to_index - 1)))
       (\<lambda>update. Inr (CollapsedUpdate from_index to_index tip_protocol
          (en_hex_encode (wl_api W) update)))"

text \<open>The Zswap events of a transaction.\<close>

definition zswap_events :: "api_env \<Rightarrow> Store \<Rightarrow> TxRecord \<Rightarrow> ApiFailure + EventResponse list" where
  "zswap_events V st t =
     and_then (try_map (\<lambda>event_id.
         and_then (event_at st ''missing relevant event'' event_id) (\<lambda>record.
           if le_grouping (er_event record) = Zswap
           then and_then (event_response V st event_id record) (\<lambda>e. Inr (Some e))
           else Inr None)) (event_ids t)) (\<lambda>es.
       Inr (some_values es))"

fun shielded_loop ::
    "('ls, 'k) wallet_env \<Rightarrow> Store \<Rightarrow> 'ls \<Rightarrow> u32 \<Rightarrow> u64 \<Rightarrow> (bytes \<times> store_value) list \<Rightarrow>
       u64 \<Rightarrow> ShieldedSyncUpdate list \<Rightarrow> ApiFailure + u64 \<times> ShieldedSyncUpdate list" where
  "shielded_loop W st ledger_state tip_protocol target_tx [] applied_through updates =
     Inr (applied_through, updates)"
| "shielded_loop W st ledger_state tip_protocol target_tx ((key, _) # entries) applied_through updates =
     and_then (db (key_u64_suffix key)) (\<lambda>tx_id.
       if tx_id \<ge> target_tx then Inr (applied_through, updates)
       else
         and_then (wallet_tx_index st ''missing wallet transaction index'' tx_id) (\<lambda>index.
           if wt_zswap_end_index index \<le> applied_through
           then shielded_loop W st ledger_state tip_protocol target_tx entries applied_through updates
           else if wt_zswap_start_index index < applied_through
           then Inl (ApiErr (bad_request ''from_index falls inside a relevant transaction''))
           else
             and_then
               (if applied_through < wt_zswap_start_index index
                then and_then (collapsed_update W ledger_state tip_protocol applied_through
                       (wt_zswap_start_index index)) (\<lambda>update. Inr (updates @ [update]))
                else Inr updates) (\<lambda>updates.
             and_then (db (store_tx st tx_id)) (\<lambda>t.
             and_then (or_api (internal_error ''missing relevant transaction'') t) (\<lambda>tx.
             and_then (zswap_events (wl_api W) st tx) (\<lambda>events.
               shielded_loop W st ledger_state tip_protocol target_tx entries (wt_zswap_end_index index)
                 (updates @ [TransactionUpdate (wt_zswap_start_index index) (wt_zswap_end_index index)
                    (wt_protocol_version index) tx_id
                    (en_hex_encode (wl_api W) (hash_bytes (tx_hash tx))) events])))))))"

text \<open>The transactions below the tip: the boundary of the scan and of the response.\<close>

definition sync_target :: "Store \<Rightarrow> TipAnchor option \<Rightarrow> ApiFailure + u64" where
  "sync_target st tip =
     (case tip of
        None \<Rightarrow> Inr 0
      | Some tip \<Rightarrow>
          and_then (db (store_block st (ta_height tip))) (\<lambda>b.
          and_then (or_api (internal_error ''indexed tip block is missing'') b) (\<lambda>block.
            Inr (bk_first_tx_id block + ucast (bk_tx_count block)))))"

text \<open>\<open>.ok().flatten()\<close>: an error of the read counts as a missing block.\<close>

definition tip_version :: "Store \<Rightarrow> TipAnchor \<Rightarrow> ApiFailure + u32" where
  "tip_version st tip =
     (case store_block st (ta_height tip) of
        Inr (Some block) \<Rightarrow> Inr (bk_protocol_version block)
      | Inl (Panic msg) \<Rightarrow> Inl (ApiPanic msg)
      | _ \<Rightarrow> Inl (ApiErr (internal_error ''indexed tip block is missing'')))"

text \<open>The response, built from the store as it is when the scan is done.\<close>

definition shielded_response ::
    "('ls, 'k) wallet_env \<Rightarrow> Store \<Rightarrow> hash32 \<Rightarrow> u64 \<Rightarrow> TipAnchor \<Rightarrow> u64 \<Rightarrow>
       ApiFailure + ShieldedSyncResult PointResponse" where
  "shielded_response W st viewing_hash from_index tip target_tx =
     and_then (wallet_tx_index st ''missing wallet transaction index at sync boundary'' (target_tx - 1))
       (\<lambda>boundary.
     let highest_index = wt_zswap_end_index boundary
     in and_then (db (ledger_state_window st)) (\<lambda>window.
        if window = []
        then Inl (ApiErr (internal_error ''wallet sync requires a persisted ledger state''))
        else
        let (ledger_key, version) = last window
        in and_then (or_internal ''load ledger state'' (lo_load (wl_ledger W) ledger_key (stored_into version)))
             (\<lambda>ledger_state.
        if lo_zswap_first_free (wl_ledger W) ledger_state < highest_index
        then Inl (ApiErr (internal_error ''persisted ledger state is behind the wallet sync boundary''))
        else if from_index > highest_index
        then Inl (ApiErr (bad_request ''from_index is beyond the Zswap tree''))
        else
        and_then (tip_version st tip) (\<lambda>tip_protocol.
        and_then (shielded_loop W st ledger_state tip_protocol target_tx
            (store_prefix st WalletRelevantTxs (hash_bytes viewing_hash)) from_index [])
          (\<lambda>(applied_through, updates).
        and_then
          (if applied_through < highest_index
           then and_then (collapsed_update W ledger_state tip_protocol applied_through highest_index)
                  (\<lambda>update. Inr (highest_index, updates @ [update]))
           else Inr (applied_through, updates)) (\<lambda>(applied_through, updates).
        Inr \<lparr>pt_results = \<lparr>ss_updates = updates, ss_applied_through = applied_through,
               ss_highest_index = highest_index, ss_scanned_transactions = target_tx\<rparr>,
             pt_tip = Some (tip_response (wl_api W) tip)\<rparr>))))))"

text \<open>A panic of the blocking task arrives as a join error.\<close>

fun task_error :: "rust_error \<Rightarrow> ApiFailure" where
  "task_error (Fail msg) = ApiErr (internal_error msg)"
| "task_error (Panic msg) = ApiErr (internal_error msg)"

text \<open>The whole request. The scan writes to the store; \<open>later\<close> stands for what the indexer commits while
  the request runs, before its response is built. The value is the store left behind and the answer, or
  \<open>None\<close> when the scan does not return.\<close>

definition wallet_shielded_sync ::
    "('ls, 'k) wallet_env \<Rightarrow> ApiState \<Rightarrow> (Store \<Rightarrow> Store) \<Rightarrow> ShieldedSyncRequest \<Rightarrow>
       (Store \<times> (ApiFailure + ShieldedSyncResult PointResponse)) option" where
  "wallet_shielded_sync W s later request =
     (let st = ap_store s
      in case and_then (wallet_viewing_key W (sr_viewing_key request)) (\<lambda>viewing_key.
                and_then (current_tip s) (\<lambda>tip.
                and_then (sync_target st tip) (\<lambda>target_tx. Inr (viewing_key, tip, target_tx)))) of
           Inl e \<Rightarrow> Some (st, Inl e)
         | Inr (viewing_key, tip, target_tx) \<Rightarrow>
             (let viewing_hash = cx_sha256 (en_crypto (wl_api W)) (hash_bytes viewing_key)
              in Option.bind (scan_wallet_relevance W st viewing_hash viewing_key target_tx)
                (\<lambda>(st, outcome).
                   let st = later st
                   in case outcome of
                        Some e \<Rightarrow> Some (st, Inl (task_error e))
                      | None \<Rightarrow>
                          if target_tx = 0 then
                            Some (st, Inr \<lparr>pt_results = \<lparr>ss_updates = [], ss_applied_through = 0,
                              ss_highest_index = 0, ss_scanned_transactions = 0\<rparr>, pt_tip = None\<rparr>)
                          else case tip of
                              None \<Rightarrow> Some (st, Inl (ApiErr (internal_error ''indexed tip block is missing'')))
                            | Some tip \<Rightarrow> Some (st, shielded_response W st viewing_hash
                                (sr_from_index request) tip target_tx))))"

section \<open>DUST sync\<close>

record DustSyncRequest =
  dq_from :: u64
  dq_count :: nat

record DustSyncResult =
  dy_events :: "EventResponse list"
  dy_scanned_through :: u64
  dy_highest_event_id :: u64

definition dust_event_row :: "api_env \<Rightarrow> Store \<Rightarrow> bytes \<times> store_value \<Rightarrow> ApiFailure + EventResponse" where
  "dust_event_row V st entry =
     and_then (ok_or (ApiPanic ''8-byte event id'') (u64_from_be_bytes (fst entry))) (\<lambda>event_id.
     and_then (event_at st ''missing DUST event'' event_id) (\<lambda>record.
       event_response V st event_id record))"

definition wallet_dust_sync ::
    "('ls, 'k) wallet_env \<Rightarrow> ApiState \<Rightarrow> DustSyncRequest \<Rightarrow> ApiFailure + DustSyncResult PointResponse" where
  "wallet_dust_sync W s request =
     (if dq_count request < 1 \<or> 50000 < dq_count request
      then Inl (ApiErr (bad_request ''count should be within range 1-50000''))
      else
      and_then (db (next_id (ap_store s) NEXT_EVENT_ID)) (\<lambda>highest_event_id.
      and_then (try_map (dust_event_row (wl_api W) (ap_store s))
          (take (dq_count request) (store_range (ap_store s) WalletDustEvents
             (Included (u64_to_be_bytes (dq_from request))) Unbounded))) (\<lambda>events.
      let scanned_through = (if events = [] then dq_from request else ev_id (last events) + 1);
          scanned_through = (if length events < dq_count request then highest_event_id else scanned_through)
      in response (wl_api W) s \<lparr>dy_events = events, dy_scanned_through = scanned_through,
           dy_highest_event_id = highest_event_id\<rparr>)))"

end
