(* ===== verification/FeedFacts.thy ===== *)
theory FeedFacts
  imports ApiFeeds UtxoFacts
begin

text \<open>
  Each paginated endpoint provides the page protocol: its rows are the entries of one index range that
  are not skipped, and its scan behind a cursor is the same range cut at the cursor's key. The
  interpretations of \<open>paged_handler\<close> rest on this, and the properties say what a client collects by
  following the cursors.
\<close>

section \<open>Scans behind a cursor\<close>

definition rows_of :: "('x \<Rightarrow> 'e + 'r option) \<Rightarrow> 'x list \<Rightarrow> 'r list" where
  "rows_of f xs = List.map_filter (\<lambda>x. case f x of Inr r \<Rightarrow> r | Inl _ \<Rightarrow> None) xs"

definition all_read :: "('x \<Rightarrow> 'e + 'r) \<Rightarrow> 'x list \<Rightarrow> bool" where
  "all_read f xs = (\<forall>x \<in> set xs. \<exists>r. f x = Inr r)"

lemma rows_of_simps [simp]:
  "rows_of f [] = []"
  "rows_of f (x # xs) = (case f x of Inr (Some r) \<Rightarrow> r # rows_of f xs | _ \<Rightarrow> rows_of f xs)"
  by (auto simp: rows_of_def List.map_filter_def split: sum.split option.split)

lemma all_read_Cons [simp]: "all_read f (x # xs) \<longleftrightarrow> (\<exists>r. f x = Inr r) \<and> all_read f xs"
  by (simp add: all_read_def)

lemma collect_rows:
  assumes "all_read f xs"
  shows "collect_page n f xs = Inr (take (Suc n) (rows_of f xs))"
  unfolding rows_of_def
proof (rule collect_page_take)
  fix x assume "x \<in> set xs"
  with assms show "f x = Inr (case f x of Inr r \<Rightarrow> r | Inl _ \<Rightarrow> None)" by (force simp: all_read_def)
qed

lemma rows_of_append [simp]: "rows_of f (xs @ ys) = rows_of f xs @ rows_of f ys"
  by (simp add: rows_of_def List.map_filter_def)

lemma rows_of_rev: "rows_of f (rev xs) = rev (rows_of f xs)"
  by (induction xs) (auto split: sum.split option.split)

lemma rows_of_filter:
  assumes "\<And>x y. x \<in> set xs \<Longrightarrow> f x = Inr (Some y) \<Longrightarrow> P x \<longleftrightarrow> Q y"
  shows "rows_of f (filter P xs) = filter Q (rows_of f xs)"
  using assms
proof (induction xs)
  case (Cons x xs)
  then have IH: "rows_of f (filter P xs) = filter Q (rows_of f xs)" by simp
  show ?case
  proof (cases "f x")
    case (Inr r)
    with IH Cons.prems [of x] show ?thesis by (cases r) auto
  qed (use IH in simp)
qed simp

lemma in_rows_of: "y \<in> set (rows_of f xs) \<longleftrightarrow> (\<exists>x \<in> set xs. f x = Inr (Some y))"
  by (force simp: rows_of_def List.map_filter_def split: sum.splits option.splits)

lemma all_read_in_order: "all_read f (in_order order xs) \<longleftrightarrow> all_read f xs"
  by (cases order) (simp_all add: all_read_def)

lemma rows_of_in_order: "rows_of f (in_order order xs) = in_order order (rows_of f xs)"
  by (cases order) (simp_all add: rows_of_rev)

lemma all_read_filter: "all_read f xs \<Longrightarrow> all_read f (filter P xs)"
  by (simp add: all_read_def)

lemma above_trans: "above lo k \<Longrightarrow> k < x \<Longrightarrow> above lo x"
  by (cases lo) auto

lemma below_trans: "below hi k \<Longrightarrow> x < k \<Longrightarrow> below hi x"
  by (cases hi) auto

lemma range_behind:
  assumes "above lo k" and "below hi k"
  shows "ordered_range st p order (cursor_bounds order (Some k) lo hi)
    = (case order of Asc \<Rightarrow> filter (\<lambda>e. k < fst e) (store_range st p lo hi)
       | Desc \<Rightarrow> rev (filter (\<lambda>e. fst e < k) (store_range st p lo hi)))"
  using assms
  by (cases order) (auto simp: ordered_range_def store_range_def part_range_def intro!: filter_cong
      intro: above_trans below_trans)

text \<open>One page of a collecting loop, from the start and from behind a cursor.\<close>

lemma collect_first:
  assumes "all_read f (store_range st p lo hi)"
  shows "collect_page n f (ordered_range st p order (cursor_bounds order None lo hi))
    = Inr (take (Suc n) (in_order order (rows_of f (store_range st p lo hi))))"
  using assms collect_rows [of f "in_order order (store_range st p lo hi)" n]
  by (cases order) (simp_all add: ordered_range_def all_read_in_order [of f Asc, simplified]
      all_read_in_order [of f Desc, simplified] rows_of_rev)

lemma collect_behind:
  assumes "all_read f (store_range st p lo hi)" and "above lo k" and "below hi k"
    and pos: "\<And>e q r. e \<in> set (store_range st p lo hi) \<Longrightarrow> f e = Inr (Some (q, r)) \<Longrightarrow>
      (k < fst e \<longleftrightarrow> c < q) \<and> (fst e < k \<longleftrightarrow> q < c)"
  shows "collect_page n f (ordered_range st p order (cursor_bounds order (Some k) lo hi))
    = Inr (take (Suc n) (beyond order c (rows_of f (store_range st p lo hi))))"
proof -
  have up: "rows_of f (filter (\<lambda>e. k < fst e) (store_range st p lo hi))
      = filter (\<lambda>r. c < fst r) (rows_of f (store_range st p lo hi))"
    by (rule rows_of_filter) (use pos in auto)
  have down: "rows_of f (filter (\<lambda>e. fst e < k) (store_range st p lo hi))
      = filter (\<lambda>r. fst r < c) (rows_of f (store_range st p lo hi))"
    by (rule rows_of_filter) (use pos in auto)
  have "all_read f (ordered_range st p order (cursor_bounds order (Some k) lo hi))"
    unfolding range_behind [OF assms(2,3)] using assms(1)
    by (cases order) (auto simp: all_read_def)
  from collect_rows [OF this] show ?thesis
    unfolding range_behind [OF assms(2,3)] by (cases order) (simp_all add: up down rows_of_rev)
qed

lemma try_map_cong: "(\<And>x. x \<in> set xs \<Longrightarrow> f x = g x) \<Longrightarrow> try_map f xs = try_map g xs"
  by (induction xs) auto

lemma take_try_map:
  "all_read f xs \<Longrightarrow> try_map f (take n xs) = Inr (take n (rows_of (\<lambda>x. and_then (f x) (\<lambda>r. Inr (Some r))) xs))"
proof (induction xs arbitrary: n)
  case (Cons x xs)
  then obtain r where "f x = Inr r" by (auto simp: all_read_def)
  with Cons show ?case by (cases n) auto
qed simp

text \<open>Rows of an index with increasing keys have increasing positions.\<close>

lemma rows_of_sorted:
  assumes "sorted_wrt (<) (map fst xs)"
    and "\<And>e e' q q' r r'. e \<in> set xs \<Longrightarrow> e' \<in> set xs \<Longrightarrow> f e = Inr (Some (q, r)) \<Longrightarrow>
      f e' = Inr (Some (q', r')) \<Longrightarrow> fst e < fst e' \<Longrightarrow> q < q'"
  shows "sorted_wrt (<) (map fst (rows_of f xs))"
  using assms
proof (induction xs)
  case (Cons e xs)
  have IH: "sorted_wrt (<) (map fst (rows_of f xs))"
    using Cons by (intro Cons.IH) (auto intro: Cons.prems(2))
  have first: "q < fst y" if "f e = Inr (Some (q, r))" "y \<in> set (rows_of f xs)" for q r y
  proof -
    from that(2) obtain e' where "e' \<in> set xs" "f e' = Inr (Some y)" by (auto simp: in_rows_of)
    with Cons.prems(2) [of e e' q r "fst y" "snd y"] Cons.prems(1) that(1) show ?thesis by auto
  qed
  show ?case
  proof (cases "f e")
    case (Inr r)
    with IH first show ?thesis by (cases r) auto
  qed (use IH in simp)
qed simp

lemma store_range_sorted: "store_ok st \<Longrightarrow> sorted_wrt (<) (map fst (store_range st p lo hi))"
  by (simp add: store_range_def part_range_sorted store_ok_part)

section \<open>Servers in a usable state\<close>

definition feed_ok :: "feed \<Rightarrow> TipAnchor \<Rightarrow> bool" where
  "feed_ok f a = (crypto_ok (en_crypto (fd_env f)) \<and> validate_anchor (fd_state f) a = Inr ()
     \<and> store_ok (ap_store (fd_state f)))"

abbreviation feed_store :: "feed \<Rightarrow> Store" where
  "feed_store f \<equiv> ap_store (fd_state f)"

abbreviation page_at :: "TipAnchor \<Rightarrow> PageContext" where
  "page_at a \<equiv> \<lparr>pc_anchor = Some a, pc_position = None\<rparr>"

section \<open>Handlers over one index range\<close>

text \<open>
  What a handler over an index provides: the partition and the bounds of the whole range, the row of an
  entry, and the key of a position. Every handler of this shape is a \<open>paged_handler\<close>.
\<close>

locale range_handler =
  fixes usable :: "feed \<Rightarrow> TipAnchor \<Rightarrow> bool"
    and part :: part_id
    and lo :: "feed \<Rightarrow> bound"
    and hi :: "feed \<Rightarrow> bound"
    and row :: "feed \<Rightarrow> TipAnchor \<Rightarrow> bytes \<times> store_value \<Rightarrow> ApiFailure + (bytes \<times> 'r) option"
    and key :: "feed \<Rightarrow> bytes \<Rightarrow> bytes"
    and query :: "feed \<Rightarrow> Order \<Rightarrow> bytes"
    and fetch :: "feed \<Rightarrow> Order \<Rightarrow> nat \<Rightarrow> PageContext \<Rightarrow> ApiFailure + (bytes \<times> 'r) list"
  assumes served: "usable f a \<Longrightarrow> feed_ok f a"
    and readable: "usable f a \<Longrightarrow> all_read (row f a) (store_range (feed_store f) part (lo f) (hi f))"
    and position: "usable f a \<Longrightarrow> e \<in> set (store_range (feed_store f) part (lo f) (hi f)) \<Longrightarrow>
      row f a e = Inr (Some r) \<Longrightarrow> fst e = key f (fst r) \<and> length (fst r) \<le> 400"
    and key_mono: "key f q < key f q' \<longleftrightarrow> q < q'"
    and scan: "usable f a \<Longrightarrow> (\<And>p. c = Some p \<Longrightarrow>
        \<exists>e \<in> set (store_range (feed_store f) part (lo f) (hi f)). \<exists>r. row f a e = Inr (Some (p, r))) \<Longrightarrow>
      fetch f order n \<lparr>pc_anchor = Some a, pc_position = c\<rparr>
        = collect_page n (row f a) (ordered_range (feed_store f) part order
            (cursor_bounds order (map_option (key f) c) (lo f) (hi f)))"
begin

definition visible :: "feed \<Rightarrow> TipAnchor \<Rightarrow> (bytes \<times> 'r) list" where
  "visible f a = rows_of (row f a) (store_range (feed_store f) part (lo f) (hi f))"

lemma in_visible:
  "y \<in> set (visible f a) \<longleftrightarrow>
    (\<exists>e \<in> set (store_range (feed_store f) part (lo f) (hi f)). row f a e = Inr (Some y))"
  by (simp add: visible_def in_rows_of)

end

sublocale range_handler \<subseteq> paged_handler usable visible query fetch
proof
  fix f a order n p assume ok: "usable f a"
  let ?st = "feed_store f" and ?xs = "store_range (feed_store f) part (lo f) (hi f)"
  have st: "store_ok ?st" using served [OF ok] by (simp add: feed_ok_def)
  note read = readable [OF ok] and pos = position [OF ok]
  show "sorted_wrt (<) (map fst (visible f a))"
    unfolding visible_def
  proof (rule rows_of_sorted [OF store_range_sorted [OF st]])
    fix e e' q q' r r'
    assume "e \<in> set ?xs" "e' \<in> set ?xs" "row f a e = Inr (Some (q, r))" "row f a e' = Inr (Some (q', r'))"
      and "fst e < fst e'"
    then show "q < q'" using pos [of e "(q, r)"] pos [of e' "(q', r')"] by (simp add: key_mono)
  qed
  show "crypto_ok (en_crypto (fd_env f))" "validate_anchor (fd_state f) a = Inr ()"
    using served [OF ok] by (simp_all add: feed_ok_def)
  show "fetch f order n (page_at a) = Inr (take (Suc n) (in_order order (visible f a)))"
    using scan [OF ok, of None order n] collect_first [OF read, of n order] by (simp add: visible_def)
  {
    assume "p \<in> fst ` set (visible f a)"
    then obtain e r where e: "e \<in> set ?xs" "row f a e = Inr (Some (p, r))" by (auto simp: in_visible)
    then have key: "fst e = key f p" and "length p \<le> 400" using pos [of e "(p, r)"] by auto
    then show "length p \<le> 400" by simp
    have "(fst e, snd e) \<in> set ?xs" using e(1) by simp
    then have bounds: "above (lo f) (key f p)" "below (hi f) (key f p)"
      unfolding in_store_range [OF st] by (simp_all add: key)
    have "(key f p < fst e' \<longleftrightarrow> p < q) \<and> (fst e' < key f p \<longleftrightarrow> q < p)"
      if "e' \<in> set ?xs" "row f a e' = Inr (Some (q, r'))" for e' q r'
      using pos [OF that] by (simp add: key_mono)
    with bounds show "fetch f order n \<lparr>pc_anchor = Some a, pc_position = Some p\<rparr>
        = Inr (take (Suc n) (beyond order p (visible f a)))"
      using scan [OF ok, of "Some p" order n] e collect_behind [OF read, of "key f p" p n order]
      by (auto simp: visible_def)
  }
qed

definition feed_at :: "api_env \<Rightarrow> ApiState \<Rightarrow> string \<Rightarrow> u64 \<Rightarrow> feed" where
  "feed_at V s path from_id = \<lparr>fd_env = V, fd_state = s, fd_path = path, fd_from = from_id\<rparr>"

lemma feed_at_simps [simp]:
  "fd_env (feed_at V s path n) = V" "fd_state (feed_at V s path n) = s"
  "fd_path (feed_at V s path n) = path" "fd_from (feed_at V s path n) = n"
  by (simp_all add: feed_at_def)

text \<open>A server seen by one client: the tip at its first request is \<open>a\<close>, and whenever the client comes
  back the store is well typed, the cursor key is the same and the block of \<open>a\<close> is still there.\<close>

definition serving :: "api_env \<Rightarrow> (nat \<Rightarrow> ApiState) \<Rightarrow> TipAnchor \<Rightarrow> bool" where
  "serving V S a = (crypto_ok (en_crypto V) \<and> current_tip (S 0) = Inr (Some a)
     \<and> (\<forall>i. store_ok (ap_store (S i)) \<and> ap_cursor_key (S i) = ap_cursor_key (S 0)
          \<and> validate_anchor (S i) a = Inr ()))"

lemma serving_simps:
  assumes "serving V S a"
  shows "feed_ok (feed_at V (S i) path n) a" "store_ok (ap_store (S i))"
    "ap_cursor_key (S i) = ap_cursor_key (S 0)" "current_tip (S 0) = Inr (Some a)"
  using assms by (simp_all add: serving_def feed_ok_def)

section \<open>Contracts\<close>

definition contracts_ok :: "feed \<Rightarrow> TipAnchor \<Rightarrow> bool" where
  "contracts_ok f a = (feed_ok f a
     \<and> (\<forall>k \<in> fst ` set (store_iter (feed_store f) Contracts). length k \<le> 400))"

abbreviation contracts_row ::
    "feed \<Rightarrow> TipAnchor \<Rightarrow> bytes \<times> store_value \<Rightarrow> ApiFailure + (bytes \<times> ContractListItem) option" where
  "contracts_row f a e \<equiv> and_then (contract_row (fd_env f) e) (\<lambda>r. Inr (Some r))"

lemma contract_row_read:
  assumes "store_ok st"
  shows "all_read (contract_row V) (store_range st Contracts lo hi)"
  unfolding all_read_def
proof
  fix e assume "e \<in> set (store_range st Contracts lo hi)"
  then have "store_get st Contracts (fst e) = Some (snd e)"
    using in_store_range [OF assms, of "fst e" "snd e"] by simp
  then have "entry_ok Contracts (fst e) (snd e)" by (rule store_ok_entry [OF assms])
  then have "as_contract (snd e) \<noteq> None" by simp
  then show "\<exists>r. contract_row V e = Inr r" by (auto simp: contract_row_def store_decode_def)
qed

lemma contract_row_key: "contract_row V e = Inr (q, r) \<Longrightarrow> q = fst e"
  by (auto simp: contract_row_def result_simps)

lemma iter_range: "e \<in> set (store_range st p lo hi) \<Longrightarrow> e \<in> set (store_iter st p)"
  by (simp add: store_range_def part_range_def store_iter_def part_iter_def)

interpretation contracts_feed: range_handler contracts_ok Contracts "\<lambda>f. Unbounded" "\<lambda>f. Unbounded"
  contracts_row "\<lambda>f p. p" "\<lambda>f. contracts_query"
  "\<lambda>f order n page. contracts_fetch (fd_env f) (feed_store f) order n page"
proof
  fix f :: feed and a order n c
  assume ok: "contracts_ok f a"
  let ?st = "feed_store f"
  have st: "store_ok ?st" using ok by (simp add: contracts_ok_def feed_ok_def)
  note read = contract_row_read [OF st, of "fd_env f"]
  have read': "all_read (contracts_row f a) (store_range ?st Contracts lo hi)" for lo hi
    using read [of lo hi] by (force simp: all_read_def)
  show "feed_ok f a" using ok by (simp add: contracts_ok_def)
  show "all_read (contracts_row f a) (store_range ?st Contracts Unbounded Unbounded)" by (rule read')
  show "fst e = fst r \<and> length (fst r) \<le> 400"
    if "e \<in> set (store_range ?st Contracts Unbounded Unbounded)" "contracts_row f a e = Inr (Some r)" for e r
    using that ok by (cases r) (auto simp: result_simps contracts_ok_def dest!: contract_row_key iter_range)
  let ?xs = "ordered_range ?st Contracts order (cursor_bounds order (map_option (\<lambda>p. p) c) Unbounded Unbounded)"
  have "all_read (contract_row (fd_env f)) ?xs" "all_read (contracts_row f a) ?xs"
    using read read' by (simp_all add: ordered_range_def all_read_in_order)
  then show "contracts_fetch (fd_env f) ?st order n \<lparr>pc_anchor = Some a, pc_position = c\<rparr>
      = collect_page n (contracts_row f a) ?xs"
    by (simp add: contracts_fetch_def take_try_map collect_rows option.map_ident)
qed simp

end
