(* ===== verification/WalletFacts.thy ===== *)
theory WalletFacts
  imports ApiWallet FeedFacts
begin

text \<open>
  The wallet endpoints: the relevance scan keeps its rows exact and resumable, the shielded sync tiles
  the Zswap tree and misses no relevant transaction, the DUST feed leaves no gap, and the DUST
  capacities are bounded.
\<close>

section \<open>The relevance scan\<close>

text \<open>The rows of a viewing key are exact up to its progress \<open>p\<close>.\<close>

definition rows_exact :: "('ls, 'k) wallet_env \<Rightarrow> hash32 \<Rightarrow> Store \<Rightarrow> hash32 \<Rightarrow> u64 \<Rightarrow> bool" where
  "rows_exact W viewing_key st viewing_hash p =
     (\<forall>t. store_get st WalletRelevantTxs (wallet_relevance_key viewing_hash t) \<noteq> None
        \<longleftrightarrow> t < p \<and> scan_relevant W st viewing_key t = Inr True)"

text \<open>A scan writes only the rows and the progress of its viewing key.\<close>

definition scan_only :: "hash32 \<Rightarrow> Store \<Rightarrow> Store \<Rightarrow> bool" where
  "scan_only viewing_hash st st' = (\<forall>p k. store_get st' p k = store_get st p k
     \<or> p = WalletScanProgress \<and> k = hash_bytes viewing_hash
     \<or> p = WalletRelevantTxs \<and> (\<exists>t. k = wallet_relevance_key viewing_hash t))"

lemma scan_only_refl [simp]: "scan_only vh st st"
  by (simp add: scan_only_def)

lemma scan_only_trans: "scan_only vh a b \<Longrightarrow> scan_only vh b c \<Longrightarrow> scan_only vh a c"
  unfolding scan_only_def by metis

lemma scan_only_relevant:
  "scan_only vh st st' \<Longrightarrow> scan_relevant W st' vk t = scan_relevant W st vk t"
proof -
  assume "scan_only vh st st'"
  then have "store_get st' Txs k = store_get st Txs k"
    "store_get st' WalletTxIndices k = store_get st WalletTxIndices k" for k
    unfolding scan_only_def by blast+
  then show "scan_relevant W st' vk t = scan_relevant W st vk t"
    by (simp add: scan_relevant_def store_tx_def get_decoded_def cong: if_cong)
qed

lemma relevance_key_inject [simp]: "wallet_relevance_key vh t = wallet_relevance_key vh u \<longleftrightarrow> t = u"
  by (simp add: wallet_relevance_key_def u64c.enc_inject)

lemma scan_txs_view:
  assumes "try_fold (scan_tx W st vh vk) b ts = Inr b'"
  shows "(\<forall>t \<in> set ts. \<exists>r. scan_relevant W st vk t = Inr r)
    \<and> store_get (commit st b') p k = (if p = WalletRelevantTxs
        \<and> (\<exists>t \<in> set ts. k = wallet_relevance_key vh t \<and> scan_relevant W st vk t = Inr True)
      then Some (Raw []) else store_get (commit st b) p k)"
  using assms
proof (induction ts arbitrary: b)
  case (Cons t ts)
  then obtain b1 where b1: "scan_tx W st vh vk b t = Inr b1" and rest: "try_fold (scan_tx W st vh vk) b1 ts = Inr b'"
    by (auto simp: result_simps)
  then obtain r where r: "scan_relevant W st vk t = Inr r"
    "b1 = (if r then batch_insert WalletRelevantTxs (wallet_relevance_key vh t) (Raw []) b else b)"
    by (auto simp: scan_tx_def result_simps)
  from Cons.IH [OF rest] r show ?case by (cases r) (auto simp: store_simps)
qed simp

lemma words_between: "t \<in> set (map word_of_nat [unat a ..< unat b]) \<longleftrightarrow> a \<le> t \<and> t < (b :: u64)"
proof
  assume "t \<in> set (map word_of_nat [unat a ..< unat b])"
  then obtain n where n: "t = word_of_nat n" "unat a \<le> n" "n < unat b" by auto
  have "unat b < 2 ^ LENGTH(64)" by (rule unsigned_less)
  with n have "n < 2 ^ 64" by simp
  then have "unat t = n" using n(1) by (simp add: unat_of_nat take_bit_nat_eq_self)
  with n show "a \<le> t \<and> t < b" by (simp add: word_le_nat_alt word_less_nat_alt)
next
  assume "a \<le> t \<and> t < b"
  then have "unat t \<in> set [unat a ..< unat b]" by (simp add: word_le_nat_alt word_less_nat_alt)
  moreover have "t = word_of_nat (unat t)" by simp
  ultimately show "t \<in> set (map word_of_nat [unat a ..< unat b])" by (metis image_eqI set_map)
qed

lemma scan_batch_view:
  assumes "scan_batch W vh vk st a b = Inr st'"
  shows "store_get st' p k = (if p = WalletScanProgress \<and> k = hash_bytes vh then Some (Raw (u64_to_be_bytes b))
     else if p = WalletRelevantTxs \<and> (\<exists>t. k = wallet_relevance_key vh t \<and> a \<le> t \<and> t < b
       \<and> scan_relevant W st vk t = Inr True)
     then Some (Raw []) else store_get st p k)"
proof -
  obtain batch where "try_fold (scan_tx W st vh vk) [] (map word_of_nat [unat a ..< unat b]) = Inr batch"
    and st': "st' = commit st (batch_insert WalletScanProgress (hash_bytes vh) (Raw (u64_to_be_bytes b)) batch)"
    using assms by (auto simp: scan_batch_def result_simps)
  note view = scan_txs_view [OF this(1), THEN conjunct2, of p k, unfolded commit_Nil]
  show ?thesis
    unfolding st' store_get_commit_insert view Bex_def words_between by auto
qed

lemma scan_batch_only:
  assumes "scan_batch W vh vk st a b = Inr st'"
  shows "scan_only vh st st'"
  unfolding scan_only_def scan_batch_view [OF assms] by auto

lemma scan_batch_exact:
  assumes "scan_batch W vh vk st a b = Inr st'" and "rows_exact W vk st vh a" and "a \<le> b"
  shows "rows_exact W vk st' vh b" and "scan_progress st' vh = Inr b"
proof -
  show "rows_exact W vk st' vh b"
    using assms(2,3) scan_only_relevant [OF scan_batch_only [OF assms(1)], of W vk]
    by (auto simp: rows_exact_def scan_batch_view [OF assms(1)] split: if_splits)
  show "scan_progress st' vh = Inr b"
    by (simp add: scan_progress_def scan_batch_view [OF assms(1)])
qed

lemma scan_batch_ok:
  assumes "store_ok st" and "scan_batch W vh vk st a b = Inr st'"
  shows "store_ok st'"
proof -
  obtain batch where fold: "try_fold (scan_tx W st vh vk) [] (map word_of_nat [unat a ..< unat b]) = Inr batch"
    and st': "st' = commit st (batch_insert WalletScanProgress (hash_bytes vh) (Raw (u64_to_be_bytes b)) batch)"
    using assms(2) by (auto simp: scan_batch_def result_simps)
  have "store_ok (commit st batch)"
    by (rule try_fold_invariant [OF fold, where P = "\<lambda>b. store_ok (commit st b)"])
      (use assms(1) in \<open>auto simp: scan_tx_def result_simps wallet_relevance_key_def intro!: store_ok_insert\<close>)
  then show ?thesis unfolding st' by (intro store_ok_insert) (simp_all add: raw_of_length_def)
qed

lemma scan_batches_total:
  assumes "rows_exact W vk st vh a" and "scan_progress st vh = Inr a" and "unat target + 1000 \<le> 2 ^ 64"
  shows "\<exists>st' outcome p. scan_batches W vh vk target st a = Some (st', outcome)
    \<and> scan_progress st' vh = Inr p \<and> rows_exact W vk st' vh p \<and> a \<le> p
    \<and> (outcome = None \<longrightarrow> target \<le> p) \<and> scan_only vh st st' \<and> (store_ok st \<longrightarrow> store_ok st')"
  using assms(1,2)
proof (induction "unat target - unat a" arbitrary: st a rule: less_induct)
  case less
  show ?case
  proof (cases "a < target")
    case True
    let ?b = "min target (a + 1000)"
    have "unat (a + 1000) = unat a + 1000"
      using True assms(3) by (simp add: word_less_nat_alt unat_word_ariths)
    then have ab: "a < ?b" using True by (simp add: word_less_nat_alt min_def)
    show ?thesis
    proof (cases "scan_batch W vh vk st a ?b")
      case (Inl e)
      with True less.prems show ?thesis by (subst scan_batches.simps) (auto simp: Let_def)
    next
      case (Inr st1)
      have "unat target - unat ?b < unat target - unat a"
        using ab True by (simp add: word_less_nat_alt)
      moreover have "rows_exact W vk st1 vh ?b" "scan_progress st1 vh = Inr ?b"
        using scan_batch_exact [OF Inr less.prems(1) order_less_imp_le [OF ab]] by simp_all
      ultimately obtain st' outcome p where IH: "scan_batches W vh vk target st1 ?b = Some (st', outcome)"
        "scan_progress st' vh = Inr p" "rows_exact W vk st' vh p" "?b \<le> p"
        "outcome = None \<longrightarrow> target \<le> p" "scan_only vh st1 st'" "store_ok st1 \<longrightarrow> store_ok st'"
        using less.hyps by blast
      have "scan_batches W vh vk target st a = Some (st', outcome)"
        using True Inr IH(1) by (subst scan_batches.simps) (simp add: Let_def)
      moreover have "a \<le> p" using ab IH(4) by order
      moreover have "scan_only vh st st'" by (rule scan_only_trans [OF scan_batch_only [OF Inr] IH(6)])
      ultimately show ?thesis using IH scan_batch_ok [OF _ Inr] by blast
    qed
  next
    case False
    with less.prems show ?thesis by (subst scan_batches.simps) auto
  qed
qed

section \<open>The shielded sync tiles the tree\<close>

fun update_range :: "ShieldedSyncUpdate \<Rightarrow> u64 \<times> u64" where
  "update_range (CollapsedUpdate a b _ _) = (a, b)"
| "update_range (TransactionUpdate a b _ _ _ _) = (a, b)"

text \<open>Ranges that cover the indices from \<open>a\<close> to \<open>b\<close> one after the other.\<close>

fun tiles :: "u64 \<Rightarrow> (u64 \<times> u64) list \<Rightarrow> u64 \<Rightarrow> bool" where
  "tiles a [] b = (a = b)"
| "tiles a ((c, d) # rs) b = (c = a \<and> a \<le> d \<and> tiles d rs b)"

lemma tiles_append: "tiles a (xs @ ys) c \<longleftrightarrow> (\<exists>b. tiles a xs b \<and> tiles b ys c)"
  by (induction xs arbitrary: a) auto

lemma tiles_le: "tiles a rs b \<Longrightarrow> a \<le> b"
  by (induction rs arbitrary: a) (auto intro: order_trans)

text \<open>The Zswap ranges of the transactions below the target follow one another.\<close>

definition tx_index_of :: "Store \<Rightarrow> u64 \<Rightarrow> WalletTxIndexRecord option" where
  "tx_index_of st t = Option.bind (store_get st WalletTxIndices (u64_to_be_bytes t)) as_wallet_tx"

definition tx_ranges_ok :: "Store \<Rightarrow> u64 \<Rightarrow> bool" where
  "tx_ranges_ok st target =
     (\<forall>t < target. \<exists>i. tx_index_of st t = Some i \<and> wt_zswap_start_index i \<le> wt_zswap_end_index i
        \<and> (\<forall>u j. t < u \<longrightarrow> u < target \<longrightarrow> tx_index_of st u = Some j \<longrightarrow>
             wt_zswap_end_index i \<le> wt_zswap_start_index j))"

definition lists_tx :: "Store \<Rightarrow> ShieldedSyncUpdate list \<Rightarrow> u64 \<Rightarrow> bool" where
  "lists_tx st updates t = (\<exists>i h es. tx_index_of st t = Some i
     \<and> TransactionUpdate (wt_zswap_start_index i) (wt_zswap_end_index i) (wt_protocol_version i) t h es
         \<in> set updates)"

text \<open>Only transactions of \<open>ts\<close> are listed, and all those whose range reaches beyond \<open>from_index\<close>.\<close>

definition sound :: "Store \<Rightarrow> u64 list \<Rightarrow> u64 \<Rightarrow> ShieldedSyncUpdate list \<Rightarrow> bool" where
  "sound st ts target updates = (\<forall>b e p t h es. TransactionUpdate b e p t h es \<in> set updates \<longrightarrow>
     t \<in> set ts \<and> t < target \<and> (\<exists>i. tx_index_of st t = Some i \<and> b = wt_zswap_start_index i
       \<and> e = wt_zswap_end_index i \<and> p = wt_protocol_version i))"

definition complete :: "Store \<Rightarrow> u64 list \<Rightarrow> u64 \<Rightarrow> u64 \<Rightarrow> ShieldedSyncUpdate list \<Rightarrow> bool" where
  "complete st ts target from_index updates = (\<forall>t \<in> set ts. \<forall>i. t < target \<longrightarrow> tx_index_of st t = Some i \<longrightarrow>
     from_index < wt_zswap_end_index i \<longrightarrow> wt_zswap_start_index i < wt_zswap_end_index i \<longrightarrow>
     lists_tx st updates t)"

lemma wallet_tx_index_Inr: "wallet_tx_index st msg t = Inr i \<longleftrightarrow> tx_index_of st t = Some i"
  by (auto simp: wallet_tx_index_def tx_index_of_def get_decoded_def store_decode_def result_simps
      bind_eq_Some_conv split: option.splits)

lemma collapsed_update_Inr:
  "collapsed_update W L v a b = Inr u \<Longrightarrow> \<exists>x. u = CollapsedUpdate a b v x"
  by (auto simp: collapsed_update_def result_simps)

text \<open>One pass of the loop over the rows of the transactions \<open>ts\<close>.\<close>

lemma shielded_loop_tiles:
  assumes "shielded_loop W st L v target (map (\<lambda>t. (prefixed_u64_key pre t, x t)) ts) a us = Inr (a', us')"
    and "sorted_wrt (<) ts" and "tx_ranges_ok st target" and "from_index \<le> a"
    and "\<forall>t \<in> set ts. \<forall>i. t < target \<longrightarrow> tx_index_of st t = Some i \<longrightarrow>
      a = from_index \<or> a \<le> wt_zswap_start_index i"
  shows "\<exists>new. us' = us @ new \<and> tiles a (map update_range new) a'
    \<and> sound st ts target new
    \<and> complete st ts target from_index new"
  using assms(1,2,4,5)
proof (induction ts arbitrary: a us)
  case (Cons t ts)
  show ?case
  proof (cases "t < target")
    case False
    with Cons.prems(1) have "a' = a" "us' = us" by (simp_all add: not_less)
    moreover have "\<not> u < target" if "u \<in> set ts" for u using that False Cons.prems(2) by auto
    ultimately show ?thesis using False by (intro exI [of _ "[]"]) (auto simp: sound_def complete_def)
  next
    case True
    then obtain i where i: "tx_index_of st t = Some i" "wt_zswap_start_index i \<le> wt_zswap_end_index i"
      and later: "\<And>u j. t < u \<Longrightarrow> u < target \<Longrightarrow> tx_index_of st u = Some j \<Longrightarrow>
        wt_zswap_end_index i \<le> wt_zswap_start_index j"
      using assms(3) unfolding tx_ranges_ok_def by blast
    have idx: "wallet_tx_index st msg t = Inr i" for msg using i(1) by (simp add: wallet_tx_index_Inr)
    have nt: "\<not> target \<le> t" using True by simp
    show ?thesis
    proof (cases "wt_zswap_end_index i \<le> a")
      case skip: True
      have "shielded_loop W st L v target (map (\<lambda>t. (prefixed_u64_key pre t, x t)) ts) a us = Inr (a', us')"
        using Cons.prems(1) nt skip by (simp add: idx)
      moreover have "\<forall>u \<in> set ts. \<forall>j. u < target \<longrightarrow> tx_index_of st u = Some j \<longrightarrow>
          a = from_index \<or> a \<le> wt_zswap_start_index j"
        using Cons.prems(4) by simp
      ultimately obtain new where new: "us' = us @ new" "tiles a (map update_range new) a'"
        "sound st ts target new"
        "complete st ts target from_index new"
        using Cons.IH [of a us] Cons.prems(2,3) by auto
      have "a = from_index \<or> a \<le> wt_zswap_start_index i" using Cons.prems(4) True i(1) by simp
      then have "\<not> (from_index < wt_zswap_end_index i \<and> wt_zswap_start_index i < wt_zswap_end_index i)"
        using skip by auto
      with new(4) i(1) have "complete st (t # ts) target from_index new" by (auto simp: complete_def)
      moreover have "sound st (t # ts) target new" using new(3) by (simp add: sound_def)
      ultimately show ?thesis using new(1,2) by blast
    next
      case take: False
      have first: "\<not> wt_zswap_start_index i < a"
      proof
        assume "wt_zswap_start_index i < a"
        with Cons.prems(1) nt take show False by (simp add: idx)
      qed
      obtain gap h es where gap: "gap = [] \<and> a = wt_zswap_start_index i
          \<or> (\<exists>x. gap = [CollapsedUpdate a (wt_zswap_start_index i) v x])"
        and rest: "shielded_loop W st L v target (map (\<lambda>t. (prefixed_u64_key pre t, x t)) ts)
          (wt_zswap_end_index i) (us @ gap @ [TransactionUpdate (wt_zswap_start_index i) (wt_zswap_end_index i)
            (wt_protocol_version i) t h es]) = Inr (a', us')"
      proof (cases "a < wt_zswap_start_index i")
        case True
        with Cons.prems(1) nt take first obtain y h es where
          "shielded_loop W st L v target (map (\<lambda>t. (prefixed_u64_key pre t, x t)) ts) (wt_zswap_end_index i)
             (us @ [CollapsedUpdate a (wt_zswap_start_index i) v y, TransactionUpdate (wt_zswap_start_index i)
               (wt_zswap_end_index i) (wt_protocol_version i) t h es]) = Inr (a', us')"
          by (auto simp: idx result_simps dest!: collapsed_update_Inr)
        then show ?thesis by (intro that [of "[CollapsedUpdate a (wt_zswap_start_index i) v y]" h es]) simp_all
      next
        case False
        with first have "a = wt_zswap_start_index i" by auto
        with Cons.prems(1) nt take that [of "[]"] show ?thesis
          by (auto simp: idx result_simps)
      qed
      let ?tx = "TransactionUpdate (wt_zswap_start_index i) (wt_zswap_end_index i) (wt_protocol_version i) t h es"
      have "\<forall>u \<in> set ts. \<forall>j. u < target \<longrightarrow> tx_index_of st u = Some j \<longrightarrow>
          wt_zswap_end_index i = from_index \<or> wt_zswap_end_index i \<le> wt_zswap_start_index j"
        using later Cons.prems(2) by fastforce
      moreover have "from_index \<le> wt_zswap_end_index i" using Cons.prems(3) take by simp
      ultimately obtain new where new: "us' = (us @ gap @ [?tx]) @ new"
        "tiles (wt_zswap_end_index i) (map update_range new) a'"
        "sound st ts target new"
        "complete st ts target from_index new"
        using Cons.IH [OF rest] Cons.prems(2) by auto
      let ?new = "gap @ [?tx] @ new"
      have mono: "lists_tx st new u \<Longrightarrow> lists_tx st ?new u" for u by (auto simp: lists_tx_def)
      have here: "lists_tx st ?new t" using i(1) by (auto simp: lists_tx_def)
      have "tiles a (map update_range ?new) a'" using gap new(2) i(2) first by (auto simp: not_less)
      moreover have "sound st (t # ts) target ?new"
        unfolding sound_def
      proof (intro allI impI)
        fix b e p t' h' es' assume "TransactionUpdate b e p t' h' es' \<in> set ?new"
        then have "TransactionUpdate b e p t' h' es' = ?tx \<or> TransactionUpdate b e p t' h' es' \<in> set new"
          using gap by auto
        then show "t' \<in> set (t # ts) \<and> t' < target \<and> (\<exists>i. tx_index_of st t' = Some i
            \<and> b = wt_zswap_start_index i \<and> e = wt_zswap_end_index i \<and> p = wt_protocol_version i)"
        proof
          assume "TransactionUpdate b e p t' h' es' \<in> set new"
          with new(3) show ?thesis unfolding sound_def by (meson list.set_intros(2))
        qed (use i(1) True in simp)
      qed
      moreover have "complete st (t # ts) target from_index ?new"
        using new(4) mono here unfolding complete_def by (metis set_ConsD)
      ultimately show ?thesis using new(1) by (metis append.assoc)
    qed
  qed
qed (simp add: sound_def complete_def)


text \<open>The loop ends where it started or at the end of a relevant transaction below the target.\<close>

lemma shielded_loop_end:
  assumes "shielded_loop W st L v target rows a us = Inr (a', us')"
  shows "a' = a \<or> (\<exists>t i. t < target \<and> tx_index_of st t = Some i \<and> a' = wt_zswap_end_index i)"
  using assms
proof (induction rows arbitrary: a us)
  case (Cons e rows)
  obtain k x where e: "e = (k, x)" by (cases e)
  from Cons.prems [unfolded e] obtain t where t: "key_u64_suffix k = Inr t" by (auto simp: result_simps)
  show ?case
  proof (cases "target \<le> t")
    case False
    from Cons.prems [unfolded e] t False obtain i where
      i: "wallet_tx_index st ''missing wallet transaction index'' t = Inr i"
      by (auto simp: result_simps)
    have "\<exists>a1 us1. shielded_loop W st L v target rows a1 us1 = Inr (a', us') \<and> (a1 = a \<or> a1 = wt_zswap_end_index i)"
      using Cons.prems [unfolded e] t False i by (auto simp: result_simps split: if_splits)
    then obtain a1 us1 where "shielded_loop W st L v target rows a1 us1 = Inr (a', us')"
      and a1: "a1 = a \<or> a1 = wt_zswap_end_index i" by blast
    from Cons.IH [OF this(1)] a1 False i show ?thesis by (auto simp: wallet_tx_index_Inr not_le)
  qed (use Cons.prems e t in simp)
qed simp

lemma tx_ranges_end:
  assumes "tx_ranges_ok st target" and "t < target" and "tx_index_of st t = Some i"
    and "tx_index_of st (target - 1) = Some j"
  shows "wt_zswap_end_index i \<le> wt_zswap_end_index j"
proof (cases "t = target - 1")
  case False
  have last: "target - 1 < target" using assms(2) by unat_arith
  have "t < target - 1" using assms(2) False by unat_arith
  with last assms have "wt_zswap_end_index i \<le> wt_zswap_start_index j"
    "wt_zswap_start_index j \<le> wt_zswap_end_index j"
    unfolding tx_ranges_ok_def by fastforce+
  then show ?thesis by simp
qed (use assms in simp)

lemma relevance_rows:
  assumes "store_ok st"
  obtains ts x where "store_prefix st WalletRelevantTxs (hash_bytes vh)
      = map (\<lambda>t. (prefixed_u64_key (hash_bytes vh) t, x t)) ts"
    and "sorted_wrt (<) ts"
    and "set ts = {t. store_get st WalletRelevantTxs (wallet_relevance_key vh t) \<noteq> None}"
proof -
  let ?es = "store_prefix st WalletRelevantTxs (hash_bytes vh)"
  have len: "length k = length (hash_bytes vh) + 8"
    if "store_get st WalletRelevantTxs k = Some v" for k v
    using store_ok_entry [OF assms that] by simp
  have at: "store_get st WalletRelevantTxs k = Some v \<and> starts_with k (hash_bytes vh)"
    if "(k, v) \<in> set ?es" for k v
    using that by (simp add: in_store_prefix [OF assms])
  have "\<exists>t. key_u64_suffix k = Inr t \<and> k = prefixed_u64_key (hash_bytes vh) t" if "(k, v) \<in> set ?es" for k v
  proof -
    note entry = at [OF that]
    obtain s where k: "k = hash_bytes vh @ s" using entry by (auto simp: starts_with_iff)
    with len [of k v] entry have s: "length s = 8" by simp
    then obtain t where "u64_from_be_bytes s = Some t" by (auto simp: u64_from_be_bytes_def)
    with k s show ?thesis
      using u64c.dec_width [of s t] by (auto simp: key_u64_suffix_def prefixed_u64_key_def)
  qed
  then have "\<forall>e \<in> set ?es. \<exists>t. key_u64_suffix (fst e) = Inr t \<and> fst e = prefixed_u64_key (hash_bytes vh) t"
    by force
  then obtain t_of where "\<forall>e \<in> set ?es. key_u64_suffix (fst e) = Inr (t_of e)
      \<and> fst e = prefixed_u64_key (hash_bytes vh) (t_of e)"
    by (rule bchoice [THEN exE])
  then have t_of: "key_u64_suffix (fst e) = Inr (t_of e)"
    "fst e = prefixed_u64_key (hash_bytes vh) (t_of e)" if "e \<in> set ?es" for e
    using that by blast+
  define ts where "ts = map t_of ?es"
  define x where "x = (\<lambda>t. the (store_get st WalletRelevantTxs (prefixed_u64_key (hash_bytes vh) t)))"
  have "try_map (\<lambda>(key, _). key_u64_suffix key) ?es = Inr ts"
    unfolding ts_def by (simp add: try_map_Inr_iff list_all2_conv_all_nth case_prod_beta t_of(1))
  from prefix_scan_ids [OF assms _ this] len have ts: "sorted_wrt (<) ts"
    "set ts = {t. store_get st WalletRelevantTxs (wallet_relevance_key vh t) \<noteq> None}"
    by (auto simp: wallet_relevance_key_def prefixed_u64_key_def)
  have "e = (prefixed_u64_key (hash_bytes vh) (t_of e), x (t_of e))" if "e \<in> set ?es" for e
  proof -
    have "(fst e, snd e) \<in> set ?es" using that by simp
    from at [OF this] t_of(2) [OF that] have "store_get st WalletRelevantTxs
        (prefixed_u64_key (hash_bytes vh) (t_of e)) = Some (snd e)" by simp
    with t_of(2) [OF that] show ?thesis by (simp add: x_def prod_eq_iff)
  qed
  then have "?es = map (\<lambda>t. (prefixed_u64_key (hash_bytes vh) t, x t)) ts"
    unfolding ts_def map_map by (intro sym [OF map_idI]) (simp add: comp_def)
  then show thesis using that ts by blast
qed

text \<open>The whole response.\<close>

lemma shielded_response_tiles:
  assumes resp: "shielded_response W st vh from_index tip target = Inr r" and st: "store_ok st"
    and ranges: "tx_ranges_ok st target"
  shows "\<exists>i ts. tx_index_of st (target - 1) = Some i
    \<and> ss_highest_index (pt_results r) = wt_zswap_end_index i
    \<and> ss_applied_through (pt_results r) = wt_zswap_end_index i
    \<and> ss_scanned_transactions (pt_results r) = target
    \<and> tiles from_index (map update_range (ss_updates (pt_results r))) (wt_zswap_end_index i)
    \<and> set ts = {t. store_get st WalletRelevantTxs (wallet_relevance_key vh t) \<noteq> None}
    \<and> sound st ts target (ss_updates (pt_results r))
    \<and> complete st ts target from_index (ss_updates (pt_results r))"
proof -
  obtain ts x where rows: "store_prefix st WalletRelevantTxs (hash_bytes vh)
      = map (\<lambda>t. (prefixed_u64_key (hash_bytes vh) t, x t)) ts" and "sorted_wrt (<) ts"
    and ts: "set ts = {t. store_get st WalletRelevantTxs (wallet_relevance_key vh t) \<noteq> None}"
    by (rule relevance_rows [OF st])
  from resp obtain i L v a' us' a2 us2 where
    i: "tx_index_of st (target - 1) = Some i" and le: "\<not> wt_zswap_end_index i < from_index"
    and loop: "shielded_loop W st L v target (store_prefix st WalletRelevantTxs (hash_bytes vh)) from_index []
        = Inr (a', us')"
    and rest: "(if a' < wt_zswap_end_index i
           then and_then (collapsed_update W L v a' (wt_zswap_end_index i))
                  (\<lambda>update. Inr (wt_zswap_end_index i, us' @ [update]))
           else Inr (a', us')) = Inr (a2, us2)"
    and r: "pt_results r = \<lparr>ss_updates = us2, ss_applied_through = a2, ss_highest_index = wt_zswap_end_index i,
      ss_scanned_transactions = target\<rparr>"
    unfolding shielded_response_def Let_def
    by (auto simp: result_simps wallet_tx_index_Inr split: if_splits prod.splits)
  obtain new where new: "us' = new" "tiles from_index (map update_range new) a'" "sound st ts target new"
      "complete st ts target from_index new"
    using shielded_loop_tiles [OF loop [unfolded rows] \<open>sorted_wrt (<) ts\<close> ranges order_refl] by auto
  have le': "a' \<le> wt_zswap_end_index i"
    using shielded_loop_end [OF loop] tx_ranges_end [OF ranges _ _ i] le by (auto simp: not_less)
  have fin: "a2 = wt_zswap_end_index i \<and> tiles from_index (map update_range us2) (wt_zswap_end_index i)
    \<and> sound st ts target us2 \<and> complete st ts target from_index us2"
  proof (cases "a' < wt_zswap_end_index i")
    case True
    then obtain u where u: "us2 = new @ [CollapsedUpdate a' (wt_zswap_end_index i) v u]" "a2 = wt_zswap_end_index i"
      using rest new(1) by (auto simp: result_simps dest!: collapsed_update_Inr)
    have "lists_tx st us2 t = lists_tx st new t" for t by (auto simp: lists_tx_def u(1))
    then have "sound st ts target us2 \<and> complete st ts target from_index us2"
      using new(3,4) by (simp add: sound_def complete_def u(1))
    moreover have "tiles from_index (map update_range us2) (wt_zswap_end_index i)"
      using new(2) True by (auto simp: u(1) tiles_append)
    ultimately show ?thesis using u(2) by blast
  next
    case False
    with rest le' new show ?thesis by auto
  qed
  show ?thesis using i ts fin by (intro exI [of _ i] exI [of _ ts]) (simp add: r)
qed

end
