(* ===== verification/EventIndex.thy ===== *)
theory EventIndex
  imports BlockFacts
begin

text \<open>
  The ledger events a block appends: the event partition is numbered by the event counter, events that
  are stored never change, and the index by contract lists exactly the events of each contract. The
  event endpoints read through these facts.
\<close>

section \<open>The books of the events\<close>

definition event_of :: "Store \<Rightarrow> u64 \<Rightarrow> EventRecord option" where
  "event_of st i = Option.bind (store_get st LedgerEvents (u64_to_be_bytes i)) as_event"

text \<open>The contract index is exact: its keys are the address and the id of the events that name a
  contract address, and there are no others.\<close>

definition contract_index_ok :: "Store \<Rightarrow> bool" where
  "contract_index_ok st = (\<forall>k. store_get st EventsByContract k \<noteq> None \<longleftrightarrow>
     (\<exists>i r addr. k = prefixed_u64_key addr i \<and> event_of st i = Some r
        \<and> le_contract_address (er_event r) = Some addr))"

definition events_within :: "u64 set \<Rightarrow> u64 set \<Rightarrow> u64 \<Rightarrow> Store \<Rightarrow> bool" where
  "events_within T H next st = (\<forall>i r. event_of st i = Some r \<longrightarrow>
     er_tx_id r \<in> T \<and> er_block_height r \<in> H \<and> i < next)"

definition txs_of :: "Store \<Rightarrow> u64 set" where
  "txs_of st = {t. store_get st Txs (u64_to_be_bytes t) \<noteq> None}"

definition heights_of :: "Store \<Rightarrow> u64 set" where
  "heights_of st = {h. store_get st Blocks (u64_to_be_bytes h) \<noteq> None}"

text \<open>Every stored event belongs to a stored transaction and block; transactions and events are numbered
  below their counters.\<close>

definition event_books :: "Store \<Rightarrow> Counters \<Rightarrow> bool" where
  "event_books st ids = (contract_index_ok st
     \<and> events_within (txs_of st) (heights_of st) (next_event_id ids) st
     \<and> (\<forall>t \<in> txs_of st. t < next_tx_id ids))"

text \<open>What a client at the tip \<open>h\<close> sees of the event log is the same in both stores: the events of the
  blocks up to \<open>h\<close>, their blocks and their transactions.\<close>

definition same_history :: "u64 \<Rightarrow> Store \<Rightarrow> Store \<Rightarrow> bool" where
  "same_history h st st' = (\<forall>i r. er_block_height r \<le> h \<longrightarrow>
     (event_of st' i = Some r \<longleftrightarrow> event_of st i = Some r)
     \<and> (event_of st i = Some r \<longrightarrow>
          store_block st' (er_block_height r) = store_block st (er_block_height r)
          \<and> store_tx st' (er_tx_id r) = store_tx st (er_tx_id r)))"

definition event_inv :: "u64 set \<Rightarrow> u64 set \<Rightarrow> Store \<Rightarrow> write_state \<Rightarrow> bool" where
  "event_inv T H st ws = (contract_index_ok (commit st (ws_batch ws))
     \<and> events_within T H (next_event_id (ws_ids ws)) (commit st (ws_batch ws)))"

section \<open>One event\<close>

definition attributed :: "action_ref list \<Rightarrow> LedgerEvent \<Rightarrow> LedgerEvent" where
  "attributed refs ev = ev\<lparr>le_contract_action_id :=
     or_else (correlate_contract_action_id ev refs) (le_contract_action_id ev)\<rparr>"

lemma grows_generation:
  "grows {DustGeneration, DustGenByOwner} (ws_batch ws) (ws_batch (write_dust_generation t g ws))"
  by (simp add: write_dust_generation_def Let_def dust_gen_owner_key_def grows_intros)

lemma event_stages:
  obtains we where
    "we = ws_insert LedgerEvents (u64_to_be_bytes (next_event_id (ws_ids ws)))
       (VEvent \<lparr>er_event = attributed refs ev, er_tx_id = t, er_block_height = h\<rparr>)
       (case le_contract_address ev of
          Some address \<Rightarrow> ws_insert EventsByContract (prefixed_u64_key address (next_event_id (ws_ids ws)))
            (Raw []) (ws\<lparr>ws_ids := (ws_ids ws)\<lparr>next_event_id := next_event_id (ws_ids ws) + 1\<rparr>\<rparr>)
        | None \<Rightarrow> ws\<lparr>ws_ids := (ws_ids ws)\<lparr>next_event_id := next_event_id (ws_ids ws) + 1\<rparr>\<rparr>)"
    "grows {WalletDustEvents, DustGeneration, DustGenByOwner} (ws_batch we)
       (ws_batch (write_event t h refs ev ws))"
proof -
  define we where "we = ws_insert LedgerEvents (u64_to_be_bytes (next_event_id (ws_ids ws)))
       (VEvent \<lparr>er_event = attributed refs ev, er_tx_id = t, er_block_height = h\<rparr>)
       (case le_contract_address ev of
          Some address \<Rightarrow> ws_insert EventsByContract (prefixed_u64_key address (next_event_id (ws_ids ws)))
            (Raw []) (ws\<lparr>ws_ids := (ws_ids ws)\<lparr>next_event_id := next_event_id (ws_ids ws) + 1\<rparr>\<rparr>)
        | None \<Rightarrow> ws\<lparr>ws_ids := (ws_ids ws)\<lparr>next_event_id := next_event_id (ws_ids ws) + 1\<rparr>\<rparr>)"
  define wd where "wd = (if le_grouping ev = Dust
    then ws_insert WalletDustEvents (u64_to_be_bytes (next_event_id (ws_ids ws))) (Raw []) we else we)"
  have g: "grows {WalletDustEvents, DustGeneration, DustGenByOwner} (ws_batch we) (ws_batch wd)"
    by (auto simp: wd_def intro!: grows_intros)
  have "write_event t h refs ev ws = (case le_attributes ev of
      DustInitialUtxo _ info _ \<Rightarrow> write_dust_generation t info wd
    | DustGenerationDtimeUpdate info _ _ \<Rightarrow> write_dust_generation t info wd
    | _ \<Rightarrow> wd)"
    by (cases "le_attributes ev") (simp_all add: write_event_def Let_def wd_def we_def attributed_def)
  then have "grows {WalletDustEvents, DustGeneration, DustGenByOwner} (ws_batch we)
      (ws_batch (write_event t h refs ev ws))"
    using g grows_trans [OF g grows_mono [OF grows_generation]]
    by (cases "le_attributes ev") simp_all
  with that we_def show ?thesis by blast
qed

lemma event_view:
  "store_get (commit st (ws_batch (write_event t h refs ev ws))) LedgerEvents k
     = (if k = u64_to_be_bytes (next_event_id (ws_ids ws))
        then Some (VEvent \<lparr>er_event = attributed refs ev, er_tx_id = t, er_block_height = h\<rparr>)
        else store_get (commit st (ws_batch ws)) LedgerEvents k)"
  "store_get (commit st (ws_batch (write_event t h refs ev ws))) EventsByContract k
     = (if \<exists>address. le_contract_address ev = Some address
           \<and> k = prefixed_u64_key address (next_event_id (ws_ids ws))
        then Some (Raw []) else store_get (commit st (ws_batch ws)) EventsByContract k)"
  by (rule event_stages [of ws refs ev t h];
      cases "le_contract_address ev"; simp add: grows_view store_simps)+

lemma event_of_written:
  "event_of (commit st (ws_batch (write_event t h refs ev ws))) i
     = (if i = next_event_id (ws_ids ws)
        then Some \<lparr>er_event = attributed refs ev, er_tx_id = t, er_block_height = h\<rparr>
        else event_of (commit st (ws_batch ws)) i)"
  by (simp add: event_of_def event_view u64c.enc_inject)

lemma next_less:
  "unat (n :: u64) + 1 < 2 ^ 64 \<Longrightarrow> i < n + 1 \<longleftrightarrow> i = n \<or> i < n"
  by (simp add: word_less_nat_alt unat_word_ariths word_unat_eq_iff) auto

lemma event_inv_event:
  assumes "event_inv T H st ws" and "t \<in> T" and "h \<in> H"
    and "unat (next_event_id (ws_ids ws)) + 1 < 2 ^ 64"
  shows "event_inv T H st (write_event t h refs ev ws)"
proof -
  let ?n = "next_event_id (ws_ids ws)" and ?old = "commit st (ws_batch ws)"
  have fresh: "event_of ?old ?n = None"
    using assms(1) by (cases "event_of ?old ?n") (auto simp: event_inv_def events_within_def)
  have address: "le_contract_address (attributed refs ev) = le_contract_address ev"
    by (simp add: attributed_def)
  have "contract_index_ok (commit st (ws_batch (write_event t h refs ev ws)))"
    using assms(1) fresh
    by (simp add: event_inv_def contract_index_ok_def event_view event_of_written address)
      (metis option.distinct(1) option.inject)
  moreover have "events_within T H (?n + 1) (commit st (ws_batch (write_event t h refs ev ws)))"
    using assms(1-3) by (auto simp: event_inv_def events_within_def event_of_written next_less [OF assms(4)])
  ultimately show ?thesis by (simp add: event_inv_def)
qed

section \<open>The events of a block\<close>

text \<open>The events below a counter stay as they were, and those from it on are of one block.\<close>

definition events_extend :: "Store \<Rightarrow> u64 \<Rightarrow> u64 \<Rightarrow> Store \<Rightarrow> bool" where
  "events_extend st n h st' = (\<forall>i. if i < n then event_of st' i = event_of st i
     else \<forall>r. event_of st' i = Some r \<longrightarrow> er_block_height r = h)"

text \<open>After \<open>m\<close> events of the block at height \<open>h\<close>.\<close>

definition event_progress ::
    "u64 set \<Rightarrow> u64 set \<Rightarrow> Store \<Rightarrow> Counters \<Rightarrow> u64 \<Rightarrow> nat \<Rightarrow> write_state \<Rightarrow> bool" where
  "event_progress T H st ids h m ws = (event_inv T H st ws
     \<and> events_extend st (next_event_id ids) h (commit st (ws_batch ws))
     \<and> unat (next_event_id (ws_ids ws)) = unat (next_event_id ids) + m)"

lemma progress_event:
  assumes "event_progress T H st ids h m ws" and "t \<in> T" and "h \<in> H"
    and "unat (next_event_id ids) + Suc m < 2 ^ 64"
  shows "event_progress T H st ids h (Suc m) (write_event t h refs ev ws)"
proof -
  have n: "unat (next_event_id (ws_ids ws)) = unat (next_event_id ids) + m"
    using assms(1) by (simp add: event_progress_def)
  with assms(4) have no: "unat (next_event_id (ws_ids ws)) + 1 < 2 ^ 64" by simp
  moreover from this have "unat (next_event_id (ws_ids ws) + 1) = unat (next_event_id ids) + Suc m"
    using n by (simp add: unat_word_ariths)
  moreover have "\<not> next_event_id (ws_ids ws) < next_event_id ids" using n by (simp add: word_less_nat_alt)
  ultimately show ?thesis
    using assms(1) event_inv_event [OF _ assms(2,3) no]
    by (auto simp: event_progress_def events_extend_def event_of_written)
qed

lemma progress_events:
  assumes "event_progress T H st ids h m ws" and "t \<in> T" and "h \<in> H"
    and "unat (next_event_id ids) + m + length evs < 2 ^ 64"
  shows "event_progress T H st ids h (m + length evs) (fold (write_event t h refs) evs ws)"
  using assms(1,4)
proof (induction evs arbitrary: ws m)
  case (Cons ev evs)
  have "event_progress T H st ids h (Suc m) (write_event t h refs ev ws)"
    by (rule progress_event [OF Cons.prems(1) assms(2,3)]) (use Cons.prems(2) in simp)
  from Cons.IH [OF this] Cons.prems(2) show ?case by simp
qed simp

text \<open>Steps that write other partitions.\<close>

lemma event_of_grows:
  "grows P b b' \<Longrightarrow> LedgerEvents \<notin> P \<Longrightarrow> event_of (commit st b') i = event_of (commit st b) i"
  by (simp add: event_of_def grows_view)

lemma index_grows:
  "grows P b b' \<Longrightarrow> LedgerEvents \<notin> P \<Longrightarrow> EventsByContract \<notin> P \<Longrightarrow>
    contract_index_ok (commit st b') \<longleftrightarrow> contract_index_ok (commit st b)"
  by (simp add: contract_index_ok_def event_of_grows grows_view)

lemma progress_frame:
  assumes "event_progress T H st ids h m ws" and "grows P (ws_batch ws) (ws_batch ws')"
    and "LedgerEvents \<notin> P" and "EventsByContract \<notin> P" and "T \<subseteq> T'"
    and "next_event_id (ws_ids ws') = next_event_id (ws_ids ws)"
  shows "event_progress T' H st ids h m ws'"
  using assms(1) index_grows [OF assms(2-4), of st] assms(5,6)
  by (auto simp: event_progress_def event_inv_def events_within_def events_extend_def
      event_of_grows [OF assms(2,3)])

lemma tx_before_events:
  assumes "write_tx st block ws (index, applied) = Inr ws'"
    and "contract_actions st = ContractActionsV2"
  obtains wa refs r where
    "grows (tx_index_parts \<union> utxo_parts \<union> action_parts) (ws_batch ws) (ws_batch wa)"
    "next_event_id (ws_ids wa) = next_event_id (ws_ids ws)"
    "ws' = ws_insert Txs (u64_to_be_bytes (next_tx_id (ws_ids ws))) (VTx r)
       (fold (write_event (next_tx_id (ws_ids ws)) (b_height block) refs) (at_ledger_events applied) wa)"
proof -
  let ?t = "next_tx_id (ws_ids ws)" and ?P = "tx_index_parts \<union> utxo_parts \<union> action_parts"
  let ?wi = "write_indexes ?t applied (tx_begin ws)"
  obtain wc wsp wa action_ids we where stages:
    "wc = fold (write_created ?t) (at_created_utxos applied) ?wi"
    "try_fold (write_spent st ?t) wc (at_spent_utxos applied) = Inr wsp"
    "try_fold (write_action st ?t) (wsp, []) (at_contract_actions applied) = Inr (wa, action_ids)"
    "we = fold (write_event ?t (b_height block)
         (action_refs (at_contract_actions applied) action_ids)) (at_ledger_events applied) wa"
    "ws' = ws_insert Txs (u64_to_be_bytes ?t)
       (VTx (tx_record block index applied action_ids (next_event_id (ws_ids ws))
         (next_event_id (ws_ids we)))) we"
    using write_tx_stages [OF assms(1)] by blast
  have "grows ?P (ws_batch ws) (ws_batch ?wi)"
    using grows_mono [OF grows_indexes [of "tx_begin ws" ?t applied], of ?P] by simp
  also have "grows ?P \<dots> (ws_batch wc)"
    unfolding stages(1) by (rule grows_mono [OF grows_fold [where P = utxo_parts]])
      (auto intro: grows_intros)
  also have "grows ?P \<dots> (ws_batch wsp)"
    by (rule grows_mono [OF grows_try_fold [OF stages(2), where P = utxo_parts]])
      (auto intro: grows_spent)
  also have "grows ?P \<dots> (ws_batch wa)"
  proof -
    have "grows action_parts (ws_batch (fst (wsp, [] :: u64 list))) (ws_batch (fst (wa, action_ids)))"
      by (rule grows_try_fold [OF stages(3), where g = "\<lambda>s. ws_batch (fst s)"])
        (use grows_action assms(2) in blast)
    then have "grows action_parts (ws_batch wsp) (ws_batch wa)" by simp
    then show ?thesis by (rule grows_mono) auto
  qed
  finally have "grows ?P (ws_batch ws) (ws_batch wa)" .
  moreover have "next_event_id (ws_ids wa) = next_event_id (ws_ids ws)"
    using ids_spents [OF stages(2)] ids_actions(1) [OF stages(3)]
    by (simp add: stages(1) ids_fold [where g = ws_ids])
  ultimately show ?thesis using that stages(4,5) by blast
qed

lemma progress_tx:
  assumes "event_progress (txs_of (commit st (ws_batch ws))) H st ids (b_height block) m ws"
    and "write_tx st block ws (index, applied) = Inr ws'"
    and "contract_actions st = ContractActionsV2" and "b_height block \<in> H"
    and "unat (next_event_id ids) + m + length (at_ledger_events applied) < 2 ^ 64"
  shows "event_progress (txs_of (commit st (ws_batch ws'))) H st ids (b_height block)
    (m + length (at_ledger_events applied)) ws'"
proof -
  let ?t = "next_tx_id (ws_ids ws)" and ?h = "b_height block"
  let ?T = "txs_of (commit st (ws_batch ws))"
  obtain wa refs r where wa:
    "grows (tx_index_parts \<union> utxo_parts \<union> action_parts) (ws_batch ws) (ws_batch wa)"
    "next_event_id (ws_ids wa) = next_event_id (ws_ids ws)"
    "ws' = ws_insert Txs (u64_to_be_bytes ?t) (VTx r)
       (fold (write_event ?t ?h refs) (at_ledger_events applied) wa)"
    by (rule tx_before_events [OF assms(2,3)])
  let ?we = "fold (write_event ?t ?h refs) (at_ledger_events applied) wa"
  have "event_progress (insert ?t ?T) H st ids ?h m wa"
    by (rule progress_frame [OF assms(1) wa(1) _ _ _ wa(2)]) auto
  then have we: "event_progress (insert ?t ?T) H st ids ?h (m + length (at_ledger_events applied)) ?we"
    by (rule progress_events) (use assms(4,5) in auto)
  have g: "grows tx_parts (ws_batch ws) (ws_batch ws')" by (rule grows_tx [OF assms(2,3)])
  have "?T \<subseteq> txs_of (commit st (ws_batch ws'))"
    unfolding txs_of_def using grows_keeps [OF g, of Txs st] by blast
  moreover have "?t \<in> txs_of (commit st (ws_batch ws'))" by (simp add: txs_of_def wa(3) store_simps)
  ultimately have "insert ?t ?T \<subseteq> txs_of (commit st (ws_batch ws'))" by simp
  moreover have "grows {Txs} (ws_batch ?we) (ws_batch ws')" by (simp add: wa(3) grows_intros)
  ultimately show ?thesis by (intro progress_frame [OF we]) (auto simp: wa(3))
qed

lemma progress_txs:
  assumes "try_fold (write_tx st block) ws (enumerate n txs) = Inr ws'"
    and "event_progress (txs_of (commit st (ws_batch ws))) H st ids (b_height block) m ws"
    and "contract_actions st = ContractActionsV2" and "b_height block \<in> H"
    and "unat (next_event_id ids) + m + count_events txs < 2 ^ 64"
  shows "event_progress (txs_of (commit st (ws_batch ws'))) H st ids (b_height block)
    (m + count_events txs) ws'"
  using assms(1,2,5)
proof (induction txs arbitrary: ws n m)
  case (Cons a txs)
  then obtain w where w: "write_tx st block ws (n, a) = Inr w"
    "try_fold (write_tx st block) w (enumerate (Suc n) txs) = Inr ws'"
    by (auto simp: result_simps simp del: write_tx.simps)
  have "event_progress (txs_of (commit st (ws_batch w))) H st ids (b_height block)
      (m + length (at_ledger_events a)) w"
    by (rule progress_tx [OF Cons.prems(2) w(1) assms(3,4)]) (use Cons.prems(3) in \<open>simp add: count_events_def\<close>)
  from Cons.IH [OF w(2) this] Cons.prems(3) show ?case by (simp add: count_events_def add.assoc)
qed (simp add: count_events_def)

text \<open>Transactions are appended under new ids.\<close>

lemma txs_appended:
  assumes "try_fold (write_tx st block) ws (enumerate n txs) = Inr ws'"
    and "contract_actions st = ContractActionsV2"
    and "unat (next_tx_id (ws_ids ws)) + length txs < 2 ^ 64"
  shows "(\<forall>t < next_tx_id (ws_ids ws). store_get (commit st (ws_batch ws')) Txs (u64_to_be_bytes t)
        = store_get (commit st (ws_batch ws)) Txs (u64_to_be_bytes t))
    \<and> (\<forall>t \<in> txs_of (commit st (ws_batch ws')).
        t \<in> txs_of (commit st (ws_batch ws)) \<or> t < next_tx_id (ws_ids ws'))
    \<and> next_tx_id (ws_ids ws) \<le> next_tx_id (ws_ids ws')"
  using assms(1,3)
proof (induction txs arbitrary: ws n)
  case (Cons a txs)
  let ?t = "next_tx_id (ws_ids ws)"
  obtain w where w: "write_tx st block ws (n, a) = Inr w"
    "try_fold (write_tx st block) w (enumerate (Suc n) txs) = Inr ws'"
    using Cons.prems(1) by (auto simp: result_simps simp del: write_tx.simps)
  have next': "next_tx_id (ws_ids w) = ?t + 1" by (simp add: ids_tx [OF w(1)])
  moreover have "unat (?t + 1) = unat ?t + 1" using Cons.prems(2) by (simp add: unat_word_ariths)
  ultimately have IH: "\<forall>t < ?t + 1. store_get (commit st (ws_batch ws')) Txs (u64_to_be_bytes t)
        = store_get (commit st (ws_batch w)) Txs (u64_to_be_bytes t)"
    "\<forall>t \<in> txs_of (commit st (ws_batch ws')). t \<in> txs_of (commit st (ws_batch w)) \<or> t < next_tx_id (ws_ids ws')"
    "?t + 1 \<le> next_tx_id (ws_ids ws')"
    using Cons.IH [OF w(2)] Cons.prems(2) by simp_all
  have lt: "t < ?t \<Longrightarrow> t < ?t + 1" "?t < next_tx_id (ws_ids ws')" for t
    using IH(3) \<open>unat (?t + 1) = unat ?t + 1\<close> by (simp_all add: word_less_nat_alt word_le_nat_alt)
  have view: "store_get (commit st (ws_batch w)) Txs (u64_to_be_bytes t)
      = (if t = ?t then Some (VTx (stored_tx block n a (ws_ids ws)))
         else store_get (commit st (ws_batch ws)) Txs (u64_to_be_bytes t))" for t
    using write_tx_view(1) [OF w(1) assms(2), of "u64_to_be_bytes t"] by (simp add: u64c.enc_inject)
  show ?case
  proof (intro conjI allI impI ballI)
    show "store_get (commit st (ws_batch ws')) Txs (u64_to_be_bytes t)
        = store_get (commit st (ws_batch ws)) Txs (u64_to_be_bytes t)" if "t < ?t" for t
      using IH(1) lt(1) [OF that] order_less_imp_not_eq [OF that] by (simp add: view)
    show "t \<in> txs_of (commit st (ws_batch ws)) \<or> t < next_tx_id (ws_ids ws')"
      if "t \<in> txs_of (commit st (ws_batch ws'))" for t
      using bspec [OF IH(2) that] lt(2) by (auto simp: txs_of_def view split: if_splits)
    show "?t \<le> next_tx_id (ws_ids ws')" using lt(2) by simp
  qed
qed simp

lemma block_events:
  assumes "write_block L st block txs key window ids = Inr (st', ids')"
    and "contract_actions st = ContractActionsV2" and "event_books st ids"
    and "unat (next_event_id ids) + count_events txs < 2 ^ 64"
    and "unat (next_tx_id ids) + length txs < 2 ^ 64"
  shows "event_books st' ids' \<and> events_extend st (next_event_id ids) (b_height block) st'
    \<and> (\<forall>t < next_tx_id ids. store_tx st' t = store_tx st t)"
proof -
  let ?h = "b_height block" and ?H = "insert (b_height block) (heights_of st)"
  obtain ws b1 b2 root where s:
    "try_fold (write_tx st block) (init_write_state ids) (enumerate 0 txs) = Inr ws"
    "try_fold (write_balance st) (ws_batch ws) (ws_deltas ws) = Inr b1"
    "try_fold (apply_registration_event st (b_height block)) (fold write_addr_txs (ws_touched ws) b1)
       (b_dust_registration_events block) = Inr b2"
    "lo_serialize_root L (b_zswap_merkle_tree_root block) = Inr root"
    "st' = commit st (block_tail block (next_tx_id ids) (length txs) root (ws_ids ws)
       (push_window window (key, stored_from (ledger_version (b_protocol_version block)))) b2)"
    "ids' = ws_ids ws"
    using write_block_stages [OF assms(1)] by blast
  note g = write_block_grows [OF s(1-3) assms(2)]
  have "event_progress (txs_of (commit st (ws_batch (init_write_state ids)))) ?H st ids ?h 0
      (init_write_state ids)"
    using assms(3) by (auto simp: event_progress_def event_inv_def event_books_def events_within_def
        events_extend_def init_write_state_def)
  from progress_txs [OF s(1) this assms(2)] assms(4)
  have ws: "event_progress (txs_of (commit st (ws_batch ws))) ?H st ids ?h (count_events txs) ws"
    by simp
  let ?b = "block_tail block (next_tx_id ids) (length txs) root (ws_ids ws)
       (push_window window (key, stored_from (ledger_version (b_protocol_version block)))) b2"
  let ?P = "{Balances, AddrTxs, CnightRegistrations, Meta, Blocks, BlocksByHash}"
  have "grows ?P (ws_batch ws) b2" by (rule grows_mono [OF g(5)]) auto
  also have "grows ?P b2 ?b" by (rule grows_mono [OF grows_tail]) auto
  finally have rest: "grows ?P (ws_batch ws) ?b" .
  have same: "store_get st' Txs k = store_get (commit st (ws_batch ws)) Txs k" for k
    using grows_view [OF rest, of Txs] by (simp add: s(5))
  then have txs: "txs_of st' = txs_of (commit st (ws_batch ws))" by (simp add: txs_of_def)
  have init: "ws_ids (init_write_state ids) = ids" "ws_batch (init_write_state ids) = []"
    by (simp_all add: init_write_state_def)
  note appended = txs_appended [OF s(1) assms(2), unfolded init commit_Nil, OF assms(5)]
  have "\<forall>t \<in> txs_of st. t < next_tx_id ids" using assms(3) by (simp add: event_books_def)
  then have "\<forall>t \<in> txs_of st'. t < next_tx_id (ws_ids ws)"
    using appended unfolding txs by (meson order_less_le_trans)
  moreover have "\<forall>t < next_tx_id ids. store_tx st' t = store_tx st t"
    using appended by (simp add: store_tx_def get_decoded_def same)
  moreover have "event_of st' i = event_of (commit st (ws_batch ws)) i" for i
    using event_of_grows [OF rest] by (simp add: s(5))
  moreover have "contract_index_ok st' \<longleftrightarrow> contract_index_ok (commit st (ws_batch ws))"
    using index_grows [OF rest] by (simp add: s(5))
  moreover have heights: "?H \<subseteq> heights_of st'"
  proof -
    have "grows (tx_parts \<union> ?P) [] ?b"
      by (rule grows_trans [OF grows_mono [OF g(1)] grows_mono [OF rest]]) auto
    from grows_keeps [OF this, of Blocks st] have "heights_of st \<subseteq> heights_of st'"
      by (auto simp: heights_of_def s(5) simp flip: not_None_eq)
    moreover obtain r where "store_block st' ?h = Inr (Some r)" using block_resumes [OF assms(1,2)] by blast
    then have "?h \<in> heights_of st'"
      by (auto simp: heights_of_def store_block_def get_decoded_def split: option.splits)
    ultimately show ?thesis by simp
  qed
  moreover have "er_block_height r \<in> heights_of st'"
    if "event_of (commit st (ws_batch ws)) i = Some r" for i r
  proof -
    have "er_block_height r \<in> ?H"
      using ws that unfolding event_progress_def event_inv_def events_within_def by blast
    then show ?thesis using heights by (rule set_rev_mp)
  qed
  ultimately show ?thesis
    using ws unfolding event_books_def txs s(6)
    by (simp add: event_progress_def event_inv_def events_within_def events_extend_def)
qed

lemma below_tip:
  assumes "event_books st ids" and "event_of st i = Some r"
  shows "i < next_event_id ids" "er_tx_id r < next_tx_id ids" "er_block_height r \<in> heights_of st"
    "er_tx_id r \<in> txs_of st"
  using assms unfolding event_books_def events_within_def by auto

lemma history_kept:
  assumes "write_block L st block txs key window ids = Inr (st', ids')"
    and "contract_actions st = ContractActionsV2" and "event_books st ids"
    and "unat (next_event_id ids) + count_events txs < 2 ^ 64"
    and "unat (next_tx_id ids) + length txs < 2 ^ 64" and "h < b_height block"
  shows "same_history h st st'"
  unfolding same_history_def
proof (intro allI impI conjI)
  note ev = block_events [OF assms(1-5)]
  fix i and r :: EventRecord assume h: "er_block_height r \<le> h"
  then have ne: "er_block_height r \<noteq> b_height block" using assms(6) by auto
  have "event_of st' i = Some r \<longleftrightarrow> event_of st i = Some r" if "\<not> i < next_event_id ids"
    using ev that ne below_tip(1) [OF assms(3)] by (force simp: events_extend_def)
  moreover have "event_of st' i = event_of st i" if "i < next_event_id ids"
    using ev that by (auto simp: events_extend_def)
  ultimately show "event_of st' i = Some r \<longleftrightarrow> event_of st i = Some r"
    by (cases "i < next_event_id ids") simp_all
  assume r: "event_of st i = Some r"
  show "store_block st' (er_block_height r) = store_block st (er_block_height r)"
    using block_resumes [OF assms(1,2)] ne by blast
  show "store_tx st' (er_tx_id r) = store_tx st (er_tx_id r)"
    using ev below_tip(2) [OF assms(3) r] by blast
qed

text \<open>
  C4. The event log is append-only and its index by contract is exact. If the store's event books
  agree - the contract index lists exactly the address and id of every event that names a contract,
  every event belongs to a stored transaction and block, and both are numbered below their counters -
  then they agree after \<open>write_block\<close>; the events from before the block are unchanged, every new one
  carries the height of the block, and whoever reads the log up to a lower tip sees the same events,
  blocks and transactions as before.
\<close>

theorem write_block_event_log:
  assumes "write_block L st block txs key window ids = Inr (st', ids')"
    and "contract_actions st = ContractActionsV2" and "event_books st ids"
    and "unat (next_event_id ids) + count_events txs < 2 ^ 64"
    and "unat (next_tx_id ids) + length txs < 2 ^ 64"
  shows "event_books st' ids'
    \<and> (\<forall>i < next_event_id ids. event_of st' i = event_of st i)
    \<and> (\<forall>i r. next_event_id ids \<le> i \<longrightarrow> event_of st' i = Some r \<longrightarrow> er_block_height r = b_height block)
    \<and> (\<forall>h < b_height block. same_history h st st')"
  using block_events [OF assms] history_kept [OF assms]
  by (auto simp: events_extend_def not_less split: if_splits)

end
