(* ===== verification/DustFacts.thy ===== *)
theory DustFacts
  imports ApiWallet FeedFacts EventIndex
begin

text \<open>
  The DUST endpoints: the replay feed leaves no gap below the boundary it reports, the status picks the
  newest live registration and the newest active generation, and the capacities are the exact products
  cut at the width of their type.
\<close>

section \<open>The newest row\<close>

definition newer :: "('a \<Rightarrow> 'o :: linorder) \<Rightarrow> 'a \<Rightarrow> 'a option \<Rightarrow> 'a option" where
  "newer score y acc = (case acc of None \<Rightarrow> Some y
     | Some z \<Rightarrow> if score z \<le> score y then Some y else acc)"

lemma latest_fold:
  assumes "try_fold f acc xs = Inr r"
    and "\<And>acc x acc'. x \<in> set xs \<Longrightarrow> f acc x = Inr acc' \<Longrightarrow>
      acc' = (case row x of None \<Rightarrow> acc | Some y \<Rightarrow> newer score y acc)"
  shows "case r of None \<Rightarrow> acc = None \<and> (\<forall>x \<in> set xs. row x = None)
    | Some y \<Rightarrow> (acc = Some y \<or> (\<exists>x \<in> set xs. row x = Some y))
        \<and> (\<forall>z. acc = Some z \<or> (\<exists>x \<in> set xs. row x = Some z) \<longrightarrow> score z \<le> score y)"
  using assms
proof (induction xs arbitrary: acc)
  case (Cons x xs)
  then obtain a where a: "f acc x = Inr a" and rest: "try_fold f a xs = Inr r" by (auto simp: result_simps)
  have step: "a = (case row x of None \<Rightarrow> acc | Some y \<Rightarrow> newer score y acc)"
    using a by (intro Cons.prems(2)) simp_all
  have IH: "case r of None \<Rightarrow> a = None \<and> (\<forall>x \<in> set xs. row x = None)
    | Some y \<Rightarrow> (a = Some y \<or> (\<exists>x \<in> set xs. row x = Some y))
        \<and> (\<forall>z. a = Some z \<or> (\<exists>x \<in> set xs. row x = Some z) \<longrightarrow> score z \<le> score y)"
    by (rule Cons.IH [OF rest]) (rule Cons.prems(2), simp_all)
  show ?case
  proof (cases r)
    case None
    with IH step show ?thesis by (auto simp: newer_def split: option.splits if_splits)
  next
    case (Some y)
    show ?thesis
    proof (cases "row x")
      case None
      with IH step Some show ?thesis by auto
    next
      case row: (Some w)
      have max: "\<forall>z. a = Some z \<or> (\<exists>x \<in> set xs. row x = Some z) \<longrightarrow> score z \<le> score y"
        and origin: "a = Some y \<or> (\<exists>x \<in> set xs. row x = Some y)" using IH Some by simp_all
      have aw: "a = newer score w acc" using step row by simp
      obtain z where az: "a = Some z" "score w \<le> score z" "z = w \<or> acc = Some z"
        "\<forall>u. acc = Some u \<longrightarrow> score u \<le> score z"
        using aw by (cases acc) (auto simp: newer_def split: if_splits)
      have "score z \<le> score y" using max az(1) by blast
      then have "\<forall>u. acc = Some u \<longrightarrow> score u \<le> score y" "score w \<le> score y"
        using az by (auto intro: order_trans)
      with Some row origin max az show ?thesis by auto
    qed
  qed
qed (auto split: option.split)

text \<open>\<open>r\<close> is a newest value with the property \<open>P\<close>, or there is none.\<close>

definition newest :: "('a \<Rightarrow> bool) \<Rightarrow> ('a \<Rightarrow> 'o :: linorder) \<Rightarrow> 'a option \<Rightarrow> bool" where
  "newest P score r = (case r of None \<Rightarrow> \<forall>x. \<not> P x
     | Some y \<Rightarrow> P y \<and> (\<forall>x. P x \<longrightarrow> score x \<le> score y))"

lemma newest_fold:
  assumes "try_fold f None xs = Inr r"
    and "\<And>acc x acc'. x \<in> set xs \<Longrightarrow> f acc x = Inr acc' \<Longrightarrow>
      acc' = (case row x of None \<Rightarrow> acc | Some y \<Rightarrow> newer score y acc)"
    and "\<And>y. (\<exists>x \<in> set xs. row x = Some y) \<longleftrightarrow> P y"
  shows "newest P score r"
proof -
  have none: "(\<forall>x \<in> set xs. row x = None) \<longleftrightarrow> (\<forall>y. \<not> P y)" using assms(3) by (metis not_None_eq)
  show ?thesis
    using latest_fold [where row = row and score = score, OF assms(1,2)]
    unfolding newest_def none by (cases r) (simp_all add: assms(3))
qed

section \<open>DUST generation status\<close>

text \<open>The live registrations of a stake key: not removed, and valid or mapped to an output.\<close>

definition live_registration :: "Store \<Rightarrow> bytes \<Rightarrow> CnightRegistrationRecord \<Rightarrow> bool" where
  "live_registration st stake_key r = (\<exists>k. store_get st CnightRegistrations (stake_key @ k) = Some (VRegistration r)
     \<and> cn_removed_at_height r = None \<and> (cn_valid r \<or> cn_utxo_id r \<noteq> None))"

text \<open>The generations of an owner that do not decay.\<close>

definition active_generation :: "Store \<Rightarrow> bytes \<Rightarrow> DustGenerationInfo \<Rightarrow> bool" where
  "active_generation st owner i = (\<exists>h r. length h = 32 \<and> store_get st DustGeneration h = Some (VDustGen r)
     \<and> dr_info r = i \<and> dg_owner i = owner \<and> dg_dtime i = - 1)"

text \<open>Every generation is indexed under its owner.\<close>

definition generations_indexed :: "Store \<Rightarrow> bool" where
  "generations_indexed st = (\<forall>h r. store_get st DustGeneration h = Some (VDustGen r) \<longrightarrow>
     store_get st DustGenByOwner (dg_owner (dr_info r) @ h) \<noteq> None)"

lemma latest_registration_step:
  assumes "latest_registration acc e = Inr acc'"
  shows "acc' = (case (case as_registration (snd e) of None \<Rightarrow> None
      | Some x \<Rightarrow> if cn_removed_at_height x = None \<and> (cn_valid x \<or> cn_utxo_id x \<noteq> None) then Some x else None)
    of None \<Rightarrow> acc | Some y \<Rightarrow> newer cn_registered_at_height y acc)"
proof -
  obtain x where x: "as_registration (snd e) = Some x"
    using assms by (auto simp: latest_registration_def result_simps store_decode_def split: option.splits)
  with assms show ?thesis
    by (cases acc) (auto simp: latest_registration_def store_decode_def newer_def split: if_splits)
qed

lemma latest_generation_step:
  assumes "latest_generation st owner acc e = Inr acc'"
  shows "acc' = (case (case Option.bind (store_get st DustGeneration (drop (length (fst e) - 32) (fst e))) as_dust_gen
      of None \<Rightarrow> None
      | Some x \<Rightarrow> if dg_owner (dr_info x) = owner \<and> dg_dtime (dr_info x) = - 1 then Some (dr_info x) else None)
    of None \<Rightarrow> acc | Some y \<Rightarrow> newer dg_ctime y acc)"
proof -
  obtain v x where x: "store_get st DustGeneration (drop (length (fst e) - 32) (fst e)) = Some v"
      "as_dust_gen v = Some x"
    using assms by (auto simp: latest_generation_def Let_def result_simps get_decoded_def store_decode_def
        split: option.splits if_splits)
  with assms show ?thesis
    by (cases acc) (auto simp: latest_generation_def Let_def get_decoded_def store_decode_def newer_def
        split: if_splits)
qed

lemma registration_fold:
  assumes st: "store_ok st"
    and fold: "try_fold latest_registration None (store_prefix st CnightRegistrations key) = Inr r"
  shows "newest (live_registration st key) cn_registered_at_height r"
proof -
  let ?row = "\<lambda>e :: bytes \<times> store_value. case as_registration (snd e) of None \<Rightarrow> None
    | Some x \<Rightarrow> if cn_removed_at_height x = None \<and> (cn_valid x \<or> cn_utxo_id x \<noteq> None) then Some x else None"
  have live: "(\<exists>e \<in> set (store_prefix st CnightRegistrations key). ?row e = Some x) \<longleftrightarrow> live_registration st key x"
    for x
  proof
    assume "\<exists>e \<in> set (store_prefix st CnightRegistrations key). ?row e = Some x"
    then obtain k v where "(k, v) \<in> set (store_prefix st CnightRegistrations key)" "?row (k, v) = Some x" by auto
    then show "live_registration st key x"
      by (cases v) (auto simp: in_store_prefix [OF st] starts_with_iff live_registration_def split: if_splits)
  next
    assume "live_registration st key x"
    then obtain k where "(key @ k, VRegistration x) \<in> set (store_prefix st CnightRegistrations key)"
      "cn_removed_at_height x = None \<and> (cn_valid x \<or> cn_utxo_id x \<noteq> None)"
      by (auto simp: in_store_prefix [OF st] live_registration_def)
    then show "\<exists>e \<in> set (store_prefix st CnightRegistrations key). ?row e = Some x"
      by (intro bexI [of _ "(key @ k, VRegistration x)"]) auto
  qed
  show ?thesis
    by (rule newest_fold [where row = ?row, OF fold latest_registration_step live])
qed

lemma generation_fold:
  assumes st: "store_ok st" and idx: "generations_indexed st"
    and fold: "try_fold (latest_generation st owner) None (store_prefix st DustGenByOwner owner) = Inr r"
  shows "newest (active_generation st owner) dg_ctime r"
proof -
  let ?es = "store_prefix st DustGenByOwner owner"
  let ?hash = "\<lambda>e :: bytes \<times> store_value. drop (length (fst e) - 32) (fst e)"
  let ?row = "\<lambda>e. case Option.bind (store_get st DustGeneration (?hash e)) as_dust_gen of None \<Rightarrow> None
    | Some x \<Rightarrow> if dg_owner (dr_info x) = owner \<and> dg_dtime (dr_info x) = - 1 then Some (dr_info x) else None"
  have len: "32 \<le> length (fst e)" if "e \<in> set ?es" for e
  proof -
    have "(fst e, snd e) \<in> set ?es" using that by simp
    then show ?thesis using store_ok_entry [OF st, of DustGenByOwner "fst e" "snd e"]
      unfolding in_store_prefix [OF st] by simp
  qed
  have live: "(\<exists>e \<in> set ?es. ?row e = Some x) \<longleftrightarrow> active_generation st owner x" for x
  proof
    assume "\<exists>e \<in> set ?es. ?row e = Some x"
    then obtain e where e: "e \<in> set ?es" "?row e = Some x" by blast
    then obtain v g where g: "store_get st DustGeneration (?hash e) = Some v" "as_dust_gen v = Some g"
      "dr_info g = x" "dg_owner x = owner" "dg_dtime x = - 1"
      by (auto simp: bind_eq_Some_conv split: option.splits if_splits)
    have "length (?hash e) = 32" using len [OF e(1)] by simp
    moreover have "v = VDustGen g" using g(2) by (cases v) auto
    ultimately show "active_generation st owner x"
      unfolding active_generation_def using g by blast
  next
    assume "active_generation st owner x"
    then obtain h g where h: "length h = 32" "store_get st DustGeneration h = Some (VDustGen g)" "dr_info g = x"
      "dg_owner x = owner" "dg_dtime x = - 1"
      unfolding active_generation_def by blast
    then obtain v where "store_get st DustGenByOwner (owner @ h) = Some v"
      using idx by (auto simp: generations_indexed_def)
    then have "(owner @ h, v) \<in> set ?es" by (simp add: in_store_prefix [OF st])
    then show "\<exists>e \<in> set ?es. ?row e = Some x" by (rule bexI [rotated]) (simp add: h)
  qed
  show ?thesis
    by (rule newest_fold [where row = ?row, OF fold latest_generation_step live])
qed

section \<open>Capacities\<close>

lemma unat_saturating_mul: "unat (saturating_mul a b) = min (unat a * unat b) (2 ^ 128 - 1)"
proof -
  have "unat (- 1 :: u128) = 2 ^ 128 - 1"
    by (simp add: unsigned_minus_1_eq_mask mask_eq_exp_minus_1)
  then show ?thesis by (auto simp: saturating_mul_def unat_word_ariths)
qed

lemma dust_capacity_nat:
  assumes "dust_capacity params info tip = (rate, current, cap)"
  shows "unat rate = min (unat (dg_value info) * unat (dp_generation_decay_rate params)) (2 ^ 128 - 1)"
    and "unat cap = min (unat (dg_value info) * unat (dp_night_dust_ratio params)) (2 ^ 128 - 1)"
    and "unat current = min (min (unat rate * unat (elapsed_seconds_since
            (case tip of None \<Rightarrow> to_ms (dg_ctime info) | Some now \<Rightarrow> now) (to_ms (dg_ctime info))))
          (2 ^ 128 - 1)) (unat cap)"
proof -
  have up64: "unat (ucast x :: u128) = unat x" for x :: u64
  proof -
    have "unat x < 2 ^ LENGTH(64)" by (rule unsigned_less)
    then show ?thesis by (simp add: unsigned_ucast_eq take_bit_nat_eq_self)
  qed
  have up32: "unat (ucast x :: u128) = unat x" for x :: u32
  proof -
    have "unat x < 2 ^ LENGTH(32)" by (rule unsigned_less)
    then show ?thesis by (simp add: unsigned_ucast_eq take_bit_nat_eq_self)
  qed
  have min: "unat (min a b) = min (unat a) (unat b)" for a b :: u128 by (auto simp: min_def word_le_nat_alt)
  show "unat rate = min (unat (dg_value info) * unat (dp_generation_decay_rate params)) (2 ^ 128 - 1)"
    and "unat cap = min (unat (dg_value info) * unat (dp_night_dust_ratio params)) (2 ^ 128 - 1)"
    and "unat current = min (min (unat rate * unat (elapsed_seconds_since
            (case tip of None \<Rightarrow> to_ms (dg_ctime info) | Some now \<Rightarrow> now) (to_ms (dg_ctime info))))
          (2 ^ 128 - 1)) (unat cap)"
    using assms by (auto simp: dust_capacity_def Let_def unat_saturating_mul up64 up32 min)
qed

section \<open>The replay feed\<close>

abbreviation dust_indexed :: "Store \<Rightarrow> u64 \<Rightarrow> bool" where
  "dust_indexed st i \<equiv> store_get st WalletDustEvents (u64_to_be_bytes i) \<noteq> None"

lemma dust_event_row_Inr:
  assumes "dust_event_row V st entry = Inr e"
  shows "fst entry = u64_to_be_bytes (ev_id e)"
    and "\<exists>r. event_of st (ev_id e) = Some r \<and> event_response V st (ev_id e) r = Inr e"
proof -
  obtain i r where i: "u64_from_be_bytes (fst entry) = Some i"
      and r: "event_at st ''missing DUST event'' i = Inr r" "event_response V st i r = Inr e"
    using assms by (auto simp: dust_event_row_def result_simps)
  from r(2) have "ev_id e = i" by (auto simp: event_response_def result_simps)
  moreover have "event_of st i = Some r"
    using r(1) by (auto simp: event_at_def event_of_def get_decoded_def store_decode_def result_simps
        split: option.splits)
  moreover have "fst entry = u64_to_be_bytes i" by (rule u64c.dec_width [OF i])
  ultimately show "fst entry = u64_to_be_bytes (ev_id e)"
    "\<exists>r. event_of st (ev_id e) = Some r \<and> event_response V st (ev_id e) r = Inr e" using r(2) by auto
qed

lemma sorted_prefix_last:
  assumes "sorted_wrt (<) (map fst (xs :: ('k :: linorder \<times> 'v) list))" and "take n xs \<noteq> []"
  shows "k \<in> fst ` set (take n xs) \<longleftrightarrow> k \<in> fst ` set xs \<and> k \<le> fst (last (take n xs))"
proof -
  let ?a = "map fst (take n xs)" and ?b = "map fst (drop n xs)"
  have split: "map fst xs = ?a @ ?b" by (metis append_take_drop_id map_append)
  have sorted: "sorted_wrt (<) ?a" and across: "\<forall>x \<in> set ?a. \<forall>y \<in> set ?b. x < y"
    using assms(1) unfolding split sorted_wrt_append by blast+
  have ne: "?a \<noteq> []" and last_eq: "last ?a = fst (last (take n xs))" using assms(2) by (simp_all add: last_map)
  have top: "x \<le> last ?a" if "x \<in> set ?a" for x
  proof -
    have "?a = butlast ?a @ [last ?a]" using ne by simp
    with sorted have "\<forall>x \<in> set (butlast ?a). x < last ?a" by (metis sorted_wrt_append list.set_intros(1))
    moreover have "x \<in> set (butlast ?a) \<or> x = last ?a" using that ne
      by (metis append_butlast_last_id rotate1.simps(2) set_ConsD set_rotate1)
    ultimately show ?thesis by auto
  qed
  have "last ?a \<in> set ?a" using ne by (rule last_in_set)
  then have "last ?a < k" if "k \<in> set ?b" using that across by blast
  then have "k \<in> set ?a \<longleftrightarrow> k \<in> set (?a @ ?b) \<and> k \<le> last ?a"
    unfolding set_append Un_iff using top leD by blast
  then show ?thesis unfolding split [symmetric] last_eq by simp
qed

text \<open>The first \<open>n\<close> rows behind \<open>from\<close> are the indexed events below a boundary.\<close>

lemma dust_rows_exact:
  assumes st: "store_ok st"
    and run: "try_map (dust_event_row V st)
      (take n (store_range st WalletDustEvents (Included (u64_to_be_bytes from_id)) Unbounded)) = Inr es"
  shows "sorted_wrt (<) (map ev_id es)"
    and "length es < n \<Longrightarrow> set (map ev_id es) = {i. dust_indexed st i \<and> from_id \<le> i}"
    and "es \<noteq> [] \<Longrightarrow> set (map ev_id es) = {i. dust_indexed st i \<and> from_id \<le> i \<and> i \<le> ev_id (last es)}"
    and "length es \<le> n"
proof -
  let ?rows = "store_range st WalletDustEvents (Included (u64_to_be_bytes from_id)) Unbounded"
  have rel: "list_all2 (\<lambda>x e. dust_event_row V st x = Inr e) (take n ?rows) es"
    using run by (simp add: try_map_Inr_iff)
  then have "list_all2 (\<lambda>x e. fst x = u64_to_be_bytes (ev_id e)) (take n ?rows) es"
    by (rule list.rel_mono_strong) (use dust_event_row_Inr(1) in blast)
  then have keys: "map fst (take n ?rows) = map u64_to_be_bytes (map ev_id es)"
    by (induction rule: list_all2_induct) auto
  have sorted: "sorted_wrt (<) (map fst ?rows)" by (rule store_range_sorted [OF st])
  then have "sorted_wrt (<) (map fst (take n ?rows))" by (simp add: take_map [symmetric] sorted_wrt_take)
  then show ids: "sorted_wrt (<) (map ev_id es)"
    unfolding keys by (simp add: sorted_wrt_map u64c.enc_less_iff)
  have len: "length es = min (length ?rows) n" using list_all2_lengthD [OF rel] by simp
  then show "length es \<le> n" by simp
  have all: "u64_to_be_bytes i \<in> fst ` set ?rows \<longleftrightarrow> dust_indexed st i \<and> from_id \<le> i" for i
  proof -
    have "u64_to_be_bytes i \<in> fst ` set ?rows \<longleftrightarrow> (\<exists>v. (u64_to_be_bytes i, v) \<in> set ?rows)" by force
    also have "\<dots> \<longleftrightarrow> dust_indexed st i \<and> from_id \<le> i"
      by (simp add: in_store_range [OF st] u64c.enc_le_iff)
    finally show ?thesis .
  qed
  have listed: "i \<in> set (map ev_id es) \<longleftrightarrow> u64_to_be_bytes i \<in> fst ` set (take n ?rows)" for i
  proof -
    have "u64_to_be_bytes i \<in> fst ` set (take n ?rows) \<longleftrightarrow> u64_to_be_bytes i \<in> set (map fst (take n ?rows))"
      by simp
    also have "\<dots> \<longleftrightarrow> i \<in> set (map ev_id es)" unfolding keys by (auto simp: u64c.enc_inject)
    finally show ?thesis by simp
  qed
  show "set (map ev_id es) = {i. dust_indexed st i \<and> from_id \<le> i}" if "length es < n"
  proof -
    have "take n ?rows = ?rows" using that len by simp
    then show ?thesis using listed all by auto
  qed
  show "set (map ev_id es) = {i. dust_indexed st i \<and> from_id \<le> i \<and> i \<le> ev_id (last es)}" if ne: "es \<noteq> []"
  proof (rule set_eqI)
    fix i
    have last_key: "fst (last (take n ?rows)) = u64_to_be_bytes (ev_id (last es))"
      and rows_ne: "take n ?rows \<noteq> []"
      using keys ne by (metis last_map list.map_disc_iff, metis list.map_disc_iff)
    have split: "map fst ?rows = map fst (take n ?rows) @ map fst (drop n ?rows)"
      by (metis append_take_drop_id map_append)
    have "u64_to_be_bytes i \<in> fst ` set (take n ?rows)
        \<longleftrightarrow> u64_to_be_bytes i \<in> fst ` set ?rows \<and> u64_to_be_bytes i \<le> fst (last (take n ?rows))"
      by (rule sorted_prefix_last [OF sorted rows_ne])
    then show "i \<in> set (map ev_id es) \<longleftrightarrow> i \<in> {i. dust_indexed st i \<and> from_id \<le> i \<and> i \<le> ev_id (last es)}"
      unfolding listed all last_key by (auto simp: u64c.enc_le_iff)
  qed
qed

end
