(* ===== verification/EventFeeds.thy ===== *)
theory EventFeeds
  imports FeedFacts EventIndex
begin

text \<open>
  The event endpoints as page feeds: what \<open>/ledger/events\<close> and \<open>/contracts/{addr}/events\<close> serve to a
  client that follows the cursors, while the server may go on indexing blocks.
\<close>

section \<open>Rows by way of records\<close>

text \<open>A handler that first reads the record behind an entry, or skips it, and then renders it.\<close>

lemma rows_of_render:
  assumes "\<And>e. e \<in> set xs \<Longrightarrow> f e = and_then (g e) (\<lambda>y. case y of None \<Rightarrow> Inr None
      | Some y \<Rightarrow> and_then (h y) (\<lambda>z. Inr (Some (pos y, z))))"
    and "all_read f xs"
  shows "try_map h (rows_of g xs) = Inr (map snd (rows_of f xs))
    \<and> map fst (rows_of f xs) = map pos (rows_of g xs)"
  using assms
proof (induction xs)
  case (Cons e xs)
  have f: "f e = and_then (g e) (\<lambda>y. case y of None \<Rightarrow> Inr None
      | Some y \<Rightarrow> and_then (h y) (\<lambda>z. Inr (Some (pos y, z))))"
    by (rule Cons.prems(1)) simp
  obtain r where r: "f e = Inr r" using Cons.prems(2) by auto
  then obtain y where y: "g e = Inr y" using f by (auto simp: result_simps)
  show ?case
  proof (cases y)
    case (Some y')
    then obtain z where "h y' = Inr z" using f r y by (cases "h y'") auto
    with Some y f Cons show ?thesis by simp
  qed (use y f Cons in simp)
qed simp

lemma key_u64_suffix_iff:
  "key_u64_suffix k = Inr i \<longleftrightarrow> 8 \<le> length k \<and> k = prefixed_u64_key (take (length k - 8) k) i"
proof
  assume i: "key_u64_suffix k = Inr i"
  then have "8 \<le> length k" "u64_from_be_bytes (drop (length k - 8) k) = Some i"
    by (auto simp: key_u64_suffix_def result_simps split: if_splits)
  then show "8 \<le> length k \<and> k = prefixed_u64_key (take (length k - 8) k) i"
    using u64c.dec_width by (metis append_take_drop_id prefixed_u64_key_def)
qed (metis key_u64_suffix_prefixed)

section \<open>Rows that show records\<close>

text \<open>Lists of records by increasing id are determined by what they hold.\<close>

lemma records_unique:
  assumes "set xs = {e. P e}" and "set ys = {e. P e}"
    and "sorted_wrt (<) (map fst xs)" and "sorted_wrt (<) (map fst ys)"
    and "\<And>e. P e \<Longrightarrow> snd e = g (fst e)"
  shows "xs = (ys :: (u64 \<times> 'r) list)"
proof -
  have "zs = map (\<lambda>i. (i, g i)) (map fst zs)" if "set zs = {e. P e}" for zs
  proof (rule sym, unfold map_map, rule map_idI)
    fix e assume "e \<in> set zs"
    then show "((\<lambda>i. (i, g i)) \<circ> fst) e = e" using that assms(5) by (simp add: prod_eq_iff)
  qed
  moreover have "map fst xs = map fst ys"
    by (rule sorted_wrt_less_unique [OF assms(3,4)]) (simp add: assms(1,2))
  ultimately show ?thesis using assms(1,2) by metis
qed

definition shows_records ::
    "(u64 \<times> 'x \<Rightarrow> bool) \<Rightarrow> (u64 \<times> 'x \<Rightarrow> ApiFailure + 'r) \<Rightarrow> (bytes \<times> 'r) list \<Rightarrow> (u64 \<times> 'x) list \<Rightarrow> bool" where
  "shows_records P render rows es = (set es = {e. P e} \<and> sorted_wrt (<) (map fst es)
     \<and> try_map render es = Inr (map snd rows) \<and> map fst rows = map (\<lambda>e. u64_to_be_bytes (fst e)) es)"

lemma shows_records_unique:
  assumes "shows_records P render xs es" and "shows_records P render' ys es'"
    and "\<And>e. P e \<Longrightarrow> snd e = g (fst e)" and "\<And>e. P e \<Longrightarrow> render' e = render e"
  shows "xs = ys"
proof -
  have es: "es' = es"
    by (rule records_unique [where P = P and g = g]) (use assms(1-3) in \<open>simp_all add: shows_records_def\<close>)
  have "try_map render' es = try_map render es"
    by (rule try_map_cong) (use assms(1,4) in \<open>simp add: shows_records_def\<close>)
  then have "map snd xs = map snd ys" using assms(1,2) unfolding es by (simp add: shows_records_def)
  moreover have "map fst xs = map fst ys" using assms(1,2) unfolding es by (simp add: shows_records_def)
  ultimately show ?thesis by (intro pair_list_eqI)
qed

text \<open>What a client collects from a handler whose rows are rendered records.\<close>

context paged_handler
begin

lemma follow_records:
  assumes ok: "\<And>i. ok (fs i) a"
    and env: "\<And>i. fd_env (fs i) = fd_env (fs 0)"
      "\<And>i. ap_cursor_key (fd_state (fs i)) = ap_cursor_key (fd_state (fs 0))"
      "\<And>i. query (fs i) order = query (fs 0) order"
    and tip: "current_tip (fd_state (fs 0)) = Inr (Some a)" and n: "1 \<le> n" "n \<le> 5000"
    and recs: "\<And>i. \<exists>es. shows_records P (render i) (rows (fs i) a) es"
    and det: "\<And>e. P e \<Longrightarrow> snd e = g (fst e)" and same: "\<And>i e. P e \<Longrightarrow> render i e = render 0 e"
  shows "\<exists>es rs. set es = {e. P e} \<and> sorted_wrt (<) (map fst es) \<and> try_map (render 0) es = Inr rs
    \<and> (\<forall>fuel > length es. follow_pages fuel (\<lambda>i. serve (fs i) order n) 0 None
          = Inr (Some (in_order order rs)))"
proof -
  obtain es where es: "shows_records P (render 0) (rows (fs 0) a) es" using recs by blast
  have rows: "rows (fs i) a = rows (fs 0) a" for i
  proof -
    obtain es' where "shows_records P (render i) (rows (fs i) a) es'" using recs by blast
    from shows_records_unique [OF es this det same] show ?thesis by simp
  qed
  have "length (rows (fs 0) a) = length es"
    using es by (auto simp: shows_records_def dest: arg_cong [of _ _ length])
  then have "follow_pages fuel (\<lambda>i. serve (fs i) order n) 0 None
      = Inr (Some (in_order order (map snd (rows (fs 0) a))))" if "length es < fuel" for fuel
    using that by (intro follow_same) (rule ok rows env tip n | simp)+
  with es show ?thesis unfolding shows_records_def by blast
qed

end

section \<open>Ledger events\<close>

text \<open>The events of the log as a client at the tip \<open>h\<close> sees them.\<close>

definition in_log :: "Store \<Rightarrow> u64 \<Rightarrow> u64 \<Rightarrow> u64 \<times> EventRecord \<Rightarrow> bool" where
  "in_log st h from_id e =
     (event_of st (fst e) = Some (snd e) \<and> from_id \<le> fst e \<and> er_block_height (snd e) \<le> h)"

definition event_log_ok :: "Store \<Rightarrow> bool" where
  "event_log_ok st = (\<exists>ids. event_books st ids)"

definition events_ok :: "feed \<Rightarrow> TipAnchor \<Rightarrow> bool" where
  "events_ok f a = (feed_ok f a \<and> event_log_ok (feed_store f))"

definition event_entry :: "PageContext \<Rightarrow> bytes \<times> store_value \<Rightarrow> ApiFailure + (u64 \<times> EventRecord) option" where
  "event_entry page entry =
     and_then (ok_or (ApiPanic ''8-byte event id'') (u64_from_be_bytes (fst entry))) (\<lambda>event_id.
     and_then (db (store_decode as_event (snd entry))) (\<lambda>record.
       Inr (if above_tip page (er_block_height record) then None else Some (event_id, record))))"

lemma event_row_render:
  "ledger_event_row V st page e = and_then (event_entry page e) (\<lambda>y. case y of None \<Rightarrow> Inr None
     | Some y \<Rightarrow> and_then ((\<lambda>(i, r). event_response V st i r) y) (\<lambda>z. Inr (Some (u64_to_be_bytes (fst y), z))))"
  unfolding ledger_event_row_def event_entry_def
  by (cases "u64_from_be_bytes (fst e)"; cases "db (store_decode as_event (snd e))") simp_all

lemma event_read:
  assumes "store_ok st" and "store_get st LedgerEvents k = Some v"
  obtains i r where "k = u64_to_be_bytes i" "v = VEvent r" "event_of st i = Some r"
proof -
  have "entry_ok LedgerEvents k v" by (rule store_ok_entry [OF assms])
  then have k: "length k = 8" and v: "as_event v \<noteq> None" by simp_all
  obtain i where i: "u64_from_be_bytes k = Some i" using u64_from_be_bytes_Some [OF k] by blast
  then have "k = u64_to_be_bytes i" using u64c.dec_width [OF i] by simp
  moreover obtain r where "v = VEvent r" using v by (cases v) auto
  ultimately show ?thesis using that [of i r] assms(2) by (simp add: event_of_def)
qed

lemma block_read:
  assumes "store_ok st" and "h \<in> heights_of st"
  shows "\<exists>b. store_block st h = Inr (Some b)"
proof -
  obtain v where v: "store_get st Blocks (u64_to_be_bytes h) = Some v"
    using assms(2) by (auto simp: heights_of_def)
  then have "entry_ok Blocks (u64_to_be_bytes h) v" by (rule store_ok_entry [OF assms(1)])
  then show ?thesis using v by (auto simp: store_block_def get_decoded_def store_decode_def)
qed

lemma response_read:
  assumes "store_ok st" and "event_log_ok st" and "event_of st i = Some r"
  shows "\<exists>x. event_response V st j r = Inr x"
proof -
  have "er_block_height r \<in> heights_of st"
    using assms(2,3) below_tip(3) unfolding event_log_ok_def by blast
  then obtain b where "store_block st (er_block_height r) = Inr (Some b)"
    using block_read [OF assms(1)] by blast
  then show ?thesis by (simp add: event_response_def)
qed

lemma event_entry_at [simp]:
  "event_entry (page_at a) (u64_to_be_bytes i, VEvent r)
     = Inr (if er_block_height r > ta_height a then None else Some (i, r))"
  by (simp add: event_entry_def store_decode_def above_tip_def)

lemma position_at_simps [simp]:
  "position_at dec msg \<lparr>pc_anchor = t, pc_position = None\<rparr> = Inr None"
  "dec bs = Some p \<Longrightarrow> position_at dec msg \<lparr>pc_anchor = t, pc_position = Some bs\<rparr> = Inr (Some p)"
  by (simp_all add: position_at_def)

lemma above_tip_simps [simp]:
  "above_tip \<lparr>pc_anchor = Some a, pc_position = c\<rparr> h \<longleftrightarrow> ta_height a < h"
  by (simp add: above_tip_def)

lemma take_while_all: "(\<And>x. x \<in> set xs \<Longrightarrow> P x) \<Longrightarrow> takeWhile P xs = xs"
  by simp

abbreviation events_lo :: "feed \<Rightarrow> bound" where
  "events_lo f \<equiv> Included (u64_to_be_bytes (fd_from f))"

abbreviation events_row ::
    "feed \<Rightarrow> TipAnchor \<Rightarrow> bytes \<times> store_value \<Rightarrow> ApiFailure + (bytes \<times> EventResponse) option" where
  "events_row f a \<equiv> ledger_event_row (fd_env f) (feed_store f) (page_at a)"

lemma event_in_range:
  assumes "store_ok st" and "e \<in> set (store_range st LedgerEvents lo hi)"
  obtains i r where "e = (u64_to_be_bytes i, VEvent r)" "event_of st i = Some r"
    "above lo (u64_to_be_bytes i)" "below hi (u64_to_be_bytes i)"
proof -
  have e: "store_get st LedgerEvents (fst e) = Some (snd e)" "above lo (fst e)" "below hi (fst e)"
    using in_store_range [OF assms(1), of "fst e" "snd e"] assms(2) by simp_all
  obtain i r where "fst e = u64_to_be_bytes i" "snd e = VEvent r" "event_of st i = Some r"
    by (rule event_read [OF assms(1) e(1)])
  with e(2,3) show ?thesis by (intro that [of i r]) (simp_all add: prod_eq_iff)
qed

lemma event_row_at:
  "ledger_event_row V st (page_at a) (u64_to_be_bytes i, VEvent r)
     = (if er_block_height r > ta_height a then Inr None
        else and_then (event_response V st i r) (\<lambda>z. Inr (Some (u64_to_be_bytes i, z))))"
  by (simp add: event_row_render)

lemma event_row_any_page:
  "ledger_event_row V st \<lparr>pc_anchor = Some a, pc_position = Some p\<rparr> = ledger_event_row V st (page_at a)"
  by (simp add: ledger_event_row_def fun_eq_iff)

interpretation events_feed: range_handler events_ok LedgerEvents events_lo "\<lambda>f. Unbounded" events_row
  "\<lambda>f p. p" "\<lambda>f. ledger_events_query (fd_from f)"
  "\<lambda>f order n page. ledger_events_fetch (fd_env f) (feed_store f) (fd_from f) order n page"
proof
  fix f :: feed and a order n and c :: "bytes option"
  assume ok: "events_ok f a"
  let ?st = "feed_store f" and ?xs = "store_range (feed_store f) LedgerEvents (events_lo f) Unbounded"
  have st: "store_ok ?st" and log: "event_log_ok ?st"
    using ok by (simp_all add: events_ok_def feed_ok_def)
  show "feed_ok f a" using ok by (simp add: events_ok_def)
  show "all_read (events_row f a) ?xs"
    unfolding all_read_def
  proof
    fix e assume "e \<in> set ?xs"
    then obtain i r where e: "e = (u64_to_be_bytes i, VEvent r)" "event_of ?st i = Some r"
      by (rule event_in_range [OF st])
    obtain x where "event_response (fd_env f) ?st i r = Inr x" using response_read [OF st log e(2)] by blast
    then show "\<exists>r. events_row f a e = Inr r" by (simp add: e(1) event_row_at)
  qed
  have pos: "\<exists>i. fst e = u64_to_be_bytes i \<and> fst r = u64_to_be_bytes i"
    if e: "e \<in> set ?xs" and r: "events_row f a e = Inr (Some r)" for e r
  proof -
    obtain i x where "e = (u64_to_be_bytes i, VEvent x)" by (rule event_in_range [OF st e])
    with r show ?thesis by (auto simp: event_row_at result_simps split: if_splits)
  qed
  show "fst e = fst r \<and> length (fst r) \<le> 400"
    if "e \<in> set ?xs" "events_row f a e = Inr (Some r)" for e r
    using pos [OF that] by auto
  assume seen: "\<And>p. c = Some p \<Longrightarrow> \<exists>e \<in> set ?xs. \<exists>r. events_row f a e = Inr (Some (p, r))"
  have "c = None \<or> (\<exists>i. c = Some (u64_to_be_bytes i))"
  proof (cases c)
    case (Some p)
    from seen [OF this] obtain e r where "e \<in> set ?xs" "events_row f a e = Inr (Some (p, r))" by blast
    from pos [OF this] Some show ?thesis by auto
  qed simp
  then show "ledger_events_fetch (fd_env f) ?st (fd_from f) order n \<lparr>pc_anchor = Some a, pc_position = c\<rparr>
      = collect_page n (events_row f a) (ordered_range ?st LedgerEvents order
          (cursor_bounds order (map_option (\<lambda>p. p) c) (events_lo f) Unbounded))"
    by (elim disjE exE) (simp_all add: ledger_events_fetch_def event_row_any_page)
qed simp

lemma events_visible:
  assumes "events_ok f a"
  shows "\<exists>es. shows_records (in_log (feed_store f) (ta_height a) (fd_from f))
    (\<lambda>(i, r). event_response (fd_env f) (feed_store f) i r) (events_feed.visible f a) es"
proof -
  let ?st = "feed_store f" and ?xs = "store_range (feed_store f) LedgerEvents (events_lo f) Unbounded"
  let ?es = "rows_of (event_entry (page_at a)) ?xs"
  have st: "store_ok ?st" using assms by (simp add: events_ok_def feed_ok_def)
  have "e \<in> set ?es \<longleftrightarrow> in_log ?st (ta_height a) (fd_from f) e" for e
  proof
    assume "e \<in> set ?es"
    then obtain x where x: "x \<in> set ?xs" "event_entry (page_at a) x = Inr (Some e)" by (auto simp: in_rows_of)
    obtain i r where i: "x = (u64_to_be_bytes i, VEvent r)" "event_of ?st i = Some r"
      "above (events_lo f) (u64_to_be_bytes i)"
      by (rule event_in_range [OF st x(1)])
    then have "e = (i, r)" "\<not> ta_height a < er_block_height r" using x(2) by (auto split: if_splits)
    then show "in_log ?st (ta_height a) (fd_from f) e"
      using i(2,3) by (simp add: in_log_def u64c.enc_le_iff)
  next
    assume e: "in_log ?st (ta_height a) (fd_from f) e"
    then obtain v where v: "store_get ?st LedgerEvents (u64_to_be_bytes (fst e)) = Some v" "as_event v = Some (snd e)"
      by (auto simp: in_log_def event_of_def bind_eq_Some_conv)
    then have "(u64_to_be_bytes (fst e), v) \<in> set ?xs"
      using e by (simp add: in_store_range [OF st] in_log_def u64c.enc_le_iff)
    moreover have "v = VEvent (snd e)" using v(2) by (cases v) auto
    ultimately show "e \<in> set ?es"
      using e by (auto simp: in_rows_of in_log_def intro!: bexI [of _ "(u64_to_be_bytes (fst e), v)"])
  qed
  then have "set ?es = {e. in_log ?st (ta_height a) (fd_from f) e}" by blast
  moreover have "sorted_wrt (<) (map fst ?es)"
  proof (rule rows_of_sorted [OF store_range_sorted [OF st]])
    fix e e' q q' r r'
    assume e: "e \<in> set ?xs" "e' \<in> set ?xs" "event_entry (page_at a) e = Inr (Some (q, r))"
      "event_entry (page_at a) e' = Inr (Some (q', r'))" "fst e < fst e'"
    obtain i x where "e = (u64_to_be_bytes i, VEvent x)" by (rule event_in_range [OF st e(1)])
    moreover obtain j y where "e' = (u64_to_be_bytes j, VEvent y)" by (rule event_in_range [OF st e(2)])
    ultimately show "q < q'" using e(3-5) by (simp add: u64c.enc_less_iff split: if_splits)
  qed
  moreover have "try_map (\<lambda>(i, r). event_response (fd_env f) ?st i r) ?es = Inr (map snd (rows_of (events_row f a) ?xs))
      \<and> map fst (rows_of (events_row f a) ?xs) = map (\<lambda>e. u64_to_be_bytes (fst e)) ?es"
    by (rule rows_of_render [OF event_row_render events_feed.readable [OF assms]])
  ultimately show ?thesis unfolding shows_records_def events_feed.visible_def by blast
qed

section \<open>Clients that follow the cursors\<close>

lemma ledger_events_serve:
  "ledger_events V s from_id (pagination_of order n token)
     = events_feed.serve (feed_at V s [] from_id) order n token"
  by (simp add: ledger_events_def events_feed.serve_def run_page_def pagination_of_def Let_def)

lemma in_log_same: "same_history h st st' \<Longrightarrow> in_log st' h from_id = in_log st h from_id"
  by (auto simp: same_history_def in_log_def fun_eq_iff)

lemma in_log_history:
  assumes "same_history h st st'" and "in_log st h from_id e"
  shows "store_block st' (er_block_height (snd e)) = store_block st (er_block_height (snd e))"
    "store_tx st' (er_tx_id (snd e)) = store_tx st (er_tx_id (snd e))"
  using assms unfolding same_history_def in_log_def by blast+

lemma ledger_events_follow:
  assumes "serving V S a"
    and "\<forall>i. event_log_ok (ap_store (S i)) \<and> same_history (ta_height a) (ap_store (S 0)) (ap_store (S i))"
    and "1 \<le> n" and "n \<le> 5000"
  shows "\<exists>es rs. set es = {e. in_log (ap_store (S 0)) (ta_height a) from_id e}
    \<and> sorted_wrt (<) (map fst es)
    \<and> try_map (\<lambda>(i, r). event_response V (ap_store (S 0)) i r) es = Inr rs
    \<and> (\<forall>fuel > length es.
          follow_pages fuel (\<lambda>i token. ledger_events V (S i) from_id (pagination_of order n token)) 0 None
            = Inr (Some (in_order order rs)))"
  unfolding ledger_events_serve
proof (rule events_feed.follow_records [where fs = "\<lambda>i. feed_at V (S i) [] from_id" and a = a
      and render = "\<lambda>k (i, r). event_response V (ap_store (S k)) i r" and g = "\<lambda>i. the (event_of (ap_store (S 0)) i)"])
  fix k
  show ok: "events_ok (feed_at V (S k) [] from_id) a"
    using serving_simps(1) [OF assms(1)] assms(2) by (simp add: events_ok_def)
  have "in_log (ap_store (S k)) (ta_height a) from_id = in_log (ap_store (S 0)) (ta_height a) from_id"
    using assms(2) by (intro in_log_same) simp
  with events_visible [OF ok] show "\<exists>es. shows_records (in_log (ap_store (S 0)) (ta_height a) from_id)
      (\<lambda>(i, r). event_response V (ap_store (S k)) i r)
      (events_feed.visible (feed_at V (S k) [] from_id) a) es" by simp
  show "(case e of (i, r) \<Rightarrow> event_response V (ap_store (S k)) i r)
      = (case e of (i, r) \<Rightarrow> event_response V (ap_store (S 0)) i r)"
    if "in_log (ap_store (S 0)) (ta_height a) from_id e" for e
    using in_log_history(1) [OF _ that, of "ap_store (S k)"] assms(2)
    by (cases e) (simp add: event_response_def)
qed (use serving_simps(3,4) [OF assms(1)] assms(3,4) in \<open>simp_all add: in_log_def\<close>)

section \<open>Contract events\<close>

definition in_contract :: "Store \<Rightarrow> u64 \<Rightarrow> u64 \<Rightarrow> bytes \<Rightarrow> u64 \<times> EventRecord \<Rightarrow> bool" where
  "in_contract st h from_id address e =
     (in_log st h from_id e \<and> le_contract_address (er_event (snd e)) = Some address)"

text \<open>The address of a request; the feed of a malformed one has no rows to serve.\<close>

definition feed_address :: "feed \<Rightarrow> bytes" where
  "feed_address f = (case parse_contract_addr (fd_env f) (fd_path f) of Inr a \<Rightarrow> a | Inl _ \<Rightarrow> [])"

definition contract_entry ::
    "Store \<Rightarrow> bytes \<Rightarrow> PageContext \<Rightarrow> bytes \<times> store_value \<Rightarrow> ApiFailure + (u64 \<times> EventRecord) option" where
  "contract_entry st address page entry =
     and_then (db (key_u64_suffix (fst entry))) (\<lambda>event_id.
     and_then (event_at st ''missing event record'' event_id) (\<lambda>record.
       Inr (if le_contract_address (er_event record) \<noteq> Some address \<or> above_tip page (er_block_height record)
            then None else Some (event_id, record))))"

abbreviation contract_lo :: "feed \<Rightarrow> bound" where
  "contract_lo f \<equiv> Included (prefixed_u64_key (feed_address f) (fd_from f))"

abbreviation contract_hi :: "feed \<Rightarrow> bound" where
  "contract_hi f \<equiv> prefix_upper (feed_address f)"

abbreviation contract_row_of ::
    "feed \<Rightarrow> TipAnchor \<Rightarrow> bytes \<times> store_value \<Rightarrow> ApiFailure + (bytes \<times> ContractEventResponse) option" where
  "contract_row_of f a \<equiv> contract_event_row (fd_env f) (feed_store f) (feed_address f) (page_at a)"

lemma contract_row_render:
  "contract_event_row V st address page e = and_then (contract_entry st address page e)
     (\<lambda>y. case y of None \<Rightarrow> Inr None
      | Some y \<Rightarrow> and_then ((\<lambda>(i, r). contract_event_response V st address i r) y)
          (\<lambda>z. Inr (Some (u64_to_be_bytes (fst y), z))))"
proof (cases "db (key_u64_suffix (fst e))")
  case (Inr i)
  then show ?thesis
    by (cases "event_at st ''missing event record'' i")
      (simp_all add: contract_event_row_def contract_entry_def)
qed (simp add: contract_event_row_def contract_entry_def)

lemma starts_with_bounds: "starts_with k p \<longleftrightarrow> p \<le> k \<and> below (prefix_upper p) k"
  using prefix_le prefix_end_above prefix_end_below [of p k]
  by (cases "prefix_end p") (auto simp: prefix_upper_def)

lemma in_prefix_range:
  assumes "store_ok st" and "(k, v) \<in> set (store_range st p (Included (pre @ s)) (prefix_upper pre))"
  shows "\<exists>t. k = pre @ t \<and> s \<le> t"
proof -
  have k: "pre @ s \<le> k" "below (prefix_upper pre) k"
    using in_store_range [OF assms(1)] assms(2) by simp_all
  then have "starts_with k pre"
    unfolding starts_with_bounds using list_le_prefix [of pre s] by (auto intro: order_trans)
  then obtain t where "k = pre @ t" by (auto simp: starts_with_iff)
  with k(1) list_le_append_same_length [of pre pre s t] show ?thesis by simp
qed

text \<open>Every key of a scan behind a cursor still starts with the address.\<close>

lemma in_cursor_range:
  assumes "store_ok st"
    and "e \<in> set (ordered_range st p order (cursor_bounds order (map_option (\<lambda>q. pre @ q) c)
      (Included (pre @ s)) (prefix_upper pre)))"
  shows "starts_with (fst e) pre"
proof -
  let ?b = "cursor_bounds order (map_option (\<lambda>q. pre @ q) c) (Included (pre @ s)) (prefix_upper pre)"
  have "e \<in> set (store_range st p (fst ?b) (snd ?b))"
    using assms(2) by (cases order) (simp_all add: ordered_range_def)
  then have e: "above (fst ?b) (fst e)" "below (snd ?b) (fst e)"
    using in_store_range [OF assms(1), of "fst e" "snd e"] by simp_all
  have pre: "pre \<le> pre @ t" for t by (rule list_le_prefix)
  have upper: "below (prefix_upper pre) (pre @ t)" for t
    using starts_with_bounds [of "pre @ t" pre] by simp
  have "pre \<le> fst e"
    using e(1) pre by (cases order; cases c) (auto intro: order_trans dest: order_less_imp_le)
  moreover have "below (prefix_upper pre) (fst e)"
    using e(2) upper by (cases order; cases c) (auto intro: below_trans)
  ultimately show ?thesis by (simp add: starts_with_bounds)
qed

lemma event_at_of: "event_of st i = Some r \<Longrightarrow> event_at st msg i = Inr r"
  by (auto simp: event_of_def event_at_def get_decoded_def store_decode_def bind_eq_Some_conv)

lemma tx_read:
  assumes "store_ok st" and "t \<in> txs_of st"
  shows "\<exists>x. store_tx st t = Inr (Some x)"
proof -
  obtain v where v: "store_get st Txs (u64_to_be_bytes t) = Some v"
    using assms(2) by (auto simp: txs_of_def)
  then have "entry_ok Txs (u64_to_be_bytes t) v" by (rule store_ok_entry [OF assms(1)])
  then show ?thesis using v by (auto simp: store_tx_def get_decoded_def store_decode_def)
qed

lemma contract_response_read:
  assumes "store_ok st" and "event_log_ok st" and "event_of st i = Some r"
  shows "\<exists>x. contract_event_response V st address j r = Inr x"
proof -
  have "er_tx_id r \<in> txs_of st"
    using assms(2,3) below_tip(4) unfolding event_log_ok_def by blast
  then obtain x where "store_tx st (er_tx_id r) = Inr (Some x)" using tx_read [OF assms(1)] by blast
  then show ?thesis by (simp add: contract_event_response_def)
qed

lemma contract_entry_at:
  assumes "event_of st i = Some r" and "le_contract_address (er_event r) = Some address'"
  shows "contract_entry st address (page_at a) (prefixed_u64_key pre i, v)
    = Inr (if address' \<noteq> address \<or> er_block_height r > ta_height a then None else Some (i, r))"
  using assms by (simp add: contract_entry_def event_at_of)

lemma contract_in_range:
  assumes "store_ok st" and "event_log_ok st" and "e \<in> set (store_range st EventsByContract lo hi)"
  obtains i r address v where "e = (prefixed_u64_key address i, v)" "event_of st i = Some r"
    "le_contract_address (er_event r) = Some address"
    "above lo (prefixed_u64_key address i)" "below hi (prefixed_u64_key address i)"
proof -
  have e: "store_get st EventsByContract (fst e) \<noteq> None" "above lo (fst e)" "below hi (fst e)"
    using in_store_range [OF assms(1), of "fst e" "snd e"] assms(3) by simp_all
  have "contract_index_ok st" using assms(2) by (auto simp: event_log_ok_def event_books_def)
  with e(1) obtain i r address where "fst e = prefixed_u64_key address i" "event_of st i = Some r"
    "le_contract_address (er_event r) = Some address"
    unfolding contract_index_ok_def by blast
  with e(2,3) show ?thesis by (intro that [of address i "snd e" r]) (simp_all add: prod_eq_iff)
qed

lemma contract_row_any_page:
  "contract_event_row V st address \<lparr>pc_anchor = Some a, pc_position = Some p\<rparr>
     = contract_event_row V st address (page_at a)"
  by (simp add: contract_event_row_def fun_eq_iff cong: if_cong)

definition contract_events_ok :: "feed \<Rightarrow> TipAnchor \<Rightarrow> bool" where
  "contract_events_ok f a = (feed_ok f a \<and> event_log_ok (feed_store f))"

interpretation contract_feed: range_handler contract_events_ok EventsByContract contract_lo contract_hi
  contract_row_of "\<lambda>f p. feed_address f @ p"
  "\<lambda>f. contract_events_query (feed_address f) (fd_from f)"
  "\<lambda>f order n page. contract_events_fetch (fd_env f) (feed_store f) (feed_address f) (fd_from f) order n page"
proof
  fix f :: feed and a order n and c :: "bytes option"
  assume ok: "contract_events_ok f a"
  let ?st = "feed_store f" and ?addr = "feed_address f"
  let ?xs = "store_range (feed_store f) EventsByContract (contract_lo f) (contract_hi f)"
  have st: "store_ok ?st" and log: "event_log_ok ?st"
    using ok by (simp_all add: contract_events_ok_def feed_ok_def)
  show "feed_ok f a" using ok by (simp add: contract_events_ok_def)
  show "all_read (contract_row_of f a) ?xs"
    unfolding all_read_def
  proof
    fix e assume "e \<in> set ?xs"
    then obtain i r address v where e: "e = (prefixed_u64_key address i, v)" "event_of ?st i = Some r"
      "le_contract_address (er_event r) = Some address"
      by (rule contract_in_range [OF st log])
    obtain x where "contract_event_response (fd_env f) ?st ?addr i r = Inr x"
      using contract_response_read [OF st log e(2)] by blast
    then show "\<exists>r. contract_row_of f a e = Inr r"
      by (simp add: e(1) contract_row_render contract_entry_at [OF e(2,3)])
  qed
  have pos: "\<exists>i. fst e = prefixed_u64_key ?addr i \<and> fst r = u64_to_be_bytes i"
    if e: "e \<in> set ?xs" and r: "contract_row_of f a e = Inr (Some r)" for e r
  proof -
    obtain i x address v where "e = (prefixed_u64_key address i, v)" "event_of ?st i = Some x"
      "le_contract_address (er_event x) = Some address"
      by (rule contract_in_range [OF st log e])
    with r show ?thesis
      by (auto simp: contract_row_render contract_entry_at result_simps split: if_splits)
  qed
  show "fst e = ?addr @ fst r \<and> length (fst r) \<le> 400"
    if "e \<in> set ?xs" "contract_row_of f a e = Inr (Some r)" for e r
    using pos [OF that] by (auto simp: prefixed_u64_key_def)
  assume seen: "\<And>p. c = Some p \<Longrightarrow> \<exists>e \<in> set ?xs. \<exists>r. contract_row_of f a e = Inr (Some (p, r))"
  have c: "c = None \<or> (\<exists>i. c = Some (u64_to_be_bytes i))"
  proof (cases c)
    case (Some p)
    from seen [OF this] obtain e r where "e \<in> set ?xs" "contract_row_of f a e = Inr (Some (p, r))" by blast
    from pos [OF this] Some show ?thesis by auto
  qed simp
  let ?ys = "ordered_range ?st EventsByContract order (cursor_bounds order (map_option (\<lambda>p. ?addr @ p) c)
      (contract_lo f) (contract_hi f))"
  have "contract_events_fetch (fd_env f) ?st ?addr (fd_from f) order n \<lparr>pc_anchor = Some a, pc_position = c\<rparr>
      = collect_page n (contract_row_of f a) (takeWhile (\<lambda>(key, _). starts_with key ?addr) ?ys)"
    using c by (elim disjE exE)
      (simp_all add: contract_events_fetch_def contract_row_any_page flip: prefixed_u64_key_def)
  also have "takeWhile (\<lambda>(key, _). starts_with key ?addr) ?ys = ?ys"
    using in_cursor_range [OF st, of _ EventsByContract order ?addr c "u64_to_be_bytes (fd_from f)"]
    by (intro take_while_all) (auto simp: prefixed_u64_key_def)
  finally show "contract_events_fetch (fd_env f) ?st ?addr (fd_from f) order n \<lparr>pc_anchor = Some a, pc_position = c\<rparr>
      = collect_page n (contract_row_of f a) ?ys" .
qed (simp add: list_less_append_same_length)

lemma contract_visible:
  assumes "contract_events_ok f a"
  shows "\<exists>es. shows_records (in_contract (feed_store f) (ta_height a) (fd_from f) (feed_address f))
    (\<lambda>(i, r). contract_event_response (fd_env f) (feed_store f) (feed_address f) i r)
    (contract_feed.visible f a) es"
proof -
  let ?st = "feed_store f" and ?addr = "feed_address f"
  let ?xs = "store_range (feed_store f) EventsByContract (contract_lo f) (contract_hi f)"
  let ?es = "rows_of (contract_entry ?st ?addr (page_at a)) ?xs"
  have st: "store_ok ?st" and log: "event_log_ok ?st"
    using assms by (simp_all add: contract_events_ok_def feed_ok_def)
  have entry: "fst e = prefixed_u64_key ?addr i \<and> in_contract ?st (ta_height a) (fd_from f) ?addr (i, r)"
    if e: "e \<in> set ?xs" "contract_entry ?st ?addr (page_at a) e = Inr (Some (i, r))" for e i r
  proof -
    obtain j x address v where x: "e = (prefixed_u64_key address j, v)" "event_of ?st j = Some x"
      "le_contract_address (er_event x) = Some address" "above (contract_lo f) (prefixed_u64_key address j)"
      by (rule contract_in_range [OF st log e(1)])
    then have "address = ?addr" "i = j" "r = x" "er_block_height x \<le> ta_height a"
      using e(2) by (auto simp: contract_entry_at split: if_splits)
    with x show ?thesis
      by (simp add: in_contract_def in_log_def prefixed_u64_key_def list_le_append_same_length u64c.enc_le_iff)
  qed
  have "e \<in> set ?es \<longleftrightarrow> in_contract ?st (ta_height a) (fd_from f) ?addr e" for e
  proof
    assume "e \<in> set ?es"
    then show "in_contract ?st (ta_height a) (fd_from f) ?addr e"
      using entry [of _ "fst e" "snd e"] by (auto simp: in_rows_of)
  next
    assume e: "in_contract ?st (ta_height a) (fd_from f) ?addr e"
    let ?k = "prefixed_u64_key ?addr (fst e)"
    have ev: "event_of ?st (fst e) = Some (snd e)" "le_contract_address (er_event (snd e)) = Some ?addr"
      using e by (simp_all add: in_contract_def in_log_def)
    have "contract_index_ok ?st" using log by (auto simp: event_log_ok_def event_books_def)
    then obtain v where "store_get ?st EventsByContract ?k = Some v"
      using ev unfolding contract_index_ok_def by blast
    moreover have "above (contract_lo f) ?k"
      using e by (simp add: in_contract_def in_log_def prefixed_u64_key_def list_le_append_same_length u64c.enc_le_iff)
    moreover have "below (contract_hi f) ?k"
      using starts_with_bounds [of ?k ?addr] by (simp add: prefixed_u64_key_def)
    ultimately have "(?k, v) \<in> set ?xs" by (simp add: in_store_range [OF st])
    moreover have "contract_entry ?st ?addr (page_at a) (?k, v) = Inr (Some e)"
      using e contract_entry_at [OF ev, of ?addr a ?addr v] by (simp add: in_contract_def in_log_def not_less)
    ultimately show "e \<in> set ?es" by (auto simp: in_rows_of)
  qed
  then have "set ?es = {e. in_contract ?st (ta_height a) (fd_from f) ?addr e}" by blast
  moreover have "sorted_wrt (<) (map fst ?es)"
  proof (rule rows_of_sorted [OF store_range_sorted [OF st]])
    fix e e' q q' r r'
    assume "e \<in> set ?xs" "e' \<in> set ?xs" "contract_entry ?st ?addr (page_at a) e = Inr (Some (q, r))"
      "contract_entry ?st ?addr (page_at a) e' = Inr (Some (q', r'))" "fst e < fst e'"
    with entry [of e q r] entry [of e' q' r'] show "q < q'"
      by (simp add: prefixed_u64_key_def u64c.prefix_key_less_iff)
  qed
  moreover have "try_map (\<lambda>(i, r). contract_event_response (fd_env f) ?st ?addr i r) ?es
        = Inr (map snd (rows_of (contract_row_of f a) ?xs))
      \<and> map fst (rows_of (contract_row_of f a) ?xs) = map (\<lambda>e. u64_to_be_bytes (fst e)) ?es"
    by (rule rows_of_render [OF contract_row_render contract_feed.readable [OF assms]])
  ultimately show ?thesis unfolding shows_records_def contract_feed.visible_def by blast
qed

lemma contract_events_serve:
  assumes "parse_contract_addr V path = Inr address"
  shows "contract_events V s path from_id (pagination_of order n token)
     = contract_feed.serve (feed_at V s path from_id) order n token"
proof -
  have "feed_address (feed_at V s path from_id) = address" by (simp add: assms feed_address_def)
  with assms show ?thesis
    by (simp add: contract_events_def contract_feed.serve_def run_page_def pagination_of_def Let_def)
qed

lemma contract_events_follow:
  assumes "serving V S a" and "parse_contract_addr V path = Inr address"
    and "\<forall>i. event_log_ok (ap_store (S i)) \<and> same_history (ta_height a) (ap_store (S 0)) (ap_store (S i))"
    and "1 \<le> n" and "n \<le> 5000"
  shows "\<exists>es rs. set es = {e. in_contract (ap_store (S 0)) (ta_height a) from_id address e}
    \<and> sorted_wrt (<) (map fst es)
    \<and> try_map (\<lambda>(i, r). contract_event_response V (ap_store (S 0)) address i r) es = Inr rs
    \<and> (\<forall>fuel > length es.
          follow_pages fuel (\<lambda>i token. contract_events V (S i) path from_id (pagination_of order n token)) 0 None
            = Inr (Some (in_order order rs)))"
  unfolding contract_events_serve [OF assms(2)]
proof (rule contract_feed.follow_records [where fs = "\<lambda>i. feed_at V (S i) path from_id" and a = a
      and render = "\<lambda>k (i, r). contract_event_response V (ap_store (S k)) address i r"
      and g = "\<lambda>i. the (event_of (ap_store (S 0)) i)"])
  fix k
  have addr: "feed_address (feed_at V (S k) path from_id) = address" by (simp add: feed_address_def assms(2))
  show ok: "contract_events_ok (feed_at V (S k) path from_id) a"
    using serving_simps(1) [OF assms(1)] assms(3) by (simp add: contract_events_ok_def)
  have "in_contract (ap_store (S k)) (ta_height a) from_id address
      = in_contract (ap_store (S 0)) (ta_height a) from_id address"
    using assms(3) in_log_same [of "ta_height a" "ap_store (S 0)" "ap_store (S k)" from_id]
    by (simp add: in_contract_def fun_eq_iff)
  with contract_visible [OF ok] show "\<exists>es. shows_records (in_contract (ap_store (S 0)) (ta_height a) from_id address)
      (\<lambda>(i, r). contract_event_response V (ap_store (S k)) address i r)
      (contract_feed.visible (feed_at V (S k) path from_id) a) es" by (simp add: addr)
  show "(case e of (i, r) \<Rightarrow> contract_event_response V (ap_store (S k)) address i r)
      = (case e of (i, r) \<Rightarrow> contract_event_response V (ap_store (S 0)) address i r)"
    if "in_contract (ap_store (S 0)) (ta_height a) from_id address e" for e
    using in_log_history(2) [of "ta_height a" "ap_store (S 0)" "ap_store (S k)" from_id e] assms(3) that
    by (cases e) (simp add: contract_event_response_def in_contract_def)
qed (use serving_simps(3,4) [OF assms(1)] assms(2,4,5) in
    \<open>simp_all add: in_contract_def in_log_def feed_address_def\<close>)

end
