(* ===== verification/AddressFeeds.thy ===== *)
theory AddressFeeds
  imports EventFeeds
begin

text \<open>
  The address endpoints as page feeds: the unspent outputs of an owner, which are exactly those of the
  abstract UTXO set and add up to the stored balances, and the transactions that touched an address.
\<close>

section \<open>Unspent outputs\<close>

definition wants_token :: "api_env \<Rightarrow> string option \<Rightarrow> hash32 \<Rightarrow> bool" where
  "wants_token V token t = (case token of None \<Rightarrow> True
     | Some s \<Rightarrow> Option.bind (en_hex_decode V s) hash_of_bytes = Some t)"

text \<open>The unspent outputs an owner has of the tokens asked for.\<close>

definition owned :: "api_env \<Rightarrow> Store \<Rightarrow> hash32 \<Rightarrow> string option \<Rightarrow> UnshieldedUtxo \<Rightarrow> bool" where
  "owned V st owner token u =
     ((\<exists>r. store_get st Utxos (key_of_utxo u) = Some (VUtxo r) \<and> ur_spending_tx_id r = None \<and> ur_utxo r = u)
      \<and> uu_owner u = owner \<and> wants_token V token (uu_token_type u))"

definition feed_owner :: "feed \<Rightarrow> hash32" where
  "feed_owner f = (case parse_addr32 (fd_env f) (fd_path f) of Inr owner \<Rightarrow> owner | Inl _ \<Rightarrow> 0)"

definition feed_prefix :: "string option \<Rightarrow> feed \<Rightarrow> bytes" where
  "feed_prefix token f = (case utxo_prefix (fd_env f) (feed_owner f) token of Inr pre \<Rightarrow> pre | Inl _ \<Rightarrow> [])"

definition utxos_ok :: "string option \<Rightarrow> feed \<Rightarrow> TipAnchor \<Rightarrow> bool" where
  "utxos_ok token f a = (feed_ok f a \<and> books_ok (feed_store f)
     \<and> (\<exists>pre. utxo_prefix (fd_env f) (feed_owner f) token = Inr pre))"

text \<open>What the handler shows of an index entry: the output its value points to.\<close>

definition shown_utxo :: "feed \<Rightarrow> store_value \<Rightarrow> UtxoResponse" where
  "shown_utxo f v = projr (render_utxo (fd_env f) (feed_store f) v)"

definition utxo_row ::
    "feed \<Rightarrow> TipAnchor \<Rightarrow> bytes \<times> store_value \<Rightarrow> ApiFailure + (bytes \<times> UtxoResponse) option" where
  "utxo_row f a e = Inr (Some (drop 32 (fst e), shown_utxo f (snd e)))"

definition utxos_query :: "string option \<Rightarrow> feed \<Rightarrow> Order \<Rightarrow> bytes" where
  "utxos_query token f order = scope [as_bytes ''address_utxos'', hash_bytes (feed_owner f),
     as_bytes (case token of Some t \<Rightarrow> t | None \<Rightarrow> [])] order"

definition utxos_page ::
    "string option \<Rightarrow> feed \<Rightarrow> Order \<Rightarrow> nat \<Rightarrow> PageContext \<Rightarrow> ApiFailure + (bytes \<times> UtxoResponse) list" where
  "utxos_page token f order n page =
     and_then (address_utxos_fetch (feed_store f) (hash_bytes (feed_owner f)) (feed_prefix token f) order n page)
       (\<lambda>rows. Inr (map (map_prod (\<lambda>p. p) (shown_utxo f)) rows))"

lemma prefix_of_owner:
  assumes "utxo_prefix V owner token = Inr pre"
  shows "starts_with (owner_key o' t key) pre \<longleftrightarrow> o' = owner \<and> wants_token V token t"
    and "\<exists>s. pre = hash_bytes owner @ s"
proof -
  have "pre = hash_bytes owner \<and> token = None
      \<or> (\<exists>s t'. token = Some s \<and> Option.bind (en_hex_decode V s) hash_of_bytes = Some t'
          \<and> pre = hash_bytes owner @ hash_bytes t')"
    using assms by (cases token) (auto simp: utxo_prefix_def result_simps)
  then show "starts_with (owner_key o' t key) pre \<longleftrightarrow> o' = owner \<and> wants_token V token t"
    "\<exists>s. pre = hash_bytes owner @ s"
    by (auto simp: starts_with_iff owner_key_def wants_token_def hashc.enc_append_inject
        simp del: append_eq_append_conv)
qed

lemma unspent_in_range:
  assumes "store_ok st" and "books_ok st" and "utxo_prefix V owner token = Inr pre"
    and "e \<in> set (store_range st UtxosUnspentByOwner (Included pre) (prefix_upper pre))"
  obtains u where "owned V st owner token u" "e = (unspent_key u, Raw (key_of_utxo u))"
proof -
  have e: "store_get st UtxosUnspentByOwner (fst e) = Some (snd e)" "starts_with (fst e) pre"
    using in_store_range [OF assms(1), of "fst e" "snd e"] assms(4) by (simp_all add: starts_with_bounds)
  obtain key o' t x where k: "unspent_set st key = Some (o', t, x)" "fst e = owner_key o' t key" "snd e = Raw key"
    using e(1) assms(2) unfolding books_ok_def unspent_index_ok_def by blast
  then obtain r where r: "store_get st Utxos key = Some (VUtxo r)" "ur_spending_tx_id r = None"
    "core (ur_utxo r) = (o', t, x)"
    by (auto simp: unspent_set_def live_core_Some)
  moreover have "key_of_utxo (ur_utxo r) = key"
    using r(1) assms(2) by (auto simp: books_ok_def utxo_records_ok_def)
  moreover have "o' = owner" "wants_token V token t"
    using e(2) prefix_of_owner(1) [OF assms(3)] by (simp_all add: k(2))
  ultimately show ?thesis
    using k(2,3) by (intro that [of "ur_utxo r"])
      (auto simp: owned_def core_def unspent_key_owner_key prod_eq_iff)
qed

lemma owned_in_range:
  assumes "store_ok st" and "books_ok st" and "utxo_prefix V owner token = Inr pre"
    and "owned V st owner token u"
  shows "(unspent_key u, Raw (key_of_utxo u))
    \<in> set (store_range st UtxosUnspentByOwner (Included pre) (prefix_upper pre))"
proof -
  have "unspent_set st (key_of_utxo u) = Some (uu_owner u, uu_token_type u, uu_value u)"
    using assms(4) by (auto simp: owned_def unspent_set_def core_def)
  then have "store_get st UtxosUnspentByOwner (unspent_key u) = Some (Raw (key_of_utxo u))"
    using assms(2) unfolding books_ok_def unspent_index_ok_def unspent_key_owner_key by blast
  moreover have "starts_with (unspent_key u) pre"
    using assms(4) prefix_of_owner(1) [OF assms(3)] by (simp add: owned_def unspent_key_owner_key)
  ultimately show ?thesis by (simp add: in_store_range [OF assms(1)] flip: starts_with_bounds)
qed

lemma render_owned:
  "owned V st owner token u \<Longrightarrow> render_utxo V st (Raw (key_of_utxo u)) = Inr (utxo_response V u)"
  by (auto simp: owned_def render_utxo_def get_decoded_def store_decode_def)

lemma unspent_key_parts: "unspent_key u = hash_bytes (uu_owner u) @ drop 32 (unspent_key u)"
  by (simp add: unspent_key_def)

interpretation utxos_feed: range_handler "utxos_ok token" UtxosUnspentByOwner
  "\<lambda>f. Included (feed_prefix token f)" "\<lambda>f. prefix_upper (feed_prefix token f)" utxo_row
  "\<lambda>f p. hash_bytes (feed_owner f) @ p" "utxos_query token" "utxos_page token" for token
proof
  fix f :: feed and a order n and c :: "bytes option"
  assume ok: "utxos_ok token f a"
  let ?st = "feed_store f" and ?pre = "feed_prefix token f" and ?own = "hash_bytes (feed_owner f)"
  let ?xs = "store_range ?st UtxosUnspentByOwner (Included ?pre) (prefix_upper ?pre)"
  have st: "store_ok ?st" and books: "books_ok ?st" using ok by (simp_all add: utxos_ok_def feed_ok_def)
  have pre: "utxo_prefix (fd_env f) (feed_owner f) token = Inr ?pre"
    using ok by (auto simp: utxos_ok_def feed_prefix_def)
  show "feed_ok f a" using ok by (simp add: utxos_ok_def)
  show "all_read (utxo_row f a) ?xs" by (simp add: all_read_def utxo_row_def)
  have pos: "fst e = ?own @ fst r \<and> length (fst r) = 68"
    if e: "e \<in> set ?xs" "utxo_row f a e = Inr (Some r)" for e r
  proof -
    obtain u where "owned (fd_env f) ?st (feed_owner f) token u" "e = (unspent_key u, Raw (key_of_utxo u))"
      by (rule unspent_in_range [OF st books pre e(1)])
    then show ?thesis using e(2) unspent_key_parts [of u] by (auto simp: utxo_row_def owned_def)
  qed
  then show "fst e = ?own @ fst r \<and> length (fst r) \<le> 400"
    if "e \<in> set ?xs" "utxo_row f a e = Inr (Some r)" for e r
    using pos [OF that] by simp
  assume seen: "\<And>p. c = Some p \<Longrightarrow> \<exists>e \<in> set ?xs. \<exists>r. utxo_row f a e = Inr (Some (p, r))"
  have c: "length p = 68" if "c = Some p" for p using seen [OF that] pos by fastforce
  have rows: "rows_of (utxo_row f a) xs
      = map (map_prod (\<lambda>p. p) (shown_utxo f)) (map (\<lambda>(k, v). (drop 32 k, v)) xs)" for xs
    by (induction xs) (auto simp: utxo_row_def)
  have "all_read (utxo_row f a) xs" for xs by (simp add: all_read_def utxo_row_def)
  from collect_rows [OF this] show "utxos_page token f order n \<lparr>pc_anchor = Some a, pc_position = c\<rparr>
      = collect_page n (utxo_row f a) (ordered_range ?st UtxosUnspentByOwner order
          (cursor_bounds order (map_option (\<lambda>p. ?own @ p) c) (Included ?pre) (prefix_upper ?pre)))"
    using c by (cases c) (simp_all add: utxos_page_def address_utxos_fetch_def rows take_map)
qed (simp add: list_less_append_same_length)

subsection \<open>What the pages show\<close>

definition utxo_entry :: "UnshieldedUtxo \<Rightarrow> bytes \<times> store_value" where
  "utxo_entry u = (unspent_key u, Raw (key_of_utxo u))"

lemma owned_unique:
  "owned V st owner token u \<Longrightarrow> owned V st owner token u' \<Longrightarrow> utxo_entry u = utxo_entry u' \<Longrightarrow> u = u'"
proof -
  assume "owned V st owner token u" and "owned V st owner token u'" and "utxo_entry u = utxo_entry u'"
  moreover from this(3) have "key_of_utxo u = key_of_utxo u'" by (simp add: utxo_entry_def)
  moreover obtain r where "store_get st Utxos (key_of_utxo u) = Some (VUtxo r)" "ur_utxo r = u"
    using \<open>owned V st owner token u\<close> unfolding owned_def by blast
  moreover obtain r' where "store_get st Utxos (key_of_utxo u') = Some (VUtxo r')" "ur_utxo r' = u'"
    using \<open>owned V st owner token u'\<close> unfolding owned_def by blast
  ultimately show "u = u'" by simp
qed

lemma utxos_visible:
  assumes "utxos_ok token f a"
  shows "\<exists>us. set us = {u. owned (fd_env f) (feed_store f) (feed_owner f) token u}
    \<and> sorted_wrt (<) (map unspent_key us)
    \<and> map snd (utxos_feed.visible token f a) = map (utxo_response (fd_env f)) us"
proof -
  let ?st = "feed_store f" and ?pre = "feed_prefix token f"
  let ?xs = "store_range ?st UtxosUnspentByOwner (Included ?pre) (prefix_upper ?pre)"
  let ?owned = "owned (fd_env f) ?st (feed_owner f) token"
  have st: "store_ok ?st" and books: "books_ok ?st" using assms by (simp_all add: utxos_ok_def feed_ok_def)
  have pre: "utxo_prefix (fd_env f) (feed_owner f) token = Inr ?pre"
    using assms by (auto simp: utxos_ok_def feed_prefix_def)
  have "\<forall>e \<in> set ?xs. \<exists>u. ?owned u \<and> e = utxo_entry u"
    unfolding utxo_entry_def by (blast elim: unspent_in_range [OF st books pre])
  then obtain g where g: "\<And>e. e \<in> set ?xs \<Longrightarrow> ?owned (g e) \<and> e = utxo_entry (g e)" by metis
  have "u \<in> set (map g ?xs)" if "?owned u" for u
  proof -
    have "utxo_entry u \<in> set ?xs" using owned_in_range [OF st books pre that] by (simp add: utxo_entry_def)
    moreover from g [OF this] have "g (utxo_entry u) = u" by (intro owned_unique [OF _ that]) auto
    ultimately show ?thesis by (metis image_eqI set_map)
  qed
  then have "set (map g ?xs) = {u. ?owned u}" using g by auto
  moreover have "map unspent_key (map g ?xs) = map fst ?xs"
    using g by (auto simp: utxo_entry_def dest: arg_cong [of _ _ fst])
  then have "sorted_wrt (<) (map unspent_key (map g ?xs))" using store_range_sorted [OF st] by metis
  moreover have "map snd (rows_of (utxo_row f a) xs) = map (utxo_response (fd_env f)) (map g xs)"
    if "set xs \<subseteq> set ?xs" for xs
    using that
  proof (induction xs)
    case (Cons e xs)
    then have e: "?owned (g e)" "e = utxo_entry (g e)" using g by auto
    then have "shown_utxo f (snd e) = utxo_response (fd_env f) (g e)"
      using render_owned [OF e(1)] by (metis shown_utxo_def snd_conv sum.sel(2) utxo_entry_def)
    with Cons show ?case by (simp add: utxo_row_def)
  qed simp
  ultimately show ?thesis unfolding utxos_feed.visible_def by blast
qed

lemma render_index:
  assumes "books_ok st" and "store_get st UtxosUnspentByOwner k = Some v"
  shows "\<exists>x. render_utxo V st v = Inr x"
proof -
  obtain key c where "unspent_set st key = Some c" "v = Raw key"
    using assms unfolding books_ok_def unspent_index_ok_def by blast
  then show ?thesis
    by (auto simp: unspent_set_def live_core_Some render_utxo_def get_decoded_def store_decode_def)
qed

lemma utxos_serve:
  assumes "store_ok (ap_store s)" and "books_ok (ap_store s)"
    and "parse_addr32 V addr = Inr owner" and "utxo_prefix V owner token = Inr pre"
  shows "address_utxos_inner V s addr token (pagination_of order n cursor)
    = utxos_feed.serve token (feed_at V s addr 0) order n cursor"
proof -
  let ?f = "feed_at V s addr 0" and ?st = "ap_store s"
  have owner: "feed_owner ?f = owner" by (simp add: feed_owner_def assms(3))
  have pre: "feed_prefix token ?f = pre" by (simp add: feed_prefix_def owner assms(4))
  have finish: "and_then (address_utxos_fetch ?st (hash_bytes owner) pre order n page)
      (finish_page_with (render_utxo V ?st) V s q page n)
    = and_then (utxos_page token ?f order n page) (finish_page V s q page n)" for page q
  proof (cases "address_utxos_fetch ?st (hash_bytes owner) pre order n page")
    case (Inr rows)
    have "render_utxo V ?st (snd row) = Inr (shown_utxo ?f (snd row))" if "row \<in> set (take n rows)" for row
    proof -
      obtain c where "rows = map (\<lambda>(k, v). (drop 32 k, v)) (take (n + 1)
          (ordered_range ?st UtxosUnspentByOwner order (cursor_bounds order c (Included pre) (prefix_upper pre))))"
        using Inr by (auto simp: address_utxos_fetch_def result_simps)
      moreover have "row \<in> set rows" using that by (rule in_set_takeD)
      ultimately obtain k where
        "(k, snd row) \<in> set (ordered_range ?st UtxosUnspentByOwner order
          (cursor_bounds order c (Included pre) (prefix_upper pre)))"
        by (auto dest!: in_set_takeD)
      then have "store_get ?st UtxosUnspentByOwner k = Some (snd row)"
        using in_store_range [OF assms(1), of k "snd row"]
        by (cases order) (simp_all add: ordered_range_def)
      then obtain x where "render_utxo V ?st (snd row) = Inr x" using render_index [OF assms(2)] by blast
      then show ?thesis by (simp add: shown_utxo_def)
    qed
    then have "finish_page_with (render_utxo V ?st) V s q page n rows
        = finish_page V s q page n (map (map_prod id (shown_utxo ?f)) rows)"
      by (rule finish_page_render)
    with Inr show ?thesis by (simp add: utxos_page_def owner pre id_def)
  qed (simp add: utxos_page_def owner pre)
  show ?thesis
    using assms(3,4) by (simp add: address_utxos_inner_def utxos_feed.serve_def run_page_def Let_def
        pagination_of_def utxos_query_def owner finish)
qed

subsection \<open>Values and balances\<close>

lemma owned_distinct: "sorted_wrt (<) (map unspent_key us) \<Longrightarrow> distinct us"
  by (metis distinct_map sorted_wrt_less_distinct)

lemma owned_value:
  assumes "books_ok st" and "set us = {u. owned V st owner token u}"
    and "distinct us" and "wants_token V token t"
  shows "sum_list (map uu_value (filter (\<lambda>u. uu_token_type u = t) us)) = stored_balance st owner t"
proof -
  let ?S = "unspent_set st" and ?us = "{u \<in> set us. uu_token_type u = t}"
  have live: "?S (key_of_utxo u) = Some (owner, uu_token_type u, uu_value u)" if "u \<in> set us" for u
    using that assms(2) by (auto simp: owned_def unspent_set_def core_def)
  have inj: "inj_on key_of_utxo ?us"
  proof (rule inj_onI)
    fix u u' assume u: "u \<in> ?us" "u' \<in> ?us" and key: "key_of_utxo u = key_of_utxo u'"
    from u assms(2) have "owned V st owner token u" "owned V st owner token u'" by auto
    moreover from u this key have "utxo_entry u = utxo_entry u'"
      by (auto simp: utxo_entry_def unspent_key_owner_key owned_def)
    ultimately show "u = u'" by (rule owned_unique)
  qed
  have others: "worth owner t (?S k) = 0" if "k \<in> dom ?S - key_of_utxo ` ?us" for k
  proof (rule ccontr)
    assume "worth owner t (?S k) \<noteq> 0"
    then obtain x where x: "?S k = Some (owner, t, x)" by (auto simp: worth_def split: option.splits if_splits)
    then obtain r where r: "store_get st Utxos k = Some (VUtxo r)" "ur_spending_tx_id r = None"
      "core (ur_utxo r) = (owner, t, x)"
      by (auto simp: unspent_set_def live_core_Some)
    moreover from r(1) assms(1) have k: "key_of_utxo (ur_utxo r) = k"
      by (auto simp: books_ok_def utxo_records_ok_def)
    ultimately have "owned V st owner token (ur_utxo r)"
      using assms(4) by (auto simp: owned_def core_def)
    then have "ur_utxo r \<in> ?us" using r(3) assms(2) by (simp add: core_def)
    with that k show False by blast
  qed
  have "stored_balance st owner t = total ?S owner t" using assms(1) by (simp add: books_ok_def)
  also have "\<dots> = (\<Sum>k \<in> key_of_utxo ` ?us. worth owner t (?S k))"
    unfolding total_def
    by (rule sum.mono_neutral_right [OF finite_unspent_set]) (use live others in auto)
  also have "\<dots> = (\<Sum>u \<in> ?us. worth owner t (?S (key_of_utxo u)))" by (rule sum.reindex_cong [OF inj]) auto
  also have "\<dots> = (\<Sum>u \<in> ?us. uu_value u)"
    by (rule sum.cong) (auto simp: live worth_def)
  also have "\<dots> = sum_list (map uu_value (filter (\<lambda>u. uu_token_type u = t) us))"
    using assms(3) by (simp add: sum_list_distinct_conv_sum_set)
  finally show ?thesis by simp
qed

lemma current_anchor: "current_tip s = Inr (Some a) \<Longrightarrow> validate_anchor s a = Inr ()"
  unfolding current_tip_def validate_anchor_def
  by (auto simp: result_simps split: option.split_asm)

lemma address_utxos_follow:
  assumes "crypto_ok (en_crypto V)" and "store_ok (ap_store s)" and "books_ok (ap_store s)"
    and "current_tip s = Inr (Some a)"
    and "parse_addr32 V addr = Inr owner" and "utxo_prefix V owner token = Inr pre"
    and "1 \<le> n" and "n \<le> 5000"
  shows "\<exists>us. set us = {u. owned V (ap_store s) owner token u} \<and> sorted_wrt (<) (map unspent_key us)
    \<and> (\<forall>fuel > length us.
         follow_pages fuel (\<lambda>i cursor. address_utxos_inner V s addr token (pagination_of order n cursor)) 0 None
           = Inr (Some (in_order order (map (utxo_response V) us))))
    \<and> (\<forall>t. wants_token V token t \<longrightarrow>
         sum_list (map uu_value (filter (\<lambda>u. uu_token_type u = t) us)) = stored_balance (ap_store s) owner t)"
proof -
  let ?f = "feed_at V s addr 0"
  have owner: "feed_owner ?f = owner" by (simp add: feed_owner_def assms(5))
  have ok: "utxos_ok token ?f a"
    using assms(1-4,6) current_anchor [OF assms(4)] by (simp add: utxos_ok_def feed_ok_def owner)
  obtain us where us: "set us = {u. owned V (ap_store s) owner token u}" "sorted_wrt (<) (map unspent_key us)"
    "map snd (utxos_feed.visible token ?f a) = map (utxo_response V) us"
    using utxos_visible [OF ok] by (auto simp: owner)
  have "length (utxos_feed.visible token ?f a) = length us" using us(3) by (metis length_map)
  then have "follow_pages fuel (\<lambda>i. utxos_feed.serve token ?f order n) 0 None
      = Inr (Some (in_order order (map snd (utxos_feed.visible token ?f a))))" if "length us < fuel" for fuel
    by (intro utxos_feed.follow_same) (use ok assms(4,7,8) that in simp_all)
  then show ?thesis
    using us owned_value [OF assms(3) us(1) owned_distinct [OF us(2)]]
    unfolding utxos_serve [OF assms(2,3,5,6)] us(3) by blast
qed

end
