(* ===== verification/FeedProps.thy ===== *)
theory FeedProps
  imports AddressFeeds BlockWitness
begin

text \<open>
  What a client gets from the event and UTXO endpoints, and the event log at a concrete store, to which
  the server adds a block between two requests of the client.
\<close>

section \<open>A store with two blocks of events\<close>

definition demo_event :: "bytes option \<Rightarrow> LedgerEvent" where
  "demo_event address = (zswap_output [5])\<lparr>le_contract_address := address\<rparr>"

definition demo_record :: "bytes option \<Rightarrow> u64 \<Rightarrow> EventRecord" where
  "demo_record address h = \<lparr>er_event = demo_event address, er_tx_id = 0, er_block_height = h\<rparr>"

definition demo_block_record :: BlockRecord where
  "demo_block_record = \<lparr>bk_hash = 21, bk_parent_hash = 20, bk_timestamp = 60000, bk_protocol_version = 2000000,
     bk_author = None, bk_first_tx_id = 0, bk_tx_count = 1, bk_zswap_merkle_tree_root = [0],
     bk_ledger_state_root = None\<rparr>"

definition demo_tx_record :: TxRecord where
  "demo_tx_record = \<lparr>tx_hash = 11, tx_block_height = 5, tx_index_in_block = 0, tx_variant = Regular,
     tx_result = Success, tx_paid_fees = 7, tx_estimated_fees = 7, tx_identifiers = [],
     tx_contract_action_ids = [], tx_first_event_id = 0, tx_event_count = 2, tx_created_utxos = [],
     tx_spent_utxos = [], tx_raw = [4]\<rparr>"

definition events_batch :: "(part_id, store_value) batch" where
  "events_batch =
     batch_insert EventsByContract (prefixed_u64_key [9] 1) (Raw [])
       (batch_insert LedgerEvents (u64_to_be_bytes 1) (VEvent (demo_record (Some [9]) 5))
         (batch_insert LedgerEvents (u64_to_be_bytes 0) (VEvent (demo_record None 5))
           (batch_insert Txs (u64_to_be_bytes 0) (VTx demo_tx_record)
             (batch_insert Blocks (u64_to_be_bytes 5) (VBlock demo_block_record)
               (batch_insert Meta LAST_HEIGHT (Raw (u64_to_be_bytes 5)) [])))))"

definition later_batch :: "(part_id, store_value) batch" where
  "later_batch =
     batch_insert EventsByContract (prefixed_u64_key [9] 2) (Raw [])
       (batch_insert LedgerEvents (u64_to_be_bytes 2) (VEvent (demo_record (Some [9]) 6))
         (batch_insert Blocks (u64_to_be_bytes 6) (VBlock demo_block_record)
           (batch_insert Meta LAST_HEIGHT (Raw (u64_to_be_bytes 6)) events_batch)))"

definition events_store :: "nat \<Rightarrow> Store" where
  "events_store i = commit blank_store (if i = 0 then events_batch else later_batch)"

lemma events_store_ok: "store_ok (events_store i)"
  unfolding events_store_def later_batch_def events_batch_def
  by (cases "i = 0") (auto intro!: store_ok_insert simp: meta_u64_keys_def)

lemma events_store_get:
  "store_get (events_store i) LedgerEvents k
     = (if i \<noteq> 0 \<and> k = u64_to_be_bytes 2 then Some (VEvent (demo_record (Some [9]) 6))
        else if k = u64_to_be_bytes 1 then Some (VEvent (demo_record (Some [9]) 5))
        else if k = u64_to_be_bytes 0 then Some (VEvent (demo_record None 5)) else None)"
  "store_get (events_store i) EventsByContract k
     = (if i \<noteq> 0 \<and> k = prefixed_u64_key [9] 2 \<or> k = prefixed_u64_key [9] 1 then Some (Raw []) else None)"
  "store_get (events_store i) Blocks k
     = (if i \<noteq> 0 \<and> k = u64_to_be_bytes 6 \<or> k = u64_to_be_bytes 5 then Some (VBlock demo_block_record) else None)"
  "store_get (events_store i) Txs k = (if k = u64_to_be_bytes 0 then Some (VTx demo_tx_record) else None)"
  "store_get (events_store i) Meta LAST_HEIGHT = Some (Raw (u64_to_be_bytes (if i = 0 then 5 else 6)))"
  by (auto simp: events_store_def events_batch_def later_batch_def store_simps)

lemma events_store_event:
  "event_of (events_store i) j = (if i \<noteq> 0 \<and> j = 2 then Some (demo_record (Some [9]) 6)
     else if j = 1 then Some (demo_record (Some [9]) 5)
     else if j = 0 then Some (demo_record None 5) else None)"
  by (simp add: event_of_def events_store_get u64c.enc_inject)

lemma events_store_books: "event_log_ok (events_store i)"
proof -
  have "contract_index_ok (events_store i)"
    by (auto simp: contract_index_ok_def events_store_get events_store_event demo_record_def demo_event_def
        zswap_output_def split: if_splits)
  moreover have "events_within (txs_of (events_store i)) (heights_of (events_store i)) 3 (events_store i)"
    by (auto simp: events_within_def events_store_event txs_of_def heights_of_def events_store_get
        demo_record_def split: if_splits)
  moreover have "\<forall>t \<in> txs_of (events_store i). t < 1"
    by (auto simp: txs_of_def events_store_get u64c.enc_inject split: if_splits)
  ultimately have "event_books (events_store i) \<lparr>next_tx_id = 1, next_action_id = 0, next_event_id = 3\<rparr>"
    by (simp add: event_books_def)
  then show ?thesis unfolding event_log_ok_def by blast
qed

definition demo_env :: api_env where
  "demo_env = \<lparr>en_crypto = demo_crypto, en_hex_encode = hex_encode, en_hex_decode = hex_decode,
     en_bech32_decode = (\<lambda>_. None), en_ledger_parameters = (\<lambda>bs _. Inr bs)\<rparr>"

definition demo_server :: "Store \<Rightarrow> ApiState" where
  "demo_server st = \<lparr>ap_store = st, ap_network_id = ''undeployed'', ap_node_url = [],
     ap_highest_block = None, ap_cursor_key = [1]\<rparr>"

definition demo_tip :: TipAnchor where
  "demo_tip = \<lparr>ta_height = 5, ta_hash = 21\<rparr>"

lemma demo_block_read: "store_block (events_store i) 5 = Inr (Some demo_block_record)"
  by (simp add: store_block_def get_decoded_def events_store_get store_decode_def)

lemma demo_serving: "serving demo_env (\<lambda>i. demo_server (events_store i)) demo_tip"
proof -
  have "last_indexed_height (events_store 0) = Inr (Some 5)"
    by (simp add: last_indexed_height_def meta_u64_def events_store_get)
  then show ?thesis
    using demo_block_read demo_crypto_ok
    by (simp add: serving_def demo_env_def demo_server_def events_store_ok current_tip_def
        validate_anchor_def demo_tip_def demo_block_record_def)
qed

lemma demo_history: "same_history 5 (events_store 0) (events_store i)"
  by (auto simp: same_history_def events_store_event demo_record_def demo_block_read store_tx_def
      get_decoded_def events_store_get split: if_splits)

section \<open>Following the event feeds\<close>

text \<open>
  C5. Paging through \<open>/ledger/events\<close> is complete and consistent while the indexer keeps writing. A
  client that follows the cursors from its first page collects, once each and in the order it asked
  for, exactly the events with an id from \<open>from_id\<close> on that were indexed up to the tip of that first
  page, and its walk ends after at most one request more than there are events; whatever the server
  indexes in between, as long as the events, blocks and transactions up to that tip stay and the store
  keeps its event books.
\<close>

theorem ledger_events_paged:
  assumes "serving V S a"
    and "\<forall>i. event_log_ok (ap_store (S i)) \<and> same_history (ta_height a) (ap_store (S 0)) (ap_store (S i))"
    and "1 \<le> n" and "n \<le> 5000"
  shows "\<exists>es rs. set es = {e. in_log (ap_store (S 0)) (ta_height a) from_id e}
    \<and> sorted_wrt (<) (map fst es)
    \<and> try_map (\<lambda>(i, r). event_response V (ap_store (S 0)) i r) es = Inr rs
    \<and> (\<forall>fuel > length es.
          follow_pages fuel (\<lambda>i token. ledger_events V (S i) from_id (pagination_of order n token)) 0 None
            = Inr (Some (in_order order rs)))"
  using assms by (rule ledger_events_follow)

lemma demo_log:
  "in_log (events_store 0) 5 0 e
     \<longleftrightarrow> e \<in> set [(0, demo_record None 5), (1, demo_record (Some [9]) 5)]"
  by (cases e) (auto simp: in_log_def events_store_event demo_record_def split: if_splits)

lemma demo_log_list:
  assumes "set es = {e. in_log (events_store 0) 5 0 e}" and "sorted_wrt (<) (map fst es)"
  shows "es = [(0, demo_record None 5), (1, demo_record (Some [9]) 5)]"
  by (rule records_unique [OF assms(1) _ assms(2), where g = "\<lambda>i. the (event_of (events_store 0) i)"])
    (auto simp: demo_log events_store_event)

theorem ledger_events_paged_witness:
  "\<exists>rs. follow_pages 5 (\<lambda>i token. ledger_events demo_env (demo_server (events_store i)) 0
        (pagination_of Desc 1 token)) 0 None = Inr (Some rs) \<and> map ev_id rs = [1, 0]"
proof -
  have "\<forall>i. event_log_ok (ap_store (demo_server (events_store i)))
      \<and> same_history (ta_height demo_tip) (ap_store (demo_server (events_store 0)))
          (ap_store (demo_server (events_store i)))"
    using events_store_books demo_history by (simp add: demo_server_def demo_tip_def)
  from ledger_events_paged [OF demo_serving this, of 1 0 Desc] obtain es rs where
    es: "set es = {e. in_log (events_store 0) 5 0 e}" "sorted_wrt (<) (map fst es)"
      "try_map (\<lambda>(i, r). event_response demo_env (events_store 0) i r) es = Inr rs"
    and pages: "\<forall>fuel > length es. follow_pages fuel (\<lambda>i token. ledger_events demo_env
      (demo_server (events_store i)) 0 (pagination_of Desc 1 token)) 0 None = Inr (Some (in_order Desc rs))"
    by (auto simp: demo_server_def demo_tip_def)
  have "es = [(0, demo_record None 5), (1, demo_record (Some [9]) 5)]"
    by (rule demo_log_list [OF es(1,2)])
  then have "map ev_id rs = [0, 1] \<and> length es < 5"
    using es(3) by (auto simp: event_response_def demo_record_def demo_block_read result_simps)
  then show ?thesis using pages by (auto simp: rev_map)
qed

text \<open>
  C10. \<open>/contracts/{addr}/events\<close> is exact: the pages list exactly the events whose contract address is
  the one asked for - not those of an address that merely starts with it, whose index keys lie in the
  same range - from \<open>from_id\<close> on and up to the tip of the first page, once each and in order, whatever
  the server indexes in between.
\<close>

theorem contract_events_paged:
  assumes "serving V S a" and "parse_contract_addr V path = Inr address"
    and "\<forall>i. event_log_ok (ap_store (S i)) \<and> same_history (ta_height a) (ap_store (S 0)) (ap_store (S i))"
    and "1 \<le> n" and "n \<le> 5000"
  shows "\<exists>es rs. set es = {e. in_log (ap_store (S 0)) (ta_height a) from_id e
        \<and> le_contract_address (er_event (snd e)) = Some address}
    \<and> sorted_wrt (<) (map fst es)
    \<and> try_map (\<lambda>(i, r). contract_event_response V (ap_store (S 0)) address i r) es = Inr rs
    \<and> (\<forall>fuel > length es.
          follow_pages fuel (\<lambda>i token. contract_events V (S i) path from_id (pagination_of order n token)) 0 None
            = Inr (Some (in_order order rs)))"
  using contract_events_follow [OF assms] by (simp add: in_contract_def)

theorem contract_events_paged_witness:
  "\<exists>rs. follow_pages 3 (\<lambda>i token. contract_events demo_env (demo_server (events_store i)) ''09'' 0
        (pagination_of Asc 1 token)) 0 None = Inr (Some rs) \<and> map ce_id rs = [1]"
proof -
  have "parse_contract_addr demo_env ''09'' = Inr [9]" by code_simp
  moreover have "\<forall>i. event_log_ok (ap_store (demo_server (events_store i)))
      \<and> same_history (ta_height demo_tip) (ap_store (demo_server (events_store 0)))
          (ap_store (demo_server (events_store i)))"
    using events_store_books demo_history by (simp add: demo_server_def demo_tip_def)
  ultimately obtain es rs where
    es: "set es = {e. in_log (events_store 0) 5 0 e \<and> le_contract_address (er_event (snd e)) = Some [9]}"
      "sorted_wrt (<) (map fst es)"
      "try_map (\<lambda>(i, r). contract_event_response demo_env (events_store 0) [9] i r) es = Inr rs"
    and pages: "\<forall>fuel > length es. follow_pages fuel (\<lambda>i token. contract_events demo_env
      (demo_server (events_store i)) ''09'' 0 (pagination_of Asc 1 token)) 0 None = Inr (Some (in_order Asc rs))"
    using contract_events_paged [OF demo_serving, of "''09''" "[9]" 1 0 Asc]
    by (auto simp: demo_server_def demo_tip_def)
  have "es = [(1, demo_record (Some [9]) 5)]"
    by (rule records_unique [OF es(1) _ es(2), where g = "\<lambda>i. demo_record (Some [9]) 5"])
      (auto simp: demo_log demo_record_def demo_event_def zswap_output_def)
  moreover have "store_tx (events_store 0) 0 = Inr (Some demo_tx_record)"
    by (simp add: store_tx_def get_decoded_def events_store_get store_decode_def)
  ultimately have "map ce_id rs = [1] \<and> length es < 3"
    using es(3) by (auto simp: contract_event_response_def demo_record_def result_simps)
  then show ?thesis using pages by auto
qed

section \<open>Unspent outputs and balances\<close>

text \<open>
  C8. The two address endpoints agree with the ledger and with each other. In a store whose UTXO books
  agree, the pages of \<open>/addresses/{addr}/utxos\<close> (with or without a token) together list, once each and
  in key order, exactly the outputs of the owner that are not spent, and for every token listed their
  values add up to the balance stored for the owner.
\<close>

theorem address_utxos_exact:
  assumes "crypto_ok (en_crypto V)" and "store_ok (ap_store s)" and "books_ok (ap_store s)"
    and "current_tip s = Inr (Some a)"
    and "parse_addr32 V addr = Inr owner" and "utxo_prefix V owner token = Inr pre"
    and "1 \<le> n" and "n \<le> 5000"
  shows "\<exists>us. set us = {u. owned V (ap_store s) owner token u} \<and> sorted_wrt (<) (map unspent_key us)
    \<and> (\<forall>fuel > length us.
         follow_pages fuel (\<lambda>i cursor. address_utxos_inner V s addr token (pagination_of order n cursor)) 0 None
           = Inr (Some (in_order order (map (utxo_response V) us))))
    \<and> (\<forall>t. wants_token V token t \<longrightarrow>
         sum_list (map uu_value (filter (\<lambda>u. uu_token_type u = t) us)) = stored_balance (ap_store s) owner t)"
  using assms by (rule address_utxos_follow)

definition demo_addr :: string where
  "demo_addr = hex_encode (hash_bytes 1)"

theorem address_utxos_exact_witness:
  "\<exists>st' ids' us fuel. demo_run [] blank_store = Inr (st', ids')
    \<and> follow_pages fuel (\<lambda>i cursor. address_utxos_inner demo_env (demo_server st') demo_addr None
        (pagination_of Asc 1 cursor)) 0 None = Inr (Some (map (utxo_response demo_env) us))
    \<and> sum_list (map uu_value (filter (\<lambda>u. uu_token_type u = 2) us)) = 25"
proof -
  obtain st' ids' where run: "demo_run [] blank_store = Inr (st', ids')" using demo_run_ok by blast
  note run' = run [unfolded demo_run_def]
  have books: "books_ok st'" "unspent_set st' = demo_left"
    using block_utxos [OF run' _ _ demo_abs] by simp_all
  have "stored_balance st' 1 2 = total demo_left 1 2" using books by (simp add: books_ok_def)
  then have balance: "stored_balance st' 1 2 = 25" by (simp add: total_def demo_left_def worth_def)
  have st: "store_ok st'" using block_typed [OF blank_store_ok _ run'] by (simp add: SCHEMA_CURRENT_def)
  have "last_indexed_height st' = Inr (Some 5)" "\<exists>r. store_block st' 5 = Inr (Some r)"
    using block_resumes [OF run'] by (auto simp: demo_block_def)
  then obtain a where "current_tip (demo_server st') = Inr (Some a)"
    by (auto simp: current_tip_def demo_server_def)
  moreover have "parse_addr32 demo_env demo_addr = Inr 1" by code_simp
  moreover have "utxo_prefix demo_env 1 None = Inr (hash_bytes 1)" by (simp add: utxo_prefix_def)
  moreover have "crypto_ok (en_crypto demo_env)" by (simp add: demo_env_def demo_crypto_ok)
  ultimately obtain us where us: "\<forall>fuel > length us. follow_pages fuel (\<lambda>i cursor. address_utxos_inner demo_env
      (demo_server st') demo_addr None (pagination_of Asc 1 cursor)) 0 None
        = Inr (Some (in_order Asc (map (utxo_response demo_env) us)))"
    "\<forall>t. wants_token demo_env None t \<longrightarrow>
      sum_list (map uu_value (filter (\<lambda>u. uu_token_type u = t) us)) = stored_balance st' 1 t"
    using address_utxos_exact [of demo_env "demo_server st'" a demo_addr 1 None "hash_bytes 1" 1 Asc] st books(1)
    by (auto simp: demo_server_def)
  from us(2) have "sum_list (map uu_value (filter (\<lambda>u. uu_token_type u = 2) us)) = 25"
    by (simp add: wants_token_def balance)
  moreover have "follow_pages (Suc (length us)) (\<lambda>i cursor. address_utxos_inner demo_env
      (demo_server st') demo_addr None (pagination_of Asc 1 cursor)) 0 None
        = Inr (Some (map (utxo_response demo_env) us))"
    using us(1) by (metis in_order.simps(1) lessI)
  ultimately show ?thesis using run by blast
qed

section \<open>The event log at a concrete block\<close>

definition demo_events_tx :: AppliedTransaction where
  "demo_events_tx = (demo_tx 11 [] [] [])\<lparr>at_ledger_events := [demo_event (Some [9]), demo_event None]\<rparr>"

lemma blank_event_books: "event_books blank_store zero_ids"
  by (simp add: event_books_def contract_index_ok_def events_within_def event_of_def txs_of_def)

lemma demo_events_run:
  "\<exists>st' ids'. write_block demo_ops blank_store (demo_block 5 []) [demo_events_tx] [3] [] zero_ids
    = Inr (st', ids')"
  by (rule write_block_returns [where S' = Map.empty])
    (simp_all add: demo_events_tx_def demo_tx_def abs_tx_def total_def demo_ops_def)

theorem write_block_event_log_witness:
  "\<exists>st' ids'. write_block demo_ops blank_store (demo_block 5 []) [demo_events_tx] [3] [] zero_ids
      = Inr (st', ids')
    \<and> event_books st' ids' \<and> next_event_id ids' = 2 \<and> same_history 4 blank_store st'"
proof -
  obtain st' ids' where run: "write_block demo_ops blank_store (demo_block 5 []) [demo_events_tx] [3] []
      zero_ids = Inr (st', ids')"
    using demo_events_run by blast
  have small: "unat (next_event_id zero_ids) + count_events [demo_events_tx] < 2 ^ 64"
    "unat (next_tx_id zero_ids) + length [demo_events_tx] < 2 ^ 64"
    by (simp_all add: zero_ids_def count_events_def demo_events_tx_def)
  have "ids' = ids_after zero_ids [demo_events_tx]" using block_resumes [OF run] by simp
  then have "next_event_id ids' = 2"
    by (simp add: ids_after_def count_events_def demo_events_tx_def zero_ids_def)
  moreover have "(4 :: u64) < b_height (demo_block 5 [])" by (simp add: demo_block_def)
  ultimately show ?thesis
    using write_block_event_log [OF run blank_schema(1) blank_event_books small] run by blast
qed

end
