(* ===== verification/WalletDemo.thy ===== *)
theory WalletDemo
  imports WalletFacts DustFacts FeedProps
begin

text \<open>
  A concrete server for the wallet endpoints: one regular transaction that the viewing key decrypts, one
  registered stake key with an active generation, and the DUST events of one block.
\<close>

section \<open>A concrete server\<close>

definition demo_offers :: "nat tx_crypto" where
  "demo_offers = \<lparr>tc_deserialize_v8 = (\<lambda>_. None),
     tc_deserialize_v9 = (\<lambda>raw. Some (Standard (Some \<lparr>zo_outputs = [Some raw], zo_transient = []\<rparr>) [])),
     tc_secret_key_v8 = (\<lambda>_. None), tc_secret_key_v9 = (\<lambda>key. Some (unat key)),
     tc_decrypts_v8 = (\<lambda>_ _. False), tc_decrypts_v9 = (\<lambda>key ciphertext. ciphertext = [word_of_nat key]),
     tc_deserialize_key = (\<lambda>_. None)\<rparr>"

definition demo_wallet :: "(nat, nat) wallet_env" where
  "demo_wallet = \<lparr>wl_api = demo_env, wl_tx = demo_offers, wl_ledger = demo_ops,
     wl_collapsed = (\<lambda>_ a b. Inr (u64_to_be_bytes b)),
     wl_dust_parameters = (\<lambda>_. Inr \<lparr>dp_night_dust_ratio = 30, dp_generation_decay_rate = 2,
       dp_dust_grace_period = 0\<rparr>)\<rparr>"

definition demo_generation :: "hash32 \<Rightarrow> u64 \<Rightarrow> DustGenerationRecord" where
  "demo_generation h ctime = \<lparr>dr_info = \<lparr>dg_night_utxo_hash = h, dg_value = 10, dg_owner = [8], dg_nonce = 0,
     dg_ctime = ctime, dg_dtime = - 1\<rparr>, dr_tx_id = 0\<rparr>"

definition demo_live :: CnightRegistrationRecord where
  "demo_live = \<lparr>cn_cardano_stake_key = [], cn_dust_address = [8], cn_valid = True,
     cn_registered_at_height = 3, cn_removed_at_height = None, cn_utxo_id = None, cn_utxo_index = None\<rparr>"

definition demo_stake_key :: bytes where
  "demo_stake_key = bytes29_bytes 7"

definition wallet_batch :: "(part_id, store_value) batch" where
  "wallet_batch =
     batch_insert CnightRegistrations (demo_stake_key @ [8]) (VRegistration demo_live)
       (batch_insert DustGeneration (hash_bytes 1) (VDustGen (demo_generation 1 50))
         (batch_insert DustGenByOwner ([8] @ hash_bytes 1) (Raw [])
           (batch_insert WalletDustEvents (u64_to_be_bytes 1) (Raw [])
             (batch_insert Meta NEXT_EVENT_ID (Raw (u64_to_be_bytes 2))
               (batch_insert Meta TIP_TIMESTAMP (Raw (u64_to_be_bytes 60000))
                 (batch_insert Meta LEDGER_STATE_WINDOW (VWindow [([9], SLV9)])
                   (batch_insert WalletTxIndices (u64_to_be_bytes 0)
                     (VWalletTx \<lparr>wt_zswap_start_index = 1, wt_zswap_end_index = 3,
                        wt_protocol_version = 2000000\<rparr>)
                     events_batch)))))))"

definition wallet_store :: Store where
  "wallet_store = commit blank_store wallet_batch"

lemma wallet_store_ok: "store_ok wallet_store"
  unfolding wallet_store_def wallet_batch_def events_batch_def
  by (auto intro!: store_ok_insert simp: meta_u64_keys_def demo_stake_key_def)

lemma wallet_store_get:
  "store_get wallet_store LedgerEvents k
     = (if k = u64_to_be_bytes 1 then Some (VEvent (demo_record (Some [9]) 5))
        else if k = u64_to_be_bytes 0 then Some (VEvent (demo_record None 5)) else None)"
  "store_get wallet_store Blocks k = (if k = u64_to_be_bytes 5 then Some (VBlock demo_block_record) else None)"
  "store_get wallet_store Txs k = (if k = u64_to_be_bytes 0 then Some (VTx demo_tx_record) else None)"
  "store_get wallet_store WalletTxIndices k = (if k = u64_to_be_bytes 0
     then Some (VWalletTx \<lparr>wt_zswap_start_index = 1, wt_zswap_end_index = 3, wt_protocol_version = 2000000\<rparr>)
     else None)"
  "store_get wallet_store WalletRelevantTxs k = None"
  "store_get wallet_store WalletScanProgress k = None"
  "store_get wallet_store WalletDustEvents k = (if k = u64_to_be_bytes 1 then Some (Raw []) else None)"
  "store_get wallet_store DustGeneration k = (if k = hash_bytes 1 then Some (VDustGen (demo_generation 1 50)) else None)"
  "store_get wallet_store DustGenByOwner k = (if k = 8 # hash_bytes 1 then Some (Raw []) else None)"
  "store_get wallet_store CnightRegistrations k = (if k = demo_stake_key @ [8] then Some (VRegistration demo_live) else None)"
  "store_get wallet_store Meta LAST_HEIGHT = Some (Raw (u64_to_be_bytes 5))"
  "store_get wallet_store Meta NEXT_EVENT_ID = Some (Raw (u64_to_be_bytes 2))"
  "store_get wallet_store Meta TIP_TIMESTAMP = Some (Raw (u64_to_be_bytes 60000))"
  "store_get wallet_store Meta LEDGER_STATE_WINDOW = Some (VWindow [([9], SLV9)])"
  by (auto simp: wallet_store_def wallet_batch_def events_batch_def store_simps)

lemma demo_key: "wallet_viewing_key demo_wallet (hex_encode (hash_bytes 4)) = Inr 4"
  by code_simp

lemma demo_hash: "cx_sha256 (en_crypto (wl_api demo_wallet)) (hash_bytes 4) = 4"
  using hashc.dec_enc [of 4] by (simp add: demo_wallet_def demo_env_def demo_crypto_def hash_of_bytes_def)

lemma demo_relevant: "scan_relevant demo_wallet wallet_store 4 0 = Inr True"
  by (simp add: scan_relevant_def store_tx_def get_decoded_def wallet_store_get store_decode_def
      demo_tx_record_def try_from_u32_def tx_deserialize_def demo_wallet_def demo_offers_def
      is_some_and_def can_decrypt_v9_def some_values_def List.map_filter_simps)

definition scanned_store :: Store where
  "scanned_store = commit wallet_store (batch_insert WalletScanProgress (hash_bytes 4) (Raw (u64_to_be_bytes 1))
     (batch_insert WalletRelevantTxs (wallet_relevance_key 4 0) (Raw []) []))"

lemma demo_scan:
  "scan_wallet_relevance demo_wallet wallet_store 4 4 1 = Some (scanned_store, None)"
proof -
  have "scan_batch demo_wallet 4 4 wallet_store 0 1 = Inr scanned_store"
    by (simp add: scan_batch_def scan_tx_def demo_relevant scanned_store_def)
  moreover have "scan_batches demo_wallet 4 4 1 scanned_store 1 = Some (scanned_store, None)"
    by (subst scan_batches.simps) simp
  moreover have "min (1 :: u64) (0 + 1000) = 1" by (simp add: min_def)
  ultimately have "scan_batches demo_wallet 4 4 1 wallet_store 0 = Some (scanned_store, None)"
    by (subst scan_batches.simps) (simp add: Let_def)
  then show ?thesis by (simp add: scan_wallet_relevance_def scan_progress_def wallet_store_get)
qed

lemma scanned_store_get:
  "store_get scanned_store WalletRelevantTxs k = (if k = wallet_relevance_key 4 0 then Some (Raw []) else None)"
  "p \<noteq> WalletRelevantTxs \<Longrightarrow> p \<noteq> WalletScanProgress \<Longrightarrow> store_get scanned_store p k = store_get wallet_store p k"
  by (auto simp: scanned_store_def store_simps wallet_store_get)

lemma scanned_store_ok: "store_ok scanned_store"
  unfolding scanned_store_def
  by (intro store_ok_insert) (simp_all add: wallet_store_ok raw_of_length_def wallet_relevance_key_def)

lemma scanned_rows:
  "\<exists>x. store_prefix scanned_store WalletRelevantTxs (hash_bytes 4)
     = [(prefixed_u64_key (hash_bytes 4) 0, x)]"
proof -
  obtain ts x where rows: "store_prefix scanned_store WalletRelevantTxs (hash_bytes 4)
      = map (\<lambda>t. (prefixed_u64_key (hash_bytes 4) t, x t)) ts" "sorted_wrt (<) ts"
    "set ts = {t. store_get scanned_store WalletRelevantTxs (wallet_relevance_key 4 t) \<noteq> None}"
    by (rule relevance_rows [OF scanned_store_ok, of 4])
  have "set ts = {0}" unfolding rows(3) by (auto simp: scanned_store_get)
  then have "ts = [0]" using sorted_wrt_less_unique [OF rows(2), of "[0]"] by simp
  then show ?thesis using rows(1) by simp
qed

lemma demo_response:
  "\<exists>r. shielded_response demo_wallet scanned_store 4 0 demo_tip 1 = Inr r
     \<and> ss_scanned_transactions (pt_results r) = 1"
proof -
  obtain x where rows: "store_prefix scanned_store WalletRelevantTxs (hash_bytes 4)
      = [(prefixed_u64_key (hash_bytes 4) 0, x)]"
    using scanned_rows by blast
  note reads = get_decoded_def scanned_store_get wallet_store_get store_decode_def
  have index: "wallet_tx_index scanned_store msg 0
      = Inr \<lparr>wt_zswap_start_index = 1, wt_zswap_end_index = 3, wt_protocol_version = 2000000\<rparr>" for msg
    by (simp add: wallet_tx_index_def reads)
  have suffix: "key_u64_suffix (prefixed_u64_key (hash_bytes 4) 0) = Inr 0"
    by (simp add: key_u64_suffix_def prefixed_u64_key_def)
  have block: "store_block scanned_store 5 = Inr (Some demo_block_record)"
    by (simp add: store_block_def reads)
  have ids: "event_ids demo_tx_record = [0, 1]" by code_simp
  have window: "ledger_state_window scanned_store = Inr [([9], SLV9)]"
    by (simp add: ledger_state_window_def reads)
  have events: "\<exists>es. zswap_events demo_env scanned_store demo_tx_record = Inr es"
    by (simp add: zswap_events_def ids event_at_def reads event_response_def demo_record_def demo_event_def
        zswap_output_def block u64c.enc_inject)
  have tx: "store_tx scanned_store 0 = Inr (Some demo_tx_record)" by (simp add: store_tx_def reads)
  have collapse: "collapsed_update demo_wallet L v a b = Inr (CollapsedUpdate a b v (hex_encode (u64_to_be_bytes (b - 1))))"
    for L v a b
    by (simp add: collapsed_update_def demo_wallet_def demo_env_def or_internal_def)
  have "\<exists>us. shielded_loop demo_wallet scanned_store L v 1 [(prefixed_u64_key (hash_bytes 4) 0, x)] 0 []
      = Inr (3, us)" for L v
    using events by (auto simp: suffix index collapse tx demo_wallet_def [THEN arg_cong [of _ _ wl_api]])
  then obtain us where loop: "shielded_loop demo_wallet scanned_store 9 2000000 1
      [(prefixed_u64_key (hash_bytes 4) 0, x)] 0 [] = Inr (3, us)"
    by blast
  have ledger: "lo_load (wl_ledger demo_wallet) [9] LV9 = Inr 9" "lo_zswap_first_free (wl_ledger demo_wallet) 9 = 9"
    by (simp_all add: demo_wallet_def demo_ops_def of_be_bytes_def)
  have tip: "tip_version scanned_store demo_tip = Inr 2000000"
    by (simp add: tip_version_def demo_tip_def block) (simp add: demo_block_record_def)
  show ?thesis
    by (simp add: shielded_response_def index window rows Let_def or_internal_def ledger tip loop
        del: shielded_loop.simps)
qed

lemma singleton_sorted:
  assumes "sorted_wrt (<) (map fst (xs :: (bytes \<times> store_value) list))" and "\<And>e. e \<in> set xs \<longleftrightarrow> e = x"
  shows "xs = [x]"
proof -
  have "distinct xs" using assms(1) by (metis distinct_map strict_sorted_iff)
  moreover have "set xs = {x}" using assms(2) by auto
  ultimately show ?thesis
    by (metis card.empty card.insert distinct_card empty_iff finite.emptyI length_0_conv length_Suc_conv
        list.set_intros(1) set_empty singletonD)
qed

lemma single_row:
  assumes "store_ok st" and "\<And>k'. store_get st p k' = (if k' = k then Some v else None)" and "starts_with k pre"
  shows "store_prefix st p pre = [(k, v)]"
proof (rule singleton_sorted)
  show "sorted_wrt (<) (map fst (store_prefix st p pre))"
    by (simp add: store_prefix_def part_prefix_sorted store_ok_part [OF assms(1)])
  show "e \<in> set (store_prefix st p pre) \<longleftrightarrow> e = (k, v)" for e
    using assms(3) by (cases e) (auto simp: in_store_prefix [OF assms(1)] assms(2))
qed

lemma demo_wallet_tip: "current_tip (demo_server wallet_store) = Inr (Some demo_tip)"
  by (simp add: current_tip_def demo_server_def last_indexed_height_def meta_u64_def wallet_store_get
      store_block_def get_decoded_def store_decode_def demo_tip_def) (simp add: demo_block_record_def)

lemma demo_sync_run:
  "\<exists>r. wallet_shielded_sync demo_wallet (demo_server wallet_store) (\<lambda>st. st)
      \<lparr>sr_viewing_key = hex_encode (hash_bytes 4), sr_from_index = 0\<rparr> = Some (scanned_store, Inr r)
    \<and> ss_scanned_transactions (pt_results r) = 1"
proof -
  have "sync_target wallet_store (Some demo_tip) = Inr 1"
    by (simp add: sync_target_def demo_tip_def store_block_def get_decoded_def wallet_store_get store_decode_def)
      (simp add: demo_block_record_def)
  moreover have "ap_store (demo_server wallet_store) = wallet_store" by (simp add: demo_server_def)
  ultimately show ?thesis
    using demo_response by (auto simp: wallet_shielded_sync_def demo_wallet_tip demo_key demo_hash demo_scan Let_def)
qed

lemma demo_stake: "parse_stake_key demo_env (hex_encode demo_stake_key) = Inr 7"
  by (simp add: parse_stake_key_def demo_env_def demo_stake_key_def hex.dec_enc stakec.dec_enc)

lemma demo_indexed: "generations_indexed wallet_store"
  by (auto simp: generations_indexed_def wallet_store_get demo_generation_def split: if_splits)

lemma demo_status_run:
  "\<exists>r. dust_generation_status demo_wallet (demo_server wallet_store) (hex_encode demo_stake_key) = Inr r"
proof -
  have regs: "store_prefix wallet_store CnightRegistrations demo_stake_key
      = [(demo_stake_key @ [8], VRegistration demo_live)]"
    by (rule single_row [OF wallet_store_ok]) (simp_all add: wallet_store_get)
  have gens: "store_prefix wallet_store DustGenByOwner [8] = [(8 # hash_bytes 1, Raw [])]"
    by (rule single_row [OF wallet_store_ok]) (simp_all add: wallet_store_get starts_with_def)
  have tip: "tip_timestamp wallet_store = Inr (Some 60000)"
    by (simp add: tip_timestamp_def meta_u64_def wallet_store_get)
  have live: "latest_registration None (demo_stake_key @ [8], VRegistration demo_live) = Inr (Some demo_live)"
    by (simp add: latest_registration_def store_decode_def demo_live_def)
  have active: "latest_generation wallet_store [8] None (8 # hash_bytes 1, Raw [])
      = Inr (Some (dr_info (demo_generation 1 50)))"
    by (simp add: latest_generation_def Let_def get_decoded_def wallet_store_get store_decode_def
        demo_generation_def)
  have api: "wl_api demo_wallet = demo_env" "ap_store (demo_server wallet_store) = wallet_store"
    "wl_dust_parameters demo_wallet LV9 = Inr \<lparr>dp_night_dust_ratio = 30, dp_generation_decay_rate = 2,
       dp_dust_grace_period = 0\<rparr>" "cn_dust_address demo_live = [8]"
    by (simp_all add: demo_wallet_def demo_server_def demo_live_def)
  show ?thesis
    by (simp add: dust_generation_status_def Let_def api demo_stake demo_stake_key_def [symmetric] regs live or_internal_def gens active tip
        response_def demo_wallet_tip split: prod.split)
qed

lemma single_range:
  assumes "store_ok st" and "\<And>k'. store_get st p k' = (if k' = k then Some v else None)"
    and "above lo k" and "below hi k"
  shows "store_range st p lo hi = [(k, v)]"
  by (rule singleton_sorted [OF store_range_sorted [OF assms(1)]])
    (use assms(3,4) in \<open>auto simp: in_store_range [OF assms(1)] assms(2) split: if_splits\<close>)

lemma demo_dust_run:
  "\<exists>r. wallet_dust_sync demo_wallet (demo_server wallet_store) \<lparr>dq_from = 0, dq_count = 10\<rparr> = Inr r
    \<and> dy_scanned_through (pt_results r) = 2"
proof -
  have rows: "store_range wallet_store WalletDustEvents (Included (u64_to_be_bytes 0)) Unbounded
      = [(u64_to_be_bytes 1, Raw [])]"
    by (rule single_range [OF wallet_store_ok]) (simp_all add: wallet_store_get u64c.enc_le_iff)
  have n: "next_id wallet_store NEXT_EVENT_ID = Inr 2"
    by (simp add: next_id_def meta_u64_def wallet_store_get)
  have "\<exists>e. dust_event_row demo_env wallet_store (u64_to_be_bytes 1, Raw []) = Inr e"
    by (simp add: dust_event_row_def event_at_def get_decoded_def wallet_store_get store_decode_def
        event_response_def store_block_def demo_record_def)
  moreover have "wl_api demo_wallet = demo_env" "ap_store (demo_server wallet_store) = wallet_store"
    by (simp_all add: demo_wallet_def demo_server_def)
  ultimately show ?thesis
    by (auto simp: wallet_dust_sync_def rows n response_def demo_wallet_tip Let_def)
qed

end
