(* ===== verification/WalletProps.thy ===== *)
theory WalletProps
  imports WalletDemo
begin

text \<open>
  What the wallet endpoints guarantee, and each guarantee at the server of \<open>WalletDemo\<close>.
\<close>

section \<open>The relevance scan\<close>

text \<open>
  C7. The relevance scan returns, and its rows are exact wherever it stops. Started on a store whose
  rows for a viewing key are exact up to the recorded progress, it ends after finitely many batches; the
  rows it leaves are exactly the relevant transactions below the progress it has recorded, which never
  moves back, also when a transaction cannot be read and the scan gives up between two batches; without
  an error the progress has reached the target. It writes nothing but the rows and the progress of its
  viewing key, so that a later scan resumes where it stopped.
\<close>

theorem scan_relevance_exact:
  assumes "scan_progress st vh = Inr p" and "rows_exact W vk st vh p"
    and "unat target + 1000 \<le> 2 ^ 64"
  shows "\<exists>st' outcome p'. scan_wallet_relevance W st vh vk target = Some (st', outcome)
    \<and> scan_progress st' vh = Inr p' \<and> rows_exact W vk st' vh p' \<and> p \<le> p'
    \<and> (outcome = None \<longrightarrow> target \<le> p')
    \<and> scan_only vh st st' \<and> (store_ok st \<longrightarrow> store_ok st')"
  using scan_batches_total [OF assms(2,1,3)] by (simp add: scan_wallet_relevance_def assms(1))

lemma demo_rows: "scan_progress wallet_store 4 = Inr 0" "rows_exact demo_wallet 4 wallet_store 4 0"
  by (simp_all add: scan_progress_def rows_exact_def wallet_store_get)

theorem scan_relevance_exact_witness:
  "\<exists>st' p'. scan_wallet_relevance demo_wallet wallet_store 4 4 1 = Some (st', None)
    \<and> scan_progress st' 4 = Inr p' \<and> 1 \<le> p' \<and> rows_exact demo_wallet 4 st' 4 p'"
  using scan_relevance_exact [OF demo_rows, of 1] demo_scan by auto

section \<open>Shielded sync\<close>

lemma scan_relevance_result:
  assumes "scan_wallet_relevance W st vh vk target = Some (st', None)"
    and "scan_progress st vh = Inr p" and "rows_exact W vk st vh p" and "unat target + 1000 \<le> 2 ^ 64"
  shows "\<exists>p'. rows_exact W vk st' vh p' \<and> target \<le> p' \<and> scan_only vh st st'"
  using scan_batches_total [OF assms(3,2,4)] assms(1) by (auto simp: scan_wallet_relevance_def assms(2))

text \<open>
  C3. A shielded sync tiles the Zswap tree and misses no transaction of the wallet. A successful
  response covers the leaves from the index asked for to the end of the last transaction below the
  boundary without gap or overlap, by collapsed updates and transactions; it lists every transaction
  below the boundary that the viewing key decrypts and that adds leaves behind the index asked for, with
  its own leaf range, and no other transaction. Blocks that the indexer adds while the request runs do
  not change this: the rows of the scan below the boundary stay.
\<close>

theorem shielded_sync_tiles:
  assumes run: "wallet_shielded_sync W s later request = Some (st', Inr r)"
    and key: "wallet_viewing_key W (sr_viewing_key request) = Inr vk"
    and hash: "vh = cx_sha256 (en_crypto (wl_api W)) (hash_bytes vk)"
    and progress: "scan_progress (ap_store s) vh = Inr p" "rows_exact W vk (ap_store s) vh p"
    and bounds: "ss_scanned_transactions (pt_results r) \<noteq> 0"
      "unat (ss_scanned_transactions (pt_results r)) + 1000 \<le> 2 ^ 64"
    and later: "\<forall>st. \<forall>t < ss_scanned_transactions (pt_results r).
        store_get (later st) WalletRelevantTxs (wallet_relevance_key vh t)
          = store_get st WalletRelevantTxs (wallet_relevance_key vh t)"
    and kept: "store_ok st'" "tx_ranges_ok st' (ss_scanned_transactions (pt_results r))"
  shows "\<exists>boundary. tx_index_of st' (ss_scanned_transactions (pt_results r) - 1) = Some boundary
    \<and> ss_highest_index (pt_results r) = wt_zswap_end_index boundary
    \<and> ss_applied_through (pt_results r) = wt_zswap_end_index boundary
    \<and> tiles (sr_from_index request) (map update_range (ss_updates (pt_results r))) (wt_zswap_end_index boundary)
    \<and> (\<forall>t i. t < ss_scanned_transactions (pt_results r) \<and> scan_relevant W (ap_store s) vk t = Inr True
        \<and> tx_index_of st' t = Some i \<and> sr_from_index request < wt_zswap_end_index i
        \<and> wt_zswap_start_index i < wt_zswap_end_index i \<longrightarrow> lists_tx st' (ss_updates (pt_results r)) t)
    \<and> (\<forall>b e v t h es. TransactionUpdate b e v t h es \<in> set (ss_updates (pt_results r)) \<longrightarrow>
        t < ss_scanned_transactions (pt_results r) \<and> scan_relevant W (ap_store s) vk t = Inr True
        \<and> (\<exists>i. tx_index_of st' t = Some i \<and> b = wt_zswap_start_index i \<and> e = wt_zswap_end_index i
            \<and> v = wt_protocol_version i))"
proof -
  obtain tip target where pre: "current_tip s = Inr tip" "sync_target (ap_store s) tip = Inr target"
    using run by (auto simp: wallet_shielded_sync_def Let_def key result_simps split: sum.splits)
  obtain st1 outcome where scan: "scan_wallet_relevance W (ap_store s) vh vk target = Some (st1, outcome)"
    and rest: "(case outcome of Some e \<Rightarrow> Some (later st1, Inl (task_error e))
      | None \<Rightarrow> if target = 0 then
          Some (later st1, Inr \<lparr>pt_results = \<lparr>ss_updates = [], ss_applied_through = 0,
            ss_highest_index = 0, ss_scanned_transactions = 0\<rparr>, pt_tip = None\<rparr>)
        else case tip of
            None \<Rightarrow> Some (later st1, Inl (ApiErr (internal_error ''indexed tip block is missing'')))
          | Some tip \<Rightarrow> Some (later st1, shielded_response W (later st1) vh (sr_from_index request) tip target))
      = Some (st', Inr r)"
    using run unfolding wallet_shielded_sync_def Let_def key pre and_then_simps sum.case prod.case
      hash [symmetric] bind_eq_Some_conv by auto
  have out: "outcome = None" using rest by (cases outcome) auto
  have "target \<noteq> 0" using rest out bounds(1) by auto
  with rest out obtain a where st': "st' = later st1"
    and resp: "shielded_response W st' vh (sr_from_index request) a target = Inr r"
    by (auto split: option.splits)
  have target: "ss_scanned_transactions (pt_results r) = target"
    using resp by (auto simp: shielded_response_def Let_def result_simps split: if_splits prod.splits)
  obtain p' where p': "rows_exact W vk st1 vh p'" "target \<le> p'" "scan_only vh (ap_store s) st1"
    using scan_relevance_result [OF scan [unfolded out] progress] bounds(2) target by auto
  have rows: "store_get st' WalletRelevantTxs (wallet_relevance_key vh t) \<noteq> None
      \<longleftrightarrow> scan_relevant W (ap_store s) vk t = Inr True" if "t < target" for t
    using p'(1,2) that later [rule_format, of t st1] scan_only_relevant [OF p'(3), of W vk t]
    by (auto simp: st' target rows_exact_def)
  from shielded_response_tiles [OF resp kept(1)] kept(2) obtain i ts where
    i: "tx_index_of st' (target - 1) = Some i"
      "ss_highest_index (pt_results r) = wt_zswap_end_index i"
      "ss_applied_through (pt_results r) = wt_zswap_end_index i"
      "tiles (sr_from_index request) (map update_range (ss_updates (pt_results r))) (wt_zswap_end_index i)"
    and ts: "set ts = {t. store_get st' WalletRelevantTxs (wallet_relevance_key vh t) \<noteq> None}"
    and sound: "sound st' ts target (ss_updates (pt_results r))"
    and complete: "complete st' ts target (sr_from_index request) (ss_updates (pt_results r))"
    unfolding target by blast
  have listed: "lists_tx st' (ss_updates (pt_results r)) t"
    if "t < target" "scan_relevant W (ap_store s) vk t = Inr True" "tx_index_of st' t = Some j"
      "sr_from_index request < wt_zswap_end_index j" "wt_zswap_start_index j < wt_zswap_end_index j" for t j
    using complete rows [OF that(1)] that ts unfolding complete_def by blast
  have only: "t < target \<and> scan_relevant W (ap_store s) vk t = Inr True
      \<and> (\<exists>i. tx_index_of st' t = Some i \<and> b = wt_zswap_start_index i \<and> e = wt_zswap_end_index i
          \<and> v = wt_protocol_version i)"
    if "TransactionUpdate b e v t h es \<in> set (ss_updates (pt_results r))" for b e v t h es
    using sound rows [of t] that ts unfolding sound_def by blast
  show ?thesis unfolding target using i listed only by (intro exI [of _ i]) blast
qed

theorem shielded_sync_tiles_witness:
  "\<exists>st' r. wallet_shielded_sync demo_wallet (demo_server wallet_store) (\<lambda>st. st)
      \<lparr>sr_viewing_key = hex_encode (hash_bytes 4), sr_from_index = 0\<rparr> = Some (st', Inr r)
    \<and> tiles 0 (map update_range (ss_updates (pt_results r))) 3
    \<and> lists_tx st' (ss_updates (pt_results r)) 0"
proof -
  obtain r where run: "wallet_shielded_sync demo_wallet (demo_server wallet_store) (\<lambda>st. st)
      \<lparr>sr_viewing_key = hex_encode (hash_bytes 4), sr_from_index = 0\<rparr> = Some (scanned_store, Inr r)"
    and one: "ss_scanned_transactions (pt_results r) = 1"
    using demo_sync_run by blast
  have index: "tx_index_of scanned_store t = (if t = 0 then Some \<lparr>wt_zswap_start_index = 1,
      wt_zswap_end_index = 3, wt_protocol_version = 2000000\<rparr> else None)" for t
    by (simp add: tx_index_of_def scanned_store_get wallet_store_get u64c.enc_inject [of t 0])
  have ranges: "tx_ranges_ok scanned_store 1"
    by (auto simp: tx_ranges_ok_def index)
  have store: "ap_store (demo_server wallet_store) = wallet_store" by (simp add: demo_server_def)
  have "\<exists>boundary. tx_index_of scanned_store (1 - 1) = Some boundary
    \<and> ss_highest_index (pt_results r) = wt_zswap_end_index boundary
    \<and> ss_applied_through (pt_results r) = wt_zswap_end_index boundary
    \<and> tiles 0 (map update_range (ss_updates (pt_results r))) (wt_zswap_end_index boundary)
    \<and> (\<forall>t i. t < 1 \<and> scan_relevant demo_wallet wallet_store 4 t = Inr True
        \<and> tx_index_of scanned_store t = Some i \<and> 0 < wt_zswap_end_index i
        \<and> wt_zswap_start_index i < wt_zswap_end_index i \<longrightarrow> lists_tx scanned_store (ss_updates (pt_results r)) t)
    \<and> (\<forall>b e v t h es. TransactionUpdate b e v t h es \<in> set (ss_updates (pt_results r)) \<longrightarrow>
        t < 1 \<and> scan_relevant demo_wallet wallet_store 4 t = Inr True
        \<and> (\<exists>i. tx_index_of scanned_store t = Some i \<and> b = wt_zswap_start_index i \<and> e = wt_zswap_end_index i
            \<and> v = wt_protocol_version i))"
    using shielded_sync_tiles [OF run, of 4 4 0] demo_key demo_hash demo_rows scanned_store_ok ranges
    by (simp add: one store)
  then show ?thesis using run by (force simp: index demo_relevant)
qed

section \<open>DUST replay\<close>

text \<open>
  C24. The DUST replay feed leaves no gap. With an index that knows every DUST event below the next event
  id, a response lists, in order, exactly the indexed events from the id asked for up to the boundary
  \<open>scanned_through\<close> it reports, each as it is stored; and unless the page is full that boundary is the
  next event id. A client that asks again from the boundary therefore misses nothing and sees nothing
  twice.
\<close>

theorem dust_sync_no_gap:
  assumes run: "wallet_dust_sync W s request = Inr r"
    and st: "store_ok (ap_store s)" and counter: "next_id (ap_store s) NEXT_EVENT_ID = Inr n"
    and below: "\<forall>i. dust_indexed (ap_store s) i \<longrightarrow> i < n"
  shows "set (map ev_id (dy_events (pt_results r)))
      = {i. dust_indexed (ap_store s) i \<and> dq_from request \<le> i \<and> i < dy_scanned_through (pt_results r)}
    \<and> sorted_wrt (<) (map ev_id (dy_events (pt_results r)))
    \<and> (\<forall>e \<in> set (dy_events (pt_results r)). \<exists>x. event_of (ap_store s) (ev_id e) = Some x
         \<and> event_response (wl_api W) (ap_store s) (ev_id e) x = Inr e)
    \<and> dy_highest_event_id (pt_results r) = n
    \<and> (dy_scanned_through (pt_results r) = n \<or> length (dy_events (pt_results r)) = dq_count request
         \<and> dq_from request < dy_scanned_through (pt_results r))"
proof -
  let ?st = "ap_store s"
  from run counter obtain es where count: "1 \<le> dq_count request"
    and es: "try_map (dust_event_row (wl_api W) ?st) (take (dq_count request)
      (store_range ?st WalletDustEvents (Included (u64_to_be_bytes (dq_from request))) Unbounded)) = Inr es"
    and r: "pt_results r = \<lparr>dy_events = es,
      dy_scanned_through = (if length es < dq_count request then n
        else if es = [] then dq_from request else ev_id (last es) + 1), dy_highest_event_id = n\<rparr>"
    by (auto simp: wallet_dust_sync_def response_def Let_def result_simps not_less split: if_splits)
  note rows = dust_rows_exact [OF st es]
  have each: "\<exists>x. event_of ?st (ev_id e) = Some x \<and> event_response (wl_api W) ?st (ev_id e) x = Inr e"
    if "e \<in> set es" for e
  proof -
    from that obtain i where "i < length es" "e = es ! i" unfolding in_set_conv_nth by blast
    with list_all2_nthD2 [OF es [unfolded try_map_Inr_iff], of i] show ?thesis
      using dust_event_row_Inr(2) by blast
  qed
  show ?thesis
  proof (cases "length es < dq_count request")
    case True
    with rows(1,2) below each show ?thesis by (auto simp: r)
  next
    case False
    then have full: "length es = dq_count request" and ne: "es \<noteq> []" using rows(4) count by auto
    have listed: "ev_id (last es) \<in> set (map ev_id es)" using ne by simp
    then have "dust_indexed ?st (ev_id (last es))" "dq_from request \<le> ev_id (last es)"
      unfolding rows(3) [OF ne] by simp_all
    with below have "ev_id (last es) < n" by blast
    then have succ: "i < ev_id (last es) + 1 \<longleftrightarrow> i \<le> ev_id (last es)" for i by unat_arith
    have "set (map ev_id es) = {i. dust_indexed ?st i \<and> dq_from request \<le> i \<and> i < ev_id (last es) + 1}"
      unfolding rows(3) [OF ne] succ by simp
    with full ne rows(1) each \<open>dq_from request \<le> ev_id (last es)\<close> succ show ?thesis by (simp add: r)
  qed
qed

theorem dust_sync_no_gap_witness:
  "\<exists>r. wallet_dust_sync demo_wallet (demo_server wallet_store) \<lparr>dq_from = 0, dq_count = 10\<rparr> = Inr r
    \<and> set (map ev_id (dy_events (pt_results r))) = {1} \<and> dy_scanned_through (pt_results r) = 2"
proof -
  have store: "ap_store (demo_server wallet_store) = wallet_store" by (simp add: demo_server_def)
  obtain r where run: "wallet_dust_sync demo_wallet (demo_server wallet_store) \<lparr>dq_from = 0, dq_count = 10\<rparr> = Inr r"
    and "dy_scanned_through (pt_results r) = 2"
    using demo_dust_run by blast
  have n: "next_id wallet_store NEXT_EVENT_ID = Inr 2"
    by (simp add: next_id_def meta_u64_def wallet_store_get)
  have indexed: "dust_indexed wallet_store i \<longleftrightarrow> i = 1" for i
    by (simp add: wallet_store_get u64c.enc_inject [of i 1])
  have "set (map ev_id (dy_events (pt_results r))) = {i. dust_indexed wallet_store i \<and> 0 \<le> i
      \<and> i < dy_scanned_through (pt_results r)}"
    using dust_sync_no_gap [OF run, of 2] wallet_store_ok n indexed by (simp add: store)
  then show ?thesis using run \<open>dy_scanned_through (pt_results r) = 2\<close> unfolding indexed by auto
qed

section \<open>DUST generation status\<close>

text \<open>
  C25. The DUST status picks the newest live registration and the newest active generation. For a stake
  key with a live registration (not removed, and valid or mapped to an output) the status shows the
  address of one with the greatest height; if that address owns a generation that does not decay, its
  balance, rate and capacities are those of one with the greatest creation time; the maximum and the rate
  are the exact products cut at 128 bits, and the current capacity is the rate times the whole seconds
  from its creation to the tip, never above the maximum. Otherwise all amounts are zero.
\<close>

theorem dust_status_newest:
  assumes run: "dust_generation_status W s input = Inr r"
    and key: "parse_stake_key (wl_api W) input = Inr stake_key"
    and st: "store_ok (ap_store s)" and idx: "generations_indexed (ap_store s)"
  shows "\<exists>registration active params tip.
    newest (live_registration (ap_store s) (bytes29_bytes stake_key)) cn_registered_at_height registration
    \<and> (ds_registered (pt_results r) \<longleftrightarrow> registration \<noteq> None)
    \<and> ds_dust_address (pt_results r) = map_option (\<lambda>g. en_hex_encode (wl_api W) (cn_dust_address g)) registration
    \<and> (case registration of None \<Rightarrow> active = None
       | Some g \<Rightarrow> newest (active_generation (ap_store s) (cn_dust_address g)) dg_ctime active)
    \<and> (case active of
         None \<Rightarrow> ds_night_balance (pt_results r) = ''0'' \<and> ds_generation_rate (pt_results r) = ''0''
           \<and> ds_current_capacity (pt_results r) = ''0'' \<and> ds_max_capacity (pt_results r) = ''0''
       | Some info \<Rightarrow>
           wl_dust_parameters W LV9 = Inr params \<and> tip_timestamp (ap_store s) = Inr tip
           \<and> ds_night_balance (pt_results r) = dec_string (unat (dg_value info))
           \<and> (let rate = min (unat (dg_value info) * unat (dp_generation_decay_rate params)) (2 ^ 128 - 1);
                cap = min (unat (dg_value info) * unat (dp_night_dust_ratio params)) (2 ^ 128 - 1);
                since = unat (to_ms (dg_ctime info));
                secs = ((case tip of None \<Rightarrow> since | Some now \<Rightarrow> unat now) - since) div 1000
              in ds_generation_rate (pt_results r) = dec_string rate
                \<and> ds_max_capacity (pt_results r) = dec_string cap
                \<and> ds_current_capacity (pt_results r) = dec_string (min (rate * secs) cap)))"
proof -
  let ?st = "ap_store s"
  have cut: "min (min a m) (min b m) = min a (min b m)" for a b m :: nat by (simp add: min_def)
  have zero: "dec_string 0 = ''0''" by code_simp
  from run key obtain registration nb gr cc mc where
    reg: "try_fold latest_registration None (store_prefix ?st CnightRegistrations (bytes29_bytes stake_key))
      = Inr registration"
    and amounts: "(case registration of
              None \<Rightarrow> Inr (0, 0, 0, 0)
            | Some registration \<Rightarrow>
                and_then (or_internal ''dust parameters'' (wl_dust_parameters W LV9)) (\<lambda>params.
                let owner = cn_dust_address registration
                in and_then (try_fold (latest_generation ?st owner) None (store_prefix ?st DustGenByOwner owner))
                     (\<lambda>active.
                   case active of
                     None \<Rightarrow> Inr (0, 0, 0, 0)
                   | Some info \<Rightarrow>
                       and_then (db (tip_timestamp ?st)) (\<lambda>tip.
                         Inr (dg_value info, dust_capacity params info tip))))) = Inr (nb, gr, cc, mc)"
    and r: "ds_registered (pt_results r) \<longleftrightarrow> registration \<noteq> None"
      "ds_dust_address (pt_results r) = map_option (\<lambda>g. en_hex_encode (wl_api W) (cn_dust_address g)) registration"
      "ds_night_balance (pt_results r) = dec_string (unat nb)"
      "ds_generation_rate (pt_results r) = dec_string (unat gr)"
      "ds_current_capacity (pt_results r) = dec_string (unat cc)"
      "ds_max_capacity (pt_results r) = dec_string (unat mc)"
    by (auto simp: dust_generation_status_def Let_def response_def result_simps)
  note newest_reg = registration_fold [OF st reg]
  show ?thesis
  proof (cases registration)
    case None
    with amounts r newest_reg show ?thesis by (intro exI [of _ registration] exI [of _ None]) (simp add: zero)
  next
    case (Some g)
    from amounts Some obtain params active where
      params: "wl_dust_parameters W LV9 = Inr params"
      and fold: "try_fold (latest_generation ?st (cn_dust_address g)) None
        (store_prefix ?st DustGenByOwner (cn_dust_address g)) = Inr active"
      and rest: "(case active of None \<Rightarrow> Inr (0, 0, 0, 0)
        | Some info \<Rightarrow> and_then (db (tip_timestamp ?st)) (\<lambda>tip.
            Inr (dg_value info, dust_capacity params info tip))) = Inr (nb, gr, cc, mc)"
      by (auto simp: Let_def or_internal_def result_simps)
    note newest_gen = generation_fold [OF st idx fold]
    show ?thesis
    proof (cases active)
      case None
      with rest r newest_reg newest_gen Some show ?thesis
        by (intro exI [of _ registration] exI [of _ None]) (simp add: zero)
    next
      case active: (Some info)
      from rest active obtain tip where tip: "tip_timestamp ?st = Inr tip"
        and caps: "dust_capacity params info tip = (gr, cc, mc)" and nb: "nb = dg_value info"
        by (auto simp: result_simps)
      have cc: "unat cc = min (unat gr * (((case tip of None \<Rightarrow> unat (to_ms (dg_ctime info)) | Some now \<Rightarrow> unat now)
          - unat (to_ms (dg_ctime info))) div 1000)) (unat mc)"
        using dust_capacity_nat(3) [OF caps] unfolding dust_capacity_nat(2) [OF caps] cut
        by (cases tip) (simp_all add: unat_elapsed_seconds_since)
      note shown = r(3-6) [unfolded nb cc] tip params
      show ?thesis
        by (intro exI [of _ registration] exI [of _ active] exI [of _ params] exI [of _ tip] conjI)
          (simp_all only: Let_def dust_capacity_nat(1,2) [OF caps, symmetric] newest_reg [unfolded Some]
            newest_gen [unfolded active] r(1,2) Some active option.case shown simp_thms)
    qed
  qed
qed

theorem dust_status_newest_witness:
  "\<exists>r. dust_generation_status demo_wallet (demo_server wallet_store) (hex_encode demo_stake_key) = Inr r
    \<and> ds_registered (pt_results r) \<and> ds_night_balance (pt_results r) = ''10''
    \<and> ds_current_capacity (pt_results r) = ''200'' \<and> ds_max_capacity (pt_results r) = ''300''"
proof -
  have store: "ap_store (demo_server wallet_store) = wallet_store" "wl_api demo_wallet = demo_env"
    "wl_dust_parameters demo_wallet LV9 = Inr \<lparr>dp_night_dust_ratio = 30, dp_generation_decay_rate = 2,
       dp_dust_grace_period = 0\<rparr>"
    by (simp_all add: demo_server_def demo_wallet_def)
  have tip: "tip_timestamp wallet_store = Inr (Some 60000)"
    by (simp add: tip_timestamp_def meta_u64_def wallet_store_get)
  have key: "bytes29_bytes 7 = demo_stake_key" by (simp add: demo_stake_key_def)
  have live: "live_registration wallet_store demo_stake_key x \<longleftrightarrow> x = demo_live" for x
    by (auto simp: live_registration_def wallet_store_get demo_live_def)
  have active: "active_generation wallet_store [8] x \<longleftrightarrow> x = dr_info (demo_generation 1 50)" for x
    by (auto simp: active_generation_def wallet_store_get demo_generation_def split: if_splits)
  obtain r where run: "dust_generation_status demo_wallet (demo_server wallet_store) (hex_encode demo_stake_key)
      = Inr r"
    using demo_status_run by blast
  have amounts: "dec_string 10 = ''10''" "dec_string 200 = ''200''" "dec_string 300 = ''300''" by code_simp+
  have ten: "to_ms 50 = 50000" by (simp add: to_ms_def)
  note status = dust_status_newest [OF run, unfolded store key Let_def, OF demo_stake wallet_store_ok demo_indexed]
  from status [unfolded key] show ?thesis
  proof (elim exE conjE, goal_cases)
    case (1 registration act params t)
    have g: "registration = Some demo_live"
      using 1(1) by (cases registration) (auto simp: newest_def live)
    have a: "act = Some (dr_info (demo_generation 1 50))"
      using 1(4) unfolding g by (cases act) (auto simp: newest_def active demo_live_def)
    have "params = \<lparr>dp_night_dust_ratio = 30, dp_generation_decay_rate = 2, dp_dust_grace_period = 0\<rparr>"
      and t: "t = Some 60000" using 1(5) tip unfolding a by simp_all
    then show ?case
      using run 1(2,5) unfolding g a by (simp add: amounts demo_generation_def ten)
  qed
qed

end
