(* ===== verification/Backfill.thy ===== *)
theory Backfill
  imports ApiTxs WriteBlock
begin

text \<open>
  The maintenance passes over a stopped index (\<open>nightfrost/src/backfill.rs\<close>): the correlation and index
  of contract events, the wallet side indexes, the rebuild of the DUST generation index, and the
  migration of contract actions to schema 2. A pass collects its writes in a batch that it commits every
  \<open>COMMIT_EVERY\<close> writes; its result is the store it leaves behind and the counts or the error.
\<close>

section \<open>Batches that are committed on the way\<close>

definition COMMIT_EVERY :: nat where
  "COMMIT_EVERY = 1000"

record backfill_state =
  bf_store :: Store
  bf_batch :: "(part_id, store_value) batch"
  bf_pending :: nat

definition bf_insert :: "part_id \<Rightarrow> bytes \<Rightarrow> store_value \<Rightarrow> 'a backfill_state_scheme \<Rightarrow> 'a backfill_state_scheme" where
  "bf_insert p k v s = s\<lparr>bf_batch := batch_insert p k v (bf_batch s)\<rparr>"

definition bf_flush :: "'a backfill_state_scheme \<Rightarrow> 'a backfill_state_scheme" where
  "bf_flush s =
     (if bf_pending s \<ge> COMMIT_EVERY
      then s\<lparr>bf_store := commit (bf_store s) (bf_batch s), bf_batch := [], bf_pending := 0\<rparr> else s)"

text \<open>A loop over the entries of a scan; an error leaves what has been committed.\<close>

fun bf_loop :: "('a backfill_state_scheme \<Rightarrow> 'e \<Rightarrow> rust_error + 'a backfill_state_scheme) \<Rightarrow> 'e list \<Rightarrow>
    'a backfill_state_scheme \<Rightarrow> Store \<times> (rust_error + 'a backfill_state_scheme)" where
  "bf_loop step [] s = (bf_store s, Inr s)"
| "bf_loop step (e # es) s =
     (case step s e of Inl err \<Rightarrow> (bf_store s, Inl err) | Inr s' \<Rightarrow> bf_loop step es s')"

section \<open>Contract events\<close>

record BackfillCounts =
  bc_events_scanned :: u64
  bc_contract_events_indexed :: u64
  bc_events_correlated :: u64
  bc_records_rewritten :: u64

definition zero_counts :: BackfillCounts where
  "zero_counts = \<lparr>bc_events_scanned = 0, bc_contract_events_indexed = 0, bc_events_correlated = 0,
     bc_records_rewritten = 0\<rparr>"

type_synonym actions_cache = "(u64 \<times> (u64 \<times> ContractActionRecord) list) list"

record events_backfill = backfill_state +
  eb_cache :: actions_cache
  eb_counts :: BackfillCounts

definition tx_actions :: "Store \<Rightarrow> u64 \<Rightarrow> rust_error + (u64 \<times> ContractActionRecord) list" where
  "tx_actions st tx_id =
     and_then (store_tx st tx_id) (\<lambda>t.
     and_then (ok_or (Fail ''missing tx record'') t) (\<lambda>tx.
       try_map (\<lambda>action_id.
         and_then (get_decoded as_action st (contract_actions st) (u64_to_be_bytes action_id)) (\<lambda>a.
         and_then (ok_or (Fail ''missing contract action'') a) (\<lambda>action.
           Inr (action_id, action)))) (tx_contract_action_ids tx)))"

text \<open>The cache of the actions per transaction. It is cleared as soon as it holds more than ten thousand
  transactions, the one just entered included; the look-up that follows indexes the map.\<close>

definition cache_actions :: "Store \<Rightarrow> actions_cache \<Rightarrow> u64 \<Rightarrow> rust_error + actions_cache" where
  "cache_actions st cache tx_id =
     (if map_of cache tx_id = None
      then and_then (tx_actions st tx_id) (\<lambda>actions.
             let cache = (tx_id, actions) # cache
             in Inr (if length cache > 10000 then [] else cache))
      else Inr cache)"

definition action_refs_of :: "(u64 \<times> ContractActionRecord) list \<Rightarrow> action_ref list" where
  "action_refs_of actions = map (\<lambda>(action_id, action). (action_id, ar_address action, ar_attributes action)) actions"

definition correlated_id :: "EventRecord \<Rightarrow> (u64 \<times> ContractActionRecord) list \<Rightarrow> u64 option" where
  "correlated_id record actions =
     or_else (correlate_contract_action_id (er_event record) (action_refs_of actions))
       (le_contract_action_id (er_event record))"

text \<open>The rest of an iteration, with the actions of the event's transaction.\<close>

definition rewrite_event ::
    "bytes \<Rightarrow> EventRecord \<Rightarrow> (u64 \<times> ContractActionRecord) list \<Rightarrow> events_backfill \<Rightarrow> events_backfill" where
  "rewrite_event key record actions s =
     (let correlated = correlated_id record actions;
          s = (if correlated \<noteq> None
               then s\<lparr>eb_counts := (eb_counts s)\<lparr>bc_events_correlated := bc_events_correlated (eb_counts s) + 1\<rparr>\<rparr>
               else s);
          s = (if le_contract_action_id (er_event record) \<noteq> correlated
               then (bf_insert LedgerEvents key
                      (VEvent (record\<lparr>er_event := (er_event record)\<lparr>le_contract_action_id := correlated\<rparr>\<rparr>)) s)
                    \<lparr>bf_pending := bf_pending s + 1,
                     eb_counts := (eb_counts s)\<lparr>bc_records_rewritten := bc_records_rewritten (eb_counts s) + 1\<rparr>\<rparr>
               else s)
      in bf_flush s)"

definition contract_event_step ::
    "events_backfill \<Rightarrow> bytes \<times> store_value \<Rightarrow> rust_error + events_backfill" where
  "contract_event_step s entry =
     (let key = fst entry;
          s = s\<lparr>eb_counts := (eb_counts s)\<lparr>bc_events_scanned := bc_events_scanned (eb_counts s) + 1\<rparr>\<rparr>
      in and_then (ok_or (Fail ''8-byte event id'') (u64_from_be_bytes key)) (\<lambda>event_id.
         and_then (store_decode as_event (snd entry)) (\<lambda>record.
           if le_grouping (er_event record) \<noteq> ContractGrouping then Inr s
           else
             and_then (ok_or (Fail ''contract event without contract address'')
                 (le_contract_address (er_event record))) (\<lambda>address.
             let s = (bf_insert EventsByContract (prefixed_u64_key address event_id) (Raw []) s)
                       \<lparr>bf_pending := bf_pending s + 1,
                        eb_counts := (eb_counts s)
                          \<lparr>bc_contract_events_indexed := bc_contract_events_indexed (eb_counts s) + 1\<rparr>\<rparr>;
                 tx_id = er_tx_id record
             in and_then (cache_actions (bf_store s) (eb_cache s) tx_id) (\<lambda>cache.
                and_then (ok_or (Panic ''no entry found for key'') (map_of cache tx_id)) (\<lambda>actions.
                  Inr (rewrite_event key record actions (s\<lparr>eb_cache := cache\<rparr>))))))))"

definition backfill_contract_events :: "Store \<Rightarrow> Store \<times> (rust_error + BackfillCounts)" where
  "backfill_contract_events st =
     (case bf_loop contract_event_step (store_iter st LedgerEvents)
         \<lparr>bf_store = st, bf_batch = [], bf_pending = 0, eb_cache = [], eb_counts = zero_counts\<rparr> of
        (st', Inl e) \<Rightarrow> (st', Inl e)
      | (st', Inr s) \<Rightarrow> (commit (bf_store s) (bf_batch s), Inr (eb_counts s)))"

section \<open>Wallet side indexes\<close>

record WalletSidecarCounts =
  sd_transactions_indexed :: u64
  sd_dust_events_indexed :: u64

record sidecar_state = backfill_state +
  sd_zswap_index :: u64
  sd_counts :: WalletSidecarCounts

definition is_zswap_output :: "EventRecord \<Rightarrow> bool" where
  "is_zswap_output record = (case le_attributes (er_event record) of ZswapOutput \<Rightarrow> True | _ \<Rightarrow> False)"

definition count_outputs :: "Store \<Rightarrow> rust_error + u64" where
  "count_outputs st =
     try_fold (\<lambda>count entry. and_then (store_decode as_event (snd entry)) (\<lambda>record.
       Inr (count + (if is_zswap_output record then 1 else 0)))) 0 (store_iter st LedgerEvents)"

definition sidecar_start :: "Store \<Rightarrow> u64 \<Rightarrow> u64 \<Rightarrow> rust_error + u64" where
  "sidecar_start st current_zswap_end tx_progress =
     (if tx_progress = 0
      then and_then (count_outputs st) (\<lambda>outputs.
             if outputs \<le> current_zswap_end then Inr (current_zswap_end - outputs)
             else Inl (Fail ''stored Zswap events exceed the current first-free index''))
      else and_then (get_decoded as_wallet_tx st WalletTxIndices (u64_to_be_bytes (tx_progress - 1))) (\<lambda>i.
           and_then (ok_or (Fail ''wallet transaction index progress has no preceding record'') i) (\<lambda>index.
             Inr (wt_zswap_end_index index))))"

definition stored_event :: "Store \<Rightarrow> u64 \<Rightarrow> rust_error + EventRecord" where
  "stored_event st event_id =
     and_then (get_decoded as_event st LedgerEvents (u64_to_be_bytes event_id)) (ok_or (Fail ''missing event''))"

definition advance_index :: "Store \<Rightarrow> TxRecord \<Rightarrow> u64 \<Rightarrow> rust_error + u64" where
  "advance_index st t zswap_index =
     try_fold (\<lambda>zswap_index event_id. and_then (stored_event st event_id) (\<lambda>event.
       Inr (if is_zswap_output event then zswap_index + 1 else zswap_index))) zswap_index (event_ids t)"

definition sidecar_tx_step :: "sidecar_state \<Rightarrow> u64 \<Rightarrow> rust_error + sidecar_state" where
  "sidecar_tx_step s tx_id =
     (let st = bf_store s
      in and_then (store_tx st tx_id) (\<lambda>t.
         and_then (ok_or (Fail ''missing transaction'') t) (\<lambda>tx.
         and_then (store_block st (tx_block_height tx)) (\<lambda>b.
         and_then (ok_or (Fail ''missing block'') b) (\<lambda>block.
         and_then (advance_index st tx (sd_zswap_index s)) (\<lambda>zswap_index.
           let row = \<lparr>wt_zswap_start_index = sd_zswap_index s, wt_zswap_end_index = zswap_index,
                      wt_protocol_version = bk_protocol_version block\<rparr>;
               s = bf_insert WalletTxIndices (u64_to_be_bytes tx_id) (VWalletTx row) s;
               s = bf_insert Meta WALLET_TX_INDEXED_THROUGH (Raw (u64_to_be_bytes (tx_id + 1))) s
           in Inr (bf_flush (s\<lparr>sd_zswap_index := zswap_index, bf_pending := bf_pending s + 1,
                    sd_counts := (sd_counts s)
                      \<lparr>sd_transactions_indexed := sd_transactions_indexed (sd_counts s) + 1\<rparr>\<rparr>))))))))"

definition sidecar_dust_step :: "sidecar_state \<Rightarrow> u64 \<Rightarrow> rust_error + sidecar_state" where
  "sidecar_dust_step s event_id =
     and_then (stored_event (bf_store s) event_id) (\<lambda>record.
       let s = (if le_grouping (er_event record) = Dust
                then (bf_insert WalletDustEvents (u64_to_be_bytes event_id) (Raw []) s)
                     \<lparr>sd_counts := (sd_counts s)
                        \<lparr>sd_dust_events_indexed := sd_dust_events_indexed (sd_counts s) + 1\<rparr>\<rparr>
                else s);
           s = bf_insert Meta WALLET_DUST_INDEXED_THROUGH (Raw (u64_to_be_bytes (event_id + 1))) s
       in Inr (bf_flush (s\<lparr>bf_pending := bf_pending s + 1\<rparr>)))"

definition backfill_wallet_sidecars :: "Store \<Rightarrow> u64 \<Rightarrow> Store \<times> (rust_error + WalletSidecarCounts)" where
  "backfill_wallet_sidecars st current_zswap_end =
     (case
        and_then (next_id st NEXT_TX_ID) (\<lambda>target_tx.
        and_then (next_id st NEXT_EVENT_ID) (\<lambda>target_event.
        and_then (next_id st WALLET_TX_INDEXED_THROUGH) (\<lambda>tx_progress.
        and_then (next_id st WALLET_DUST_INDEXED_THROUGH) (\<lambda>event_progress.
        and_then (sidecar_start st current_zswap_end tx_progress) (\<lambda>zswap_index.
          Inr (target_tx, target_event, tx_progress, event_progress, zswap_index)))))) of
        Inl e \<Rightarrow> (st, Inl e)
      | Inr (target_tx, target_event, tx_progress, event_progress, zswap_index) \<Rightarrow>
          (case bf_loop sidecar_tx_step (map word_of_nat [unat tx_progress ..< unat target_tx])
               \<lparr>bf_store = st, bf_batch = [], bf_pending = 0, sd_zswap_index = zswap_index,
                sd_counts = \<lparr>sd_transactions_indexed = 0, sd_dust_events_indexed = 0\<rparr>\<rparr> of
             (st', Inl e) \<Rightarrow> (st', Inl e)
           | (st', Inr s) \<Rightarrow>
               if sd_zswap_index s \<noteq> current_zswap_end
               then (st', Inl (Fail ''wallet Zswap index ended at another index than the ledger state''))
               else
                 (case bf_loop sidecar_dust_step (map word_of_nat [unat event_progress ..< unat target_event]) s of
                    (st', Inl e) \<Rightarrow> (st', Inl e)
                  | (st', Inr s) \<Rightarrow> (commit (bf_store s) (bf_batch s), Inr (sd_counts s)))))"

end
