(* ===== verification/Migrations.thy ===== *)
theory Migrations
  imports Backfill
begin

text \<open>
  The two migrations of \<open>nightfrost/src/backfill.rs\<close>: the DUST generation index rebuilt under stable
  keys, and the contract actions of schema 1 rewritten with content-addressed states, which can be
  interrupted and resumed from a cursor in the meta partition.
\<close>

section \<open>The DUST generation index\<close>

record DustBackfillCounts =
  db_rebuilt :: bool
  db_events_scanned :: u64
  db_generation_entries_written :: u64

fun generation_of :: "LedgerEventAttributes \<Rightarrow> DustGenerationInfo option" where
  "generation_of (DustInitialUtxo _ generation_info _) = Some generation_info"
| "generation_of (DustGenerationDtimeUpdate generation_info _ _) = Some generation_info"
| "generation_of _ = None"

text \<open>The rebuild in memory: the records by hash in the order of the events, and the owner keys.\<close>

type_synonym rebuild = "(bytes \<times> store_value) list \<times> bytes list \<times> DustBackfillCounts"

definition rebuild_step :: "rebuild \<Rightarrow> bytes \<times> store_value \<Rightarrow> rust_error + rebuild" where
  "rebuild_step s entry =
     (case s of (new_generation, new_owner, counts) \<Rightarrow>
        and_then (store_decode as_event (snd entry)) (\<lambda>record.
        let counts = counts\<lparr>db_events_scanned := db_events_scanned counts + 1\<rparr>
        in case generation_of (le_attributes (er_event record)) of
             None \<Rightarrow> Inr (new_generation, new_owner, counts)
           | Some info \<Rightarrow>
               let hash = hash_bytes (dg_night_utxo_hash info)
               in Inr (new_generation @ [(hash, VDustGen \<lparr>dr_info = info, dr_tx_id = er_tx_id record\<rparr>)],
                       new_owner @ [dg_owner info @ hash],
                       counts\<lparr>db_generation_entries_written := db_generation_entries_written counts + 1\<rparr>)))"

datatype rebuild_op =
    RemoveGeneration bytes
  | RemoveOwner bytes
  | InsertGeneration bytes store_value
  | InsertOwner bytes

fun rebuild_item :: "rebuild_op \<Rightarrow> (part_id, store_value) batch \<Rightarrow> (part_id, store_value) batch" where
  "rebuild_item (RemoveGeneration key) = batch_remove DustGeneration key"
| "rebuild_item (RemoveOwner key) = batch_remove DustGenByOwner key"
| "rebuild_item (InsertGeneration hash v) = batch_insert DustGeneration hash v"
| "rebuild_item (InsertOwner key) = batch_insert DustGenByOwner key (Raw [])"

definition heads :: "'a list list \<Rightarrow> 'a list" where
  "heads streams = List.map_filter (\<lambda>s. case s of [] \<Rightarrow> None | x # _ \<Rightarrow> Some x) streams"

definition robin_round :: "backfill_state \<Rightarrow> rebuild_op list \<Rightarrow> backfill_state" where
  "robin_round s ops = bf_flush (s\<lparr>bf_batch := fold rebuild_item ops (bf_batch s),
     bf_pending := bf_pending s + length ops\<rparr>)"

text \<open>One operation of every stream per round, until all streams are empty.\<close>

function robin :: "backfill_state \<Rightarrow> rebuild_op list list \<Rightarrow> backfill_state" where
  "robin s streams = (if heads streams = [] then s else robin (robin_round s (heads streams)) (map tl streams))"
  by pat_completeness auto

lemma heads_Cons [simp]:
  "heads ([] # streams) = heads streams"
  "heads ((x # xs) # streams) = x # heads streams"
  "heads [] = []"
  by (simp_all add: heads_def List.map_filter_simps)

lemma heads_empty: "heads streams = [] \<longleftrightarrow> (\<forall>s \<in> set streams. s = [])"
proof (induction streams)
  case (Cons s streams)
  then show ?case by (cases s) simp_all
qed simp

lemma tl_shorter: "heads streams \<noteq> [] \<Longrightarrow> sum_list (map length (map tl streams)) < sum_list (map length streams)"
proof (induction streams)
  case (Cons s streams)
  have le: "sum_list (map length (map tl streams)) \<le> sum_list (map length streams)"
    unfolding map_map by (rule sum_list_mono) simp
  show ?case
  proof (cases s)
    case Nil
    with Cons show ?thesis by simp
  next
    case (Cons x xs)
    with le show ?thesis by simp
  qed
qed simp

termination robin
  by (relation "measure (\<lambda>(s, streams). sum_list (map length streams))") (use tl_shorter in auto)

definition backfill_dust_generation :: "Store \<Rightarrow> Store \<times> (rust_error + DustBackfillCounts)" where
  "backfill_dust_generation st =
     (case try_fold rebuild_step
         ([], [], \<lparr>db_rebuilt = False, db_events_scanned = 0, db_generation_entries_written = 0\<rparr>)
         (store_iter st LedgerEvents) of
        Inl e \<Rightarrow> (st, Inl e)
      | Inr (new_generation, new_owner, counts) \<Rightarrow>
          let new_generation_keys = set (map fst new_generation);
              new_owner_keys = set new_owner;
              old_generation_keys = filter (\<lambda>k. k \<notin> new_generation_keys) (map fst (store_iter st DustGeneration));
              old_owner_keys = filter (\<lambda>k. k \<notin> new_owner_keys) (map fst (store_iter st DustGenByOwner));
              streams = [map RemoveGeneration old_generation_keys, map RemoveOwner old_owner_keys,
                map (\<lambda>(hash, v). InsertGeneration hash v) new_generation, map InsertOwner new_owner];
              s = robin \<lparr>bf_store = st, bf_batch = [], bf_pending = 0\<rparr> streams
          in (commit (bf_store s) (bf_batch s), Inr (counts\<lparr>db_rebuilt := True\<rparr>)))"

section \<open>Content-addressed contract states\<close>

record ContractStatesCounts =
  cs_actions :: u64
  cs_blobs :: u64
  cs_blob_bytes :: u64
  cs_cut_over :: bool
  cs_reclaimed :: bool

definition zero_states :: ContractStatesCounts where
  "zero_states = \<lparr>cs_actions = 0, cs_blobs = 0, cs_blob_bytes = 0, cs_cut_over = False, cs_reclaimed = False\<rparr>"

record states_backfill = backfill_state +
  st_pending_hashes :: "hash32 list"
  st_counts :: ContractStatesCounts

definition delete_partition :: "part_id \<Rightarrow> Store \<Rightarrow> Store" where
  "delete_partition p st = st\<lparr>disk := (disk st)
     \<lparr>keyspace := (keyspace (disk st))(p := []), existing := removeAll p (existing (disk st))\<rparr>\<rparr>"

definition backfill_cursor :: "Store \<Rightarrow> rust_error + u64 option" where
  "backfill_cursor st =
     (case store_get st Meta CONTRACT_STATES_BACKFILL_CURSOR of
        None \<Rightarrow> Inr None
      | Some v \<Rightarrow> and_then (as_u64 ''8-byte cursor'' v) (\<lambda>c. Inr (Some c)))"

text \<open>The state blob of an action: its hash, entered once in the store or in the pending batch.\<close>

definition migrate_state :: "(bytes \<Rightarrow> hash32) \<Rightarrow> bytes \<Rightarrow> states_backfill \<Rightarrow> states_backfill \<times> hash32 option" where
  "migrate_state sha state s =
     (if state = [] then (s, None)
      else
        let hash = sha state
        in (if store_get (bf_store s) ContractStates (hash_bytes hash) = None \<and> hash \<notin> set (st_pending_hashes s)
            then (bf_insert ContractStates (hash_bytes hash) (Raw state) s)
                   \<lparr>st_pending_hashes := hash # st_pending_hashes s,
                    st_counts := (st_counts s)\<lparr>cs_blobs := cs_blobs (st_counts s) + 1,
                      cs_blob_bytes := cs_blob_bytes (st_counts s) + word_of_nat (length state)\<rparr>\<rparr>
            else s, Some hash))"

definition migrated_action :: "LegacyContractActionRecord \<Rightarrow> hash32 option \<Rightarrow> ContractActionRecord" where
  "migrated_action legacy state_hash = \<lparr>ar_address = la_address legacy, ar_attributes = la_attributes legacy,
     ar_state_hash = state_hash, ar_balances = la_balances legacy, ar_tx_id = la_tx_id legacy,
     ar_block_height = la_block_height legacy\<rparr>"

definition states_flush :: "u64 \<Rightarrow> states_backfill \<Rightarrow> states_backfill" where
  "states_flush last_id s =
     (if bf_pending s \<ge> COMMIT_EVERY
      then (bf_flush (bf_insert Meta CONTRACT_STATES_BACKFILL_CURSOR (Raw (u64_to_be_bytes last_id)) s))
             \<lparr>st_pending_hashes := []\<rparr>
      else s)"

definition states_step ::
    "(bytes \<Rightarrow> hash32) \<Rightarrow> u64 option \<Rightarrow> states_backfill \<Rightarrow> bytes \<times> store_value \<Rightarrow> rust_error + states_backfill" where
  "states_step sha resume_after s entry =
     (let key = fst entry
      in and_then (ok_or (Fail ''8-byte action id'') (u64_from_be_bytes key)) (\<lambda>action_id.
         if (case resume_after of None \<Rightarrow> False | Some cursor \<Rightarrow> action_id \<le> cursor) then Inr s
         else
           and_then (store_decode as_legacy_action (snd entry)) (\<lambda>legacy.
             let s = s\<lparr>st_counts := (st_counts s)\<lparr>cs_actions := cs_actions (st_counts s) + 1\<rparr>\<rparr>;
                 (s, state_hash) = migrate_state sha (la_state legacy) s;
                 s = bf_insert ContractActionsV2 key (VAction (migrated_action legacy state_hash)) s
             in Inr (states_flush action_id (s\<lparr>bf_pending := bf_pending s + 1\<rparr>)))))"

definition cut_over :: "(part_id, store_value) batch \<Rightarrow> (part_id, store_value) batch" where
  "cut_over b = batch_insert Meta SCHEMA_VERSION (Raw (u64_to_be_bytes SCHEMA_CURRENT))
     (batch_remove Meta CONTRACT_STATES_BACKFILL_CURSOR b)"

definition backfill_contract_states ::
    "(bytes \<Rightarrow> hash32) \<Rightarrow> Store \<Rightarrow> Store \<times> (rust_error + ContractStatesCounts)" where
  "backfill_contract_states sha st =
     (if schema st \<ge> SCHEMA_CURRENT then
        (if LegacyContractActions \<in> set (existing (disk st))
         then (delete_partition LegacyContractActions st, Inr (zero_states\<lparr>cs_reclaimed := True\<rparr>))
         else (st, Inr zero_states))
      else
        let st = st\<lparr>disk := open_partition ContractActionsV2 (disk st)\<rparr>
        in case backfill_cursor st of
             Inl e \<Rightarrow> (st, Inl e)
           | Inr resume_after \<Rightarrow>
               (case bf_loop (states_step sha resume_after) (store_iter st (contract_actions st))
                   \<lparr>bf_store = st, bf_batch = [], bf_pending = 0, st_pending_hashes = [], st_counts = zero_states\<rparr> of
                  (st', Inl e) \<Rightarrow> (st', Inl e)
                | (st', Inr s) \<Rightarrow>
                    (delete_partition (contract_actions st) (commit (bf_store s) (cut_over (bf_batch s))),
                     Inr ((st_counts s)\<lparr>cs_cut_over := True, cs_reclaimed := True\<rparr>))))"

end
