(* ===== verification/RebuildFacts.thy ===== *)
theory RebuildFacts
  imports Migrations EventIndex
begin

text \<open>
  The rebuild of the DUST generation index. Its operations are taken in turn from four streams and
  committed in batches; since no key is both removed and inserted, the index that results is the one the
  events determine, whatever was there before.
\<close>

section \<open>Operations taken in turn\<close>

function robin_ops :: "'a list list \<Rightarrow> 'a list" where
  "robin_ops streams = (if heads streams = [] then [] else heads streams @ robin_ops (map tl streams))"
  by pat_completeness auto
termination
  by (relation "measure (\<lambda>streams. sum_list (map length streams))") (use tl_shorter in auto)

declare robin.simps [simp del] robin_ops.simps [simp del]

definition rebuild_view :: "backfill_state \<Rightarrow> Store" where
  "rebuild_view s = commit (bf_store s) (bf_batch s)"

lemma commit_append: "commit st (b @ c) = commit (commit st b) c"
  by (simp add: commit_def batch_commit_append)

lemma rebuild_item_append: "rebuild_item op (b @ c) = b @ rebuild_item op c"
  by (cases op) (simp_all add: batch_insert_def batch_remove_def)

lemma rebuild_items_append: "fold rebuild_item ops b = b @ fold rebuild_item ops []"
proof (induction ops arbitrary: b)
  case (Cons op ops)
  have "fold rebuild_item (op # ops) b = (b @ rebuild_item op []) @ fold rebuild_item ops []"
    using Cons [of "rebuild_item op b"] rebuild_item_append [of op b "[]"] by simp
  also have "\<dots> = b @ fold rebuild_item (op # ops) []" using Cons [of "rebuild_item op []"] by simp
  finally show ?case .
qed simp

lemma robin_view:
  "rebuild_view (robin s streams) = commit (rebuild_view s) (fold rebuild_item (robin_ops streams) [])"
proof (induction s streams rule: robin.induct)
  case (1 s streams)
  show ?case
  proof (cases "heads streams = []")
    case True
    then show ?thesis by (subst robin.simps) (simp add: robin_ops.simps)
  next
    case False
    have round: "rebuild_view (robin_round s (heads streams))
        = commit (rebuild_view s) (fold rebuild_item (heads streams) [])"
      using rebuild_items_append [of "heads streams" "bf_batch s"]
      by (simp add: rebuild_view_def robin_round_def bf_flush_def commit_append)
    have "rebuild_view (robin s streams) = rebuild_view (robin (robin_round s (heads streams)) (map tl streams))"
      using False by (subst robin.simps) simp
    also have "\<dots> = commit (rebuild_view s) (fold rebuild_item (heads streams) []
        @ fold rebuild_item (robin_ops (map tl streams)) [])"
      using 1 [OF False] by (simp add: round commit_append)
    also have "fold rebuild_item (heads streams) [] @ fold rebuild_item (robin_ops (map tl streams)) []
        = fold rebuild_item (robin_ops streams) []"
      using False by (subst (2) robin_ops.simps) (simp add: rebuild_items_append [symmetric])
    finally show ?thesis .
  qed
qed

text \<open>The operations of one stream keep their order, so that a selection that only one stream meets is
  the selection from that stream.\<close>

lemma filter_heads:
  assumes "i < length streams" and "\<And>j x. j < length streams \<Longrightarrow> j \<noteq> i \<Longrightarrow> x \<in> set (streams ! j) \<Longrightarrow> \<not> P x"
  shows "filter P (heads streams) = filter P (take 1 (streams ! i))"
  using assms
proof (induction streams arbitrary: i)
  case (Cons s streams)
  have none: "filter P (heads streams) = []" if "\<And>j x. j < length streams \<Longrightarrow> x \<in> set (streams ! j) \<Longrightarrow> \<not> P x"
  proof -
    have "\<forall>s \<in> set streams. \<forall>x \<in> set s. \<not> P x" using that by (metis in_set_conv_nth)
    then have "\<forall>x \<in> set (heads streams). \<not> P x"
    proof (induction streams)
      case (Cons s streams)
      then show ?case by (cases s) auto
    qed simp
    then show ?thesis by (simp add: filter_empty_conv)
  qed
  show ?case
  proof (cases i)
    case 0
    have "filter P (heads streams) = []"
      using Cons.prems(2) [of "Suc j" for j] 0 by (intro none) fastforce
    with 0 show ?thesis by (cases s) auto
  next
    case (Suc k)
    have "filter P (heads streams) = filter P (take 1 (streams ! k))"
      using Cons.prems Suc by (intro Cons.IH) fastforce+
    moreover have "x \<in> set s \<Longrightarrow> \<not> P x" for x using Cons.prems(2) [of 0 x] Suc by simp
    ultimately show ?thesis using Suc by (cases s) auto
  qed
qed simp

lemma filter_robin:
  assumes "i < length streams" and "\<And>j x. j < length streams \<Longrightarrow> j \<noteq> i \<Longrightarrow> x \<in> set (streams ! j) \<Longrightarrow> \<not> P x"
  shows "filter P (robin_ops streams) = filter P (streams ! i)"
  using assms
proof (induction streams rule: robin_ops.induct)
  case (1 streams)
  show ?case
  proof (cases "heads streams = []")
    case True
    then have "streams ! i = []" using 1(2) unfolding heads_empty by (meson nth_mem)
    with True show ?thesis by (simp add: robin_ops.simps)
  next
    case False
    have tail: "filter P (robin_ops (map tl streams)) = filter P (map tl streams ! i)"
    proof (rule 1(1) [OF False])
      fix j x assume "j < length (map tl streams)" "j \<noteq> i" "x \<in> set (map tl streams ! j)"
      moreover have "x \<in> set (streams ! j)" using calculation by (cases "streams ! j") auto
      ultimately show "\<not> P x" using 1(3) by simp
    qed (use 1(2) in simp)
    have "filter P (robin_ops streams) = filter P (heads streams) @ filter P (robin_ops (map tl streams))"
      using False by (subst robin_ops.simps) simp
    also have "filter P (heads streams) = filter P (take 1 (streams ! i))"
      using 1(2,3) by (rule filter_heads)
    also have "filter P (robin_ops (map tl streams)) = filter P (tl (streams ! i))"
      unfolding tail using 1(2) by simp
    also have "filter P (take 1 (streams ! i)) @ filter P (tl (streams ! i)) = filter P (streams ! i)"
      by (cases "streams ! i") simp_all
    finally show ?thesis .
  qed
qed

section \<open>Look-ups after the operations\<close>

fun op_key :: "rebuild_op \<Rightarrow> part_id \<times> bytes" where
  "op_key (RemoveGeneration k) = (DustGeneration, k)"
| "op_key (RemoveOwner k) = (DustGenByOwner, k)"
| "op_key (InsertGeneration k v) = (DustGeneration, k)"
| "op_key (InsertOwner k) = (DustGenByOwner, k)"

fun op_value :: "rebuild_op \<Rightarrow> store_value option" where
  "op_value (InsertGeneration k v) = Some v"
| "op_value (InsertOwner k) = Some (Raw [])"
| "op_value _ = None"

lemma store_get_ops:
  "store_get (commit st (fold rebuild_item ops [])) p k
    = (case rev (filter (\<lambda>op. op_key op = (p, k)) ops) of [] \<Rightarrow> store_get st p k | op # _ \<Rightarrow> op_value op)"
proof (induction ops rule: rev_induct)
  case (snoc op ops)
  have "store_get (commit st (rebuild_item op b)) p k
      = (if op_key op = (p, k) then op_value op else store_get (commit st b) p k)" for b
    by (cases op) (auto simp: store_simps)
  with snoc show ?case by simp
qed simp

section \<open>The rebuild from the events\<close>

definition gen_key :: "DustGenerationRecord \<Rightarrow> bytes" where
  "gen_key g = hash_bytes (dg_night_utxo_hash (dr_info g))"

definition gen_owner_key :: "DustGenerationRecord \<Rightarrow> bytes" where
  "gen_owner_key g = dg_owner (dr_info g) @ gen_key g"

definition gen_of :: "EventRecord \<Rightarrow> DustGenerationRecord option" where
  "gen_of r = map_option (\<lambda>info. \<lparr>dr_info = info, dr_tx_id = er_tx_id r\<rparr>) (generation_of (le_attributes (er_event r)))"

definition gen_row :: "bytes \<times> store_value \<Rightarrow> DustGenerationRecord option" where
  "gen_row e = Option.bind (as_event (snd e)) gen_of"

lemma rebuild_fold:
  assumes "try_fold rebuild_step (g, ow, c) es = Inr (g', ow', c')"
  shows "g' = g @ map (\<lambda>r. (gen_key r, VDustGen r)) (List.map_filter gen_row es)"
    and "ow' = ow @ map gen_owner_key (List.map_filter gen_row es)"
proof -
  have "g' = g @ map (\<lambda>r. (gen_key r, VDustGen r)) (List.map_filter gen_row es)
      \<and> ow' = ow @ map gen_owner_key (List.map_filter gen_row es)"
    using assms
  proof (induction es arbitrary: g ow c)
    case (Cons e es)
    obtain g1 ow1 c1 where step: "rebuild_step (g, ow, c) e = Inr (g1, ow1, c1)"
      and rest: "try_fold rebuild_step (g1, ow1, c1) es = Inr (g', ow', c')"
      using Cons.prems by (auto simp: result_simps)
    from step obtain r where r: "as_event (snd e) = Some r"
      by (auto simp: rebuild_step_def result_simps store_decode_def split: option.splits)
    have "(case gen_row e of None \<Rightarrow> g1 = g \<and> ow1 = ow
        | Some x \<Rightarrow> g1 = g @ [(gen_key x, VDustGen x)] \<and> ow1 = ow @ [gen_owner_key x])"
      using step r by (cases "generation_of (le_attributes (er_event r))")
        (auto simp: rebuild_step_def store_decode_def gen_row_def gen_of_def Let_def gen_key_def gen_owner_key_def)
    with Cons.IH [OF rest] show ?case
      by (cases "gen_row e") (simp_all add: List.map_filter_simps)
  qed (simp add: List.map_filter_simps)
  then show "g' = g @ map (\<lambda>r. (gen_key r, VDustGen r)) (List.map_filter gen_row es)"
    "ow' = ow @ map gen_owner_key (List.map_filter gen_row es)" by blast+
qed

lemma rebuild_total:
  assumes "\<And>e. e \<in> set es \<Longrightarrow> as_event (snd e) \<noteq> None"
  shows "\<exists>g' ow' c'. try_fold rebuild_step (g, ow, c) es = Inr (g', ow', c')"
  using assms
proof (induction es arbitrary: g ow c)
  case (Cons e es)
  then obtain r where "as_event (snd e) = Some r" by fastforce
  then have "\<exists>g1 ow1 c1. rebuild_step (g, ow, c) e = Inr (g1, ow1, c1)"
    by (cases "generation_of (le_attributes (er_event r))") (auto simp: rebuild_step_def store_decode_def Let_def)
  with Cons show ?case by fastforce
qed simp

lemma find_newest:
  assumes "sorted_wrt (<) (map fst (es :: ('k :: linorder \<times> 'v) list))"
  shows "find P (rev (List.map_filter f es)) = Some g \<longleftrightarrow>
    (\<exists>e \<in> set es. f e = Some g \<and> P g \<and> (\<forall>e' \<in> set es. \<forall>g'. f e' = Some g' \<and> P g' \<longrightarrow> fst e' \<le> fst e))"
  using assms
proof (induction es rule: rev_induct)
  case (snoc e es)
  have below: "fst e' < fst e" if "e' \<in> set es" for e'
    using snoc.prems that by (simp add: sorted_wrt_append)
  have IH: "find P (rev (List.map_filter f es)) = Some g \<longleftrightarrow>
    (\<exists>e \<in> set es. f e = Some g \<and> P g \<and> (\<forall>e' \<in> set es. \<forall>g'. f e' = Some g' \<and> P g' \<longrightarrow> fst e' \<le> fst e))"
    using snoc.prems by (intro snoc.IH) (simp add: sorted_wrt_append)
  have last: "List.map_filter f (es @ [e]) = List.map_filter f es @ (case f e of None \<Rightarrow> [] | Some x \<Rightarrow> [x])"
    by (simp add: List.map_filter_def split: option.split)
  show ?case
  proof (cases "\<exists>x. f e = Some x \<and> P x")
    case True
    then obtain x where x: "f e = Some x" "P x" by blast
    let ?top = "\<lambda>e0. \<forall>e' \<in> set (es @ [e]). \<forall>g'. f e' = Some g' \<and> P g' \<longrightarrow> fst e' \<le> fst e0"
    have self: "?top e" using below by (auto intro: order_less_imp_le)
    have none: "\<not> ?top e'" if "e' \<in> set es" for e' using below [OF that] x by (auto simp: not_le)
    have "(\<exists>e0 \<in> set (es @ [e]). f e0 = Some g \<and> P g \<and> ?top e0) \<longleftrightarrow> g = x"
    proof
      assume "\<exists>e0 \<in> set (es @ [e]). f e0 = Some g \<and> P g \<and> ?top e0"
      then obtain e0 where e0: "e0 \<in> set (es @ [e])" "f e0 = Some g" "?top e0" by blast
      have "e0 \<notin> set es" using none e0(3) by blast
      with e0(1,2) x(1) show "g = x" by simp
    next
      assume "g = x"
      with x self show "\<exists>e0 \<in> set (es @ [e]). f e0 = Some g \<and> P g \<and> ?top e0"
        by (intro bexI [of _ e] conjI) simp_all
    qed
    then show ?thesis unfolding last using x by auto
  next
    case False
    then have "find P (rev (List.map_filter f (es @ [e]))) = find P (rev (List.map_filter f es))"
      unfolding last by (cases "f e") auto
    with IH False show ?thesis by auto
  qed
qed (simp add: List.map_filter_simps)

text \<open>What the events say: the generation record of an event.\<close>

definition generation_at :: "Store \<Rightarrow> u64 \<Rightarrow> DustGenerationRecord option" where
  "generation_at st i = Option.bind (event_of st i) gen_of"

lemma event_entries:
  assumes "store_ok st" and "e \<in> set (store_iter st LedgerEvents)"
  obtains i r where "e = (u64_to_be_bytes i, VEvent r)" and "event_of st i = Some r"
proof -
  obtain k v where e: "e = (k, v)" by (cases e)
  then have g: "store_get st LedgerEvents k = Some v" using assms by (simp add: in_store_iter)
  have "length k = 8" "as_event v \<noteq> None" using store_ok_entry [OF assms(1) g] by auto
  moreover obtain i where "u64_from_be_bytes k = Some i"
    using u64_from_be_bytes_Some \<open>length k = 8\<close> by blast
  ultimately have "k = u64_to_be_bytes i" "\<exists>r. v = VEvent r"
    using u64c.dec_width by (blast, cases v) auto
  with that e g show thesis by (auto simp: event_of_def)
qed

lemma generation_entries:
  assumes "store_ok st"
  shows "(\<exists>e \<in> set (store_iter st LedgerEvents). gen_row e = Some g \<and> Q (fst e))
    \<longleftrightarrow> (\<exists>i. generation_at st i = Some g \<and> Q (u64_to_be_bytes i))"
proof
  assume "\<exists>e \<in> set (store_iter st LedgerEvents). gen_row e = Some g \<and> Q (fst e)"
  then obtain e where e: "e \<in> set (store_iter st LedgerEvents)" "gen_row e = Some g" "Q (fst e)" by blast
  from event_entries [OF assms e(1)] obtain i r where "e = (u64_to_be_bytes i, VEvent r)" "event_of st i = Some r"
    by blast
  with e have "generation_at st i = Some g \<and> Q (u64_to_be_bytes i)"
    by (simp add: gen_row_def generation_at_def)
  then show "\<exists>i. generation_at st i = Some g \<and> Q (u64_to_be_bytes i)" by blast
next
  assume "\<exists>i. generation_at st i = Some g \<and> Q (u64_to_be_bytes i)"
  then obtain i r where i: "event_of st i = Some r" "gen_of r = Some g" "Q (u64_to_be_bytes i)"
    by (auto simp: generation_at_def bind_eq_Some_conv)
  then obtain v where v: "store_get st LedgerEvents (u64_to_be_bytes i) = Some v" "as_event v = Some r"
    by (auto simp: event_of_def bind_eq_Some_conv)
  then have "(u64_to_be_bytes i, v) \<in> set (store_iter st LedgerEvents)" by (simp add: in_store_iter [OF assms])
  then show "\<exists>e \<in> set (store_iter st LedgerEvents). gen_row e = Some g \<and> Q (fst e)"
    by (rule bexI [rotated]) (use i v in \<open>simp add: gen_row_def\<close>)
qed

section \<open>The index after the rebuild\<close>

lemma find_filter: "find P xs = (case filter P xs of [] \<Rightarrow> None | x # _ \<Rightarrow> Some x)"
  by (induction xs) auto

lemma store_get_stream:
  assumes "i < length streams"
    and "\<And>j op. j < length streams \<Longrightarrow> j \<noteq> i \<Longrightarrow> op \<in> set (streams ! j) \<Longrightarrow> op_key op \<noteq> (p, k)"
  shows "store_get (rebuild_view (robin \<lparr>bf_store = st, bf_batch = [], bf_pending = 0\<rparr> streams)) p k
    = (case rev (filter (\<lambda>op. op_key op = (p, k)) (streams ! i)) of [] \<Rightarrow> store_get st p k | op # _ \<Rightarrow> op_value op)"
proof -
  have same: "filter (\<lambda>op. op_key op = (p, k)) (robin_ops streams) = filter (\<lambda>op. op_key op = (p, k)) (streams ! i)"
    by (rule filter_robin) (use assms in auto)
  have initial: "rebuild_view \<lparr>bf_store = st, bf_batch = [], bf_pending = 0\<rparr> = st" by (simp add: rebuild_view_def)
  show ?thesis unfolding robin_view store_get_ops same initial ..
qed

definition rebuild_streams ::
    "bytes list \<Rightarrow> bytes list \<Rightarrow> DustGenerationRecord list \<Rightarrow> rebuild_op list list" where
  "rebuild_streams old_generation old_owner rows =
     [map RemoveGeneration old_generation, map RemoveOwner old_owner,
      map (\<lambda>r. InsertGeneration (gen_key r) (VDustGen r)) rows, map (\<lambda>r. InsertOwner (gen_owner_key r)) rows]"

lemma four: "j < Suc (Suc (Suc (Suc 0))) \<longleftrightarrow> j = 0 \<or> j = 1 \<or> j = 2 \<or> j = 3"
  by auto

lemma streams_generation:
  fixes st og oo rows k
  defines "st' \<equiv> rebuild_view (robin \<lparr>bf_store = st, bf_batch = [], bf_pending = 0\<rparr> (rebuild_streams og oo rows))"
  assumes old: "set og = {k. store_get st DustGeneration k \<noteq> None \<and> k \<notin> gen_key ` set rows}"
  shows "store_get st' DustGeneration k = map_option VDustGen (find (\<lambda>r. gen_key r = k) (rev rows))"
proof (cases "k \<in> gen_key ` set rows")
  case True
  have "store_get st' DustGeneration k = (case rev (filter (\<lambda>op. op_key op = (DustGeneration, k))
      (rebuild_streams og oo rows ! 2)) of [] \<Rightarrow> store_get st DustGeneration k | op # _ \<Rightarrow> op_value op)"
    unfolding st'_def
    by (rule store_get_stream) (use old True in \<open>auto simp: rebuild_streams_def four\<close>)
  moreover have "filter (\<lambda>op. op_key op = (DustGeneration, k)) (rebuild_streams og oo rows ! 2)
      = map (\<lambda>r. InsertGeneration (gen_key r) (VDustGen r)) (filter (\<lambda>r. gen_key r = k) rows)"
    by (simp add: rebuild_streams_def filter_map comp_def)
  moreover have "filter (\<lambda>r. gen_key r = k) rows \<noteq> []" using True by (auto simp: filter_empty_conv)
  ultimately show ?thesis
    unfolding find_filter rev_filter [symmetric]
    by (cases "rev (filter (\<lambda>r. gen_key r = k) rows)") (auto simp: rev_map [symmetric])
next
  case False
  have "store_get st' DustGeneration k = (case rev (filter (\<lambda>op. op_key op = (DustGeneration, k))
      (rebuild_streams og oo rows ! 0)) of [] \<Rightarrow> store_get st DustGeneration k | op # _ \<Rightarrow> op_value op)"
    unfolding st'_def
    by (rule store_get_stream) (use False in \<open>auto simp: rebuild_streams_def four\<close>)
  moreover have "filter (\<lambda>op. op_key op = (DustGeneration, k)) (rebuild_streams og oo rows ! 0)
      = map RemoveGeneration (filter (\<lambda>j. j = k) og)"
    by (simp add: rebuild_streams_def filter_map comp_def)
  moreover have "filter (\<lambda>j. j = k) og = [] \<Longrightarrow> store_get st DustGeneration k = None"
    using old False by (auto simp: filter_empty_conv)
  moreover have "find (\<lambda>r. gen_key r = k) (rev rows) = None"
    using False by (auto simp: find_None_iff)
  ultimately show ?thesis
    by (cases "rev (filter (\<lambda>j. j = k) og)") (auto simp: rev_map [symmetric] rev_filter [symmetric] split: list.split)
qed

lemma streams_owner:
  fixes st og oo rows k
  defines "st' \<equiv> rebuild_view (robin \<lparr>bf_store = st, bf_batch = [], bf_pending = 0\<rparr> (rebuild_streams og oo rows))"
  assumes old: "set oo = {k. store_get st DustGenByOwner k \<noteq> None \<and> k \<notin> gen_owner_key ` set rows}"
  shows "store_get st' DustGenByOwner k = (if k \<in> gen_owner_key ` set rows then Some (Raw []) else None)"
proof (cases "k \<in> gen_owner_key ` set rows")
  case True
  have "store_get st' DustGenByOwner k = (case rev (filter (\<lambda>op. op_key op = (DustGenByOwner, k))
      (rebuild_streams og oo rows ! 3)) of [] \<Rightarrow> store_get st DustGenByOwner k | op # _ \<Rightarrow> op_value op)"
    unfolding st'_def
    by (rule store_get_stream) (use old True in \<open>auto simp: rebuild_streams_def four\<close>)
  moreover have "filter (\<lambda>op. op_key op = (DustGenByOwner, k)) (rebuild_streams og oo rows ! 3)
      = map (\<lambda>r. InsertOwner (gen_owner_key r)) (filter (\<lambda>r. gen_owner_key r = k) rows)"
    by (simp add: rebuild_streams_def filter_map comp_def)
  moreover have "filter (\<lambda>r. gen_owner_key r = k) rows \<noteq> []" using True by (auto simp: filter_empty_conv)
  ultimately show ?thesis
    using True by (cases "rev (filter (\<lambda>r. gen_owner_key r = k) rows)") (auto simp: rev_map)
next
  case False
  have "store_get st' DustGenByOwner k = (case rev (filter (\<lambda>op. op_key op = (DustGenByOwner, k))
      (rebuild_streams og oo rows ! 1)) of [] \<Rightarrow> store_get st DustGenByOwner k | op # _ \<Rightarrow> op_value op)"
    unfolding st'_def
    by (rule store_get_stream) (use False in \<open>auto simp: rebuild_streams_def four\<close>)
  moreover have "filter (\<lambda>op. op_key op = (DustGenByOwner, k)) (rebuild_streams og oo rows ! 1)
      = map RemoveOwner (filter (\<lambda>j. j = k) oo)"
    by (simp add: rebuild_streams_def filter_map comp_def)
  moreover have "filter (\<lambda>j. j = k) oo = [] \<Longrightarrow> store_get st DustGenByOwner k = None"
    using old False by (auto simp: filter_empty_conv)
  ultimately show ?thesis
    using False by (cases "rev (filter (\<lambda>j. j = k) oo)") (auto simp: rev_map [symmetric] split: list.split)
qed

lemma streams_other:
  assumes "p \<noteq> DustGeneration" and "p \<noteq> DustGenByOwner"
  shows "store_get (rebuild_view (robin \<lparr>bf_store = st, bf_batch = [], bf_pending = 0\<rparr>
    (rebuild_streams og oo rows))) p k = store_get st p k"
proof -
  have "op_key op \<noteq> (p, k)" for op using assms by (cases op) auto
  then show ?thesis using store_get_stream [of 0 "rebuild_streams og oo rows" p k st] by (simp add: rebuild_streams_def)
qed

lemma rebuild_result:
  assumes "store_ok st"
  shows "\<exists>rows counts og oo. rows = List.map_filter gen_row (store_iter st LedgerEvents)
    \<and> set og = {k. store_get st DustGeneration k \<noteq> None \<and> k \<notin> gen_key ` set rows}
    \<and> set oo = {k. store_get st DustGenByOwner k \<noteq> None \<and> k \<notin> gen_owner_key ` set rows}
    \<and> backfill_dust_generation st
        = (rebuild_view (robin \<lparr>bf_store = st, bf_batch = [], bf_pending = 0\<rparr> (rebuild_streams og oo rows)),
           Inr counts)"
proof -
  let ?es = "store_iter st LedgerEvents" and ?zero = "\<lparr>db_rebuilt = False, db_events_scanned = 0,
    db_generation_entries_written = 0\<rparr>"
  have "as_event (snd e) \<noteq> None" if "e \<in> set ?es" for e
    by (rule event_entries [OF assms that]) simp
  then obtain g ow c where fold: "try_fold rebuild_step ([], [], ?zero) ?es = Inr (g, ow, c)"
    using rebuild_total by blast
  let ?rows = "List.map_filter gen_row ?es"
  note lists = rebuild_fold [OF fold, unfolded append_Nil]
  let ?og = "filter (\<lambda>k. k \<notin> gen_key ` set ?rows) (map fst (store_iter st DustGeneration))"
    and ?oo = "filter (\<lambda>k. k \<notin> gen_owner_key ` set ?rows) (map fst (store_iter st DustGenByOwner))"
  have keys: "set (map fst (store_iter st p)) = {k. store_get st p k \<noteq> None}" for p
    unfolding set_map in_fst_iff [abs_def] set_eq_iff by (auto simp: in_fst_iff in_store_iter [OF assms])
  have run: "backfill_dust_generation st
      = (rebuild_view (robin \<lparr>bf_store = st, bf_batch = [], bf_pending = 0\<rparr> (rebuild_streams ?og ?oo ?rows)),
         Inr (c\<lparr>db_rebuilt := True\<rparr>))"
    by (simp add: backfill_dust_generation_def fold lists Let_def rebuild_view_def rebuild_streams_def comp_def
        image_image)
  have "set ?og = {k. store_get st DustGeneration k \<noteq> None \<and> k \<notin> gen_key ` set ?rows}"
    "set ?oo = {k. store_get st DustGenByOwner k \<noteq> None \<and> k \<notin> gen_owner_key ` set ?rows}"
    unfolding set_filter keys by auto
  with run show ?thesis by blast
qed

text \<open>
  C27. The DUST rebuild is exact and repairs any earlier state of the index. On a well-typed store it
  returns; then the record under a hash is that of the newest event about the hash, there are no other
  records, the owner index has exactly the keys of the generations that events mention, so that every
  generation is indexed under its owner, and no other partition has changed. None of this depends on what
  the two partitions held before, so a rebuild after an interrupted one ends in the same index.
\<close>

theorem dust_generation_rebuilt:
  assumes "store_ok st"
  shows "\<exists>st' counts. backfill_dust_generation st = (st', Inr counts)
    \<and> (\<forall>k v. store_get st' DustGeneration k = Some v \<longleftrightarrow>
         (\<exists>i g. generation_at st i = Some g \<and> gen_key g = k \<and> v = VDustGen g
            \<and> (\<forall>j g'. generation_at st j = Some g' \<and> gen_key g' = k \<longrightarrow> j \<le> i)))
    \<and> (\<forall>k. store_get st' DustGenByOwner k \<noteq> None \<longleftrightarrow>
         (\<exists>i g. generation_at st i = Some g \<and> k = dg_owner (dr_info g) @ gen_key g))
    \<and> (\<forall>h g. store_get st' DustGeneration h = Some (VDustGen g) \<longrightarrow>
         store_get st' DustGenByOwner (dg_owner (dr_info g) @ h) \<noteq> None)
    \<and> (\<forall>p k. p \<noteq> DustGeneration \<longrightarrow> p \<noteq> DustGenByOwner \<longrightarrow> store_get st' p k = store_get st p k)"
proof -
  let ?es = "store_iter st LedgerEvents"
  obtain rows counts og oo where rows: "rows = List.map_filter gen_row ?es"
    and og: "set og = {k. store_get st DustGeneration k \<noteq> None \<and> k \<notin> gen_key ` set rows}"
    and oo: "set oo = {k. store_get st DustGenByOwner k \<noteq> None \<and> k \<notin> gen_owner_key ` set rows}"
    and run: "backfill_dust_generation st
        = (rebuild_view (robin \<lparr>bf_store = st, bf_batch = [], bf_pending = 0\<rparr> (rebuild_streams og oo rows)),
           Inr counts)" (is "_ = (?st', _)")
    using rebuild_result [OF assms] by (elim exE conjE) (rule that)
  have sorted: "sorted_wrt (<) (map fst ?es)"
    using store_ok_part [OF assms] by (simp add: store_iter_def part_iter_def part_ok_def)
  have listed: "g \<in> set rows \<longleftrightarrow> (\<exists>i. generation_at st i = Some g)" for g
  proof -
    have "g \<in> set rows \<longleftrightarrow> (\<exists>e \<in> set ?es. gen_row e = Some g \<and> True)"
      unfolding rows by (force simp: List.map_filter_def)
    then show ?thesis using generation_entries [OF assms, of g "\<lambda>_. True"] by simp
  qed
  have newest: "store_get ?st' DustGeneration k = Some v \<longleftrightarrow>
      (\<exists>i g. generation_at st i = Some g \<and> gen_key g = k \<and> v = VDustGen g
         \<and> (\<forall>j g'. generation_at st j = Some g' \<and> gen_key g' = k \<longrightarrow> j \<le> i))" for k v
  proof -
    let ?Q = "\<lambda>x. \<forall>e' \<in> set ?es. \<forall>g'. gen_row e' = Some g' \<and> gen_key g' = k \<longrightarrow> fst e' \<le> x"
    have Q: "?Q (u64_to_be_bytes i) \<longleftrightarrow> (\<forall>j g'. generation_at st j = Some g' \<and> gen_key g' = k \<longrightarrow> j \<le> i)" for i
    proof -
      have "(\<exists>e \<in> set ?es. gen_row e = Some g' \<and> gen_key g' = k \<and> \<not> fst e \<le> u64_to_be_bytes i)
          \<longleftrightarrow> (\<exists>j. generation_at st j = Some g' \<and> gen_key g' = k \<and> \<not> u64_to_be_bytes j \<le> u64_to_be_bytes i)" for g'
        by (rule generation_entries [OF assms, of g' "\<lambda>x. gen_key g' = k \<and> \<not> x \<le> u64_to_be_bytes i"])
      then show ?thesis unfolding u64c.enc_le_iff by blast
    qed
    have entry: "(\<exists>e \<in> set ?es. gen_row e = Some g \<and> gen_key g = k \<and> ?Q (fst e))
        \<longleftrightarrow> (\<exists>i. generation_at st i = Some g \<and> gen_key g = k \<and> ?Q (u64_to_be_bytes i))" for g
      by (rule generation_entries [OF assms, of g "\<lambda>x. gen_key g = k \<and> ?Q x"])
    have "store_get ?st' DustGeneration k = Some v
        \<longleftrightarrow> (\<exists>g. find (\<lambda>r. gen_key r = k) (rev rows) = Some g \<and> v = VDustGen g)"
      unfolding streams_generation [OF og] by auto
    also have "\<dots> \<longleftrightarrow> (\<exists>g. (\<exists>e \<in> set ?es. gen_row e = Some g \<and> gen_key g = k \<and> ?Q (fst e)) \<and> v = VDustGen g)"
      unfolding rows find_newest [OF sorted] ..
    also have "\<dots> \<longleftrightarrow> (\<exists>g. (\<exists>i. generation_at st i = Some g \<and> gen_key g = k \<and> ?Q (u64_to_be_bytes i)) \<and> v = VDustGen g)"
      unfolding entry ..
    finally show ?thesis unfolding Q by blast
  qed
  have owners: "store_get ?st' DustGenByOwner k \<noteq> None \<longleftrightarrow>
      (\<exists>i g. generation_at st i = Some g \<and> k = dg_owner (dr_info g) @ gen_key g)" for k
  proof -
    have "k \<in> gen_owner_key ` set rows \<longleftrightarrow> (\<exists>g. g \<in> set rows \<and> k = gen_owner_key g)" by blast
    then show ?thesis unfolding streams_owner [OF oo] listed gen_owner_key_def by auto
  qed
  have indexed: "store_get ?st' DustGenByOwner (dg_owner (dr_info g) @ h) \<noteq> None"
    if "store_get ?st' DustGeneration h = Some (VDustGen g)" for h g
    using that unfolding newest owners by auto
  show ?thesis
    by (intro exI [of _ ?st'] exI [of _ counts] conjI allI impI)
      (rule run, rule newest, rule owners, erule indexed, erule (1) streams_other)
qed

end
