(* ===== verification/BackfillFacts.thy ===== *)
theory BackfillFacts
  imports Backfill EventIndex
begin

text \<open>
  What the passes over the event log leave behind. The batches on the way do not matter: a pass is
  described by its view, the store with its pending batch committed, and by the store it leaves when it
  stops early.
\<close>

section \<open>The view of a pass\<close>

definition bf_view :: "'a backfill_state_scheme \<Rightarrow> Store" where
  "bf_view s = commit (bf_store s) (bf_batch s)"

named_theorems pass_simps \<open>the view of a pass after its writes\<close>

lemma view_insert [pass_simps]:
  "store_get (bf_view (bf_insert p k v s)) q j = (if q = p \<and> j = k then Some v else store_get (bf_view s) q j)"
  by (simp add: bf_view_def bf_insert_def store_simps)

lemma view_flush [pass_simps]: "bf_view (bf_flush s) = bf_view s"
  by (simp add: bf_view_def bf_flush_def)

lemma store_insert [pass_simps]: "bf_store (bf_insert p k v s) = bf_store s"
  by (simp add: bf_insert_def)

lemma store_flush: "bf_store (bf_flush s) = bf_store s \<or> bf_store (bf_flush s) = bf_view s"
  by (simp add: bf_view_def bf_flush_def)

lemma view_updates [pass_simps]:
  "bf_view (s\<lparr>bf_pending := n\<rparr>) = bf_view s"
  "bf_view (e\<lparr>eb_cache := c\<rparr>) = bf_view e" "bf_view (e\<lparr>eb_counts := b\<rparr>) = bf_view e"
  by (simp_all add: bf_view_def)

lemma fields_insert [pass_simps]:
  "eb_cache (bf_insert p k v e) = eb_cache e" "eb_counts (bf_insert p k v e) = eb_counts e"
  "bf_pending (bf_insert p k v s) = bf_pending s"
  "eb_cache (bf_flush e) = eb_cache e" "eb_counts (bf_flush e) = eb_counts e"
  by (simp_all add: bf_insert_def bf_flush_def)

text \<open>What holds of the entries done so far holds of all of them at the end, and of a part of them where
  the loop stops.\<close>

lemma bf_loop_invariant:
  assumes "bf_loop step es s = (st', r)" and "I es0 s"
    and "\<And>ds e rest s s'. es0 @ es = ds @ e # rest \<Longrightarrow> I ds s \<Longrightarrow> step s e = Inr s' \<Longrightarrow> I (ds @ [e]) s'"
  shows "case r of Inr s' \<Rightarrow> I (es0 @ es) s' \<and> st' = bf_store s'
    | Inl _ \<Rightarrow> \<exists>ds s1. I ds s1 \<and> st' = bf_store s1"
  using assms
proof (induction es arbitrary: s es0)
  case (Cons e es)
  show ?case
  proof (cases "step s e")
    case (Inl err)
    with Cons.prems(1,2) show ?thesis by (cases r) auto
  next
    case (Inr s1)
    have "case r of Inr s' \<Rightarrow> I ((es0 @ [e]) @ es) s' \<and> st' = bf_store s'
      | Inl _ \<Rightarrow> \<exists>ds s1. I ds s1 \<and> st' = bf_store s1"
    proof (rule Cons.IH)
      show "bf_loop step es s1 = (st', r)" using Cons.prems(1) Inr by simp
      show "I (es0 @ [e]) s1" using Cons.prems(2) Inr by (intro Cons.prems(3)) simp_all
    qed (use Cons.prems(3) in simp)
    then show ?thesis by (cases r) simp_all
  qed
qed auto

text \<open>The partitions a pass does not write are those of the initial store, before and after a commit.\<close>

definition bf_frame :: "part_id set \<Rightarrow> Store \<Rightarrow> 'a backfill_state_scheme \<Rightarrow> bool" where
  "bf_frame P st s = (contract_actions (bf_store s) = contract_actions st \<and> schema (bf_store s) = schema st
     \<and> (\<forall>p k. p \<notin> P \<longrightarrow> store_get (bf_store s) p k = store_get st p k \<and> store_get (bf_view s) p k = store_get st p k))"

lemma frame_insert [pass_simps]: "p \<in> P \<Longrightarrow> bf_frame P st (bf_insert p k v s) \<longleftrightarrow> bf_frame P st s"
  unfolding bf_frame_def pass_simps by metis

lemma frame_updates [pass_simps]:
  "bf_frame P st (s\<lparr>bf_pending := n\<rparr>) \<longleftrightarrow> bf_frame P st s"
  "bf_frame P st (e\<lparr>eb_cache := c\<rparr>) \<longleftrightarrow> bf_frame P st e"
  "bf_frame P st (e\<lparr>eb_counts := b\<rparr>) \<longleftrightarrow> bf_frame P st e"
  by (simp_all add: bf_frame_def pass_simps)

lemma frame_flush: "bf_frame P st s \<Longrightarrow> bf_frame P st (bf_flush s)"
  using store_flush [of s] by (auto simp: bf_frame_def view_flush) (simp_all add: bf_view_def bf_flush_def)

lemma frame_initial [simp]: "bf_batch s = [] \<Longrightarrow> bf_frame P (bf_store s) s"
  by (simp add: bf_frame_def bf_view_def)

text \<open>Well-typed writes keep the store well typed, at every commit.\<close>

definition bf_ok :: "'a backfill_state_scheme \<Rightarrow> bool" where
  "bf_ok s = (store_ok (bf_store s) \<and> store_ok (bf_view s))"

lemma ok_insert [intro]: "entry_ok p k v \<Longrightarrow> bf_ok s \<Longrightarrow> bf_ok (bf_insert p k v s)"
  by (auto simp: bf_ok_def bf_view_def bf_insert_def)

lemma ok_updates [pass_simps]:
  "bf_ok (s\<lparr>bf_pending := n\<rparr>) \<longleftrightarrow> bf_ok s"
  "bf_ok (e\<lparr>eb_cache := c\<rparr>) \<longleftrightarrow> bf_ok e" "bf_ok (e\<lparr>eb_counts := b\<rparr>) \<longleftrightarrow> bf_ok e"
  by (simp_all add: bf_ok_def pass_simps)

lemma ok_flush: "bf_ok s \<Longrightarrow> bf_ok (bf_flush s)"
  using store_flush [of s] by (auto simp: bf_ok_def view_flush)

lemma ok_initial: "bf_batch s = [] \<Longrightarrow> bf_ok s \<longleftrightarrow> store_ok (bf_store s)"
  by (simp add: bf_ok_def bf_view_def)

section \<open>Contract events\<close>

lemma tx_actions_frame:
  assumes "bf_frame {LedgerEvents, EventsByContract} st s" and "contract_actions st = ContractActionsV2"
  shows "tx_actions (bf_store s) t = tx_actions st t"
proof -
  have "store_tx (bf_store s) t = store_tx st t"
    using assms(1) by (simp add: bf_frame_def store_tx_def get_decoded_def)
  moreover have "get_decoded as_action (bf_store s) (contract_actions (bf_store s)) k
      = get_decoded as_action st (contract_actions st) k" for k
    using assms by (simp add: bf_frame_def get_decoded_def)
  ultimately show ?thesis by (simp add: tx_actions_def)
qed

abbreviation is_contract_event :: "EventRecord \<Rightarrow> bool" where
  "is_contract_event r \<equiv> le_grouping (er_event r) = ContractGrouping"

text \<open>The record of a contract event after the pass.\<close>

definition with_action_id :: "u64 option \<Rightarrow> EventRecord \<Rightarrow> EventRecord" where
  "with_action_id c r = r\<lparr>er_event := (er_event r)\<lparr>le_contract_action_id := c\<rparr>\<rparr>"

lemma with_action_id_same [simp]: "with_action_id (le_contract_action_id (er_event r)) r = r"
  by (cases r) (simp add: with_action_id_def)

lemma with_action_id_eq: "le_contract_action_id (er_event r) = c \<Longrightarrow> with_action_id c r = r"
  by auto

text \<open>What the pass has achieved for the entries \<open>es\<close>: exactly the contract events among them are
  indexed and carry their correlated action, and the cache holds the actions of their transactions.\<close>

definition contract_rows :: "(bytes \<times> store_value) list \<Rightarrow> (u64 \<times> EventRecord) set" where
  "contract_rows es = {(i, r). (u64_to_be_bytes i, VEvent r) \<in> set es \<and> is_contract_event r}"

definition events_done :: "Store \<Rightarrow> (bytes \<times> store_value) list \<Rightarrow> events_backfill \<Rightarrow> bool" where
  "events_done st es s = (bf_frame {LedgerEvents, EventsByContract} st s
     \<and> distinct (map fst (eb_cache s)) \<and> length (eb_cache s) \<le> 10000
     \<and> (\<forall>t as. map_of (eb_cache s) t = Some as \<longrightarrow> tx_actions st t = Inr as)
     \<and> fst ` set (eb_cache s) = {er_tx_id r |i r. (i, r) \<in> contract_rows es}
     \<and> (\<forall>i. event_of (bf_view s) i = map_option (\<lambda>r. if \<exists>q. (i, q) \<in> contract_rows es
          then with_action_id (correlated_id r (projr (tx_actions st (er_tx_id r)))) r else r) (event_of st i))
     \<and> (\<forall>k. store_get (bf_view s) EventsByContract k \<noteq> None \<longleftrightarrow> store_get st EventsByContract k \<noteq> None
          \<or> (\<exists>i r a. (i, r) \<in> contract_rows es \<and> le_contract_address (er_event r) = Some a
              \<and> k = prefixed_u64_key a i))
     \<and> (\<forall>i r. (i, r) \<in> contract_rows es \<longrightarrow> le_contract_address (er_event r) \<noteq> None))"

lemma events_doneD:
  assumes "events_done st es s"
  shows "bf_frame {LedgerEvents, EventsByContract} st s"
    and "distinct (map fst (eb_cache s))" and "length (eb_cache s) \<le> 10000"
    and "\<forall>t as. map_of (eb_cache s) t = Some as \<longrightarrow> tx_actions st t = Inr as"
    and "fst ` set (eb_cache s) = {er_tx_id r |i r. (i, r) \<in> contract_rows es}"
    and "event_of (bf_view s) i = map_option (\<lambda>r. if \<exists>q. (i, q) \<in> contract_rows es
          then with_action_id (correlated_id r (projr (tx_actions st (er_tx_id r)))) r else r) (event_of st i)"
    and "store_get (bf_view s) EventsByContract k \<noteq> None \<longleftrightarrow> store_get st EventsByContract k \<noteq> None
          \<or> (\<exists>i r a. (i, r) \<in> contract_rows es \<and> le_contract_address (er_event r) = Some a
              \<and> k = prefixed_u64_key a i)"
    and "(i, r) \<in> contract_rows es \<Longrightarrow> le_contract_address (er_event r) \<noteq> None"
  using assms unfolding events_done_def by blast+

lemma cache_step:
  assumes "cache_actions st' cache t = Inr c" and "map_of c t = Some as"
    and "tx_actions st' t = tx_actions st t"
    and "distinct (map fst cache)" and "length cache \<le> 10000"
    and "\<forall>u as. map_of cache u = Some as \<longrightarrow> tx_actions st u = Inr as"
  shows "distinct (map fst c)" "length c \<le> 10000" "\<forall>u as. map_of c u = Some as \<longrightarrow> tx_actions st u = Inr as"
    "fst ` set c = insert t (fst ` set cache)" "tx_actions st t = Inr as"
proof -
  have "distinct (map fst c) \<and> length c \<le> 10000 \<and> (\<forall>u as. map_of c u = Some as \<longrightarrow> tx_actions st u = Inr as)
      \<and> fst ` set c = insert t (fst ` set cache)"
  proof (cases "map_of cache t")
    case None
    with assms(1,3) obtain bs where bs: "tx_actions st t = Inr bs"
      and c: "c = (if length ((t, bs) # cache) > 10000 then [] else (t, bs) # cache)"
      by (auto simp: cache_actions_def Let_def result_simps)
    with assms(2) have "c = (t, bs) # cache" "length c \<le> 10000" by (auto split: if_splits)
    moreover have "t \<notin> fst ` set cache" using None by (simp add: map_of_eq_None_iff)
    ultimately show ?thesis using assms(4,6) bs by auto
  next
    case (Some bs)
    then have "c = cache" using assms(1) by (simp add: cache_actions_def)
    moreover have "t \<in> fst ` set cache" using Some by (metis map_of_eq_None_iff not_None_eq)
    ultimately show ?thesis using assms(4-6) by (simp add: insert_absorb)
  qed
  then show "distinct (map fst c)" "length c \<le> 10000" "\<forall>u as. map_of c u = Some as \<longrightarrow> tx_actions st u = Inr as"
    "fst ` set c = insert t (fst ` set cache)" "tx_actions st t = Inr as"
    using assms(2) by blast+
qed

lemma rewrite_event_simps:
  "eb_cache (rewrite_event key r as s) = eb_cache s"
  "bf_frame {LedgerEvents, EventsByContract} st s \<Longrightarrow>
    bf_frame {LedgerEvents, EventsByContract} st (rewrite_event key r as s)"
  "store_get (bf_view (rewrite_event key r as s)) EventsByContract k = store_get (bf_view s) EventsByContract k"
  "event_of (bf_view (rewrite_event (u64_to_be_bytes i) r as s)) j =
    (if j = i \<and> le_contract_action_id (er_event r) \<noteq> correlated_id r as
     then Some (with_action_id (correlated_id r as) r) else event_of (bf_view s) j)"
proof -
  let ?s1 = "if correlated_id r as \<noteq> None
    then s\<lparr>eb_counts := (eb_counts s)\<lparr>bc_events_correlated := bc_events_correlated (eb_counts s) + 1\<rparr>\<rparr> else s"
  have s1: "bf_view ?s1 = bf_view s" "eb_cache ?s1 = eb_cache s"
    "bf_frame {LedgerEvents, EventsByContract} st ?s1 \<longleftrightarrow> bf_frame {LedgerEvents, EventsByContract} st s"
    by (simp_all add: pass_simps)
  note unf = rewrite_event_def Let_def
  show "eb_cache (rewrite_event key r as s) = eb_cache s"
    by (simp add: unf pass_simps)
  show "bf_frame {LedgerEvents, EventsByContract} st (rewrite_event key r as s)"
    if "bf_frame {LedgerEvents, EventsByContract} st s"
    using that s1(3) unfolding unf by (intro frame_flush) (simp add: pass_simps)
  show "store_get (bf_view (rewrite_event key r as s)) EventsByContract k = store_get (bf_view s) EventsByContract k"
    unfolding unf view_flush using s1(1) by (simp add: pass_simps)
  show "event_of (bf_view (rewrite_event (u64_to_be_bytes i) r as s)) j =
    (if j = i \<and> le_contract_action_id (er_event r) \<noteq> correlated_id r as
     then Some (with_action_id (correlated_id r as) r) else event_of (bf_view s) j)"
    unfolding unf view_flush event_of_def using s1(1)
    by (simp add: pass_simps with_action_id_def u64c.enc_inject)
qed

lemma contract_rows_snoc:
  "contract_rows (es @ [(u64_to_be_bytes i, VEvent r)])
    = (if is_contract_event r then insert (i, r) (contract_rows es) else contract_rows es)"
  by (auto simp: contract_rows_def u64c.enc_inject)

lemma contract_event_step_done:
  assumes st: "store_ok st" "contract_actions st = ContractActionsV2"
    and sub: "set es \<subseteq> set (store_iter st LedgerEvents)" and e: "e \<in> set (store_iter st LedgerEvents)"
    and inv: "events_done st es s" and step: "contract_event_step s e = Inr s'"
  shows "events_done st (es @ [e]) s'"
proof -
  let ?count = "\<lambda>s :: events_backfill. s\<lparr>eb_counts := (eb_counts s)
    \<lparr>bc_events_scanned := bc_events_scanned (eb_counts s) + 1\<rparr>\<rparr>"
  from step obtain i r where i: "u64_from_be_bytes (fst e) = Some i" and r: "as_event (snd e) = Some r"
    by (auto simp: contract_event_step_def Let_def result_simps store_decode_def split: option.splits)
  have key: "fst e = u64_to_be_bytes i" by (rule u64c.dec_width [OF i])
  have v: "snd e = VEvent r" using r by (cases "snd e") auto
  have e_eq: "e = (u64_to_be_bytes i, VEvent r)" using key v by (simp add: prod_eq_iff)
  have at: "event_of st i = Some r"
    using e unfolding e_eq in_store_iter [OF st(1)] by (simp add: event_of_def)
  have row: "q = r" if "(i, q) \<in> contract_rows es" for q
  proof -
    have "(u64_to_be_bytes i, VEvent q) \<in> set (store_iter st LedgerEvents)"
      using that sub by (auto simp: contract_rows_def)
    then show ?thesis using at unfolding in_store_iter [OF st(1)] by (simp add: event_of_def)
  qed
  show ?thesis
  proof (cases "is_contract_event r")
    case False
    then have "s' = ?count s"
      using step i r by (simp add: contract_event_step_def Let_def store_decode_def)
    with inv False show ?thesis
      unfolding e_eq contract_rows_snoc events_done_def by (simp add: pass_simps)
  next
    case True
    let ?t = "er_tx_id r"
    from step i r True obtain a c as where a: "le_contract_address (er_event r) = Some a"
      and c: "cache_actions (bf_store s) (eb_cache s) ?t = Inr c" "map_of c ?t = Some as"
      and s': "s' = rewrite_event (fst e) r as ((bf_insert EventsByContract (prefixed_u64_key a i) (Raw []) (?count s))
        \<lparr>bf_pending := bf_pending s + 1,
         eb_counts := (eb_counts (?count s))\<lparr>bc_contract_events_indexed := bc_contract_events_indexed (eb_counts s) + 1\<rparr>,
         eb_cache := c\<rparr>)"
      by (auto simp: contract_event_step_def Let_def store_decode_def result_simps pass_simps)
    note frame = events_doneD(1) [OF inv]
    note cached = cache_step [OF c tx_actions_frame [OF frame st(2)] events_doneD(2-4) [OF inv]]
    have rows: "contract_rows (es @ [e]) = insert (i, r) (contract_rows es)" using True unfolding e_eq contract_rows_snoc by simp
    have events: "event_of (bf_view s') j = map_option (\<lambda>r. if \<exists>q. (j, q) \<in> contract_rows (es @ [e])
          then with_action_id (correlated_id r (projr (tx_actions st (er_tx_id r)))) r else r) (event_of st j)" for j
    proof (cases "j = i")
      case j: True
      have "event_of (bf_view s) i = Some (if \<exists>q. (i, q) \<in> contract_rows es
          then with_action_id (correlated_id r as) r else r)"
        using at cached(5) by (simp add: events_doneD(6) [OF inv])
      moreover have "event_of (bf_view s') i = (if le_contract_action_id (er_event r) \<noteq> correlated_id r as
          then Some (with_action_id (correlated_id r as) r) else event_of (bf_view s) i)"
        unfolding s' key rewrite_event_simps by (simp add: event_of_def pass_simps)
      ultimately show ?thesis
        unfolding j rows using at cached(5) by (auto simp: with_action_id_eq)
    next
      case False
      then show ?thesis
        using events_doneD(6) [OF inv, of j]
        unfolding rows s' key rewrite_event_simps by (simp add: event_of_def pass_simps)
    qed
    have index: "store_get (bf_view s') EventsByContract k \<noteq> None \<longleftrightarrow> store_get st EventsByContract k \<noteq> None
          \<or> (\<exists>j q b. (j, q) \<in> contract_rows (es @ [e]) \<and> le_contract_address (er_event q) = Some b
              \<and> k = prefixed_u64_key b j)" for k
    proof -
      have "store_get (bf_view s') EventsByContract k \<noteq> None
          \<longleftrightarrow> k = prefixed_u64_key a i \<or> store_get (bf_view s) EventsByContract k \<noteq> None"
        unfolding s' rewrite_event_simps by (simp add: pass_simps)
      moreover have "store_get (bf_view s) EventsByContract k \<noteq> None \<longleftrightarrow> store_get st EventsByContract k \<noteq> None
          \<or> (\<exists>j q b. (j, q) \<in> contract_rows es \<and> le_contract_address (er_event q) = Some b
              \<and> k = prefixed_u64_key b j)"
        by (rule events_doneD(7) [OF inv])
      ultimately show ?thesis unfolding rows using a by auto
    qed
    have "bf_frame {LedgerEvents, EventsByContract} st s'"
      unfolding s' by (rule rewrite_event_simps(2)) (use frame in \<open>simp add: pass_simps\<close>)
    moreover have "eb_cache s' = c" unfolding s' rewrite_event_simps by simp
    moreover have "fst ` set c = {er_tx_id q |j q. (j, q) \<in> contract_rows (es @ [e])}"
      unfolding cached(4) rows events_doneD(5) [OF inv] by auto
    moreover have "\<forall>j q. (j, q) \<in> contract_rows (es @ [e]) \<longrightarrow> le_contract_address (er_event q) \<noteq> None"
      using events_doneD(8) [OF inv] a unfolding rows by auto
    ultimately show ?thesis
      unfolding events_done_def using cached(1-3) events index by blast
  qed
qed

text \<open>The record of an event after the pass over the store \<open>st\<close>.\<close>

definition recorrelated :: "Store \<Rightarrow> EventRecord \<Rightarrow> EventRecord" where
  "recorrelated st r = (if is_contract_event r
     then with_action_id (correlated_id r (projr (tx_actions st (er_tx_id r)))) r else r)"

lemma with_action_id_simps [simp]:
  "er_tx_id (with_action_id c r) = er_tx_id r"
  "er_block_height (with_action_id c r) = er_block_height r"
  "le_grouping (er_event (with_action_id c r)) = le_grouping (er_event r)"
  "le_contract_address (er_event (with_action_id c r)) = le_contract_address (er_event r)"
  "le_attributes (er_event (with_action_id c r)) = le_attributes (er_event r)"
  "le_contract_action_id (er_event (with_action_id c r)) = c"
  "with_action_id c (with_action_id d r) = with_action_id c r"
  by (simp_all add: with_action_id_def)

lemma correlated_again: "correlated_id (with_action_id (correlated_id r as) r) as = correlated_id r as"
  by (auto simp: correlated_id_def or_else_def correlate_contract_action_id_def split: option.splits)

lemma recorrelated_again [simp]: "recorrelated st (recorrelated st r) = recorrelated st r"
  by (simp add: recorrelated_def correlated_again)

definition pass_inv :: "Store \<Rightarrow> (bytes \<times> store_value) list \<Rightarrow> events_backfill \<Rightarrow> bool" where
  "pass_inv st es s = (set es \<subseteq> set (store_iter st LedgerEvents) \<and> events_done st es s \<and> bf_ok s
     \<and> (\<forall>i. event_of (bf_store s) i = event_of st i
          \<or> event_of (bf_store s) i = map_option (recorrelated st) (event_of st i)))"

lemma contract_row_event:
  assumes "store_ok st" and "set es \<subseteq> set (store_iter st LedgerEvents)" and "(i, r) \<in> contract_rows es"
  shows "event_of st i = Some r" "is_contract_event r"
proof -
  have "(u64_to_be_bytes i, VEvent r) \<in> set (store_iter st LedgerEvents)"
    using assms(2,3) by (auto simp: contract_rows_def)
  then show "event_of st i = Some r" unfolding in_store_iter [OF assms(1)] by (simp add: event_of_def)
  show "is_contract_event r" using assms(3) by (simp add: contract_rows_def)
qed

lemma events_done_view:
  assumes "store_ok st" and "set es \<subseteq> set (store_iter st LedgerEvents)" and "events_done st es s"
  shows "event_of (bf_view s) i = event_of st i \<or> event_of (bf_view s) i = map_option (recorrelated st) (event_of st i)"
proof (cases "\<exists>q. (i, q) \<in> contract_rows es")
  case True
  then obtain q where "(i, q) \<in> contract_rows es" by blast
  from contract_row_event [OF assms(1,2) this] True show ?thesis
    by (simp add: events_doneD(6) [OF assms(3)] recorrelated_def)
qed (simp add: events_doneD(6) [OF assms(3)] option.map_ident)

lemma rewrite_event_ok:
  assumes "bf_ok s" and "length key = 8"
  shows "bf_ok (rewrite_event key r as s)"
  unfolding rewrite_event_def Let_def
  by (rule ok_flush) (use assms in \<open>auto simp: pass_simps intro!: ok_insert\<close>)

lemma rewrite_event_store:
  "bf_store (rewrite_event key r as s) = bf_store s
     \<or> bf_store (rewrite_event key r as s) = bf_view (rewrite_event key r as s)"
  unfolding rewrite_event_def Let_def view_flush by (rule store_flush [THEN disj_forward]) (auto simp: pass_simps)

lemma contract_event_step_ok:
  assumes "contract_event_step s e = Inr s'" and "bf_ok s"
  shows "bf_ok s'" "bf_store s' = bf_store s \<or> bf_store s' = bf_view s'"
proof -
  from assms(1) obtain i r where i: "u64_from_be_bytes (fst e) = Some i" and r: "as_event (snd e) = Some r"
    by (auto simp: contract_event_step_def Let_def result_simps store_decode_def split: option.splits)
  have len: "length (fst e) = 8" using i by (simp add: u64_from_be_bytes_def split: if_splits)
  have "bf_ok s' \<and> (bf_store s' = bf_store s \<or> bf_store s' = bf_view s')"
  proof (cases "is_contract_event r")
    case False
    with assms i r show ?thesis
      by (auto simp: contract_event_step_def Let_def store_decode_def pass_simps)
  next
    case True
    from assms(1) i r True obtain a c as where
      s': "s' = rewrite_event (fst e) r as ((bf_insert EventsByContract (prefixed_u64_key a i) (Raw [])
          (s\<lparr>eb_counts := (eb_counts s)\<lparr>bc_events_scanned := bc_events_scanned (eb_counts s) + 1\<rparr>\<rparr>))
        \<lparr>bf_pending := bf_pending s + 1,
         eb_counts := ((eb_counts s)\<lparr>bc_events_scanned := bc_events_scanned (eb_counts s) + 1\<rparr>)
           \<lparr>bc_contract_events_indexed := bc_contract_events_indexed (eb_counts s) + 1\<rparr>,
         eb_cache := c\<rparr>)" (is "_ = rewrite_event _ _ _ ?s1")
      by (auto simp: contract_event_step_def Let_def store_decode_def result_simps pass_simps)
    have ok1: "bf_ok ?s1" using assms(2) by (auto simp: pass_simps prefixed_u64_key_def intro!: ok_insert)
    show ?thesis
      unfolding s' using rewrite_event_ok [OF ok1 len] rewrite_event_store [of "fst e" r as ?s1]
      by (simp add: pass_simps)
  qed
  then show "bf_ok s'" "bf_store s' = bf_store s \<or> bf_store s' = bf_view s'" by blast+
qed

lemma pass_inv_step:
  assumes "store_ok st" "contract_actions st = ContractActionsV2"
    and "pass_inv st es s" and "e \<in> set (store_iter st LedgerEvents)"
    and step: "contract_event_step s e = Inr s'"
  shows "pass_inv st (es @ [e]) s'"
proof -
  have inv: "set es \<subseteq> set (store_iter st LedgerEvents)" "events_done st es s" "bf_ok s"
    "event_of (bf_store s) i = event_of st i \<or> event_of (bf_store s) i = map_option (recorrelated st) (event_of st i)"
    for i using assms(3) by (simp_all add: pass_inv_def)
  have inv': "events_done st (es @ [e]) s'"
    by (rule contract_event_step_done [OF assms(1,2) inv(1) assms(4) inv(2) step])
  have sub: "set (es @ [e]) \<subseteq> set (store_iter st LedgerEvents)" using inv(1) assms(4) by simp
  note ok = contract_event_step_ok [OF step inv(3)]
  have "event_of (bf_store s') i = event_of st i
      \<or> event_of (bf_store s') i = map_option (recorrelated st) (event_of st i)" for i
    using ok(2) inv(4) [of i] events_done_view [OF assms(1) sub inv', of i] by auto
  with sub inv' ok(1) show ?thesis by (simp add: pass_inv_def)
qed

abbreviation events_initial :: "Store \<Rightarrow> events_backfill" where
  "events_initial st \<equiv> \<lparr>bf_store = st, bf_batch = [], bf_pending = 0, eb_cache = [], eb_counts = zero_counts\<rparr>"

lemma pass_inv_initial: "store_ok st \<Longrightarrow> pass_inv st [] (events_initial st)"
  by (simp add: pass_inv_def events_done_def contract_rows_def bf_frame_def bf_view_def bf_ok_def option.map_ident)

lemma events_pass:
  assumes "store_ok st" "contract_actions st = ContractActionsV2"
    and "bf_loop contract_event_step (store_iter st LedgerEvents) (events_initial st) = (st', r)"
  shows "case r of Inr s \<Rightarrow> pass_inv st (store_iter st LedgerEvents) s \<and> st' = bf_store s
    | Inl _ \<Rightarrow> \<exists>ds s. pass_inv st ds s \<and> st' = bf_store s"
proof -
  have "pass_inv st (ds @ [e]) s'"
    if "[] @ store_iter st LedgerEvents = ds @ e # rest" "pass_inv st ds s" "contract_event_step s e = Inr s'"
    for ds e rest s s'
    by (rule pass_inv_step [OF assms(1,2) that(2) _ that(3)]) (use that(1) in simp)
  from bf_loop_invariant [where I = "pass_inv st", OF assms(3) pass_inv_initial [OF assms(1)] this]
  show ?thesis by (cases r) simp_all
qed

text \<open>The transactions with contract events.\<close>

definition contract_txs :: "Store \<Rightarrow> u64 set" where
  "contract_txs st = {er_tx_id r |i r. event_of st i = Some r \<and> is_contract_event r}"

lemma contract_rows_all:
  assumes "store_ok st"
  shows "(i, r) \<in> contract_rows (store_iter st LedgerEvents) \<longleftrightarrow> event_of st i = Some r \<and> is_contract_event r"
proof -
  have "(u64_to_be_bytes i, VEvent r) \<in> set (store_iter st LedgerEvents) \<longleftrightarrow> event_of st i = Some r"
  proof
    assume "event_of st i = Some r"
    then obtain v where v: "store_get st LedgerEvents (u64_to_be_bytes i) = Some v" "as_event v = Some r"
      by (auto simp: event_of_def bind_eq_Some_conv)
    moreover have "v = VEvent r" using v(2) by (cases v) auto
    ultimately show "(u64_to_be_bytes i, VEvent r) \<in> set (store_iter st LedgerEvents)"
      by (simp add: in_store_iter [OF assms])
  qed (simp add: in_store_iter [OF assms] event_of_def)
  then show ?thesis by (simp add: contract_rows_def)
qed

lemma events_pass_left:
  assumes "store_ok st" "contract_actions st = ContractActionsV2"
    and "backfill_contract_events st = (st', res)"
  shows "store_ok st'" "contract_actions st' = ContractActionsV2"
    and "tx_actions st' t = tx_actions st t"
    and "event_of st' i = event_of st i \<or> event_of st' i = map_option (recorrelated st) (event_of st i)"
    and "p \<notin> {LedgerEvents, EventsByContract} \<Longrightarrow> store_get st' p k = store_get st p k"
    and "res = Inr counts \<Longrightarrow> event_of st' i = map_option (recorrelated st) (event_of st i)"
    and "res = Inr counts \<Longrightarrow> store_get st' EventsByContract k \<noteq> None \<longleftrightarrow> store_get st EventsByContract k \<noteq> None
      \<or> (\<exists>i r a. event_of st i = Some r \<and> is_contract_event r \<and> le_contract_address (er_event r) = Some a
          \<and> k = prefixed_u64_key a i)"
    and "res = Inr counts \<Longrightarrow> card (contract_txs st) \<le> 10000"
proof -
  obtain st1 r where loop: "bf_loop contract_event_step (store_iter st LedgerEvents) (events_initial st) = (st1, r)"
    by fastforce
  note left = events_pass [OF assms(1,2) loop]
  have both: "\<exists>ds s. pass_inv st ds s \<and> (st' = bf_store s \<or> st' = bf_view s)
    \<and> (res = Inr counts \<longrightarrow> ds = store_iter st LedgerEvents \<and> st' = bf_view s)"
  proof (cases r)
    case (Inl e)
    then have "st' = st1" "res \<noteq> Inr counts" using assms(3) loop by (auto simp: backfill_contract_events_def)
    with left Inl show ?thesis by auto
  next
    case (Inr s)
    then have "st' = bf_view s" using assms(3) loop by (auto simp: backfill_contract_events_def bf_view_def)
    with left Inr show ?thesis by auto
  qed
  then obtain ds s where inv: "pass_inv st ds s" and st': "st' = bf_store s \<or> st' = bf_view s"
    and full: "res = Inr counts \<longrightarrow> ds = store_iter st LedgerEvents \<and> st' = bf_view s" by blast
  note parts = inv [unfolded pass_inv_def]
  have sub: "set ds \<subseteq> set (store_iter st LedgerEvents)" and ed: "events_done st ds s" and ok: "bf_ok s"
    using parts by blast+
  note frame = events_doneD(1) [OF ed]
  show "store_ok st'" using ok st' by (auto simp: bf_ok_def)
  show actions: "contract_actions st' = ContractActionsV2"
    using frame st' assms(2) by (auto simp: bf_frame_def bf_view_def)
  show same: "p \<notin> {LedgerEvents, EventsByContract} \<Longrightarrow> store_get st' p k = store_get st p k" for p k
    using frame st' unfolding bf_frame_def by metis
  show "tx_actions st' t = tx_actions st t"
    using actions assms(2) by (simp add: tx_actions_def store_tx_def get_decoded_def same)
  show "event_of st' i = event_of st i \<or> event_of st' i = map_option (recorrelated st) (event_of st i)"
    using st' parts events_done_view [OF assms(1) sub ed, of i] by blast
  show "event_of st' i = map_option (recorrelated st) (event_of st i)" if "res = Inr counts"
    using full that contract_rows_all [OF assms(1)]
    by (cases "event_of st i") (auto simp: events_doneD(6) [OF ed] recorrelated_def)
  show "store_get st' EventsByContract k \<noteq> None \<longleftrightarrow> store_get st EventsByContract k \<noteq> None
      \<or> (\<exists>i r a. event_of st i = Some r \<and> is_contract_event r \<and> le_contract_address (er_event r) = Some a
          \<and> k = prefixed_u64_key a i)" if "res = Inr counts"
    using full that events_doneD(7) [OF ed, of k] contract_rows_all [OF assms(1)] by simp
  show "card (contract_txs st) \<le> 10000" if "res = Inr counts"
  proof -
    have "contract_txs st = fst ` set (eb_cache s)"
      using full that contract_rows_all [OF assms(1)] by (simp add: events_doneD(5) [OF ed] contract_txs_def)
    then have "card (contract_txs st) \<le> length (eb_cache s)"
      by (metis card_length length_map set_map)
    with events_doneD(3) [OF ed] show ?thesis by simp
  qed
qed

section \<open>The pass as a whole\<close>

text \<open>
  C26. The correlation of contract events is exact, restartable and limited. Wherever the pass ends, also
  on an error or a panic between two commits, every event is as it was or carries the action its
  transaction's calls single out, and nothing but the event log and the contract index has changed; when
  it succeeds every contract event has its action and the index has gained exactly the keys of the
  contract events; and a run after a run, complete or not, ends with the same events as one run. But it
  can only succeed if at most ten thousand transactions have contract events: the next one clears the
  cache with its own entry in it, and the look-up behind panics.
\<close>

theorem contract_events_backfilled:
  assumes "store_ok st" and "contract_actions st = ContractActionsV2"
    and "backfill_contract_events st = (st', res)"
  shows "(\<forall>i. event_of st' i = event_of st i \<or> event_of st' i = map_option (recorrelated st) (event_of st i))
    \<and> (\<forall>p k. p \<notin> {LedgerEvents, EventsByContract} \<longrightarrow> store_get st' p k = store_get st p k)
    \<and> (\<forall>counts. res = Inr counts \<longrightarrow>
         (\<forall>i. event_of st' i = map_option (recorrelated st) (event_of st i))
         \<and> (\<forall>k. store_get st' EventsByContract k \<noteq> None \<longleftrightarrow> store_get st EventsByContract k \<noteq> None
              \<or> (\<exists>i r a. event_of st i = Some r \<and> is_contract_event r
                  \<and> le_contract_address (er_event r) = Some a \<and> k = prefixed_u64_key a i)))
    \<and> (\<forall>st'' counts i. backfill_contract_events st' = (st'', Inr counts) \<longrightarrow>
         event_of st'' i = map_option (recorrelated st) (event_of st i))
    \<and> (10000 < card (contract_txs st) \<longrightarrow> (\<exists>e. res = Inl e))"
proof -
  note left = events_pass_left [OF assms]
  have same: "recorrelated st' r = recorrelated st r" for r by (simp add: recorrelated_def left(3))
  have again: "event_of st'' i = map_option (recorrelated st) (event_of st i)"
    if "backfill_contract_events st' = (st'', Inr counts)" for st'' counts i
  proof -
    have "event_of st'' i = map_option (recorrelated st) (event_of st' i)"
      using events_pass_left(6) [OF left(1,2) that refl, of i] by (simp add: same cong: map_option_cong)
    then show ?thesis using left(4) [of i] by (auto simp: option.map_comp comp_def)
  qed
  have "\<exists>e. res = Inl e" if "10000 < card (contract_txs st)"
    using left(8) that by (cases res) (simp_all add: leD)
  then show ?thesis using left(4-7) again by blast
qed

end
