(* ===== verification/StatesFacts.thy ===== *)
theory StatesFacts
  imports Migrations BackfillFacts
begin

text \<open>
  The migration of contract actions to content-addressed states. It can be stopped between any two
  actions: what is committed and the cursor in the meta partition agree, so that a later run completes
  the migration, and the schema changes only when every action has been rewritten.
\<close>

section \<open>Migrated actions\<close>

definition legacy_of :: "Store \<Rightarrow> u64 \<Rightarrow> LegacyContractActionRecord option" where
  "legacy_of st i = Option.bind (store_get st LegacyContractActions (u64_to_be_bytes i)) as_legacy_action"

definition blob_at :: "(bytes \<Rightarrow> hash32) \<Rightarrow> Store \<Rightarrow> hash32 \<Rightarrow> bool" where
  "blob_at sha st h = (\<exists>b. store_get st ContractStates (hash_bytes h) = Some (Raw b) \<and> sha b = h)"

text \<open>Every blob is stored under its own hash.\<close>

definition blobs_ok :: "(bytes \<Rightarrow> hash32) \<Rightarrow> Store \<Rightarrow> bool" where
  "blobs_ok sha st = (\<forall>h. store_get st ContractStates (hash_bytes h) \<noteq> None \<longrightarrow> blob_at sha st h)"

definition state_ref :: "(bytes \<Rightarrow> hash32) \<Rightarrow> bytes \<Rightarrow> hash32 option" where
  "state_ref sha state = (if state = [] then None else Some (sha state))"

definition migrated_row :: "(bytes \<Rightarrow> hash32) \<Rightarrow> Store \<Rightarrow> u64 \<Rightarrow> LegacyContractActionRecord \<Rightarrow> bool" where
  "migrated_row sha st i r \<longleftrightarrow>
     store_get st ContractActionsV2 (u64_to_be_bytes i)
       = Some (VAction (migrated_action r (state_ref sha (la_state r))))
     \<and> (la_state r \<noteq> [] \<longrightarrow> blob_at sha st (sha (la_state r)))"

text \<open>The actions up to the cursor are migrated.\<close>

definition resumable :: "(bytes \<Rightarrow> hash32) \<Rightarrow> Store \<Rightarrow> bool" where
  "resumable sha st = (case backfill_cursor st of
     Inr (Some c) \<Rightarrow> \<forall>i r. i \<le> c \<longrightarrow> legacy_of st i = Some r \<longrightarrow> migrated_row sha st i r
   | _ \<Rightarrow> True)"

definition migrating :: "(bytes \<Rightarrow> hash32) \<Rightarrow> Store \<Rightarrow> bool" where
  "migrating sha st = (store_ok st \<and> schema st < SCHEMA_CURRENT \<and> blobs_ok sha st \<and> resumable sha st)"

lemma migrating_actions: "migrating sha st \<Longrightarrow> contract_actions st = LegacyContractActions"
  by (auto simp: migrating_def store_ok_def SCHEMA_CURRENT_def)

lemma hash_bytes_inject [simp]: "hash_bytes h = hash_bytes g \<longleftrightarrow> h = g"
  by (rule hashc.enc_inject)

section \<open>One action\<close>

lemma states_view_updates [pass_simps]:
  "bf_view (s\<lparr>st_pending_hashes := ps\<rparr>) = bf_view s" "bf_view (s\<lparr>st_counts := c\<rparr>) = bf_view s"
  "bf_frame P st (s\<lparr>st_pending_hashes := ps\<rparr>) \<longleftrightarrow> bf_frame P st s" "bf_frame P st (s\<lparr>st_counts := c\<rparr>) \<longleftrightarrow> bf_frame P st s"
  "bf_ok (s\<lparr>st_pending_hashes := ps\<rparr>) \<longleftrightarrow> bf_ok s" "bf_ok (s\<lparr>st_counts := c\<rparr>) \<longleftrightarrow> bf_ok s"
  "st_pending_hashes (bf_insert p k v s) = st_pending_hashes s" "st_counts (bf_insert p k v s) = st_counts s"
  by (simp_all add: bf_view_def bf_frame_def bf_ok_def bf_insert_def)

abbreviation state_parts :: "part_id set" where
  "state_parts \<equiv> {ContractActionsV2, ContractStates, Meta}"

text \<open>The pass between two actions, from the store \<open>st\<close> with the cursor \<open>c0\<close>.\<close>

definition states_inv ::
    "(bytes \<Rightarrow> hash32) \<Rightarrow> Store \<Rightarrow> (u64 \<Rightarrow> bool) \<Rightarrow> states_backfill \<Rightarrow> bool" where
  "states_inv sha st ids s \<longleftrightarrow> bf_frame state_parts st s \<and> bf_ok s
     \<and> blobs_ok sha (bf_store s) \<and> blobs_ok sha (bf_view s)
     \<and> (\<forall>h. blob_at sha (bf_store s) h \<longrightarrow> blob_at sha (bf_view s) h)
     \<and> (\<forall>h \<in> set (st_pending_hashes s). blob_at sha (bf_view s) h)
     \<and> (\<forall>i r. ids i \<longrightarrow> legacy_of st i = Some r \<longrightarrow> migrated_row sha (bf_view s) i r)
     \<and> (\<forall>k. k \<noteq> CONTRACT_STATES_BACKFILL_CURSOR \<longrightarrow> store_get (bf_store s) Meta k = store_get st Meta k
          \<and> store_get (bf_view s) Meta k = store_get st Meta k)
     \<and> resumable sha (bf_store s)"

lemma legacy_frame: "bf_frame state_parts st s \<Longrightarrow> legacy_of (bf_store s) i = legacy_of st i"
  by (simp add: bf_frame_def legacy_of_def)

lemma blob_at_insert:
  "blob_at sha (bf_view (bf_insert ContractStates (hash_bytes (sha b)) (Raw b) s)) h
    \<longleftrightarrow> h = sha b \<or> blob_at sha (bf_view s) h"
  by (auto simp: blob_at_def pass_simps)

lemma blob_at_other:
  "p \<noteq> ContractStates \<Longrightarrow> blob_at sha (bf_view (bf_insert p k v s)) h \<longleftrightarrow> blob_at sha (bf_view s) h"
  by (simp add: blob_at_def pass_simps)

lemma blobs_ok_insert:
  "blobs_ok sha (bf_view s) \<Longrightarrow> blobs_ok sha (bf_view (bf_insert ContractStates (hash_bytes (sha b)) (Raw b) s))"
  by (auto simp: blobs_ok_def blob_at_def pass_simps)

lemma blobs_ok_other:
  "p \<noteq> ContractStates \<Longrightarrow> blobs_ok sha (bf_view (bf_insert p k v s)) \<longleftrightarrow> blobs_ok sha (bf_view s)"
  by (simp add: blobs_ok_def blob_at_def pass_simps)

lemma migrated_row_insert_blob:
  "migrated_row sha (bf_view s) i r \<Longrightarrow>
    migrated_row sha (bf_view (bf_insert ContractStates (hash_bytes (sha b)) (Raw b) s)) i r"
  unfolding migrated_row_def blob_at_insert by (simp add: pass_simps)

lemma migrate_state_inv:
  assumes "states_inv sha st ids s" and "migrate_state sha state s = (s', h)"
  shows "states_inv sha st ids s'" "h = state_ref sha state"
    and "state \<noteq> [] \<Longrightarrow> blob_at sha (bf_view s') (sha state)"
    and "bf_store s' = bf_store s" "bf_pending s' = bf_pending s"
proof -
  have "states_inv sha st ids s' \<and> h = state_ref sha state \<and> (state \<noteq> [] \<longrightarrow> blob_at sha (bf_view s') (sha state))
    \<and> bf_store s' = bf_store s \<and> bf_pending s' = bf_pending s"
  proof (cases "state = []")
    case True
    with assms show ?thesis by (simp add: migrate_state_def state_ref_def)
  next
    case nonempty: False
    show ?thesis
    proof (cases "store_get (bf_store s) ContractStates (hash_bytes (sha state)) = None
        \<and> sha state \<notin> set (st_pending_hashes s)")
      case True
      with assms(2) nonempty have s': "s' = (bf_insert ContractStates (hash_bytes (sha state)) (Raw state) s)
          \<lparr>st_pending_hashes := sha state # st_pending_hashes s,
           st_counts := (st_counts s)\<lparr>cs_blobs := cs_blobs (st_counts s) + 1,
             cs_blob_bytes := cs_blob_bytes (st_counts s) + word_of_nat (length state)\<rparr>\<rparr>"
        and h: "h = Some (sha state)"
        by (auto simp: migrate_state_def Let_def)
      have "bf_ok s" using assms(1) by (simp add: states_inv_def)
      then have "bf_ok s'" unfolding s' pass_simps by (rule ok_insert [rotated]) simp
      moreover have "store_get (bf_view s') Meta k = store_get (bf_view s) Meta k" for k
        by (simp add: s' pass_simps)
      moreover have "bf_store s' = bf_store s" "bf_pending s' = bf_pending s" by (simp_all add: s' pass_simps)
      moreover have "bf_frame state_parts st s'" using assms(1) by (simp add: s' pass_simps states_inv_def)
      moreover have "blobs_ok sha (bf_view s')" "blob_at sha (bf_view s') (sha state)"
        "\<And>h. blob_at sha (bf_view s) h \<Longrightarrow> blob_at sha (bf_view s') h"
        "\<And>i r. migrated_row sha (bf_view s) i r \<Longrightarrow> migrated_row sha (bf_view s') i r"
        using assms(1) by (simp_all add: s' states_view_updates blobs_ok_insert blob_at_insert migrated_row_insert_blob
            states_inv_def)
      moreover have "set (st_pending_hashes s') = insert (sha state) (set (st_pending_hashes s))"
        by (simp add: s')
      ultimately show ?thesis
        using assms(1) nonempty h unfolding states_inv_def by (simp add: state_ref_def)
    next
      case False
      with assms(2) nonempty have s': "s' = s" "h = Some (sha state)" by (auto simp: migrate_state_def Let_def)
      have "blob_at sha (bf_view s) (sha state)"
        using False assms(1) unfolding states_inv_def blobs_ok_def by blast
      with assms(1) s' nonempty show ?thesis by (simp add: state_ref_def)
    qed
  qed
  then show "states_inv sha st ids s'" "h = state_ref sha state"
    "state \<noteq> [] \<Longrightarrow> blob_at sha (bf_view s') (sha state)" "bf_store s' = bf_store s" "bf_pending s' = bf_pending s"
    by blast+
qed

lemma states_row_inv:
  assumes "states_inv sha st ids s" and "legacy_of st i = Some r"
    and "la_state r \<noteq> [] \<Longrightarrow> blob_at sha (bf_view s) (sha (la_state r))"
  shows "states_inv sha st (\<lambda>j. ids j \<or> j = i)
    (bf_insert ContractActionsV2 (u64_to_be_bytes i) (VAction (migrated_action r (state_ref sha (la_state r)))) s)"
    (is "states_inv sha st _ ?s")
proof -
  have "bf_ok s" using assms(1) by (simp add: states_inv_def)
  then have "bf_ok ?s" by (rule ok_insert [rotated]) simp
  moreover have "migrated_row sha (bf_view ?s) j q"
    if "legacy_of st j = Some q" "ids j \<or> j = i" for j q
  proof (cases "j = i")
    case True
    with that(1) assms(2) have "q = r" by simp
    with True assms(3) show ?thesis by (simp add: migrated_row_def blob_at_other pass_simps)
  next
    case False
    with that assms(1) have "migrated_row sha (bf_view s) j q" by (simp add: states_inv_def)
    with False show ?thesis by (simp add: migrated_row_def blob_at_other pass_simps u64c.enc_inject)
  qed
  moreover have "bf_frame state_parts st ?s" using assms(1) by (simp add: pass_simps states_inv_def)
  moreover have "store_get (bf_view ?s) Meta k = store_get (bf_view s) Meta k" for k by (simp add: pass_simps)
  ultimately show ?thesis
    using assms(1,2) unfolding states_inv_def
    by (simp add: blob_at_other blobs_ok_other pass_simps)
qed

lemma states_pending_inv [simp]:
  "states_inv sha st ids (s\<lparr>bf_pending := n\<rparr>) \<longleftrightarrow> states_inv sha st ids s"
  "states_inv sha st ids (s\<lparr>st_counts := c\<rparr>) \<longleftrightarrow> states_inv sha st ids s"
  by (simp_all add: states_inv_def pass_simps)

lemma states_flush_inv:
  assumes inv: "states_inv sha st ids s" and all: "\<And>j. j \<le> last_id \<Longrightarrow> legacy_of st j \<noteq> None \<Longrightarrow> ids j"
  shows "states_inv sha st ids (states_flush last_id s)"
proof (cases "bf_pending s \<ge> COMMIT_EVERY")
  case True
  let ?s1 = "bf_insert Meta CONTRACT_STATES_BACKFILL_CURSOR (Raw (u64_to_be_bytes last_id)) s"
  let ?s' = "states_flush last_id s"
  have s': "bf_store ?s' = bf_view ?s1" "bf_view ?s' = bf_view ?s1" "st_pending_hashes ?s' = []"
    using True by (simp_all add: states_flush_def bf_flush_def bf_view_def bf_insert_def)
  have ok: "bf_ok ?s1" using inv by (auto simp: states_inv_def meta_u64_keys_def intro!: ok_insert)
  have frame: "bf_frame state_parts st ?s1" using inv by (simp add: states_inv_def pass_simps)
  have rows: "migrated_row sha (bf_view ?s1) j r" if "ids j" "legacy_of st j = Some r" for j r
    using inv that unfolding states_inv_def migrated_row_def by (simp add: pass_simps blob_at_other)
  have legacy: "legacy_of (bf_view ?s1) j = legacy_of st j" for j
    using frame by (simp add: bf_frame_def legacy_of_def)
  have "backfill_cursor (bf_view ?s1) = Inr (Some last_id)"
    by (simp add: backfill_cursor_def pass_simps)
  then have "resumable sha (bf_view ?s1)"
    using rows all by (auto simp: resumable_def legacy)
  moreover have "bf_frame state_parts st ?s'"
    using frame unfolding bf_frame_def s' by (simp add: bf_view_def)
  moreover have "bf_ok ?s'" using ok by (simp add: bf_ok_def s')
  moreover have "blobs_ok sha (bf_view ?s1)" using inv by (simp add: states_inv_def blobs_ok_other)
  moreover have "store_get (bf_view ?s1) Meta k = store_get st Meta k" if "k \<noteq> CONTRACT_STATES_BACKFILL_CURSOR" for k
    using inv that by (simp add: states_inv_def pass_simps)
  ultimately show ?thesis
    using rows unfolding states_inv_def s' by simp
qed (use inv in \<open>simp add: states_flush_def\<close>)

lemma states_step_inv:
  assumes inv: "states_inv sha st ids s" and row: "legacy_of st i = Some r"
    and step: "states_step sha resume_after s (u64_to_be_bytes i, VLegacyAction r) = Inr s'"
    and skipped: "\<And>c. resume_after = Some c \<Longrightarrow> i \<le> c \<Longrightarrow> ids i"
    and all: "\<And>j. j < i \<Longrightarrow> legacy_of st j \<noteq> None \<Longrightarrow> ids j"
  shows "states_inv sha st (\<lambda>j. ids j \<or> j = i) s'"
proof (cases "case resume_after of None \<Rightarrow> False | Some cursor \<Rightarrow> i \<le> cursor")
  case True
  then have "s' = s" using step by (simp add: states_step_def)
  moreover have "ids i" using True skipped by (auto split: option.splits)
  then have "(\<lambda>j. ids j \<or> j = i) = ids" by auto
  ultimately show ?thesis using inv by simp
next
  case False
  obtain s1 h where m: "migrate_state sha (la_state r) (s\<lparr>st_counts := (st_counts s)\<lparr>cs_actions := cs_actions (st_counts s) + 1\<rparr>\<rparr>)
      = (s1, h)" by fastforce
  note mi = migrate_state_inv [OF _ m, of st ids, unfolded states_pending_inv, OF inv]
  let ?s2 = "bf_insert ContractActionsV2 (u64_to_be_bytes i) (VAction (migrated_action r (state_ref sha (la_state r)))) s1"
  have s': "s' = states_flush i (?s2\<lparr>bf_pending := bf_pending ?s2 + 1\<rparr>)"
    using step False m mi(2) by (simp add: states_step_def store_decode_def Let_def)
  have "states_inv sha st (\<lambda>j. ids j \<or> j = i) ?s2" by (rule states_row_inv [OF mi(1) row mi(3)])
  then show ?thesis
    unfolding s' by (intro states_flush_inv) (use all in \<open>auto simp: order_le_less\<close>)
qed

lemma states_step_total:
  "\<exists>s'. states_step sha resume_after s (u64_to_be_bytes i, VLegacyAction r) = Inr s'"
  by (simp add: states_step_def store_decode_def Let_def split: prod.split)

section \<open>All actions\<close>

lemma legacy_entries:
  assumes "store_ok st" and "e \<in> set (store_iter st LegacyContractActions)"
  obtains i r where "e = (u64_to_be_bytes i, VLegacyAction r)" and "legacy_of st i = Some r"
proof -
  obtain k v where e: "e = (k, v)" by (cases e)
  then have g: "store_get st LegacyContractActions k = Some v" using assms by (simp add: in_store_iter)
  have "length k = 8" "as_legacy_action v \<noteq> None" using store_ok_entry [OF assms(1) g] by auto
  moreover obtain i where "u64_from_be_bytes k = Some i"
    using u64_from_be_bytes_Some \<open>length k = 8\<close> by blast
  ultimately have "k = u64_to_be_bytes i" "\<exists>r. v = VLegacyAction r"
    using u64c.dec_width by (blast, cases v) auto
  with that e g show thesis by (auto simp: legacy_of_def)
qed

definition id_done :: "u64 option \<Rightarrow> (bytes \<times> store_value) list \<Rightarrow> u64 \<Rightarrow> bool" where
  "id_done resume_after ds i = ((\<exists>v. (u64_to_be_bytes i, v) \<in> set ds)
     \<or> (case resume_after of None \<Rightarrow> False | Some c \<Rightarrow> i \<le> c))"

lemma id_done_snoc:
  "id_done resume_after (ds @ [(u64_to_be_bytes i, v)]) = (\<lambda>j. id_done resume_after ds j \<or> j = i)"
  by (auto simp: id_done_def u64c.enc_inject fun_eq_iff)

lemma states_prefix_step:
  assumes st: "store_ok st" and es: "store_iter st LegacyContractActions = ds @ e # rest"
    and inv: "states_inv sha st (id_done c ds) s" and step: "states_step sha c s e = Inr s'"
  shows "states_inv sha st (id_done c (ds @ [e])) s'"
proof -
  have "e \<in> set (store_iter st LegacyContractActions)" using es by simp
  from legacy_entries [OF st this] obtain i r where e: "e = (u64_to_be_bytes i, VLegacyAction r)"
    and row: "legacy_of st i = Some r" by blast
  have sorted: "sorted_wrt (<) (map fst (store_iter st LegacyContractActions))"
    using store_ok_part [OF st] by (simp add: store_iter_def part_iter_def part_ok_def)
  have all: "id_done c ds j" if "j < i" "legacy_of st j \<noteq> None" for j
  proof -
    from that(2) obtain v where "store_get st LegacyContractActions (u64_to_be_bytes j) = Some v"
      by (auto simp: legacy_of_def bind_eq_Some_conv)
    then have "(u64_to_be_bytes j, v) \<in> set (ds @ e # rest)" unfolding es [symmetric] by (simp add: in_store_iter [OF st])
    moreover have "\<not> u64_to_be_bytes i < u64_to_be_bytes j" "j \<noteq> i"
      using that(1) by (simp_all add: u64c.enc_less_iff)
    moreover have "(u64_to_be_bytes j, v) \<notin> set rest"
    proof
      assume "(u64_to_be_bytes j, v) \<in> set rest"
      moreover have "\<forall>x \<in> set rest. u64_to_be_bytes i < fst x"
        using sorted unfolding es e by (simp add: sorted_wrt_append)
      ultimately have "i < j" by (auto simp: u64c.enc_less_iff)
      with \<open>j < i\<close> show False by simp
    qed
    ultimately show ?thesis by (auto simp: id_done_def e u64c.enc_inject)
  qed
  have "states_inv sha st (\<lambda>j. id_done c ds j \<or> j = i) s'"
    using inv row step [unfolded e] by (rule states_step_inv) (use all in \<open>auto simp: id_done_def\<close>)
  then show ?thesis unfolding e id_done_snoc .
qed


abbreviation states_initial :: "Store \<Rightarrow> states_backfill" where
  "states_initial st \<equiv> \<lparr>bf_store = st, bf_batch = [], bf_pending = 0, st_pending_hashes = [], st_counts = zero_states\<rparr>"

lemma states_inv_initial:
  assumes "migrating sha st" and "backfill_cursor st = Inr c"
  shows "states_inv sha st (id_done c []) (states_initial st)"
  using assms unfolding migrating_def states_inv_def id_done_def
  by (auto simp: bf_frame_def bf_view_def bf_ok_def resumable_def split: option.splits)

text \<open>Stopped anywhere, the pass has the invariant of the actions before; it never fails.\<close>

lemma states_pass:
  assumes st: "migrating sha st" "backfill_cursor st = Inr c"
    and es: "store_iter st LegacyContractActions = es @ es'"
  obtains s where "bf_loop (states_step sha c) es (states_initial st) = (bf_store s, Inr s)"
    and "states_inv sha st (id_done c es) s"
proof -
  have ok: "store_ok st" using st(1) by (simp add: migrating_def)
  have "\<exists>s'. bf_loop (states_step sha c) ds s = (bf_store s', Inr s')"
    if "set ds \<subseteq> set (store_iter st LegacyContractActions)" for ds s
    using that
  proof (induction ds arbitrary: s)
    case (Cons e ds)
    then obtain i r where "e = (u64_to_be_bytes i, VLegacyAction r)"
      using legacy_entries [OF ok, of e] by (metis list.set_intros(1) subsetD)
    with states_step_total obtain s1 where "states_step sha c s e = Inr s1" by blast
    with Cons show ?case by simp
  qed simp
  from this [of es] obtain s where run: "bf_loop (states_step sha c) es (states_initial st) = (bf_store s, Inr s)"
    unfolding es by auto
  have "states_inv sha st (id_done c ([] @ es)) s"
    using bf_loop_invariant [where I = "\<lambda>ds. states_inv sha st (id_done c ds)", OF run
        states_inv_initial [OF st]] states_prefix_step [OF ok] es by simp
  with run that show thesis by simp
qed

lemma migrating_cursor: "migrating sha st \<Longrightarrow> \<exists>c. backfill_cursor st = Inr c"
proof -
  assume "migrating sha st"
  then have ok: "store_ok st" by (simp add: migrating_def)
  show ?thesis
  proof (cases "store_get st Meta CONTRACT_STATES_BACKFILL_CURSOR")
    case None
    then show ?thesis by (simp add: backfill_cursor_def)
  next
    case (Some v)
    from store_ok_entry [OF ok this] have "raw_of_length 8 v"
      by (cases v) (auto simp: raw_of_length_def meta_u64_keys_def)
    from as_u64_raw [OF this] obtain x where "as_u64 ''8-byte cursor'' v = Inr x" by blast
    with Some show ?thesis by (simp add: backfill_cursor_def)
  qed
qed

lemma opened [simp]:
  "store_get (st\<lparr>disk := open_partition p (disk st)\<rparr>) q k = store_get st q k"
  "store_iter (st\<lparr>disk := open_partition p (disk st)\<rparr>) q = store_iter st q"
  "store_ok (st\<lparr>disk := open_partition p (disk st)\<rparr>) \<longleftrightarrow> store_ok st"
  by (simp_all add: store_get_def store_iter_def store_ok_def)

lemma opened_views [simp]:
  "backfill_cursor (st\<lparr>disk := open_partition p (disk st)\<rparr>) = backfill_cursor st"
  "legacy_of (st\<lparr>disk := open_partition p (disk st)\<rparr>) i = legacy_of st i"
  "blob_at sha (st\<lparr>disk := open_partition p (disk st)\<rparr>) h \<longleftrightarrow> blob_at sha st h"
  by (simp_all add: backfill_cursor_def legacy_of_def blob_at_def)

lemma migrating_opened [simp]: "migrating sha (st\<lparr>disk := open_partition p (disk st)\<rparr>) \<longleftrightarrow> migrating sha st"
  by (simp add: migrating_def blobs_ok_def resumable_def migrated_row_def split: sum.split option.split)

text \<open>The store left behind when the migration is stopped before its \<open>n\<close>-th action.\<close>

definition stopped_after :: "(bytes \<Rightarrow> hash32) \<Rightarrow> nat \<Rightarrow> Store \<Rightarrow> Store" where
  "stopped_after sha n st =
     (let st = st\<lparr>disk := open_partition ContractActionsV2 (disk st)\<rparr>
      in case backfill_cursor st of
           Inl e \<Rightarrow> st
         | Inr resume_after \<Rightarrow>
             fst (bf_loop (states_step sha resume_after) (take n (store_iter st (contract_actions st))) (states_initial st)))"

text \<open>The same data, up to what the migration writes.\<close>

definition same_data :: "Store \<Rightarrow> Store \<Rightarrow> bool" where
  "same_data st st' \<longleftrightarrow> (\<forall>p k. p \<notin> {Meta, ContractActionsV2, ContractStates, LegacyContractActions} \<longrightarrow>
       store_get st' p k = store_get st p k)
     \<and> (\<forall>k. k \<notin> {CONTRACT_STATES_BACKFILL_CURSOR, SCHEMA_VERSION} \<longrightarrow> store_get st' Meta k = store_get st Meta k)"

lemma states_inv_same:
  assumes "states_inv sha st ids s"
  shows "same_data st (bf_store s)" "same_data st (bf_view s)" "legacy_of (bf_store s) i = legacy_of st i"
    "legacy_of (bf_view s) i = legacy_of st i"
  using assms by (auto simp: states_inv_def same_data_def bf_frame_def legacy_of_def)

lemma stopped_migrating:
  assumes "migrating sha st"
  shows "migrating sha (stopped_after sha n st)" and "schema (stopped_after sha n st) = schema st" and "same_data st (stopped_after sha n st)"
    and "legacy_of (stopped_after sha n st) i = legacy_of st i"
proof -
  let ?st = "st\<lparr>disk := open_partition ContractActionsV2 (disk st)\<rparr>"
  have m: "migrating sha ?st" using assms by simp
  from migrating_cursor [OF m] obtain c where c: "backfill_cursor ?st = Inr c" by blast
  note actions = migrating_actions [OF m]
  obtain s where run: "bf_loop (states_step sha c) (take n (store_iter ?st LegacyContractActions)) (states_initial ?st)
      = (bf_store s, Inr s)" and inv: "states_inv sha ?st (id_done c (take n (store_iter ?st LegacyContractActions))) s"
    using states_pass [OF m c] append_take_drop_id by metis
  have stop: "stopped_after sha n st = bf_store s"
    using run c unfolding stopped_after_def Let_def actions by simp
  have "schema (bf_store s) = schema st" "contract_actions (bf_store s) = contract_actions st" "store_ok (bf_store s)"
    "blobs_ok sha (bf_store s)" "resumable sha (bf_store s)"
    using inv by (simp_all add: states_inv_def bf_frame_def bf_ok_def)
  with assms show "migrating sha (stopped_after sha n st)" "schema (stopped_after sha n st) = schema st"
    by (simp_all add: stop migrating_def)
  show "same_data st (stopped_after sha n st)"
    using states_inv_same(1) [OF inv] by (simp add: stop same_data_def)
  show "legacy_of (stopped_after sha n st) i = legacy_of st i"
    using states_inv_same(3) [OF inv] by (simp add: stop)
qed

section \<open>The cutover\<close>

text \<open>What a completed migration of \<open>st\<close> looks like.\<close>

definition migrated :: "(bytes \<Rightarrow> hash32) \<Rightarrow> Store \<Rightarrow> Store \<Rightarrow> bool" where
  "migrated sha st st' \<longleftrightarrow> blobs_ok sha st'
     \<and> (\<forall>i r. legacy_of st i = Some r \<longrightarrow> migrated_row sha st' i r)
     \<and> same_data st st'
     \<and> store_get st' Meta CONTRACT_STATES_BACKFILL_CURSOR = None
     \<and> store_iter st' LegacyContractActions = [] \<and> LegacyContractActions \<notin> set (existing (disk st'))
     \<and> (\<exists>st2. store_open (disk st') = Inr st2 \<and> store_ok st2 \<and> keyspace (disk st2) = keyspace (disk st')
          \<and> contract_actions st2 = ContractActionsV2 \<and> require_current_schema st2 = Inr ())"

lemma deleted [simp]:
  "store_get (delete_partition p st) q k = (if q = p then None else store_get st q k)"
  "store_iter (delete_partition p st) p = []" "p \<notin> set (existing (disk (delete_partition p st)))"
  by (simp_all add: delete_partition_def store_get_def ks_get_def store_iter_def part_get_def part_iter_def)

lemma deleted_typed: "keyspace_typed (keyspace (disk st)) \<Longrightarrow> keyspace_typed (keyspace (disk (delete_partition p st)))"
  by (simp add: delete_partition_def keyspace_typed_def keyspace_ok_def ks_get_def part_get_def)

lemma cut_over_get [pass_simps]:
  "store_get (commit st (cut_over b)) q k =
    (if q = Meta \<and> k = SCHEMA_VERSION then Some (Raw (u64_to_be_bytes SCHEMA_CURRENT))
     else if q = Meta \<and> k = CONTRACT_STATES_BACKFILL_CURSOR then None else store_get (commit st b) q k)"
  by (simp add: cut_over_def store_simps)

lemma cut_over_ok: "store_ok (commit st b) \<Longrightarrow> store_ok (commit st (cut_over b))"
  unfolding cut_over_def by (intro store_ok_insert store_ok_remove) (simp_all add: meta_u64_keys_def)

lemma cursor_not_schema [simp]: "CONTRACT_STATES_BACKFILL_CURSOR \<noteq> SCHEMA_VERSION"
  using meta_keys_distinct by simp

lemma states_completed:
  assumes m: "migrating sha st"
  obtains st' counts where "backfill_contract_states sha st = (st', Inr counts)" and "migrated sha st st'"
proof -
  let ?st = "st\<lparr>disk := open_partition ContractActionsV2 (disk st)\<rparr>"
  let ?es = "store_iter ?st LegacyContractActions"
  have m': "migrating sha ?st" using m by simp
  from migrating_cursor [OF m'] obtain c where c: "backfill_cursor ?st = Inr c" by blast
  note actions = migrating_actions [OF m']
  obtain s where run: "bf_loop (states_step sha c) ?es (states_initial ?st) = (bf_store s, Inr s)"
    and inv: "states_inv sha ?st (id_done c ?es) s"
    by (rule states_pass [OF m' c, of ?es "[]"]) simp
  let ?cut = "commit (bf_store s) (cut_over (bf_batch s))"
  let ?st' = "delete_partition LegacyContractActions ?cut"
  have "\<not> SCHEMA_CURRENT \<le> schema st" using m by (simp add: migrating_def not_le)
  then have result: "backfill_contract_states sha st
      = (?st', Inr ((st_counts s)\<lparr>cs_cut_over := True, cs_reclaimed := True\<rparr>))"
    using run c unfolding backfill_contract_states_def Let_def actions by simp
  have get: "store_get ?st' q k = (if q = LegacyContractActions then None
      else if q = Meta \<and> k = SCHEMA_VERSION then Some (Raw (u64_to_be_bytes SCHEMA_CURRENT))
      else if q = Meta \<and> k = CONTRACT_STATES_BACKFILL_CURSOR then None else store_get (bf_view s) q k)" for q k
    by (simp add: pass_simps bf_view_def)
  have all: "id_done c ?es i" if "legacy_of st i = Some r" for i r
    using that in_store_iter [of st _ _ LegacyContractActions] m
    by (auto simp: legacy_of_def bind_eq_Some_conv id_done_def migrating_def)
  have "store_ok ?cut" using inv by (intro cut_over_ok) (simp add: states_inv_def bf_ok_def bf_view_def)
  then have typed: "keyspace_typed (keyspace (disk ?st'))" by (intro deleted_typed) (simp add: store_ok_def)
  have "stored_schema (disk ?st') = Some (Raw (u64_to_be_bytes SCHEMA_CURRENT))"
    using get [of Meta SCHEMA_VERSION] by (simp add: stored_schema_def store_get_def)
  from store_open_stored [OF this] obtain st2 where st2: "store_open (disk ?st') = Inr st2" "schema st2 = SCHEMA_CURRENT"
    "keyspace (disk st2) = keyspace (disk ?st')" "contract_actions st2 = ContractActionsV2"
    by (auto simp: SCHEMA_CURRENT_def)
  have "store_ok st2" using st2 typed by (simp add: store_ok_def SCHEMA_CURRENT_def)
  moreover have "require_current_schema st2 = Inr ()" using st2 by (simp add: require_current_schema_def)
  moreover have "blob_at sha ?st' h \<longleftrightarrow> blob_at sha (bf_view s) h" for h by (simp add: blob_at_def get del: deleted(1))
  moreover have "blobs_ok sha (bf_view s)" using inv by (simp add: states_inv_def)
  moreover have "migrated_row sha (bf_view s) i r" if "legacy_of st i = Some r" for i r
    using inv all [OF that] that by (simp add: states_inv_def)
  moreover have "same_data st (bf_view s)" using states_inv_same(2) [OF inv] by (simp add: same_data_def)
  ultimately have "migrated sha st ?st'"
    unfolding migrated_def using st2
    by (intro conjI) (auto simp: blobs_ok_def migrated_row_def same_data_def get simp del: deleted(1))
  with result that show thesis by blast
qed

text \<open>
  C28. The migration to content-addressed contract states can be interrupted and is complete. Stopped
  before any action, by a crash or an error, it leaves a store of schema 1 with every legacy action
  untouched, from which a later run completes: a run always succeeds, and then every legacy action has
  its row with the hash of its state, every state blob is stored under its own hash, the cursor and the
  legacy partition are gone, nothing else has changed, and the directory opens with the current schema.
\<close>

theorem contract_states_migrated:
  assumes "migrating sha st"
  shows "(\<forall>n. store_ok (stopped_after sha n st) \<and> schema (stopped_after sha n st) = schema st
      \<and> same_data st (stopped_after sha n st) \<and> (\<forall>i. legacy_of (stopped_after sha n st) i = legacy_of st i)
      \<and> (\<exists>st' counts. backfill_contract_states sha (stopped_after sha n st) = (st', Inr counts) \<and> migrated sha st st'))
    \<and> (\<exists>st' counts. backfill_contract_states sha st = (st', Inr counts) \<and> migrated sha st st')"
proof -
  have "store_ok (stopped_after sha n st) \<and> schema (stopped_after sha n st) = schema st
      \<and> same_data st (stopped_after sha n st) \<and> (\<forall>i. legacy_of (stopped_after sha n st) i = legacy_of st i)
      \<and> (\<exists>st' counts. backfill_contract_states sha (stopped_after sha n st) = (st', Inr counts) \<and> migrated sha st st')"
    for n
  proof -
    let ?st = "stopped_after sha n st"
    note stopped = stopped_migrating [OF assms, of n]
    obtain st' counts where run: "backfill_contract_states sha ?st = (st', Inr counts)" and m: "migrated sha ?st st'"
      by (rule states_completed [OF stopped(1)])
    have "migrated sha st st'"
      using m stopped(3,4) unfolding migrated_def same_data_def by simp
    with run stopped show ?thesis by (auto simp: migrating_def)
  qed
  with states_completed [OF assms] show ?thesis by metis
qed

end
