(* ===== verification/BackfillProps.thy ===== *)
theory BackfillProps
  imports RebuildFacts StatesFacts WalletDemo
begin

text \<open>
  The maintenance passes at concrete stores: an event log written before correlation, a DUST record
  under a key no event accounts for, and a store of schema 1 with two actions of the same state.
\<close>

section \<open>A log without correlations\<close>

definition paused_record :: "u64 option \<Rightarrow> EventRecord" where
  "paused_record a = \<lparr>er_event = \<lparr>le_grouping = ContractGrouping, le_raw = [],
     le_attributes = ContractPaused 1 [102], le_contract_action_id = a, le_contract_address = Some [9]\<rparr>,
     er_tx_id = 0, er_block_height = 5\<rparr>"

definition calling_tx :: TxRecord where
  "calling_tx = demo_tx_record\<lparr>tx_contract_action_ids := [0]\<rparr>"

definition call_record :: ContractActionRecord where
  "call_record = \<lparr>ar_address = [9], ar_attributes = Call ''f'', ar_state_hash = None, ar_balances = [],
     ar_tx_id = 0, ar_block_height = 5\<rparr>"

definition uncorrelated_store :: Store where
  "uncorrelated_store = commit blank_store
     (batch_insert ContractActionsV2 (u64_to_be_bytes 0) (VAction call_record)
       (batch_insert Txs (u64_to_be_bytes 0) (VTx calling_tx)
         (batch_insert LedgerEvents (u64_to_be_bytes 0) (VEvent (paused_record None)) [])))"

lemma uncorrelated_ok: "store_ok uncorrelated_store" "contract_actions uncorrelated_store = ContractActionsV2"
proof -
  show "store_ok uncorrelated_store" unfolding uncorrelated_store_def by (auto intro!: store_ok_insert)
qed (simp add: uncorrelated_store_def blank_store_def)

lemma uncorrelated_get:
  "store_get uncorrelated_store LedgerEvents k = (if k = u64_to_be_bytes 0 then Some (VEvent (paused_record None)) else None)"
  "store_get uncorrelated_store Txs k = (if k = u64_to_be_bytes 0 then Some (VTx calling_tx) else None)"
  "store_get uncorrelated_store ContractActionsV2 k = (if k = u64_to_be_bytes 0 then Some (VAction call_record) else None)"
  by (simp_all add: uncorrelated_store_def store_simps)

lemma single_iter:
  assumes "store_ok st" and "\<And>k'. store_get st p k' = (if k' = k then Some v else None)"
  shows "store_iter st p = [(k, v)]"
proof (rule singleton_sorted)
  show "sorted_wrt (<) (map fst (store_iter st p))"
    using store_ok_part [OF assms(1)] by (simp add: store_iter_def part_iter_def part_ok_def)
  show "e \<in> set (store_iter st p) \<longleftrightarrow> e = (k, v)" for e
    by (cases e) (auto simp: in_store_iter [OF assms(1)] assms(2))
qed

lemma paused_simps [simp]:
  "le_grouping (er_event (paused_record a)) = ContractGrouping" "er_tx_id (paused_record a) = 0"
  "le_contract_address (er_event (paused_record a)) = Some [9]"
  "le_contract_action_id (er_event (paused_record a)) = a"
  by (simp_all add: paused_record_def)

lemma paused_actions:
  "tx_actions uncorrelated_store 0 = Inr [(0, call_record)]"
  "correlated_id (paused_record None) [(0, call_record)] = Some 0"
  by (simp_all add: tx_actions_def store_tx_def get_decoded_def uncorrelated_get uncorrelated_ok store_decode_def
      calling_tx_def) code_simp

lemma uncorrelated_run:
  "\<exists>st' counts. backfill_contract_events uncorrelated_store = (st', Inr counts) \<and> bc_records_rewritten counts = 1"
proof -
  have rows: "store_iter uncorrelated_store LedgerEvents = [(u64_to_be_bytes 0, VEvent (paused_record None))]"
    by (rule single_iter [OF uncorrelated_ok(1)]) (simp add: uncorrelated_get)
  show ?thesis
    by (simp add: backfill_contract_events_def rows contract_event_step_def Let_def store_decode_def cache_actions_def
        pass_simps rewrite_event_def paused_actions zero_counts_def)
qed

theorem contract_events_backfilled_witness:
  "\<exists>st' counts. backfill_contract_events uncorrelated_store = (st', Inr counts)
    \<and> event_of st' 0 = Some (paused_record (Some 0))"
proof -
  obtain st' counts where run: "backfill_contract_events uncorrelated_store = (st', Inr counts)"
    using uncorrelated_run by blast
  from contract_events_backfilled [OF uncorrelated_ok run]
  have "event_of st' 0 = map_option (recorrelated uncorrelated_store) (event_of uncorrelated_store 0)" by blast
  moreover have "event_of uncorrelated_store 0 = Some (paused_record None)"
    by (simp add: event_of_def uncorrelated_get)
  moreover have "recorrelated uncorrelated_store (paused_record None) = paused_record (Some 0)"
    by (simp add: recorrelated_def paused_actions) (simp add: with_action_id_def paused_record_def)
  ultimately show ?thesis using run by auto
qed

section \<open>A stale generation record\<close>

definition generation_record :: EventRecord where
  "generation_record = \<lparr>er_event = \<lparr>le_grouping = Dust, le_raw = [],
     le_attributes = DustGenerationDtimeUpdate (dr_info (demo_generation 1 50)) 0 [],
     le_contract_action_id = None, le_contract_address = None\<rparr>, er_tx_id = 0, er_block_height = 5\<rparr>"

definition stale_store :: Store where
  "stale_store = commit blank_store
     (batch_insert LedgerEvents (u64_to_be_bytes 0) (VEvent generation_record)
       (batch_insert DustGeneration (hash_bytes 2) (VDustGen (demo_generation 2 50)) []))"

lemma stale_ok: "store_ok stale_store"
  unfolding stale_store_def by (auto intro!: store_ok_insert)

lemma stale_log: "generation_at stale_store i = (if i = 0 then Some (demo_generation 1 50) else None)"
proof -
  have "store_get stale_store LedgerEvents k = (if k = u64_to_be_bytes 0 then Some (VEvent generation_record) else None)" for k
    by (simp add: stale_store_def store_simps)
  moreover have "gen_of generation_record = Some (demo_generation 1 50)"
    by (simp add: gen_of_def generation_record_def demo_generation_def)
  ultimately show ?thesis by (simp add: generation_at_def event_of_def u64c.enc_inject)
qed

theorem dust_generation_rebuilt_witness:
  "\<exists>st' counts. backfill_dust_generation stale_store = (st', Inr counts)
    \<and> store_get st' DustGeneration (hash_bytes 1) = Some (VDustGen (demo_generation 1 50))
    \<and> store_get st' DustGeneration (hash_bytes 2) = None
    \<and> store_get st' DustGenByOwner ([8] @ hash_bytes 1) \<noteq> None"
proof -
  obtain st' counts where run: "backfill_dust_generation stale_store = (st', Inr counts)"
    and gens: "\<forall>k v. store_get st' DustGeneration k = Some v \<longleftrightarrow>
         (\<exists>i g. generation_at stale_store i = Some g \<and> gen_key g = k \<and> v = VDustGen g
            \<and> (\<forall>j g'. generation_at stale_store j = Some g' \<and> gen_key g' = k \<longrightarrow> j \<le> i))"
    and owners: "\<forall>k. store_get st' DustGenByOwner k \<noteq> None \<longleftrightarrow>
         (\<exists>i g. generation_at stale_store i = Some g \<and> k = dg_owner (dr_info g) @ gen_key g)"
    using dust_generation_rebuilt [OF stale_ok] by (elim exE conjE) (rule that; assumption)
  have key: "gen_key (demo_generation 1 50) = hash_bytes 1" "dg_owner (dr_info (demo_generation 1 50)) = [8]"
    by (simp_all add: gen_key_def demo_generation_def)
  have "store_get st' DustGeneration (hash_bytes 1) = Some (VDustGen (demo_generation 1 50))"
    unfolding gens [rule_format] by (simp add: stale_log key)
  moreover have "store_get st' DustGeneration (hash_bytes 2) \<noteq> Some v" for v
    unfolding gens [rule_format] by (simp add: stale_log key)
  moreover have "store_get st' DustGenByOwner ([8] @ hash_bytes 1) \<noteq> None"
    unfolding owners [rule_format] by (simp add: stale_log key)
  ultimately show ?thesis using run by (metis not_None_eq)
qed

section \<open>Two actions with one state\<close>

definition legacy_record :: LegacyContractActionRecord where
  "legacy_record = \<lparr>la_address = [9], la_attributes = Call ''f'', la_state = [7], la_balances = [],
     la_tx_id = 0, la_block_height = 5\<rparr>"

definition legacy_store :: Store where
  "legacy_store = commit (blank_store\<lparr>schema := 1, contract_actions := LegacyContractActions\<rparr>)
     (batch_insert LegacyContractActions (u64_to_be_bytes 1) (VLegacyAction legacy_record)
       (batch_insert LegacyContractActions (u64_to_be_bytes 0) (VLegacyAction legacy_record) []))"

lemma legacy_migrating: "migrating demo_sha legacy_store"
proof -
  have "store_ok (blank_store\<lparr>schema := 1, contract_actions := LegacyContractActions\<rparr>)"
    using blank_store_ok by (simp add: store_ok_def)
  then have "store_ok legacy_store"
    unfolding legacy_store_def by (intro store_ok_insert) simp_all
  moreover have "store_get legacy_store ContractStates k = None" "store_get legacy_store Meta k = None" for k
    by (simp_all add: legacy_store_def store_simps) (simp_all add: blank_store_def store_get_def ks_get_def part_get_def)
  moreover have "schema legacy_store < SCHEMA_CURRENT" by (simp add: legacy_store_def SCHEMA_CURRENT_def)
  ultimately show ?thesis by (simp add: migrating_def blobs_ok_def resumable_def backfill_cursor_def)
qed

theorem contract_states_migrated_witness:
  "\<exists>st' counts. backfill_contract_states demo_sha (stopped_after demo_sha 1 legacy_store) = (st', Inr counts)
    \<and> migrated_row demo_sha st' 0 legacy_record \<and> migrated_row demo_sha st' 1 legacy_record"
proof -
  obtain st' counts where run: "backfill_contract_states demo_sha (stopped_after demo_sha 1 legacy_store) = (st', Inr counts)"
    and m: "migrated demo_sha legacy_store st'"
    using contract_states_migrated [OF legacy_migrating] by blast
  have "legacy_of legacy_store i = Some legacy_record" if "i = 0 \<or> i = 1" for i
    using that by (auto simp: legacy_of_def legacy_store_def store_simps)
  with run m show ?thesis by (auto simp: migrated_def)
qed

end
