(* ===== verification/LogDecode.thy ===== *)
theory LogDecode
  imports LedgerApi
begin

text \<open>
  The decoder of contract logs (\<open>make_contract_event_attributes\<close> and its helpers in
  \<open>domain/ledger/ledger_state.rs\<close>): a log item of the ledger carries the flat bytes of an event struct,
  with the zeros at the end stripped. Of a state value the decoder only reads the atoms of a cell.
\<close>

section \<open>Log items\<close>

datatype StateValue = Cell "bytes list" | OtherStateValue

datatype LogEventType =
    ShieldedSpendLog | ShieldedReceiveLog | ShieldedMintLog | ShieldedBurnLog
  | UnshieldedSpendLog | UnshieldedReceiveLog | UnshieldedMintLog | UnshieldedBurnLog
  | PausedLog | UnpausedLog | MiscLog

record VersionedLogItem =
  li_version :: u32
  li_event_type :: LogEventType
  li_data :: StateValue

definition BYTES_32_SIZE :: nat where "BYTES_32_SIZE = 32"
definition UINT_128_SIZE :: nat where "UINT_128_SIZE = 16"
definition EITHER_SIZE :: nat where "EITHER_SIZE = 1 + 2 * BYTES_32_SIZE"
definition MAYBE_512_SIZE :: nat where "MAYBE_512_SIZE = 1 + 512"

definition SHIELDED_SPEND_SIZE :: nat where "SHIELDED_SPEND_SIZE = 32"
definition SHIELDED_RECEIVE_SIZE :: nat where "SHIELDED_RECEIVE_SIZE = 578"
definition SHIELDED_MINT_SIZE :: nat where "SHIELDED_MINT_SIZE = 81"
definition SHIELDED_BURN_SIZE :: nat where "SHIELDED_BURN_SIZE = 49"
definition UNSHIELDED_SPEND_SIZE :: nat where "UNSHIELDED_SPEND_SIZE = 145"
definition UNSHIELDED_RECEIVE_SIZE :: nat where "UNSHIELDED_RECEIVE_SIZE = 145"
definition UNSHIELDED_MINT_SIZE :: nat where "UNSHIELDED_MINT_SIZE = 80"
definition UNSHIELDED_BURN_SIZE :: nat where "UNSHIELDED_BURN_SIZE = 113"
definition MISC_SIZE :: nat where "MISC_SIZE = 288"

lemmas log_sizes = BYTES_32_SIZE_def UINT_128_SIZE_def EITHER_SIZE_def MAYBE_512_SIZE_def
  SHIELDED_SPEND_SIZE_def SHIELDED_RECEIVE_SIZE_def SHIELDED_MINT_SIZE_def SHIELDED_BURN_SIZE_def
  UNSHIELDED_SPEND_SIZE_def UNSHIELDED_RECEIVE_SIZE_def UNSHIELDED_MINT_SIZE_def
  UNSHIELDED_BURN_SIZE_def MISC_SIZE_def

section \<open>Fields of the flat bytes\<close>

definition extract_flat_bytes :: "StateValue \<Rightarrow> nat \<Rightarrow> nat \<Rightarrow> bytes option" where
  "extract_flat_bytes data lo hi =
     (case data of
        Cell atoms \<Rightarrow>
          (if length atoms \<noteq> 1 then None
           else
             let atom = atoms ! 0
             in if length atom > hi then None
                else if length atom < lo then None
                else Some (atom @ replicate (hi - length atom) 0))
      | OtherStateValue \<Rightarrow> None)"

definition get_range :: "bytes \<Rightarrow> nat \<Rightarrow> nat \<Rightarrow> bytes option" where
  "get_range bs from to = (if from \<le> to \<and> to \<le> length bs then Some (take (to - from) (drop from bs)) else None)"

definition get_byte :: "bytes \<Rightarrow> nat \<Rightarrow> u8 option" where
  "get_byte bs i = (if i < length bs then Some (bs ! i) else None)"

definition take_bytes :: "bytes \<Rightarrow> nat \<Rightarrow> nat \<Rightarrow> bytes option" where
  "take_bytes bs offset len = get_range bs offset (offset + len)"

definition u128_le_string :: "bytes \<Rightarrow> string option" where
  "u128_le_string bs = map_option (\<lambda>x. dec_string (unat x)) (u128_from_be_bytes (rev bs))"

definition take_uint_128_le :: "bytes \<Rightarrow> nat \<Rightarrow> string option" where
  "take_uint_128_le bs offset = Option.bind (get_range bs offset (offset + UINT_128_SIZE)) u128_le_string"

definition take_maybe_bytes :: "bytes \<Rightarrow> nat \<Rightarrow> nat \<Rightarrow> bytes option" where
  "take_maybe_bytes bs offset value_len =
     Option.bind (get_byte bs offset) (\<lambda>tag.
       if tag = 0 then None else get_range bs (offset + 1) (offset + 1 + value_len))"

definition take_maybe_uint_128_le :: "bytes \<Rightarrow> nat \<Rightarrow> string option" where
  "take_maybe_uint_128_le bs offset =
     Option.bind (get_byte bs offset) (\<lambda>tag.
       if tag = 0 then None
       else Option.bind (get_range bs (offset + 1) (offset + 1 + UINT_128_SIZE)) u128_le_string)"

definition take_either_address :: "bytes \<Rightarrow> nat \<Rightarrow> AddressOrContract option" where
  "take_either_address bs offset =
     Option.bind (get_byte bs offset) (\<lambda>is_left.
       let left = offset + 1; right = left + BYTES_32_SIZE
       in if is_left = 0 then map_option Contract (get_range bs right (right + BYTES_32_SIZE))
          else map_option User (get_range bs left (left + BYTES_32_SIZE)))"

section \<open>Events\<close>

definition unwrap_or :: "'a \<Rightarrow> 'a option \<Rightarrow> 'a" where
  "unwrap_or d x = (case x of None \<Rightarrow> d | Some a \<Rightarrow> a)"

abbreviation bytes_field :: "bytes option \<Rightarrow> nat \<Rightarrow> nat \<Rightarrow> bytes" where
  "bytes_field bs offset len \<equiv> unwrap_or [] (Option.bind bs (\<lambda>b. take_bytes b offset len))"

abbreviation address_field :: "bytes option \<Rightarrow> nat \<Rightarrow> AddressOrContract" where
  "address_field bs offset \<equiv> unwrap_or (User []) (Option.bind bs (\<lambda>b. take_either_address b offset))"

abbreviation amount_field :: "bytes option \<Rightarrow> nat \<Rightarrow> string" where
  "amount_field bs offset \<equiv> unwrap_or ''0'' (Option.bind bs (\<lambda>b. take_uint_128_le b offset))"

definition make_contract_event_attributes :: "VersionedLogItem \<Rightarrow> bytes \<Rightarrow> LedgerEventAttributes" where
  "make_contract_event_attributes item entry_point =
     (let version = li_version item; data = li_data item
      in case li_event_type item of
        ShieldedSpendLog \<Rightarrow>
          (let bs = extract_flat_bytes data SHIELDED_SPEND_SIZE SHIELDED_SPEND_SIZE
           in ContractShieldedSpend version entry_point (bytes_field bs 0 BYTES_32_SIZE))
      | ShieldedReceiveLog \<Rightarrow>
          (let bs = extract_flat_bytes data BYTES_32_SIZE SHIELDED_RECEIVE_SIZE
           in ContractShieldedReceive version entry_point (bytes_field bs 0 BYTES_32_SIZE)
                (Option.bind bs (\<lambda>b. take_maybe_bytes b BYTES_32_SIZE 512))
                (Option.bind bs (\<lambda>b. take_maybe_bytes b (BYTES_32_SIZE + MAYBE_512_SIZE) BYTES_32_SIZE)))
      | ShieldedMintLog \<Rightarrow>
          (let bs = extract_flat_bytes data (2 * BYTES_32_SIZE) SHIELDED_MINT_SIZE
           in ContractShieldedMint version entry_point (bytes_field bs 0 BYTES_32_SIZE)
                (bytes_field bs BYTES_32_SIZE BYTES_32_SIZE)
                (Option.bind bs (\<lambda>b. take_maybe_uint_128_le b (2 * BYTES_32_SIZE))))
      | ShieldedBurnLog \<Rightarrow>
          (let bs = extract_flat_bytes data BYTES_32_SIZE SHIELDED_BURN_SIZE
           in ContractShieldedBurn version entry_point (bytes_field bs 0 BYTES_32_SIZE)
                (Option.bind bs (\<lambda>b. take_maybe_uint_128_le b BYTES_32_SIZE)))
      | UnshieldedSpendLog \<Rightarrow>
          (let bs = extract_flat_bytes data (UNSHIELDED_SPEND_SIZE - UINT_128_SIZE) UNSHIELDED_SPEND_SIZE
           in ContractUnshieldedSpend version entry_point (address_field bs 0)
                (bytes_field bs EITHER_SIZE BYTES_32_SIZE)
                (bytes_field bs (EITHER_SIZE + BYTES_32_SIZE) BYTES_32_SIZE)
                (amount_field bs (EITHER_SIZE + 2 * BYTES_32_SIZE)))
      | UnshieldedReceiveLog \<Rightarrow>
          (let bs = extract_flat_bytes data (UNSHIELDED_RECEIVE_SIZE - UINT_128_SIZE) UNSHIELDED_RECEIVE_SIZE
           in ContractUnshieldedReceive version entry_point (address_field bs 0)
                (bytes_field bs EITHER_SIZE BYTES_32_SIZE)
                (bytes_field bs (EITHER_SIZE + BYTES_32_SIZE) BYTES_32_SIZE)
                (amount_field bs (EITHER_SIZE + 2 * BYTES_32_SIZE)))
      | UnshieldedMintLog \<Rightarrow>
          (let bs = extract_flat_bytes data (UNSHIELDED_MINT_SIZE - UINT_128_SIZE) UNSHIELDED_MINT_SIZE
           in ContractUnshieldedMint version entry_point (bytes_field bs 0 BYTES_32_SIZE)
                (bytes_field bs BYTES_32_SIZE BYTES_32_SIZE) (amount_field bs (2 * BYTES_32_SIZE)))
      | UnshieldedBurnLog \<Rightarrow>
          (let bs = extract_flat_bytes data (UNSHIELDED_BURN_SIZE - UINT_128_SIZE) UNSHIELDED_BURN_SIZE
           in ContractUnshieldedBurn version entry_point (address_field bs 0)
                (bytes_field bs EITHER_SIZE BYTES_32_SIZE) (amount_field bs (EITHER_SIZE + BYTES_32_SIZE)))
      | PausedLog \<Rightarrow> ContractPaused version entry_point
      | UnpausedLog \<Rightarrow> ContractUnpaused version entry_point
      | MiscLog \<Rightarrow>
          (let bs = extract_flat_bytes data BYTES_32_SIZE MISC_SIZE
           in ContractMisc version entry_point (bytes_field bs 0 BYTES_32_SIZE)
                (bytes_field bs BYTES_32_SIZE 256)))"

end
