(* ===== verification/LogFacts.thy ===== *)
theory LogFacts
  imports LogDecode
begin

text \<open>
  The decoder of contract logs against the wire format the contract compiler documents: every payload
  whose stripped bytes reach the event's minimum is decoded exactly, and any other comes out empty.
\<close>

section \<open>The wire format\<close>

datatype log_payload =
    PShieldedSpend bytes
  | PShieldedReceive bytes "bytes option" "bytes option"
  | PShieldedMint bytes bytes "u128 option"
  | PShieldedBurn bytes "u128 option"
  | PUnshieldedSpend AddressOrContract bytes bytes u128
  | PUnshieldedReceive AddressOrContract bytes bytes u128
  | PUnshieldedMint bytes bytes u128
  | PUnshieldedBurn AddressOrContract bytes u128
  | PPaused
  | PUnpaused
  | PMisc bytes bytes

definition uint_wire :: "u128 \<Rightarrow> bytes" where
  "uint_wire x = rev (u128_to_be_bytes x)"

fun maybe_wire :: "nat \<Rightarrow> bytes option \<Rightarrow> bytes" where
  "maybe_wire n None = 0 # replicate n 0"
| "maybe_wire n (Some v) = 1 # v"

fun either_wire :: "AddressOrContract \<Rightarrow> bytes" where
  "either_wire (User v) = 1 # v @ replicate 32 0"
| "either_wire (Contract v) = 0 # replicate 32 0 @ v"

fun payload_wire :: "log_payload \<Rightarrow> bytes" where
  "payload_wire (PShieldedSpend n) = n"
| "payload_wire (PShieldedReceive c t a) = c @ maybe_wire 512 t @ maybe_wire 32 a"
| "payload_wire (PShieldedMint c d x) = c @ d @ maybe_wire 16 (map_option uint_wire x)"
| "payload_wire (PShieldedBurn n x) = n @ maybe_wire 16 (map_option uint_wire x)"
| "payload_wire (PUnshieldedSpend s d t x) = either_wire s @ d @ t @ uint_wire x"
| "payload_wire (PUnshieldedReceive s d t x) = either_wire s @ d @ t @ uint_wire x"
| "payload_wire (PUnshieldedMint d t x) = d @ t @ uint_wire x"
| "payload_wire (PUnshieldedBurn s t x) = either_wire s @ t @ uint_wire x"
| "payload_wire (PMisc n p) = n @ p"
| "payload_wire _ = []"

fun payload_type :: "log_payload \<Rightarrow> LogEventType" where
  "payload_type (PShieldedSpend _) = ShieldedSpendLog"
| "payload_type (PShieldedReceive _ _ _) = ShieldedReceiveLog"
| "payload_type (PShieldedMint _ _ _) = ShieldedMintLog"
| "payload_type (PShieldedBurn _ _) = ShieldedBurnLog"
| "payload_type (PUnshieldedSpend _ _ _ _) = UnshieldedSpendLog"
| "payload_type (PUnshieldedReceive _ _ _ _) = UnshieldedReceiveLog"
| "payload_type (PUnshieldedMint _ _ _) = UnshieldedMintLog"
| "payload_type (PUnshieldedBurn _ _ _) = UnshieldedBurnLog"
| "payload_type PPaused = PausedLog"
| "payload_type PUnpaused = UnpausedLog"
| "payload_type (PMisc _ _) = MiscLog"

text \<open>Fields have their fixed widths.\<close>

fun payload_ok :: "log_payload \<Rightarrow> bool" where
  "payload_ok (PShieldedSpend n) \<longleftrightarrow> length n = 32"
| "payload_ok (PShieldedReceive c t a) \<longleftrightarrow>
     length c = 32 \<and> (\<forall>v. t = Some v \<longrightarrow> length v = 512) \<and> (\<forall>v. a = Some v \<longrightarrow> length v = 32)"
| "payload_ok (PShieldedMint c d _) \<longleftrightarrow> length c = 32 \<and> length d = 32"
| "payload_ok (PShieldedBurn n _) \<longleftrightarrow> length n = 32"
| "payload_ok (PUnshieldedSpend s d t _) \<longleftrightarrow> length (to_bytes s) = 32 \<and> length d = 32 \<and> length t = 32"
| "payload_ok (PUnshieldedReceive s d t _) \<longleftrightarrow> length (to_bytes s) = 32 \<and> length d = 32 \<and> length t = 32"
| "payload_ok (PUnshieldedMint d t _) \<longleftrightarrow> length d = 32 \<and> length t = 32"
| "payload_ok (PUnshieldedBurn s t _) \<longleftrightarrow> length (to_bytes s) = 32 \<and> length t = 32"
| "payload_ok (PMisc n p) \<longleftrightarrow> length n = 32 \<and> length p = 256"
| "payload_ok _ \<longleftrightarrow> True"

definition amount_string :: "u128 \<Rightarrow> string" where
  "amount_string x = dec_string (unat x)"

fun payload_attributes :: "u32 \<Rightarrow> bytes \<Rightarrow> log_payload \<Rightarrow> LedgerEventAttributes" where
  "payload_attributes v e (PShieldedSpend n) = ContractShieldedSpend v e n"
| "payload_attributes v e (PShieldedReceive c t a) = ContractShieldedReceive v e c t a"
| "payload_attributes v e (PShieldedMint c d x) = ContractShieldedMint v e c d (map_option amount_string x)"
| "payload_attributes v e (PShieldedBurn n x) = ContractShieldedBurn v e n (map_option amount_string x)"
| "payload_attributes v e (PUnshieldedSpend s d t x) = ContractUnshieldedSpend v e s d t (amount_string x)"
| "payload_attributes v e (PUnshieldedReceive s d t x) = ContractUnshieldedReceive v e s d t (amount_string x)"
| "payload_attributes v e (PUnshieldedMint d t x) = ContractUnshieldedMint v e d t (amount_string x)"
| "payload_attributes v e (PUnshieldedBurn s t x) = ContractUnshieldedBurn v e s t (amount_string x)"
| "payload_attributes v e PPaused = ContractPaused v e"
| "payload_attributes v e PUnpaused = ContractUnpaused v e"
| "payload_attributes v e (PMisc n p) = ContractMisc v e n p"

text \<open>What comes out when the bytes are not accepted, and the bytes of a type that are accepted.\<close>

fun empty_attributes :: "u32 \<Rightarrow> bytes \<Rightarrow> LogEventType \<Rightarrow> LedgerEventAttributes" where
  "empty_attributes v e ShieldedSpendLog = ContractShieldedSpend v e []"
| "empty_attributes v e ShieldedReceiveLog = ContractShieldedReceive v e [] None None"
| "empty_attributes v e ShieldedMintLog = ContractShieldedMint v e [] [] None"
| "empty_attributes v e ShieldedBurnLog = ContractShieldedBurn v e [] None"
| "empty_attributes v e UnshieldedSpendLog = ContractUnshieldedSpend v e (User []) [] [] ''0''"
| "empty_attributes v e UnshieldedReceiveLog = ContractUnshieldedReceive v e (User []) [] [] ''0''"
| "empty_attributes v e UnshieldedMintLog = ContractUnshieldedMint v e [] [] ''0''"
| "empty_attributes v e UnshieldedBurnLog = ContractUnshieldedBurn v e (User []) [] ''0''"
| "empty_attributes v e PausedLog = ContractPaused v e"
| "empty_attributes v e UnpausedLog = ContractUnpaused v e"
| "empty_attributes v e MiscLog = ContractMisc v e [] []"

fun least_size :: "LogEventType \<Rightarrow> nat" where
  "least_size ShieldedSpendLog = 32"
| "least_size ShieldedReceiveLog = 32"
| "least_size ShieldedMintLog = 64"
| "least_size ShieldedBurnLog = 32"
| "least_size UnshieldedSpendLog = 129"
| "least_size UnshieldedReceiveLog = 129"
| "least_size UnshieldedMintLog = 64"
| "least_size UnshieldedBurnLog = 97"
| "least_size PausedLog = 0"
| "least_size UnpausedLog = 0"
| "least_size MiscLog = 32"

text \<open>A value atom keeps no zeros at its end.\<close>

definition strip_zeros :: "bytes \<Rightarrow> bytes" where
  "strip_zeros bs = rev (dropWhile (\<lambda>b. b = 0) (rev bs))"

section \<open>Fields\<close>

lemma length_strip_zeros: "length (strip_zeros bs) \<le> length bs"
  by (simp add: strip_zeros_def) (metis length_dropWhile_le length_rev)

lemma padded_strip_zeros: "strip_zeros bs @ replicate (length bs - length (strip_zeros bs)) 0 = bs"
proof (induction bs rule: rev_induct)
  case (snoc b bs)
  then show ?case
    using length_strip_zeros [of bs]
    by (simp add: strip_zeros_def Suc_diff_le replicate_append_same [symmetric])
qed (simp add: strip_zeros_def)

lemma extract_stripped:
  assumes "length bs = hi"
  shows "extract_flat_bytes (Cell [strip_zeros bs]) lo hi = (if lo \<le> length (strip_zeros bs) then Some bs else None)"
  using padded_strip_zeros [of bs] length_strip_zeros [of bs] assms by (simp add: extract_flat_bytes_def)

lemma get_range_middle: "length a = m \<Longrightarrow> length b = n \<Longrightarrow> get_range (a @ b @ c) m (m + n) = Some b"
  by (simp add: get_range_def)

lemma get_range_end: "length a = m \<Longrightarrow> length b = n \<Longrightarrow> get_range (a @ b) m (m + n) = Some b"
  using get_range_middle [of a m b n "[]"] by simp

lemma length_uint_wire [simp]: "length (uint_wire x) = 16"
  by (simp add: uint_wire_def u128c.length_enc)

lemma u128_le_uint_wire [simp]: "u128_le_string (uint_wire x) = Some (amount_string x)"
  by (simp add: u128_le_string_def uint_wire_def u128c.dec_enc amount_string_def)

lemma length_either_wire [simp]: "length (to_bytes s) = 32 \<Longrightarrow> length (either_wire s) = 65"
  by (cases s) simp_all

lemma take_either_wire:
  assumes "length (to_bytes s) = 32"
  shows "take_either_address (either_wire s @ c) 0 = Some s"
proof (cases s)
  case (User v)
  with assms show ?thesis
    using get_range_middle [of "[1]" 1 v 32 "replicate 32 0 @ c"]
    by (simp add: take_either_address_def get_byte_def log_sizes)
next
  case (Contract v)
  with assms show ?thesis
    using get_range_middle [of "0 # replicate 32 0" 33 v 32 c]
    by (simp add: take_either_address_def get_byte_def log_sizes)
qed

lemma take_maybe_wire:
  assumes "length a = m" and "\<And>v. x = Some v \<Longrightarrow> length v = n"
  shows "take_maybe_bytes (a @ maybe_wire n x @ c) m n = x"
proof (cases x)
  case None
  with assms show ?thesis by (simp add: take_maybe_bytes_def get_byte_def nth_append)
next
  case (Some v)
  with assms show ?thesis
    using get_range_middle [of "a @ [1]" "m + 1" v n c]
    by (simp add: take_maybe_bytes_def get_byte_def nth_append)
qed

lemma take_maybe_uint_wire:
  assumes "length a = m"
  shows "take_maybe_uint_128_le (a @ maybe_wire 16 (map_option uint_wire x)) m = map_option amount_string x"
proof (cases x)
  case None
  with assms show ?thesis by (simp add: take_maybe_uint_128_le_def get_byte_def nth_append)
next
  case (Some v)
  with assms show ?thesis
    using get_range_end [of "a @ [1]" "m + 1" "uint_wire v" 16]
    by (simp add: take_maybe_uint_128_le_def get_byte_def nth_append log_sizes)
qed

lemma take_uint_wire: "length a = m \<Longrightarrow> take_uint_128_le (a @ uint_wire x) m = Some (amount_string x)"
  using get_range_end [of a m "uint_wire x" 16] by (simp add: take_uint_128_le_def log_sizes)

lemma length_maybe_wire: "(\<And>v. x = Some v \<Longrightarrow> length v = n) \<Longrightarrow> length (maybe_wire n x) = Suc n"
  by (cases x) simp_all

section \<open>Every event type\<close>

definition log_item :: "u32 \<Rightarrow> log_payload \<Rightarrow> VersionedLogItem" where
  "log_item v p = \<lparr>li_version = v, li_event_type = payload_type p, li_data = Cell [strip_zeros (payload_wire p)]\<rparr>"

lemma unwrap_or_simps [simp]: "unwrap_or d None = d" "unwrap_or d (Some x) = x"
  by (simp_all add: unwrap_or_def)

lemmas decode_defs = make_contract_event_attributes_def Let_def log_item_def take_bytes_def

lemma decode_spend:
  "payload_ok p \<Longrightarrow> p = PShieldedSpend n \<Longrightarrow> make_contract_event_attributes (log_item v p) e =
    (if 32 \<le> length (strip_zeros (payload_wire p)) then payload_attributes v e p else empty_attributes v e (payload_type p))"
  using get_range_end [of "[]" 0 n 32]
  by (simp add: decode_defs log_sizes extract_stripped)

lemma decode_receive:
  assumes "payload_ok p" and p: "p = PShieldedReceive c t a"
  shows "make_contract_event_attributes (log_item v p) e =
    (if 32 \<le> length (strip_zeros (payload_wire p)) then payload_attributes v e p else empty_attributes v e (payload_type p))"
proof -
  let ?w = "c @ maybe_wire 512 t @ maybe_wire 32 a"
  have len: "length c = 32" "length (maybe_wire 512 t) = 513" "length (maybe_wire 32 a) = 33"
    using assms length_maybe_wire [of t 512] length_maybe_wire [of a 32] by auto
  have "get_range ?w 0 32 = Some c" using get_range_middle [of "[]" 0 c 32] len by simp
  moreover have "take_maybe_bytes ?w 32 512 = t" using assms len by (intro take_maybe_wire) auto
  moreover have "take_maybe_bytes ?w 545 32 = a"
    using assms len take_maybe_wire [of "c @ maybe_wire 512 t" 545 a 32 "[]"] by simp
  ultimately show ?thesis using len by (simp add: decode_defs log_sizes extract_stripped p)
qed

lemma length_maybe_uint [simp]: "length (maybe_wire 16 (map_option uint_wire x)) = 17"
  by (cases x) simp_all

lemma decode_mint:
  assumes "payload_ok p" and p: "p = PShieldedMint c d x"
  shows "make_contract_event_attributes (log_item v p) e =
    (if 64 \<le> length (strip_zeros (payload_wire p)) then payload_attributes v e p else empty_attributes v e (payload_type p))"
proof -
  let ?x = "maybe_wire 16 (map_option uint_wire x)"
  have len: "length c = 32" "length d = 32" "length ?x = 17"
    using assms by simp_all
  have "get_range (c @ d @ ?x) 0 32 = Some c" using get_range_middle [of "[]" 0 c 32] len by simp
  moreover have "get_range (c @ d @ ?x) 32 64 = Some d" using get_range_middle [of c 32 d 32] len by simp
  moreover have "take_maybe_uint_128_le (c @ d @ ?x) 64 = map_option amount_string x"
    using take_maybe_uint_wire [of "c @ d" 64 x] len by simp
  ultimately show ?thesis using len by (simp add: decode_defs log_sizes extract_stripped p)
qed

lemma decode_burn:
  assumes "payload_ok p" and p: "p = PShieldedBurn n x"
  shows "make_contract_event_attributes (log_item v p) e =
    (if 32 \<le> length (strip_zeros (payload_wire p)) then payload_attributes v e p else empty_attributes v e (payload_type p))"
proof -
  let ?x = "maybe_wire 16 (map_option uint_wire x)"
  have len: "length n = 32" "length ?x = 17"
    using assms by simp_all
  have "get_range (n @ ?x) 0 32 = Some n" using get_range_middle [of "[]" 0 n 32] len by simp
  moreover have "take_maybe_uint_128_le (n @ ?x) 32 = map_option amount_string x"
    using take_maybe_uint_wire [of n 32 x] len by simp
  ultimately show ?thesis using len by (simp add: decode_defs log_sizes extract_stripped p)
qed

lemma unshielded_fields:
  fixes x :: u128
  assumes "length (to_bytes s) = 32" "length d = 32" "length t = 32"
  defines "w \<equiv> either_wire s @ d @ t @ uint_wire x"
  shows "length w = 145" "take_either_address w 0 = Some s" "get_range w 65 97 = Some d"
    "get_range w 97 129 = Some t" "take_uint_128_le w 129 = Some (amount_string x)"
  using assms(1-3) take_either_wire [of s "d @ t @ uint_wire x"] get_range_middle [of "either_wire s" 65 d 32]
    get_range_middle [of "either_wire s @ d" 97 t 32] take_uint_wire [of "either_wire s @ d @ t" 129 x]
  by (simp_all add: w_def)

lemma decode_unshielded:
  assumes "payload_ok p" and p: "p = PUnshieldedSpend s d t x \<or> p = PUnshieldedReceive s d t x"
  shows "make_contract_event_attributes (log_item v p) e =
    (if 129 \<le> length (strip_zeros (payload_wire p)) then payload_attributes v e p else empty_attributes v e (payload_type p))"
proof -
  have "length (to_bytes s) = 32" "length d = 32" "length t = 32" using assms by auto
  note f = unshielded_fields [OF this, of x]
  show ?thesis
    using p by (elim disjE) (simp_all add: decode_defs log_sizes extract_stripped [OF f(1)] f(2-5))
qed

lemma decode_unshielded_mint:
  assumes "payload_ok p" and p: "p = PUnshieldedMint d t x"
  shows "make_contract_event_attributes (log_item v p) e =
    (if 64 \<le> length (strip_zeros (payload_wire p)) then payload_attributes v e p else empty_attributes v e (payload_type p))"
proof -
  have len: "length d = 32" "length t = 32" using assms by auto
  have "get_range (d @ t @ uint_wire x) 0 32 = Some d" using get_range_middle [of "[]" 0 d 32] len by simp
  moreover have "get_range (d @ t @ uint_wire x) 32 64 = Some t" using get_range_middle [of d 32 t 32] len by simp
  moreover have "take_uint_128_le (d @ t @ uint_wire x) 64 = Some (amount_string x)"
    using take_uint_wire [of "d @ t" 64 x] len by simp
  ultimately show ?thesis using len by (simp add: decode_defs log_sizes extract_stripped p)
qed

lemma decode_unshielded_burn:
  assumes "payload_ok p" and p: "p = PUnshieldedBurn s t x"
  shows "make_contract_event_attributes (log_item v p) e =
    (if 97 \<le> length (strip_zeros (payload_wire p)) then payload_attributes v e p else empty_attributes v e (payload_type p))"
proof -
  have len: "length (to_bytes s) = 32" "length t = 32" using assms by auto
  have "take_either_address (either_wire s @ t @ uint_wire x) 0 = Some s" using len by (intro take_either_wire)
  moreover have "get_range (either_wire s @ t @ uint_wire x) 65 97 = Some t"
    using get_range_middle [of "either_wire s" 65 t 32] len by simp
  moreover have "take_uint_128_le (either_wire s @ t @ uint_wire x) 97 = Some (amount_string x)"
    using take_uint_wire [of "either_wire s @ t" 97 x] len by simp
  ultimately show ?thesis using len by (simp add: decode_defs log_sizes extract_stripped p)
qed

lemma decode_misc:
  assumes "payload_ok p" and p: "p = PMisc n d"
  shows "make_contract_event_attributes (log_item v p) e =
    (if 32 \<le> length (strip_zeros (payload_wire p)) then payload_attributes v e p else empty_attributes v e (payload_type p))"
proof -
  have len: "length n = 32" "length d = 256" using assms by auto
  have "get_range (n @ d) 0 32 = Some n" using get_range_middle [of "[]" 0 n 32] len by simp
  moreover have "get_range (n @ d) 32 288 = Some d" using get_range_end [of n 32 d 256] len by simp
  ultimately show ?thesis using len by (simp add: decode_defs log_sizes extract_stripped p)
qed

lemma strip_zeros_last: "length bs = Suc n \<Longrightarrow> length (strip_zeros bs) = Suc n \<longleftrightarrow> last bs \<noteq> 0"
proof (cases bs rule: rev_cases)
  case (snoc as b)
  assume "length bs = Suc n"
  with snoc show ?thesis using length_strip_zeros [of as] by (auto simp: strip_zeros_def)
qed simp

text \<open>Everything else is rejected.\<close>

fun largest_size :: "LogEventType \<Rightarrow> nat" where
  "largest_size ShieldedSpendLog = 32"
| "largest_size ShieldedReceiveLog = 578"
| "largest_size ShieldedMintLog = 81"
| "largest_size ShieldedBurnLog = 49"
| "largest_size UnshieldedSpendLog = 145"
| "largest_size UnshieldedReceiveLog = 145"
| "largest_size UnshieldedMintLog = 80"
| "largest_size UnshieldedBurnLog = 113"
| "largest_size PausedLog = 0"
| "largest_size UnpausedLog = 0"
| "largest_size MiscLog = 288"

lemma wire_size: "payload_ok p \<Longrightarrow> length (payload_wire p) = largest_size (payload_type p)"
  by (cases p) (auto simp: length_maybe_wire)

lemma extract_rejects:
  assumes "\<nexists>atom. data = Cell [atom] \<and> lo \<le> length atom \<and> length atom \<le> hi"
  shows "extract_flat_bytes data lo hi = None"
proof (cases data)
  case (Cell atoms)
  show ?thesis
  proof (cases "\<exists>atom. atoms = [atom]")
    case True
    with assms Cell show ?thesis by (auto simp: extract_flat_bytes_def)
  next
    case False
    then have "length atoms \<noteq> 1" by (auto simp: length_Suc_conv)
    with Cell show ?thesis by (simp add: extract_flat_bytes_def)
  qed
qed (simp add: extract_flat_bytes_def)

lemma decode_rejects:
  assumes "\<nexists>atom. data = Cell [atom] \<and> least_size ty \<le> length atom \<and> length atom \<le> largest_size ty"
  shows "make_contract_event_attributes \<lparr>li_version = v, li_event_type = ty, li_data = data\<rparr> e
    = empty_attributes v e ty"
  using extract_rejects [OF assms] by (cases ty) (simp_all add: make_contract_event_attributes_def log_sizes)

text \<open>
  C29. The decoder of contract logs inverts the wire format of the contract compiler: a payload of
  fixed-width fields, flattened and stripped of its zeros at the end, is decoded to exactly its fields
  when the stripped bytes reach the least size of the event type, and to the empty attributes otherwise;
  so is everything that is not a single atom within the bounds of the type. The least sizes allow only
  for zeros in the last fields: a shielded spend, one of 256 of whose nullifiers ends in a zero byte,
  loses its nullifier in that case.
\<close>

theorem contract_log_decoded:
  assumes "payload_ok p"
  shows "make_contract_event_attributes (log_item v p) e =
      (if least_size (payload_type p) \<le> length (strip_zeros (payload_wire p)) then payload_attributes v e p
       else empty_attributes v e (payload_type p))
    \<and> (\<forall>data. (\<nexists>atom. data = Cell [atom] \<and> least_size (payload_type p) \<le> length atom \<and> length atom \<le> length (payload_wire p)) \<longrightarrow>
         make_contract_event_attributes \<lparr>li_version = v, li_event_type = payload_type p, li_data = data\<rparr> e
           = empty_attributes v e (payload_type p))
    \<and> (\<forall>n. p = PShieldedSpend n \<longrightarrow> make_contract_event_attributes (log_item v p) e
         = ContractShieldedSpend v e (if last n = 0 then [] else n))"
proof (intro conjI)
  show decoded: "make_contract_event_attributes (log_item v p) e =
      (if least_size (payload_type p) \<le> length (strip_zeros (payload_wire p)) then payload_attributes v e p
       else empty_attributes v e (payload_type p))"
  proof (cases p)
    case (PShieldedSpend n)
    from decode_spend [OF assms this] show ?thesis by (simp add: PShieldedSpend)
  next
    case (PShieldedReceive c t a)
    from decode_receive [OF assms this] show ?thesis by (simp add: PShieldedReceive)
  next
    case (PShieldedMint c d x)
    from decode_mint [OF assms this] show ?thesis by (simp add: PShieldedMint)
  next
    case (PShieldedBurn n x)
    from decode_burn [OF assms this] show ?thesis by (simp add: PShieldedBurn)
  next
    case (PUnshieldedSpend s d t x)
    from decode_unshielded [OF assms disjI1 [OF this]] show ?thesis by (simp add: PUnshieldedSpend)
  next
    case (PUnshieldedReceive s d t x)
    from decode_unshielded [OF assms disjI2 [OF this]] show ?thesis by (simp add: PUnshieldedReceive)
  next
    case (PUnshieldedMint d t x)
    from decode_unshielded_mint [OF assms this] show ?thesis by (simp add: PUnshieldedMint)
  next
    case (PUnshieldedBurn s t x)
    from decode_unshielded_burn [OF assms this] show ?thesis by (simp add: PUnshieldedBurn)
  next
    case (PMisc n d)
    from decode_misc [OF assms this] show ?thesis by (simp add: PMisc)
  qed (simp_all add: make_contract_event_attributes_def log_item_def)
  show "\<forall>data. (\<nexists>atom. data = Cell [atom] \<and> least_size (payload_type p) \<le> length atom \<and> length atom \<le> length (payload_wire p)) \<longrightarrow>
         make_contract_event_attributes \<lparr>li_version = v, li_event_type = payload_type p, li_data = data\<rparr> e
           = empty_attributes v e (payload_type p)"
    unfolding wire_size [OF assms] by (intro allI impI) (rule decode_rejects)
  show "\<forall>n. p = PShieldedSpend n \<longrightarrow> make_contract_event_attributes (log_item v p) e
      = ContractShieldedSpend v e (if last n = 0 then [] else n)"
  proof (intro allI impI)
    fix n assume p: "p = PShieldedSpend n"
    with assms have "length n = Suc 31" by simp
    from strip_zeros_last [OF this] length_strip_zeros [of n] this
    have "32 \<le> length (strip_zeros n) \<longleftrightarrow> last n \<noteq> 0" by auto
    with decoded p show "make_contract_event_attributes (log_item v p) e
      = ContractShieldedSpend v e (if last n = 0 then [] else n)" by simp
  qed
qed

theorem contract_log_decoded_witness:
  "make_contract_event_attributes (log_item 1 (PShieldedBurn (replicate 32 7) (Some 9))) [102]
      = ContractShieldedBurn 1 [102] (replicate 32 7) (Some (amount_string 9))
    \<and> make_contract_event_attributes (log_item 1 (PShieldedSpend (replicate 31 7 @ [0]))) [102]
      = ContractShieldedSpend 1 [102] []"
proof
  have sized: "length (strip_zeros (payload_wire (PShieldedBurn (replicate 32 7) (Some 9)))) = 34" by code_simp
  have "make_contract_event_attributes (log_item 1 (PShieldedBurn (replicate 32 7) (Some 9))) [102] =
      (if least_size (payload_type (PShieldedBurn (replicate 32 7) (Some 9)))
          \<le> length (strip_zeros (payload_wire (PShieldedBurn (replicate 32 7) (Some 9))))
       then payload_attributes 1 [102] (PShieldedBurn (replicate 32 7) (Some 9))
       else empty_attributes 1 [102] (payload_type (PShieldedBurn (replicate 32 7) (Some 9))))"
    by (rule contract_log_decoded [THEN conjunct1]) simp
  then show "make_contract_event_attributes (log_item 1 (PShieldedBurn (replicate 32 7) (Some 9))) [102]
      = ContractShieldedBurn 1 [102] (replicate 32 7) (Some (amount_string 9))"
    unfolding sized by simp
  have "payload_ok (PShieldedSpend (replicate 31 7 @ [0]))" by simp
  from contract_log_decoded [OF this, of 1 "[102]", THEN conjunct2, THEN conjunct2, rule_format, OF refl]
  show "make_contract_event_attributes (log_item 1 (PShieldedSpend (replicate 31 7 @ [0]))) [102]
      = ContractShieldedSpend 1 [102] []"
    by simp
qed

end
