(* ===== verification/LedgerEvents.thy ===== *)
theory LedgerEvents
  imports LogDecode
begin

text \<open>
  The events of the ledger as domain events (\<open>make_ledger_events_v8\<close>, \<open>make_ledger_events_v9\<close> and their
  helpers in \<open>domain/ledger/ledger_state.rs\<close>). An event of the midnight crates is what the code reads of
  it: its content, and the outcome of its tagged serialization, which is a value of the crates; an owner
  key stands for the outcome of its serialization, a field element for its little-endian bytes.
\<close>

section \<open>Events of the crates\<close>

record crate_dust_output =
  do_initial_value :: u128
  do_owner :: "bytes option"
  do_nonce :: hash32
  do_seq :: u32
  do_ctime :: u64
  do_backing_night :: hash32
  do_mt_index :: u64

record crate_dust_generation =
  gi_value :: u128
  gi_owner :: "bytes option"
  gi_nonce :: hash32
  gi_dtime :: u64

text \<open>Of a path in a Merkle tree, whether each entry goes left, from the root to the leaf.\<close>

record tree_insertion_path =
  ip_leaf :: crate_dust_generation
  ip_path :: "bool list"
  ip_serialized :: "bytes option"

datatype EventDetails =
    ZswapInputEvent bytes
  | ZswapOutputEvent
  | ContractDeployEvent
  | ContractLogEvent bytes bytes VersionedLogItem
  | ParamChangeEvent
  | DustInitialUtxoEvent crate_dust_output crate_dust_generation u64
  | DustGenerationDtimeUpdateEvent tree_insertion_path
  | DustSpendProcessedEvent bytes bytes
  | OtherEvent string

record crate_event =
  ev_content :: EventDetails
  ev_serialized :: "bytes option"

section \<open>DUST events\<close>

definition make_dust_initial_utxo ::
    "string \<Rightarrow> crate_dust_output \<Rightarrow> crate_dust_generation \<Rightarrow> u64 \<Rightarrow> bytes \<Rightarrow> LedgerError + LedgerEvent" where
  "make_dust_initial_utxo key_name out generation generation_index raw =
     and_then (ok_or (SerializeError key_name) (do_owner out)) (\<lambda>owner.
     let qualified_output = \<lparr>qd_initial_value = do_initial_value out, qd_owner = owner,
           qd_nonce = do_nonce out, qd_seq = do_seq out, qd_ctime = do_ctime out,
           qd_backing_night = do_backing_night out, qd_mt_index = do_mt_index out\<rparr>
     in and_then (ok_or (SerializeError key_name) (gi_owner generation)) (\<lambda>owner.
     let generation_info = \<lparr>dg_night_utxo_hash = do_backing_night out, dg_value = gi_value generation,
           dg_owner = owner, dg_nonce = gi_nonce generation, dg_ctime = do_ctime out,
           dg_dtime = gi_dtime generation\<rparr>
     in Inr (dust_initial_utxo raw qualified_output generation_info generation_index)))"

definition make_dust_initial_utxo_v8 where
  "make_dust_initial_utxo_v8 = make_dust_initial_utxo ''DustPublicKeyV8''"

definition make_dust_initial_utxo_v9 where
  "make_dust_initial_utxo_v9 = make_dust_initial_utxo ''DustPublicKeyV9''"

text \<open>The index of the leaf: the entries are read from the leaf, each that goes right sets its bit. The
  amount of a shift is taken modulo the width.\<close>

definition mt_index_step :: "u64 \<Rightarrow> nat \<times> bool \<Rightarrow> u64" where
  "mt_index_step mt_index entry =
     (case entry of (depth, goes_left) \<Rightarrow>
        if \<not> goes_left then or mt_index (push_bit (depth mod 64) 1) else mt_index)"

definition mt_index_of :: "bool list \<Rightarrow> u64" where
  "mt_index_of path = foldl mt_index_step 0 (enumerate 0 (rev path))"

definition make_dust_generation_dtime_update ::
    "string \<Rightarrow> string \<Rightarrow> tree_insertion_path \<Rightarrow> bytes \<Rightarrow> LedgerError + LedgerEvent" where
  "make_dust_generation_dtime_update key_name path_name update raw =
     (let generation = ip_leaf update
      in and_then (ok_or (SerializeError key_name) (gi_owner generation)) (\<lambda>owner.
         let generation_info = \<lparr>dg_night_utxo_hash = gi_nonce generation, dg_value = gi_value generation,
               dg_owner = owner, dg_nonce = gi_nonce generation, dg_ctime = 0, dg_dtime = gi_dtime generation\<rparr>;
             mt_index = mt_index_of (ip_path update)
         in and_then (ok_or (SerializeError path_name) (ip_serialized update)) (\<lambda>tree_insertion_path.
            Inr (dust_generation_dtime_update raw generation_info mt_index tree_insertion_path))))"

definition make_dust_generation_dtime_update_v8 where
  "make_dust_generation_dtime_update_v8 =
     make_dust_generation_dtime_update ''DustPublicKeyV8'' ''TreeInsertionPath<DustGenerationInfoV8>''"

definition make_dust_generation_dtime_update_v9 where
  "make_dust_generation_dtime_update_v9 =
     make_dust_generation_dtime_update ''DustPublicKeyV9'' ''TreeInsertionPath<DustGenerationInfoV9>''"

section \<open>The chain of adapters\<close>

definition serialized_event :: "string \<Rightarrow> crate_event \<Rightarrow> LedgerError + EventDetails \<times> bytes" where
  "serialized_event name event =
     and_then (ok_or (SerializeError name) (ev_serialized event)) (\<lambda>raw. Inr (ev_content event, raw))"

fun filter_map_ok :: "('a \<Rightarrow> 'b option) \<Rightarrow> ('e + 'a) list \<Rightarrow> ('e + 'b) list" where
  "filter_map_ok f [] = []"
| "filter_map_ok f (Inl e # xs) = Inl e # filter_map_ok f xs"
| "filter_map_ok f (Inr a # xs) = (case f a of None \<Rightarrow> filter_map_ok f xs | Some b \<Rightarrow> Inr b # filter_map_ok f xs)"

text \<open>\<open>Iterator::flatten\<close> over results: an error is an empty iterator.\<close>

fun flatten_ok_values :: "('e + 'a) list \<Rightarrow> 'a list" where
  "flatten_ok_values [] = []"
| "flatten_ok_values (Inl e # xs) = flatten_ok_values xs"
| "flatten_ok_values (Inr a # xs) = a # flatten_ok_values xs"

fun event_of_v8 :: "EventDetails \<times> bytes \<Rightarrow> (LedgerError + LedgerEvent) option" where
  "event_of_v8 (ZswapInputEvent nullifier, raw) = Some (Inr (zswap_input raw nullifier))"
| "event_of_v8 (ZswapOutputEvent, raw) = Some (Inr (zswap_output raw))"
| "event_of_v8 (ContractDeployEvent, raw) = None"
| "event_of_v8 (ContractLogEvent _ _ _, raw) = None"
| "event_of_v8 (ParamChangeEvent, raw) = Some (Inr (param_change raw))"
| "event_of_v8 (DustInitialUtxoEvent out generation generation_index, raw) =
     Some (make_dust_initial_utxo_v8 out generation generation_index raw)"
| "event_of_v8 (DustGenerationDtimeUpdateEvent update, raw) = Some (make_dust_generation_dtime_update_v8 update raw)"
| "event_of_v8 (DustSpendProcessedEvent nullifier commitment, raw) =
     Some (Inr (dust_spend_processed raw nullifier commitment))"
| "event_of_v8 (OtherEvent name, raw) = Some (Inl (UnsupportedEventVariant name))"

fun event_of_v9 :: "EventDetails \<times> bytes \<Rightarrow> (LedgerError + LedgerEvent) option" where
  "event_of_v9 (ZswapInputEvent nullifier, raw) = Some (Inr (zswap_input raw nullifier))"
| "event_of_v9 (ZswapOutputEvent, raw) = Some (Inr (zswap_output raw))"
| "event_of_v9 (ContractDeployEvent, raw) = None"
| "event_of_v9 (ContractLogEvent address entry_point logged_item, raw) =
     Some (Inr (contract_event raw address None (make_contract_event_attributes logged_item entry_point)))"
| "event_of_v9 (ParamChangeEvent, raw) = Some (Inr (param_change raw))"
| "event_of_v9 (DustInitialUtxoEvent out generation generation_index, raw) =
     Some (make_dust_initial_utxo_v9 out generation generation_index raw)"
| "event_of_v9 (DustGenerationDtimeUpdateEvent update, raw) = Some (make_dust_generation_dtime_update_v9 update raw)"
| "event_of_v9 (DustSpendProcessedEvent nullifier commitment, raw) =
     Some (Inr (dust_spend_processed raw nullifier commitment))"
| "event_of_v9 (OtherEvent name, raw) = Some (Inl (UnsupportedEventVariant name))"

definition make_ledger_events_v8 :: "crate_event list \<Rightarrow> LedgerError + LedgerEvent list" where
  "make_ledger_events_v8 events =
     try_map (\<lambda>r. r) (flatten_ok_values (filter_map_ok event_of_v8 (map (serialized_event ''EventV8'') events)))"

definition make_ledger_events_v9 :: "crate_event list \<Rightarrow> LedgerError + LedgerEvent list" where
  "make_ledger_events_v9 events =
     try_map (\<lambda>r. r) (flatten_ok_values (filter_map_ok event_of_v9 (map (serialized_event ''EventV9'') events)))"

end
