(* ===== verification/LedgerEventFacts.thy ===== *)
theory LedgerEventFacts
  imports LedgerEvents
begin

text \<open>
  Which events of the ledger are reported, in which order and with which bytes, and the index that is
  read off a path in the generation tree.
\<close>

section \<open>The chain of adapters\<close>

definition serializable :: "crate_event list \<Rightarrow> (EventDetails \<times> bytes) list" where
  "serializable events = List.map_filter (\<lambda>ev. map_option (Pair (ev_content ev)) (ev_serialized ev)) events"

lemma serializable_simps [simp]:
  "serializable [] = []"
  "serializable (ev # events) = (case ev_serialized ev of None \<Rightarrow> serializable events
     | Some raw \<Rightarrow> (ev_content ev, raw) # serializable events)"
  by (simp_all add: serializable_def List.map_filter_simps split: option.split)

lemma adapters: "flatten_ok_values (filter_map_ok f (map (serialized_event name) events)) = List.map_filter f (serializable events)"
proof (induction events)
  case (Cons ev events)
  then show ?case
    by (cases "ev_serialized ev") (simp_all add: serialized_event_def List.map_filter_simps split: option.split)
qed (simp add: List.map_filter_simps)

lemma serializable_filter:
  "serializable (filter (\<lambda>ev. ev_serialized ev \<noteq> None) events) = serializable events"
  by (induction events) auto

section \<open>Which events are reported\<close>

fun reported_v8 :: "EventDetails \<Rightarrow> bool" where
  "reported_v8 ContractDeployEvent = False"
| "reported_v8 (ContractLogEvent _ _ _) = False"
| "reported_v8 _ = True"

fun reported_v9 :: "EventDetails \<Rightarrow> bool" where
  "reported_v9 ContractDeployEvent = False"
| "reported_v9 _ = True"

lemmas event_constructors = zswap_input_def zswap_output_def param_change_def dust_initial_utxo_def
  dust_generation_dtime_update_def dust_spend_processed_def contract_event_def
  make_dust_initial_utxo_v8_def make_dust_initial_utxo_v9_def make_dust_initial_utxo_def
  make_dust_generation_dtime_update_v8_def make_dust_generation_dtime_update_v9_def make_dust_generation_dtime_update_def

lemma event_of_reported:
  "event_of_v8 (c, raw) = None \<longleftrightarrow> \<not> reported_v8 c" "event_of_v9 (c, raw) = None \<longleftrightarrow> \<not> reported_v9 c"
  by (cases c; simp)+

lemma event_of_raw:
  "event_of_v8 (c, raw) = Some (Inr e) \<Longrightarrow> le_raw e = raw" "event_of_v9 (c, raw) = Some (Inr e) \<Longrightarrow> le_raw e = raw"
  by (cases c; auto simp: event_constructors Let_def result_simps)+

lemma collected_raws:
  assumes "try_map (\<lambda>r. r) (List.map_filter f xs) = Inr out"
    and "\<And>c raw e. f (c, raw) = Some (Inr e) \<Longrightarrow> le_raw e = raw" and "\<And>c raw. f (c, raw) = None \<longleftrightarrow> \<not> P c"
  shows "map le_raw out = map snd (filter (\<lambda>x. P (fst x)) xs)"
  using assms(1)
proof (induction xs arbitrary: out)
  case (Cons x xs)
  obtain c raw where x: "x = (c, raw)" by fastforce
  show ?case
  proof (cases "f x")
    case None
    with Cons assms(3) [of c raw] show ?thesis by (simp add: x List.map_filter_simps)
  next
    case (Some r)
    with Cons.prems obtain e out' where "r = Inr e" "out = e # out'" "try_map (\<lambda>r. r) (List.map_filter f xs) = Inr out'"
      by (auto simp: List.map_filter_simps result_simps)
    with Cons.IH Some assms(2) [of c raw e] assms(3) [of c raw] show ?thesis by (simp add: x)
  qed
qed (simp add: List.map_filter_simps)

lemma collected_error:
  assumes "x \<in> set xs" and "f x = Some (Inl e)"
  shows "\<exists>e. try_map (\<lambda>r. r) (List.map_filter f xs) = Inl e"
  using assms
proof (induction xs)
  case (Cons y ys)
  show ?case
  proof (cases "f y")
    case None
    with Cons show ?thesis by (auto simp: List.map_filter_simps)
  next
    case (Some r)
    with Cons show ?thesis by (cases r) (auto simp: List.map_filter_simps)
  qed
qed simp

section \<open>The index of a leaf\<close>

text \<open>The path to the leaf \<open>n\<close> of a tree of height \<open>d\<close>.\<close>

definition leaf_path :: "nat \<Rightarrow> u64 \<Rightarrow> bool list" where
  "leaf_path d n = rev (map (\<lambda>i. \<not> bit n i) [0 ..< d])"

lemma mt_index_bits:
  assumes "length turns \<le> 64"
  shows "bit (foldl mt_index_step 0 (enumerate 0 turns)) i \<longleftrightarrow> i < length turns \<and> \<not> turns ! i"
  using assms
proof (induction turns rule: rev_induct)
  case (snoc t turns)
  have "bit (foldl mt_index_step 0 (enumerate 0 (turns @ [t]))) i
      \<longleftrightarrow> bit (foldl mt_index_step 0 (enumerate 0 turns)) i \<or> (\<not> t \<and> i = length turns)"
    using snoc.prems
    by (auto simp: enumerate_append_eq mt_index_step_def bit_or_iff bit_push_bit_iff bit_1_iff bit_exp_iff possible_bit_word)
  with snoc show ?case by (auto simp: nth_append less_Suc_eq)
qed simp

lemma mt_index_of_leaf_path:
  assumes "d \<le> 64" and "unat n < 2 ^ d"
  shows "mt_index_of (leaf_path d n) = n"
proof (rule bit_word_eqI)
  fix i assume "i < LENGTH(64)"
  have "i < d" if "bit n i"
  proof (rule ccontr)
    assume "\<not> i < d"
    then have "(2 :: nat) ^ d \<le> 2 ^ i" by simp
    with assms(2) have "unat n < 2 ^ i" by linarith
    then have "\<not> bit (unat n) i" by (simp add: bit_iff_odd)
    with that show False by (simp add: bit_unsigned_iff)
  qed
  then show "bit (mt_index_of (leaf_path d n)) i \<longleftrightarrow> bit n i"
    using assms(1) by (auto simp: mt_index_of_def leaf_path_def mt_index_bits)
qed

section \<open>What the ledger reports\<close>

text \<open>
  C30. The events of a transaction come out as domain events in their order and with their own serialized
  bytes, one for each event that is not a deployment (nor, on ledger 8, a contract log); an event of an
  unknown kind fails the call. But an event whose serialization fails does not: the error is an empty
  iterator for \<open>flatten\<close>, and the event is dropped without a trace. The index of a generation is the
  leaf's: along the path to the leaf \<open>n\<close> of a tree of height at most 64 it is \<open>n\<close> again.
\<close>

theorem ledger_events_reported:
  "(\<forall>out. make_ledger_events_v9 events = Inr out \<longrightarrow>
       map le_raw out = map snd (filter (\<lambda>x. reported_v9 (fst x)) (serializable events)))
    \<and> (\<forall>out. make_ledger_events_v8 events = Inr out \<longrightarrow>
       map le_raw out = map snd (filter (\<lambda>x. reported_v8 (fst x)) (serializable events)))
    \<and> (\<forall>name raw. (OtherEvent name, raw) \<in> set (serializable events) \<longrightarrow>
       (\<exists>e. make_ledger_events_v9 events = Inl e) \<and> (\<exists>e. make_ledger_events_v8 events = Inl e))
    \<and> make_ledger_events_v9 events = make_ledger_events_v9 (filter (\<lambda>ev. ev_serialized ev \<noteq> None) events)
    \<and> make_ledger_events_v8 events = make_ledger_events_v8 (filter (\<lambda>ev. ev_serialized ev \<noteq> None) events)
    \<and> (\<forall>d n. d \<le> 64 \<longrightarrow> unat n < 2 ^ d \<longrightarrow> mt_index_of (leaf_path d n) = n)"
proof (intro conjI allI impI)
  note unf = make_ledger_events_v9_def make_ledger_events_v8_def adapters
  show "map le_raw out = map snd (filter (\<lambda>x. reported_v9 (fst x)) (serializable events))"
    if "make_ledger_events_v9 events = Inr out" for out
    using that unfolding unf by (rule collected_raws) (rule event_of_raw event_of_reported; assumption?)+
  show "map le_raw out = map snd (filter (\<lambda>x. reported_v8 (fst x)) (serializable events))"
    if "make_ledger_events_v8 events = Inr out" for out
    using that unfolding unf by (rule collected_raws) (rule event_of_raw event_of_reported; assumption?)+
  fix name raw
  assume other: "(OtherEvent name, raw) \<in> set (serializable events)"
  show "\<exists>e. make_ledger_events_v9 events = Inl e" "\<exists>e. make_ledger_events_v8 events = Inl e"
    unfolding unf by (rule collected_error [OF other], simp)+
next
  note unf = make_ledger_events_v9_def make_ledger_events_v8_def adapters serializable_filter
  show "make_ledger_events_v9 events = make_ledger_events_v9 (filter (\<lambda>ev. ev_serialized ev \<noteq> None) events)"
    "make_ledger_events_v8 events = make_ledger_events_v8 (filter (\<lambda>ev. ev_serialized ev \<noteq> None) events)"
    unfolding unf by (rule refl)+
qed (rule mt_index_of_leaf_path)

lemma unat_5: "unat (5 :: u64) = 5"
  by simp

definition pause_event :: crate_event where
  "pause_event = \<lparr>ev_content = ContractLogEvent [9] [102]
     \<lparr>li_version = 1, li_event_type = PausedLog, li_data = OtherStateValue\<rparr>, ev_serialized = Some [1]\<rparr>"

theorem ledger_events_reported_witness:
  "\<exists>out. make_ledger_events_v9 [pause_event, pause_event\<lparr>ev_serialized := None\<rparr>, \<lparr>ev_content = ZswapOutputEvent, ev_serialized = Some [2]\<rparr>]
      = Inr out \<and> map le_raw out = [[1], [2]] \<and> mt_index_of (leaf_path 3 5) = 5"
proof -
  let ?events = "[pause_event, pause_event\<lparr>ev_serialized := None\<rparr>, \<lparr>ev_content = ZswapOutputEvent, ev_serialized = Some [2]\<rparr>]"
  have "\<exists>out. make_ledger_events_v9 ?events = Inr out"
    by (simp add: make_ledger_events_v9_def serialized_event_def pause_event_def)
  then obtain out where out: "make_ledger_events_v9 ?events = Inr out" by blast
  then have "map le_raw out = map snd (filter (\<lambda>x. reported_v9 (fst x)) (serializable ?events))"
    using ledger_events_reported [of ?events] by blast
  then have raws: "map le_raw out = [[1], [2]]" by (simp add: pause_event_def)
  have "\<forall>d n. d \<le> 64 \<longrightarrow> unat n < 2 ^ d \<longrightarrow> mt_index_of (leaf_path d n) = n"
    using ledger_events_reported [of ?events] by (elim conjE) assumption
  then have index: "mt_index_of (leaf_path 3 5) = 5"
    by (elim allE [of _ 3] allE [of _ 5]) (simp only: unat_5, simp)
  show ?thesis by (intro exI [of _ out] conjI out raws index)
qed

end
