(* ===== verification/LedgerUtxos.thy ===== *)
theory LedgerUtxos
  imports LedgerApi
begin

text \<open>
  The unshielded outputs a transaction creates and spends (\<open>make_unshielded_utxos_for_*\<close> and their helpers
  in \<open>domain/ledger/ledger_state.rs\<close>, for ledger 8 and ledger 9, which mirror each other). Of a
  transaction of the midnight crates the code reads its segments and intents, or the fields of a reward
  claim; the hashes the crates compute and the two look-ups in the ledger state are the record
  \<open>utxo_crate\<close>.
\<close>

section \<open>Transactions\<close>

record utxo_output =
  ox_value :: u128
  ox_owner :: hash32
  ox_type :: hash32

record utxo_spend =
  sx_value :: u128
  sx_owner :: bytes
  sx_type :: hash32
  sx_intent_hash :: hash32
  sx_output_no :: u32

text \<open>An intent with its hash for a segment, proofs and signatures erased.\<close>

record ledger_intent =
  in_hash :: "u16 \<Rightarrow> hash32"
  in_guaranteed_outputs :: "utxo_output list"
  in_fallible_outputs :: "utxo_output list"
  in_guaranteed_inputs :: "utxo_spend list"
  in_fallible_inputs :: "utxo_spend list"

record standard_transaction =
  sd_segments :: "u16 list"
  sd_intents :: "(u16 \<times> ledger_intent) list"

record reward_claim =
  rc_owner :: bytes
  rc_value :: u128
  rc_nonce :: bytes
  rc_cardano_bridge :: bool

datatype crate_transaction = StandardTransaction standard_transaction | RewardClaim reward_claim

record unshielded_payment =
  pay_amount :: u128
  pay_target :: hash32
  pay_nonce :: bytes

datatype system_transaction = PayFromTreasuryUnshielded "unshielded_payment list" hash32 | OtherSystemTransaction

text \<open>The key of an output in the ledger state.\<close>

record ledger_utxo =
  lu_value :: u128
  lu_owner :: hash32
  lu_type :: hash32
  lu_intent_hash :: hash32
  lu_output_no :: u32

record 's utxo_crate =
  uc_user_address :: "bytes \<Rightarrow> hash32"
  uc_mk_intent_hash :: "unshielded_payment \<Rightarrow> hash32 \<Rightarrow> hash32"
  uc_night :: hash32
  uc_default_token_type :: hash32
  uc_persistent_commit :: "u32 \<Rightarrow> hash32 \<Rightarrow> hash32"
  uc_night_indices :: "'s \<Rightarrow> hash32 \<Rightarrow> bool"
  uc_utxo_ctime :: "'s \<Rightarrow> ledger_utxo \<Rightarrow> u64 option"

section \<open>One output\<close>

definition OUTPUT_INDEX_ZERO :: u32 where
  "OUTPUT_INDEX_ZERO = 0"

definition make_initial_nonce :: "'s utxo_crate \<Rightarrow> u32 \<Rightarrow> hash32 \<Rightarrow> hash32" where
  "make_initial_nonce U output_index intent_hash = uc_persistent_commit U output_index intent_hash"

definition registered_for_dust_generation :: "'s utxo_crate \<Rightarrow> u32 \<Rightarrow> hash32 \<Rightarrow> 's \<Rightarrow> bool" where
  "registered_for_dust_generation U output_index intent_hash ledger_state =
     uc_night_indices U ledger_state (uc_persistent_commit U output_index intent_hash)"

definition ctime_of :: "'s utxo_crate \<Rightarrow> ledger_utxo \<Rightarrow> 's \<Rightarrow> u64 option" where
  "ctime_of U utxo ledger_state = uc_utxo_ctime U ledger_state utxo"

definition intent_output :: "'s utxo_crate \<Rightarrow> 's \<Rightarrow> hash32 \<Rightarrow> nat \<times> utxo_output \<Rightarrow> UnshieldedUtxo" where
  "intent_output U ledger_state intent_hash entry =
     (let output_index = word_of_nat (fst entry); out = snd entry;
          utxo = \<lparr>lu_value = ox_value out, lu_owner = ox_owner out, lu_type = ox_type out,
            lu_intent_hash = intent_hash, lu_output_no = output_index\<rparr>
      in \<lparr>uu_owner = ox_owner out, uu_token_type = ox_type out, uu_value = ox_value out,
          uu_intent_hash = intent_hash, uu_output_index = output_index,
          uu_ctime = ctime_of U utxo ledger_state,
          uu_initial_nonce = make_initial_nonce U output_index intent_hash,
          uu_registered_for_dust_generation =
            registered_for_dust_generation U output_index intent_hash ledger_state\<rparr>)"

definition intent_input :: "'s utxo_crate \<Rightarrow> 's \<Rightarrow> utxo_spend \<Rightarrow> UnshieldedUtxo" where
  "intent_input U ledger_state spend =
     (let intent_hash = sx_intent_hash spend; owner = uc_user_address U (sx_owner spend);
          utxo = \<lparr>lu_value = sx_value spend, lu_owner = owner, lu_type = sx_type spend,
            lu_intent_hash = sx_intent_hash spend, lu_output_no = sx_output_no spend\<rparr>
      in \<lparr>uu_owner = owner, uu_token_type = sx_type spend, uu_value = sx_value spend,
          uu_intent_hash = intent_hash, uu_output_index = sx_output_no spend,
          uu_ctime = ctime_of U utxo ledger_state,
          uu_initial_nonce = make_initial_nonce U (sx_output_no spend) intent_hash,
          uu_registered_for_dust_generation =
            registered_for_dust_generation U (sx_output_no spend) intent_hash ledger_state\<rparr>)"

section \<open>One intent, one transaction\<close>

type_synonym utxo_lists = "UnshieldedUtxo list \<times> UnshieldedUtxo list"

definition extend_unshielded_utxos ::
    "'s utxo_crate \<Rightarrow> 's \<Rightarrow> u16 \<Rightarrow> ledger_intent \<Rightarrow> bool \<Rightarrow> utxo_lists \<Rightarrow> utxo_lists" where
  "extend_unshielded_utxos U ledger_state segment_id intent guaranteed acc =
     (case acc of (outputs, inputs) \<Rightarrow>
        let intent_hash = in_hash intent segment_id;
            intent_outputs = (if guaranteed then in_guaranteed_outputs intent else in_fallible_outputs intent);
            intent_inputs = (if guaranteed then in_guaranteed_inputs intent else in_fallible_inputs intent)
        in (outputs @ map (intent_output U ledger_state intent_hash) (enumerate 0 intent_outputs),
            inputs @ map (intent_input U ledger_state) intent_inputs))"

definition successful_segments :: "standard_transaction \<Rightarrow> TransactionResult \<Rightarrow> u16 set" where
  "successful_segments transaction result =
     (case result of
        Success \<Rightarrow> set (sd_segments transaction)
      | PartialSuccess segments \<Rightarrow> set (List.map_filter (\<lambda>(id, success). if success then Some id else None) segments)
      | Failure \<Rightarrow> {})"

definition segment_utxos ::
    "'s utxo_crate \<Rightarrow> 's \<Rightarrow> standard_transaction \<Rightarrow> u16 set \<Rightarrow> utxo_lists \<Rightarrow> u16 \<Rightarrow> utxo_lists" where
  "segment_utxos U ledger_state transaction successful acc segment =
     (if segment = 0
      then foldl (\<lambda>acc intent. extend_unshielded_utxos U ledger_state segment intent True acc) acc
             (map snd (sd_intents transaction))
      else case map_of (sd_intents transaction) segment of
             Some intent \<Rightarrow>
               if segment \<in> successful then extend_unshielded_utxos U ledger_state segment intent False acc
               else acc
           | None \<Rightarrow> acc)"

definition claim_utxo :: "'s utxo_crate \<Rightarrow> 's \<Rightarrow> reward_claim \<Rightarrow> UnshieldedUtxo" where
  "claim_utxo U ledger_state claim =
     (let owner = uc_user_address U (rc_owner claim);
          intent_hash = uc_mk_intent_hash U
            \<lparr>pay_amount = rc_value claim, pay_target = owner, pay_nonce = rc_nonce claim\<rparr> (uc_night U);
          utxo = \<lparr>lu_value = rc_value claim, lu_owner = owner, lu_type = uc_default_token_type U,
            lu_intent_hash = intent_hash, lu_output_no = OUTPUT_INDEX_ZERO\<rparr>
      in \<lparr>uu_owner = owner, uu_token_type = 0, uu_value = rc_value claim,
          uu_intent_hash = intent_hash, uu_output_index = OUTPUT_INDEX_ZERO,
          uu_ctime = ctime_of U utxo ledger_state,
          uu_initial_nonce = make_initial_nonce U OUTPUT_INDEX_ZERO intent_hash,
          uu_registered_for_dust_generation =
            registered_for_dust_generation U OUTPUT_INDEX_ZERO intent_hash ledger_state\<rparr>)"

definition make_unshielded_utxos_for_regular_transaction ::
    "'s utxo_crate \<Rightarrow> crate_transaction \<Rightarrow> TransactionResult \<Rightarrow> 's \<Rightarrow> utxo_lists" where
  "make_unshielded_utxos_for_regular_transaction U transaction result ledger_state =
     (if result = Failure then ([], [])
      else case transaction of
        StandardTransaction t \<Rightarrow>
          foldl (segment_utxos U ledger_state t (successful_segments t result)) ([], []) (sd_segments t)
      | RewardClaim claim \<Rightarrow> ([claim_utxo U ledger_state claim], []))"

definition payment_utxo :: "'s utxo_crate \<Rightarrow> 's \<Rightarrow> hash32 \<Rightarrow> nat \<times> unshielded_payment \<Rightarrow> UnshieldedUtxo" where
  "payment_utxo U ledger_state token_type entry =
     (let index = word_of_nat (fst entry); out = snd entry;
          intent_hash = uc_mk_intent_hash U out token_type;
          utxo = \<lparr>lu_value = pay_amount out, lu_owner = pay_target out, lu_type = token_type,
            lu_intent_hash = intent_hash, lu_output_no = index\<rparr>
      in \<lparr>uu_owner = pay_target out, uu_token_type = token_type, uu_value = pay_amount out,
          uu_intent_hash = intent_hash, uu_output_index = index, uu_ctime = ctime_of U utxo ledger_state,
          uu_initial_nonce = make_initial_nonce U index intent_hash,
          uu_registered_for_dust_generation =
            registered_for_dust_generation U index intent_hash ledger_state\<rparr>)"

fun make_unshielded_utxos_for_system_transaction ::
    "'s utxo_crate \<Rightarrow> system_transaction \<Rightarrow> 's \<Rightarrow> UnshieldedUtxo list" where
  "make_unshielded_utxos_for_system_transaction U (PayFromTreasuryUnshielded outputs token_type) ledger_state =
     map (payment_utxo U ledger_state token_type) (enumerate 0 outputs)"
| "make_unshielded_utxos_for_system_transaction U OtherSystemTransaction ledger_state = []"

section \<open>The versions\<close>

text \<open>The functions for ledger 8 have the bodies of those for ledger 9, over the types of their crates.\<close>

definition make_initial_nonce_v8 where "make_initial_nonce_v8 = make_initial_nonce"
definition registered_for_dust_generation_v8 where "registered_for_dust_generation_v8 = registered_for_dust_generation"
definition ctime_v8 where "ctime_v8 = ctime_of"
definition extend_unshielded_utxos_v8 where "extend_unshielded_utxos_v8 = extend_unshielded_utxos"
definition make_unshielded_utxos_for_regular_transaction_v8 where
  "make_unshielded_utxos_for_regular_transaction_v8 = make_unshielded_utxos_for_regular_transaction"
definition make_unshielded_utxos_for_system_transaction_v8 where
  "make_unshielded_utxos_for_system_transaction_v8 = make_unshielded_utxos_for_system_transaction"

end
