(* ===== verification/LedgerUtxoFacts.thy ===== *)
theory LedgerUtxoFacts
  imports LedgerUtxos
begin

text \<open>
  Which outputs a transaction creates and spends, by segment and phase, and that no two created outputs
  have the same identity as long as the hashes of its intents do not collide.
\<close>

section \<open>The outputs by block\<close>

text \<open>What one phase of an intent contributes: the hash, the outputs and the inputs.\<close>

type_synonym phase = "hash32 \<times> utxo_output list \<times> utxo_spend list"

definition segment_phases :: "standard_transaction \<Rightarrow> u16 set \<Rightarrow> u16 \<Rightarrow> phase list" where
  "segment_phases t successful segment =
     (if segment = 0
      then map (\<lambda>i. (in_hash i 0, in_guaranteed_outputs i, in_guaranteed_inputs i)) (map snd (sd_intents t))
      else case map_of (sd_intents t) segment of
             Some i \<Rightarrow> if segment \<in> successful
               then [(in_hash i segment, in_fallible_outputs i, in_fallible_inputs i)] else []
           | None \<Rightarrow> [])"

definition phase_outputs :: "'s utxo_crate \<Rightarrow> 's \<Rightarrow> phase \<Rightarrow> UnshieldedUtxo list" where
  "phase_outputs U ledger_state p = map (intent_output U ledger_state (fst p)) (enumerate 0 (fst (snd p)))"

definition phase_inputs :: "'s utxo_crate \<Rightarrow> 's \<Rightarrow> phase \<Rightarrow> UnshieldedUtxo list" where
  "phase_inputs U ledger_state p = map (intent_input U ledger_state) (snd (snd p))"

lemma guaranteed_phases:
  "foldl (\<lambda>acc intent. extend_unshielded_utxos U ls segment intent True acc) (os, ins) intents
    = (os @ concat (map (phase_outputs U ls) (map (\<lambda>i. (in_hash i segment, in_guaranteed_outputs i, in_guaranteed_inputs i)) intents)),
       ins @ concat (map (phase_inputs U ls) (map (\<lambda>i. (in_hash i segment, in_guaranteed_outputs i, in_guaranteed_inputs i)) intents)))"
  by (induction intents arbitrary: os ins)
    (simp_all add: extend_unshielded_utxos_def phase_outputs_def phase_inputs_def)

lemma segment_utxos_phases:
  "segment_utxos U ls t successful (os, ins) segment
    = (os @ concat (map (phase_outputs U ls) (segment_phases t successful segment)),
       ins @ concat (map (phase_inputs U ls) (segment_phases t successful segment)))"
  unfolding segment_utxos_def segment_phases_def guaranteed_phases
  by (auto simp: extend_unshielded_utxos_def phase_outputs_def phase_inputs_def split: option.split)

definition phases :: "standard_transaction \<Rightarrow> TransactionResult \<Rightarrow> phase list" where
  "phases t result = concat (map (segment_phases t (successful_segments t result)) (sd_segments t))"

lemma segments_phases:
  "foldl (segment_utxos U ls t successful) (os, ins) segments
    = (os @ concat (map (phase_outputs U ls) (concat (map (segment_phases t successful) segments))),
       ins @ concat (map (phase_inputs U ls) (concat (map (segment_phases t successful) segments))))"
  by (induction segments arbitrary: os ins) (simp_all add: segment_utxos_phases)

lemma regular_phases:
  "result \<noteq> Failure \<Longrightarrow> make_unshielded_utxos_for_regular_transaction U (StandardTransaction t) result ls
    = (concat (map (phase_outputs U ls) (phases t result)), concat (map (phase_inputs U ls) (phases t result)))"
  by (simp add: make_unshielded_utxos_for_regular_transaction_def segments_phases phases_def)

section \<open>Which phases count\<close>

lemma in_segment_phases:
  assumes "distinct (map fst (sd_intents t))"
  shows "p \<in> set (segment_phases t successful s) \<longleftrightarrow>
    (if s = 0 then \<exists>e \<in> set (sd_intents t). p = (in_hash (snd e) 0, in_guaranteed_outputs (snd e), in_guaranteed_inputs (snd e))
     else s \<in> successful \<and> (\<exists>i. (s, i) \<in> set (sd_intents t) \<and> p = (in_hash i s, in_fallible_outputs i, in_fallible_inputs i)))"
proof (cases "s = 0")
  case True
  then show ?thesis by (auto simp: segment_phases_def)
next
  case False
  have mem: "(s, i) \<in> set (sd_intents t) \<longleftrightarrow> map_of (sd_intents t) s = Some i" for i
    by (rule map_of_eq_Some_iff [OF assms, symmetric])
  from False show ?thesis by (cases "map_of (sd_intents t) s") (auto simp: segment_phases_def mem)
qed

lemma in_phases:
  assumes "distinct (map fst (sd_intents t))"
  shows "p \<in> set (phases t result) \<longleftrightarrow>
    0 \<in> set (sd_segments t) \<and> (\<exists>e \<in> set (sd_intents t). p = (in_hash (snd e) 0, in_guaranteed_outputs (snd e), in_guaranteed_inputs (snd e)))
    \<or> (\<exists>s i. s \<noteq> 0 \<and> s \<in> set (sd_segments t) \<and> s \<in> successful_segments t result \<and> (s, i) \<in> set (sd_intents t)
         \<and> p = (in_hash i s, in_fallible_outputs i, in_fallible_inputs i))"
proof -
  have "p \<in> set (phases t result) \<longleftrightarrow> (\<exists>s \<in> set (sd_segments t). p \<in> set (segment_phases t (successful_segments t result) s))"
    by (simp add: phases_def)
  also have "\<dots> \<longleftrightarrow> 0 \<in> set (sd_segments t) \<and> p \<in> set (segment_phases t (successful_segments t result) 0)
      \<or> (\<exists>s. s \<noteq> 0 \<and> s \<in> set (sd_segments t) \<and> p \<in> set (segment_phases t (successful_segments t result) s))"
    by metis
  finally show ?thesis unfolding in_segment_phases [OF assms] by simp metis
qed

text \<open>The hashes of the intents for their segments do not collide.\<close>

definition hashes_distinct :: "standard_transaction \<Rightarrow> bool" where
  "hashes_distinct t = inj_on (\<lambda>(e, s). in_hash (snd e) s) (set (sd_intents t) \<times> UNIV)"

lemma segment_hashes:
  "map fst (segment_phases t successful s) = map (\<lambda>(e, s). in_hash (snd e) s)
     (if s = 0 then map (\<lambda>e. (e, 0)) (sd_intents t)
      else case map_of (sd_intents t) s of Some i \<Rightarrow> if s \<in> successful then [((s, i), s)] else [] | None \<Rightarrow> [])"
  by (auto simp: segment_phases_def split: option.split)

lemma distinct_phases:
  assumes "hashes_distinct t" and "distinct (map fst (sd_intents t))" and "distinct (sd_segments t)"
  shows "distinct (map fst (phases t result))"
proof -
  define entries where "entries s = (if s = 0 then map (\<lambda>e. (e, 0)) (sd_intents t)
      else case map_of (sd_intents t) s of
        Some i \<Rightarrow> if s \<in> successful_segments t result then [((s, i), s)] else [] | None \<Rightarrow> [])" for s
  have snds: "snd x = s" "fst x \<in> set (sd_intents t)" if "x \<in> set (entries s)" for x s
    using that map_of_SomeD [of "sd_intents t" s] by (auto simp: entries_def split: if_splits option.splits)
  have "distinct (concat (map entries segments))" if "distinct segments" for segments
    using that
  proof (induction segments)
    case (Cons s segments)
    have "distinct (sd_intents t)" using assms(2) by (simp add: distinct_map)
    then have "distinct (map (\<lambda>e. (e, 0 :: u16)) (sd_intents t))" by (simp add: distinct_map inj_on_def)
    then have "distinct (entries s)"
      by (cases "map_of (sd_intents t) s") (simp_all add: entries_def)
    moreover have "set (entries s) \<inter> set (concat (map entries segments)) = {}"
    proof -
      have "snd x \<noteq> s" if "x \<in> set (concat (map entries segments))" for x
      proof -
        obtain s' where "s' \<in> set segments" "x \<in> set (entries s')"
          by (use \<open>x \<in> set (concat (map entries segments))\<close> in auto)
        with snds(1) [of x s'] Cons.prems show ?thesis by auto
      qed
      with snds(1) [of _ s] show ?thesis by blast
    qed
    ultimately show ?case using Cons by simp
  qed simp
  then have "distinct (concat (map entries (sd_segments t)))" using assms(3) .
  moreover have "inj_on (\<lambda>(e, s). in_hash (snd e) s) (set (concat (map entries (sd_segments t))))"
    using assms(1) unfolding hashes_distinct_def by (rule inj_on_subset) (use snds in fastforce)
  ultimately have "distinct (map (\<lambda>(e, s). in_hash (snd e) s) (concat (map entries (sd_segments t))))"
    by (simp add: distinct_map)
  moreover have "map fst (phases t result) = map (\<lambda>(e, s). in_hash (snd e) s) (concat (map entries (sd_segments t)))"
    by (simp add: phases_def map_concat segment_hashes entries_def [abs_def] comp_def)
  ultimately show ?thesis by simp
qed

section \<open>Identities of outputs\<close>

abbreviation utxo_id :: "UnshieldedUtxo \<Rightarrow> hash32 \<times> u32" where
  "utxo_id u \<equiv> (uu_intent_hash u, uu_output_index u)"

lemma phase_ids: "map utxo_id (phase_outputs U ls p) = map (\<lambda>i. (fst p, word_of_nat i)) [0 ..< length (fst (snd p))]"
proof -
  have "map utxo_id (phase_outputs U ls p) = map (\<lambda>i. (fst p, word_of_nat i)) (map fst (enumerate 0 (fst (snd p))))"
    unfolding phase_outputs_def map_map by (rule map_cong) (simp_all add: intent_output_def Let_def)
  then show ?thesis by simp
qed

lemma word_of_nat_inj: "i < 2 ^ 32 \<Longrightarrow> j < 2 ^ 32 \<Longrightarrow> (word_of_nat i :: u32) = word_of_nat j \<Longrightarrow> i = j"
proof -
  assume less: "i < 2 ^ 32" "j < 2 ^ 32" and eq: "(word_of_nat i :: u32) = word_of_nat j"
  have "unat (word_of_nat i :: u32) = i" "unat (word_of_nat j :: u32) = j"
    using less by (simp_all add: unat_of_nat)
  with eq show "i = j" by metis
qed

lemma distinct_ids:
  assumes "distinct (map fst ps)" and "\<forall>p \<in> set ps. length (fst (snd p)) \<le> 2 ^ 32"
  shows "distinct (map utxo_id (concat (map (phase_outputs U ls) ps)))"
  using assms
proof (induction ps)
  case (Cons p ps)
  have ids: "set (map utxo_id (concat (map (phase_outputs U ls) qs))) \<subseteq> fst ` set qs \<times> UNIV" for qs
  proof (induction qs)
    case (Cons q qs)
    have "set (map utxo_id (phase_outputs U ls q)) \<subseteq> {fst q} \<times> UNIV" unfolding phase_ids by auto
    with Cons show ?case by auto
  qed simp
  have "inj_on (\<lambda>i. (fst p, word_of_nat i :: u32)) {0 ..< length (fst (snd p))}"
    using Cons.prems(2) by (intro inj_onI) (simp add: word_of_nat_inj)
  then have "distinct (map utxo_id (phase_outputs U ls p))" unfolding phase_ids by (simp add: distinct_map)
  moreover have "set (map utxo_id (phase_outputs U ls p)) \<subseteq> {fst p} \<times> UNIV" unfolding phase_ids by auto
  moreover have "fst p \<notin> fst ` set ps" using Cons.prems(1) by simp
  ultimately have "set (map utxo_id (phase_outputs U ls p)) \<inter> set (map utxo_id (concat (map (phase_outputs U ls) ps))) = {}"
    using ids [of ps] by blast
  moreover have "distinct (map utxo_id (concat (map (phase_outputs U ls) ps)))" using Cons by simp
  ultimately show ?case
    using \<open>distinct (map utxo_id (phase_outputs U ls p))\<close> by simp
qed simp

section \<open>What a transaction creates and spends\<close>


section \<open>A transaction whose fallible segment failed\<close>

definition transfer_intent :: ledger_intent where
  "transfer_intent = \<lparr>in_hash = (\<lambda>s. ucast s), in_guaranteed_outputs = [\<lparr>ox_value = 7, ox_owner = 1, ox_type = 0\<rparr>],
     in_fallible_outputs = [\<lparr>ox_value = 8, ox_owner = 2, ox_type = 0\<rparr>], in_guaranteed_inputs = [], in_fallible_inputs = []\<rparr>"

definition transfer :: standard_transaction where
  "transfer = \<lparr>sd_segments = [0, 1], sd_intents = [(1, transfer_intent)]\<rparr>"

definition plain_utxos :: "unit utxo_crate" where
  "plain_utxos = \<lparr>uc_user_address = (\<lambda>_. 0), uc_mk_intent_hash = (\<lambda>_ _. 0), uc_night = 0, uc_default_token_type = 0,
     uc_persistent_commit = (\<lambda>_ h. h), uc_night_indices = (\<lambda>_ _. False), uc_utxo_ctime = (\<lambda>_ _. None)\<rparr>"

lemma transfer_hashes: "hashes_distinct transfer"
proof -
  have "s = s'" if "(ucast s :: hash32) = ucast s'" for s s' :: u16
  proof (rule bit_word_eqI)
    fix n assume "n < LENGTH(16)"
    moreover have "bit (ucast s :: hash32) n = bit (ucast s' :: hash32) n" using that by simp
    ultimately show "bit s n = bit s' n" by (simp add: bit_ucast_iff)
  qed
  then show ?thesis by (auto simp: hashes_distinct_def transfer_def transfer_intent_def inj_on_def)
qed


end
