(* ===== verification/LedgerFacade.thy ===== *)
theory LedgerFacade
  imports LedgerEvents LedgerUtxos
begin

text \<open>
  The facade \<open>LedgerState\<close> (\<open>domain/ledger/ledger_state.rs\<close>) over the two versions of the midnight
  crates. What it calls in the crate of one version is the record \<open>ledger_crate\<close>, where a value that is
  only serialized stands for the outcome of its serialization; the cost model is shared by both. An
  operation that takes \<open>&mut self\<close> returns the new state, or an error and no state. The arena is behind
  \<open>lc_get_lazy\<close> and \<open>lc_key_of\<close>; what persisting does to the root counts is in \<open>RootCounts\<close> and
  \<open>RunLoop\<close>.
\<close>

section \<open>The crates\<close>

text \<open>A cost duration stands for its picoseconds, a fixed-point number for its raw value.\<close>

record SyntheticCost =
  sc_read_time :: u64
  sc_compute_time :: u64
  sc_block_usage :: u64
  sc_bytes_written :: u64
  sc_bytes_churned :: u64

record NormalizedCost =
  nc_read_time :: int
  nc_compute_time :: int
  nc_block_usage :: int
  nc_bytes_written :: int
  nc_bytes_churned :: int

record cost_model =
  cm_default :: SyntheticCost
  cm_add :: "SyntheticCost \<Rightarrow> SyntheticCost \<Rightarrow> SyntheticCost"
  cm_normalize :: "SyntheticCost \<Rightarrow> SyntheticCost \<Rightarrow> NormalizedCost option"

record block_context =
  bx_tblock :: u64
  bx_tblock_err :: u32
  bx_parent_block_hash :: hash32
  bx_last_block_time :: u64

datatype crate_result =
    CrateSuccess "crate_event list"
  | CratePartialSuccess "(u16 \<times> (string + unit)) list" "crate_event list"
  | CrateFailure string

record ('s, 't, 'v, 'y) ledger_crate =
  lc_utxos :: "'s utxo_crate"
  lc_new :: "string \<Rightarrow> 's"
  lc_deserialize_state :: "bytes \<Rightarrow> 's option"
  lc_deserialize_key :: "bytes \<Rightarrow> bytes option"
  lc_get_lazy :: "bytes \<Rightarrow> 's option"
  lc_key_of :: "'s \<Rightarrow> bytes option"
  lc_deserialize_transaction :: "bytes \<Rightarrow> 't option"
  lc_transaction :: "'t \<Rightarrow> crate_transaction"
  lc_cost :: "'t \<Rightarrow> 's \<Rightarrow> SyntheticCost option"
  lc_fees :: "'t \<Rightarrow> 's \<Rightarrow> u128 option"
  lc_overall_cost :: "'s \<Rightarrow> NormalizedCost \<Rightarrow> u128"
  lc_well_formed :: "'t \<Rightarrow> 's \<Rightarrow> u64 \<Rightarrow> 'v option"
  lc_apply :: "'s \<Rightarrow> 'v \<Rightarrow> block_context \<Rightarrow> 's \<times> crate_result"
  lc_deserialize_system :: "bytes \<Rightarrow> 'y option"
  lc_system_transaction :: "'y \<Rightarrow> system_transaction"
  lc_system_cost :: "'y \<Rightarrow> 's \<Rightarrow> SyntheticCost"
  lc_apply_system :: "'s \<Rightarrow> 'y \<Rightarrow> u64 \<Rightarrow> ('s \<times> crate_event list) option"
  lc_block_limits :: "'s \<Rightarrow> SyntheticCost"
  lc_post_block_update :: "'s \<Rightarrow> u64 \<Rightarrow> NormalizedCost \<Rightarrow> int \<Rightarrow> 's option"
  lc_zswap_first_free :: "'s \<Rightarrow> u64"
  lc_dust_commitments_first_free :: "'s \<Rightarrow> u64"
  lc_dust_generations_first_free :: "'s \<Rightarrow> u64"
  lc_coin_root :: "'s \<Rightarrow> bytes"
  lc_collapsed_update :: "'s \<Rightarrow> u64 \<Rightarrow> u64 \<Rightarrow> bytes option option"
  lc_dust_commitments_root :: "'s \<Rightarrow> bytes option"
  lc_dust_generations_root :: "'s \<Rightarrow> bytes option"
  lc_bridge_receiving :: "'s \<Rightarrow> hash32 \<Rightarrow> u128 option"
  lc_serialized_parameters :: "'s \<Rightarrow> bytes option"
  lc_deserialize_digest :: "bytes \<Rightarrow> bytes option"
  lc_serialize_digest :: "bytes \<Rightarrow> bytes option"

text \<open>Both versions, over the same types of states, transactions and so on (their sums).\<close>

record ('s, 't, 'v, 'y) ledger_crates =
  cr_v8 :: "('s, 't, 'v, 'y) ledger_crate"
  cr_v9 :: "('s, 't, 'v, 'y) ledger_crate"
  cr_cost :: cost_model

datatype 's LedgerState = StateV8 's SyntheticCost | StateV9 's SyntheticCost

section \<open>Creation, loading, versions\<close>

fun ledger_state_new ::
    "('s, 't, 'v, 'y) ledger_crates \<Rightarrow> string \<Rightarrow> LedgerVersion \<Rightarrow> LedgerError + 's LedgerState" where
  "ledger_state_new C network_id LV8 = Inr (StateV8 (lc_new (cr_v8 C) network_id) (cm_default (cr_cost C)))"
| "ledger_state_new C network_id LV9 = Inr (StateV9 (lc_new (cr_v9 C) network_id) (cm_default (cr_cost C)))"

fun from_genesis :: "('s, 't, 'v, 'y) ledger_crates \<Rightarrow> bytes \<Rightarrow> LedgerVersion \<Rightarrow> LedgerError + 's LedgerState" where
  "from_genesis C raw LV8 =
     and_then (ok_or (DeserializeError ''GenesisLedgerStateV8'') (lc_deserialize_state (cr_v8 C) raw)) (\<lambda>ledger_state.
       Inr (StateV8 ledger_state (cm_default (cr_cost C))))"
| "from_genesis C raw LV9 =
     and_then (ok_or (DeserializeError ''GenesisLedgerStateV9'') (lc_deserialize_state (cr_v9 C) raw)) (\<lambda>ledger_state.
       Inr (StateV9 ledger_state (cm_default (cr_cost C))))"

fun ledger_state_load :: "('s, 't, 'v, 'y) ledger_crates \<Rightarrow> bytes \<Rightarrow> LedgerVersion \<Rightarrow> LedgerError + 's LedgerState" where
  "ledger_state_load C key LV8 =
     and_then (ok_or (DeserializeError ''TypedArenaKeyV8'') (lc_deserialize_key (cr_v8 C) key)) (\<lambda>arena_key.
     and_then (ok_or (LoadLedgerState key) (lc_get_lazy (cr_v8 C) arena_key)) (\<lambda>ledger_state.
       Inr (StateV8 ledger_state (cm_default (cr_cost C)))))"
| "ledger_state_load C key LV9 =
     and_then (ok_or (DeserializeError ''TypedArenaKeyV9'') (lc_deserialize_key (cr_v9 C) key)) (\<lambda>arena_key.
     and_then (ok_or (LoadLedgerState key) (lc_get_lazy (cr_v9 C) arena_key)) (\<lambda>ledger_state.
       Inr (StateV9 ledger_state (cm_default (cr_cost C)))))"

fun translate :: "'s LedgerState \<Rightarrow> LedgerVersion \<Rightarrow> LedgerError + 's LedgerState" where
  "translate (StateV8 s f) LV8 = Inr (StateV8 s f)"
| "translate (StateV9 s f) LV9 = Inr (StateV9 s f)"
| "translate (StateV8 s f) LV9 = Inl (UnsupportedLedgerStateTranslation LV8 LV9)"
| "translate (StateV9 s f) LV8 = Inl (BackwardsLedgerStateTranslation LV9 LV8)"

fun state_version :: "'s LedgerState \<Rightarrow> LedgerVersion" where
  "state_version (StateV8 _ _) = LV8"
| "state_version (StateV9 _ _) = LV9"

fun ledger_state_root :: "('s, 't, 'v, 'y) ledger_crates \<Rightarrow> 's LedgerState \<Rightarrow> LedgerError + bytes" where
  "ledger_state_root C (StateV8 s _) = ok_or (SerializeError ''LedgerStateV8'') (lc_key_of (cr_v8 C) s)"
| "ledger_state_root C (StateV9 s _) = ok_or (SerializeError ''LedgerStateV9'') (lc_key_of (cr_v9 C) s)"

fun ledger_state_persist ::
    "('s, 't, 'v, 'y) ledger_crates \<Rightarrow> 's LedgerState \<Rightarrow> LedgerError + 's LedgerState \<times> bytes" where
  "ledger_state_persist C (StateV8 s f) =
     and_then (ok_or (SerializeError ''TypedArenaKeyV8'') (lc_key_of (cr_v8 C) s)) (\<lambda>key. Inr (StateV8 s f, key))"
| "ledger_state_persist C (StateV9 s f) =
     and_then (ok_or (SerializeError ''TypedArenaKeyV9'') (lc_key_of (cr_v9 C) s)) (\<lambda>key. Inr (StateV9 s f, key))"

fun arena_key_hash :: "('s, 't, 'v, 'y) ledger_crates \<Rightarrow> bytes \<Rightarrow> LedgerVersion \<Rightarrow> LedgerError + bytes" where
  "arena_key_hash C key LV8 = ok_or (DeserializeError ''TypedArenaKeyV8'') (lc_deserialize_key (cr_v8 C) key)"
| "arena_key_hash C key LV9 = ok_or (DeserializeError ''TypedArenaKeyV9'') (lc_deserialize_key (cr_v9 C) key)"

section \<open>Regular transactions\<close>

definition block_seconds :: "u64 \<Rightarrow> u64" where
  "block_seconds block_timestamp = block_timestamp div 1000"

fun result_of :: "crate_result \<Rightarrow> TransactionResult \<times> crate_event list \<times> bool" where
  "result_of (CrateSuccess events) = (Success, events, True)"
| "result_of (CratePartialSuccess segments events) =
     (PartialSuccess (map (\<lambda>(id, r). (id, case r of Inl _ \<Rightarrow> False | Inr _ \<Rightarrow> True)) segments), events, True)"
| "result_of (CrateFailure _) = (Failure, [], False)"

definition apply_context :: "hash32 \<Rightarrow> u64 \<Rightarrow> u64 \<Rightarrow> block_context" where
  "apply_context parent_block_hash block_timestamp parent_block_timestamp =
     \<lparr>bx_tblock = block_seconds block_timestamp, bx_tblock_err = 30, bx_parent_block_hash = parent_block_hash,
      bx_last_block_time = block_seconds parent_block_timestamp\<rparr>"

definition apply_regular_v8 ::
    "('s, 't, 'v, 'y) ledger_crates \<Rightarrow> 's \<Rightarrow> SyntheticCost \<Rightarrow> bytes \<Rightarrow> hash32 \<Rightarrow> u64 \<Rightarrow> u64 \<Rightarrow> u64 \<Rightarrow>
       LedgerError + 's LedgerState \<times> ApplyRegularTransactionOutcome" where
  "apply_regular_v8 C ledger_state block_fullness raw parent_block_hash block_timestamp parent_block_timestamp
      well_formed_timestamp =
     (let K = cr_v8 C
      in and_then (ok_or (DeserializeError ''LedgerTransactionV8'') (lc_deserialize_transaction K raw)) (\<lambda>transaction.
      let cx = apply_context parent_block_hash block_timestamp parent_block_timestamp
      in and_then (ok_or TransactionCost (lc_cost K transaction ledger_state)) (\<lambda>cost.
      and_then (ok_or TransactionCost (lc_fees K transaction ledger_state)) (\<lambda>fees.
      and_then (ok_or MalformedTransaction
          (lc_well_formed K transaction ledger_state (block_seconds well_formed_timestamp))) (\<lambda>verified.
      let (ledger_state, crate_result) = lc_apply K ledger_state verified cx;
          (transaction_result, events, should_count_cost) = result_of crate_result;
          block_fullness = (if should_count_cost then cm_add (cr_cost C) block_fullness cost else block_fullness);
          (created, spent) = make_unshielded_utxos_for_regular_transaction_v8 (lc_utxos K)
            (lc_transaction K transaction) transaction_result ledger_state
      in and_then (make_ledger_events_v8 events) (\<lambda>ledger_events.
         Inr (StateV8 ledger_state block_fullness,
           \<lparr>ro_transaction_result = transaction_result, ro_created_unshielded_utxos = created,
            ro_spent_unshielded_utxos = spent, ro_ledger_events = ledger_events, ro_fees = fees,
            ro_bridge_claim = None\<rparr>)))))))"

fun bridge_claim_of :: "'s utxo_crate \<Rightarrow> crate_transaction \<Rightarrow> BridgeClaim option" where
  "bridge_claim_of U (RewardClaim claim) =
     (if rc_cardano_bridge claim
      then Some \<lparr>bc_recipient = uc_user_address U (rc_owner claim), bc_amount = rc_value claim\<rparr> else None)"
| "bridge_claim_of U (StandardTransaction _) = None"

definition apply_regular_v9 ::
    "('s, 't, 'v, 'y) ledger_crates \<Rightarrow> 's \<Rightarrow> SyntheticCost \<Rightarrow> bytes \<Rightarrow> hash32 \<Rightarrow> u64 \<Rightarrow> u64 \<Rightarrow> u64 \<Rightarrow>
       LedgerError + 's LedgerState \<times> ApplyRegularTransactionOutcome" where
  "apply_regular_v9 C ledger_state block_fullness raw parent_block_hash block_timestamp parent_block_timestamp
      well_formed_timestamp =
     (let K = cr_v9 C
      in and_then (ok_or (DeserializeError ''LedgerTransactionV9'') (lc_deserialize_transaction K raw)) (\<lambda>transaction.
      let cx = apply_context parent_block_hash block_timestamp parent_block_timestamp
      in and_then (ok_or TransactionCost (lc_cost K transaction ledger_state)) (\<lambda>cost.
      and_then (ok_or TransactionCost (cm_normalize (cr_cost C) cost (lc_block_limits K ledger_state))) (\<lambda>normalized.
      let fees = lc_overall_cost K ledger_state normalized
      in and_then (ok_or MalformedTransaction
          (lc_well_formed K transaction ledger_state (block_seconds well_formed_timestamp))) (\<lambda>verified.
      let (ledger_state, crate_result) = lc_apply K ledger_state verified cx;
          (transaction_result, events, should_count_cost) = result_of crate_result;
          block_fullness = (if should_count_cost then cm_add (cr_cost C) block_fullness cost else block_fullness);
          bridge_claim = bridge_claim_of (lc_utxos K) (lc_transaction K transaction);
          (created, spent) = make_unshielded_utxos_for_regular_transaction (lc_utxos K)
            (lc_transaction K transaction) transaction_result ledger_state
      in and_then (make_ledger_events_v9 events) (\<lambda>ledger_events.
         Inr (StateV9 ledger_state block_fullness,
           \<lparr>ro_transaction_result = transaction_result, ro_created_unshielded_utxos = created,
            ro_spent_unshielded_utxos = spent, ro_ledger_events = ledger_events, ro_fees = fees,
            ro_bridge_claim = bridge_claim\<rparr>)))))))"

fun apply_regular_transaction ::
    "('s, 't, 'v, 'y) ledger_crates \<Rightarrow> 's LedgerState \<Rightarrow> bytes \<Rightarrow> hash32 \<Rightarrow> u64 \<Rightarrow> u64 \<Rightarrow> u64 \<Rightarrow>
       LedgerError + 's LedgerState \<times> ApplyRegularTransactionOutcome" where
  "apply_regular_transaction C (StateV8 s f) raw p t pt w = apply_regular_v8 C s f raw p t pt w"
| "apply_regular_transaction C (StateV9 s f) raw p t pt w = apply_regular_v9 C s f raw p t pt w"

section \<open>System transactions\<close>

definition apply_system_v8 ::
    "('s, 't, 'v, 'y) ledger_crates \<Rightarrow> 's \<Rightarrow> SyntheticCost \<Rightarrow> bytes \<Rightarrow> u64 \<Rightarrow>
       LedgerError + 's LedgerState \<times> ApplySystemTransactionOutcome" where
  "apply_system_v8 C ledger_state block_fullness raw block_timestamp =
     (let K = cr_v8 C
      in and_then (ok_or (DeserializeError ''SystemTransactionV8'') (lc_deserialize_system K raw)) (\<lambda>transaction.
      let cost = lc_system_cost K transaction ledger_state
      in and_then (ok_or SystemTransactionError
          (lc_apply_system K ledger_state transaction (block_seconds block_timestamp))) (\<lambda>(ledger_state, events).
      let block_fullness = cm_add (cr_cost C) block_fullness cost;
          created = make_unshielded_utxos_for_system_transaction_v8 (lc_utxos K)
            (lc_system_transaction K transaction) ledger_state
      in and_then (make_ledger_events_v8 events) (\<lambda>ledger_events.
         Inr (StateV8 ledger_state block_fullness,
           \<lparr>so_created_unshielded_utxos = created, so_ledger_events = ledger_events\<rparr>)))))"

definition apply_system_v9 ::
    "('s, 't, 'v, 'y) ledger_crates \<Rightarrow> 's \<Rightarrow> SyntheticCost \<Rightarrow> bytes \<Rightarrow> u64 \<Rightarrow>
       LedgerError + 's LedgerState \<times> ApplySystemTransactionOutcome" where
  "apply_system_v9 C ledger_state block_fullness raw block_timestamp =
     (let K = cr_v9 C
      in and_then (ok_or (DeserializeError ''SystemTransactionV9'') (lc_deserialize_system K raw)) (\<lambda>transaction.
      let cost = lc_system_cost K transaction ledger_state
      in and_then (ok_or SystemTransactionError
          (lc_apply_system K ledger_state transaction (block_seconds block_timestamp))) (\<lambda>(ledger_state, events).
      let block_fullness = cm_add (cr_cost C) block_fullness cost;
          created = make_unshielded_utxos_for_system_transaction (lc_utxos K)
            (lc_system_transaction K transaction) ledger_state
      in and_then (make_ledger_events_v9 events) (\<lambda>ledger_events.
         Inr (StateV9 ledger_state block_fullness,
           \<lparr>so_created_unshielded_utxos = created, so_ledger_events = ledger_events\<rparr>)))))"

fun apply_system_transaction ::
    "('s, 't, 'v, 'y) ledger_crates \<Rightarrow> 's LedgerState \<Rightarrow> bytes \<Rightarrow> u64 \<Rightarrow>
       LedgerError + 's LedgerState \<times> ApplySystemTransactionOutcome" where
  "apply_system_transaction C (StateV8 s f) raw t = apply_system_v8 C s f raw t"
| "apply_system_transaction C (StateV9 s f) raw t = apply_system_v9 C s f raw t"

section \<open>The end of a block\<close>

definition clamped_cost :: "SyntheticCost \<Rightarrow> SyntheticCost \<Rightarrow> SyntheticCost" where
  "clamped_cost cost limits =
     \<lparr>sc_read_time = min (sc_read_time cost) (sc_read_time limits),
      sc_compute_time = min (sc_compute_time cost) (sc_compute_time limits),
      sc_block_usage = min (sc_block_usage cost) (sc_block_usage limits),
      sc_bytes_written = min (sc_bytes_written cost) (sc_bytes_written limits),
      sc_bytes_churned = min (sc_bytes_churned cost) (sc_bytes_churned limits)\<rparr>"

definition clamp_and_normalize :: "cost_model \<Rightarrow> SyntheticCost \<Rightarrow> SyntheticCost \<Rightarrow> LedgerError + NormalizedCost" where
  "clamp_and_normalize M cost limits =
     ok_or (LedgerPanic ''clamped cost normalises'') (cm_normalize M (clamped_cost cost limits) limits)"

definition overall_fullness :: "NormalizedCost \<Rightarrow> int" where
  "overall_fullness n =
     max (max (max (nc_read_time n) (nc_compute_time n)) (nc_block_usage n))
       (max (nc_bytes_written n) (nc_bytes_churned n))"

definition finalize_with ::
    "('s, 't, 'v, 'y) ledger_crate \<Rightarrow> cost_model \<Rightarrow> 's \<Rightarrow> SyntheticCost \<Rightarrow> u64 \<Rightarrow> LedgerError + 's" where
  "finalize_with K M ledger_state block_fullness block_timestamp =
     and_then (clamp_and_normalize M block_fullness (lc_block_limits K ledger_state)) (\<lambda>normalized_fullness.
       ok_or BlockLimitExceeded
         (lc_post_block_update K ledger_state (block_seconds block_timestamp) normalized_fullness
            (overall_fullness normalized_fullness)))"

fun finalize_apply_transactions ::
    "('s, 't, 'v, 'y) ledger_crates \<Rightarrow> 's LedgerState \<Rightarrow> u64 \<Rightarrow> LedgerError + 's LedgerState" where
  "finalize_apply_transactions C (StateV8 s f) t =
     and_then (finalize_with (cr_v8 C) (cr_cost C) s f t) (\<lambda>s. Inr (StateV8 s (cm_default (cr_cost C))))"
| "finalize_apply_transactions C (StateV9 s f) t =
     and_then (finalize_with (cr_v9 C) (cr_cost C) s f t) (\<lambda>s. Inr (StateV9 s (cm_default (cr_cost C))))"

section \<open>Reads\<close>

fun bridge_receiving :: "('s, 't, 'v, 'y) ledger_crates \<Rightarrow> 's LedgerState \<Rightarrow> hash32 \<Rightarrow> u128" where
  "bridge_receiving C (StateV8 _ _) address = 0"
| "bridge_receiving C (StateV9 s _) address =
     (case lc_bridge_receiving (cr_v9 C) s address of None \<Rightarrow> 0 | Some amount \<Rightarrow> amount)"

fun zswap_first_free :: "('s, 't, 'v, 'y) ledger_crates \<Rightarrow> 's LedgerState \<Rightarrow> u64" where
  "zswap_first_free C (StateV8 s _) = lc_zswap_first_free (cr_v8 C) s"
| "zswap_first_free C (StateV9 s _) = lc_zswap_first_free (cr_v9 C) s"

fun dust_commitments_first_free :: "('s, 't, 'v, 'y) ledger_crates \<Rightarrow> 's LedgerState \<Rightarrow> u64" where
  "dust_commitments_first_free C (StateV8 s _) = lc_dust_commitments_first_free (cr_v8 C) s"
| "dust_commitments_first_free C (StateV9 s _) = lc_dust_commitments_first_free (cr_v9 C) s"

fun dust_generations_first_free :: "('s, 't, 'v, 'y) ledger_crates \<Rightarrow> 's LedgerState \<Rightarrow> u64" where
  "dust_generations_first_free C (StateV8 s _) = lc_dust_generations_first_free (cr_v8 C) s"
| "dust_generations_first_free C (StateV9 s _) = lc_dust_generations_first_free (cr_v9 C) s"

fun zswap_merkle_tree_root :: "('s, 't, 'v, 'y) ledger_crates \<Rightarrow> 's LedgerState \<Rightarrow> ZswapMerkleTreeRoot" where
  "zswap_merkle_tree_root C (StateV8 s _) = ZRootV8 (lc_coin_root (cr_v8 C) s)"
| "zswap_merkle_tree_root C (StateV9 s _) = ZRootV9 (lc_coin_root (cr_v9 C) s)"

fun make_zswap_collapsed_update ::
    "('s, 't, 'v, 'y) ledger_crates \<Rightarrow> 's LedgerState \<Rightarrow> u64 \<Rightarrow> u64 \<Rightarrow> LedgerError + bytes" where
  "make_zswap_collapsed_update C (StateV8 s _) start_index end_index =
     and_then (ok_or InvalidUpdate (lc_collapsed_update (cr_v8 C) s start_index end_index)) (\<lambda>update.
       ok_or (SerializeError ''MerkleTreeCollapsedUpdate'') update)"
| "make_zswap_collapsed_update C (StateV9 s _) start_index end_index =
     and_then (ok_or InvalidUpdate (lc_collapsed_update (cr_v9 C) s start_index end_index)) (\<lambda>update.
       ok_or (SerializeError ''MerkleTreeCollapsedUpdate'') update)"

fun dust_commitment_merkle_tree_root :: "('s, 't, 'v, 'y) ledger_crates \<Rightarrow> 's LedgerState \<Rightarrow> LedgerError + bytes" where
  "dust_commitment_merkle_tree_root C (StateV8 s _) =
     ok_or (SerializeError ''DustCommitmentMerkleTreeRoot'') (lc_dust_commitments_root (cr_v8 C) s)"
| "dust_commitment_merkle_tree_root C (StateV9 s _) =
     ok_or (SerializeError ''DustCommitmentMerkleTreeRoot'') (lc_dust_commitments_root (cr_v9 C) s)"

fun dust_generation_merkle_tree_root :: "('s, 't, 'v, 'y) ledger_crates \<Rightarrow> 's LedgerState \<Rightarrow> LedgerError + bytes" where
  "dust_generation_merkle_tree_root C (StateV8 s _) =
     ok_or (SerializeError ''DustGenerationMerkleTreeRoot'') (lc_dust_generations_root (cr_v8 C) s)"
| "dust_generation_merkle_tree_root C (StateV9 s _) =
     ok_or (SerializeError ''DustGenerationMerkleTreeRoot'') (lc_dust_generations_root (cr_v9 C) s)"

fun serialized_ledger_parameters :: "('s, 't, 'v, 'y) ledger_crates \<Rightarrow> 's LedgerState \<Rightarrow> LedgerError + bytes" where
  "serialized_ledger_parameters C (StateV8 s _) =
     ok_or (SerializeError ''SerializedLedgerParametersV8'') (lc_serialized_parameters (cr_v8 C) s)"
| "serialized_ledger_parameters C (StateV9 s _) =
     ok_or (SerializeError ''SerializedLedgerParametersV9'') (lc_serialized_parameters (cr_v9 C) s)"

fun zswap_root_deserialize ::
    "('s, 't, 'v, 'y) ledger_crates \<Rightarrow> bytes \<Rightarrow> LedgerVersion \<Rightarrow> LedgerError + ZswapMerkleTreeRoot" where
  "zswap_root_deserialize C raw LV8 =
     and_then (ok_or (DeserializeError ''MerkleTreeDigestV8'') (lc_deserialize_digest (cr_v8 C) raw)) (\<lambda>d. Inr (ZRootV8 d))"
| "zswap_root_deserialize C raw LV9 =
     and_then (ok_or (DeserializeError ''MerkleTreeDigestV9'') (lc_deserialize_digest (cr_v9 C) raw)) (\<lambda>d. Inr (ZRootV9 d))"

fun zswap_root_serialize :: "('s, 't, 'v, 'y) ledger_crates \<Rightarrow> ZswapMerkleTreeRoot \<Rightarrow> LedgerError + bytes" where
  "zswap_root_serialize C (ZRootV8 d) = ok_or (SerializeError ''MerkleTreeDigestV8'') (lc_serialize_digest (cr_v8 C) d)"
| "zswap_root_serialize C (ZRootV9 d) = ok_or (SerializeError ''MerkleTreeDigestV9'') (lc_serialize_digest (cr_v9 C) d)"

end
