(* ===== verification/NodeTx.thy ===== *)
theory NodeTx
  imports LedgerFacade
begin

text \<open>
  Transactions as the node client makes them: the part of the transaction facade
  (\<open>ledger/transaction.rs\<close>) that reads the hash, the identifiers and the contract actions, and
  \<open>make_transaction\<close> of \<open>subxt_node.rs\<close>. Of a transaction of the midnight crates the code
  reads the view \<open>tx_view\<close>, where a value that is only serialized stands for the outcome of its
  serialization; deserialization is the record \<open>tx_crates\<close>. The state of a contract is a call to the
  node, a parameter.
\<close>

section \<open>UTF-8\<close>

text \<open>\<open>String::from_utf8\<close>: well-formed sequences without overlong forms and surrogates.\<close>

definition continuation :: "u8 \<Rightarrow> bool" where
  "continuation b = (0x80 \<le> b \<and> b \<le> 0xBF)"

fun valid_utf8 :: "bytes \<Rightarrow> bool" where
  "valid_utf8 [] = True"
| "valid_utf8 (a # rest) =
     (if a \<le> 0x7F then valid_utf8 rest
      else if 0xC2 \<le> a \<and> a \<le> 0xDF then
        (case rest of b # rest' \<Rightarrow> continuation b \<and> valid_utf8 rest' | _ \<Rightarrow> False)
      else if 0xE0 \<le> a \<and> a \<le> 0xEF then
        (case rest of
           b # c # rest' \<Rightarrow>
             (if a = 0xE0 then 0xA0 \<le> b \<and> b \<le> 0xBF
              else if a = 0xED then 0x80 \<le> b \<and> b \<le> 0x9F else continuation b)
             \<and> continuation c \<and> valid_utf8 rest'
         | _ \<Rightarrow> False)
      else if 0xF0 \<le> a \<and> a \<le> 0xF4 then
        (case rest of
           b # c # d # rest' \<Rightarrow>
             (if a = 0xF0 then 0x90 \<le> b \<and> b \<le> 0xBF
              else if a = 0xF4 then 0x80 \<le> b \<and> b \<le> 0x8F else continuation b)
             \<and> continuation c \<and> continuation d \<and> valid_utf8 rest'
         | _ \<Rightarrow> False)
      else False)"

definition from_utf8 :: "bytes \<Rightarrow> string option" where
  "from_utf8 bs = (if valid_utf8 bs then Some (map (\<lambda>b. char_of (unat b)) bs) else None)"

section \<open>Views of transactions\<close>

datatype crate_action =
    CrateDeploy "bytes option"
  | CrateCall "bytes option" bytes
  | CrateMaintain "bytes option"

text \<open>The actions of a standard transaction; \<open>None\<close> for a reward claim.\<close>

record tx_view =
  tv_hash :: hash32
  tv_identifiers :: "bytes option list"
  tv_actions :: "crate_action list option"

datatype ChainTransaction = ChainTxV8 tx_view | ChainTxV9 tx_view

datatype ChainSystemTransaction = ChainSystemV8 hash32 | ChainSystemV9 hash32

record tx_crates =
  xc_deserialize_v8 :: "bytes \<Rightarrow> tx_view option"
  xc_deserialize_v9 :: "bytes \<Rightarrow> tx_view option"
  xc_deserialize_system_v8 :: "bytes \<Rightarrow> hash32 option"
  xc_deserialize_system_v9 :: "bytes \<Rightarrow> hash32 option"

fun chain_tx_deserialize :: "tx_crates \<Rightarrow> bytes \<Rightarrow> LedgerVersion \<Rightarrow> LedgerError + ChainTransaction" where
  "chain_tx_deserialize X raw LV8 =
     and_then (ok_or (DeserializeError ''LedgerTransactionV8'') (xc_deserialize_v8 X raw)) (\<lambda>t. Inr (ChainTxV8 t))"
| "chain_tx_deserialize X raw LV9 =
     and_then (ok_or (DeserializeError ''LedgerTransactionV9'') (xc_deserialize_v9 X raw)) (\<lambda>t. Inr (ChainTxV9 t))"

fun chain_tx_hash :: "ChainTransaction \<Rightarrow> hash32" where
  "chain_tx_hash (ChainTxV8 t) = tv_hash t"
| "chain_tx_hash (ChainTxV9 t) = tv_hash t"

fun identifiers :: "ChainTransaction \<Rightarrow> LedgerError + bytes list" where
  "identifiers (ChainTxV8 t) = try_map (ok_or (SerializeError ''TransactionIdentifierV8'')) (tv_identifiers t)"
| "identifiers (ChainTxV9 t) = try_map (ok_or (SerializeError ''TransactionIdentifierV9'')) (tv_identifiers t)"

definition serialize_contract_address :: "bytes option \<Rightarrow> LedgerError + bytes" where
  "serialize_contract_address address = ok_or (SerializeError ''ContractAddress'') address"

definition serialize_contract_address_v9 :: "bytes option \<Rightarrow> LedgerError + bytes" where
  "serialize_contract_address_v9 address = ok_or (SerializeError ''ContractAddressV9'') address"

text \<open>One action; the error of the node call is replaced by that of the facade.\<close>

fun contract_action_v8 :: "(bytes \<Rightarrow> 'e + bytes) \<Rightarrow> crate_action \<Rightarrow> LedgerError + ContractAction" where
  "contract_action_v8 get_contract_state (CrateDeploy address) =
     and_then (serialize_contract_address address) (\<lambda>address.
     and_then (map_err (\<lambda>_. GetContractState address) (get_contract_state address)) (\<lambda>state.
       Inr \<lparr>ca_address = address, ca_state = state, ca_attributes = Deploy\<rparr>))"
| "contract_action_v8 get_contract_state (CrateCall address entry_point) =
     and_then (serialize_contract_address address) (\<lambda>address.
     and_then (map_err (\<lambda>_. GetContractState address) (get_contract_state address)) (\<lambda>state.
     and_then (ok_or (FromUtf8 ''EntryPointBufV8'') (from_utf8 entry_point)) (\<lambda>entry_point.
       Inr \<lparr>ca_address = address, ca_state = state, ca_attributes = Call entry_point\<rparr>)))"
| "contract_action_v8 get_contract_state (CrateMaintain address) =
     and_then (serialize_contract_address address) (\<lambda>address.
     and_then (map_err (\<lambda>_. GetContractState address) (get_contract_state address)) (\<lambda>state.
       Inr \<lparr>ca_address = address, ca_state = state, ca_attributes = Update\<rparr>))"

fun contract_action_v9 :: "(bytes \<Rightarrow> 'e + bytes) \<Rightarrow> crate_action \<Rightarrow> LedgerError + ContractAction" where
  "contract_action_v9 get_contract_state (CrateDeploy address) =
     and_then (serialize_contract_address_v9 address) (\<lambda>address.
     and_then (map_err (\<lambda>_. GetContractState address) (get_contract_state address)) (\<lambda>state.
       Inr \<lparr>ca_address = address, ca_state = state, ca_attributes = Deploy\<rparr>))"
| "contract_action_v9 get_contract_state (CrateCall address entry_point) =
     and_then (serialize_contract_address_v9 address) (\<lambda>address.
     and_then (map_err (\<lambda>_. GetContractState address) (get_contract_state address)) (\<lambda>state.
     and_then (ok_or (FromUtf8 ''EntryPointBufV9'') (from_utf8 entry_point)) (\<lambda>entry_point.
       Inr \<lparr>ca_address = address, ca_state = state, ca_attributes = Call entry_point\<rparr>)))"
| "contract_action_v9 get_contract_state (CrateMaintain address) =
     and_then (serialize_contract_address_v9 address) (\<lambda>address.
     and_then (map_err (\<lambda>_. GetContractState address) (get_contract_state address)) (\<lambda>state.
       Inr \<lparr>ca_address = address, ca_state = state, ca_attributes = Update\<rparr>))"

fun tx_contract_actions :: "(bytes \<Rightarrow> 'e + bytes) \<Rightarrow> ChainTransaction \<Rightarrow> LedgerError + ContractAction list" where
  "tx_contract_actions get_contract_state (ChainTxV8 t) =
     (case tv_actions t of
        Some actions \<Rightarrow> try_map (contract_action_v8 get_contract_state) actions
      | None \<Rightarrow> Inr [])"
| "tx_contract_actions get_contract_state (ChainTxV9 t) =
     (case tv_actions t of
        Some actions \<Rightarrow> try_map (contract_action_v9 get_contract_state) actions
      | None \<Rightarrow> Inr [])"

fun system_tx_deserialize :: "tx_crates \<Rightarrow> bytes \<Rightarrow> LedgerVersion \<Rightarrow> LedgerError + ChainSystemTransaction" where
  "system_tx_deserialize X raw LV8 =
     and_then (ok_or (DeserializeError ''LedgerSystemTransactionV8'') (xc_deserialize_system_v8 X raw))
       (\<lambda>t. Inr (ChainSystemV8 t))"
| "system_tx_deserialize X raw LV9 =
     and_then (ok_or (DeserializeError ''LedgerSystemTransactionV9'') (xc_deserialize_system_v9 X raw))
       (\<lambda>t. Inr (ChainSystemV9 t))"

fun system_tx_hash :: "ChainSystemTransaction \<Rightarrow> hash32" where
  "system_tx_hash (ChainSystemV8 h) = h"
| "system_tx_hash (ChainSystemV9 h) = h"

section \<open>Errors of the node client\<close>

datatype SubxtNodeError =
    SubscribeFinalizedBlocks
  | ReceiveBlock
  | GetOnlineClientAt hash32
  | GetOnlineClientAtHeight u64
  | ParentHashMismatch u64 hash32 hash32
  | FetchExtrinsics
  | FetchEvents
  | GetBlockHeader
  | MissingProtocolVersionHeader
  | GetNextExtrinsic
  | DecodeExtrinsicAsCall
  | GetNextEvent
  | DecodeEvent
  | DecodeBridgeRecipient BridgeRecipientError
  | FetchAuthorities
  | DecodeAuthorities
  | InvalidBabePreDigestTag u8
  | FetchGenesisCnightRegistrations
  | DecodeGenesisCnightRegistrations
  | DecodeGenesisCnightRegistrationKey
  | NodeGetContractState bytes
  | GetZswapStateRoot
  | HexDecodeGenesisLedgerState
  | GetLedgerStateRoot
  | FetchSystemProperties
  | GenesisLedgerStateNotFound
  | NodeProtocolVersion ProtocolVersionError
  | NodeScaleDecode
  | NodeLedger LedgerError

section \<open>Making a transaction\<close>

text \<open>A transaction as the runtime carries it.\<close>

datatype RuntimeTransaction = RuntimeRegular bytes | RuntimeSystem bytes

definition make_regular_transaction ::
    "tx_crates \<Rightarrow> (bytes \<Rightarrow> SubxtNodeError + bytes) \<Rightarrow> ProtocolVersion \<Rightarrow> bytes \<Rightarrow> SubxtNodeError + Transaction" where
  "make_regular_transaction X get_contract_state version transaction =
     and_then (map_err NodeLedger (chain_tx_deserialize X transaction (ledger_version version)))
       (\<lambda>ledger_transaction.
     and_then (map_err NodeLedger (identifiers ledger_transaction)) (\<lambda>identifiers.
     and_then (map_err NodeLedger (tx_contract_actions get_contract_state ledger_transaction)) (\<lambda>contract_actions.
       Inr (RegularTx \<lparr>rt_hash = chain_tx_hash ledger_transaction, rt_protocol_version = version,
         rt_raw = transaction, rt_identifiers = identifiers, rt_contract_actions = contract_actions\<rparr>))))"

definition make_system_transaction ::
    "tx_crates \<Rightarrow> ProtocolVersion \<Rightarrow> bytes \<Rightarrow> SubxtNodeError + Transaction" where
  "make_system_transaction X version transaction =
     and_then (map_err NodeLedger (system_tx_deserialize X transaction (ledger_version version)))
       (\<lambda>ledger_transaction.
       Inr (SystemTx \<lparr>st_hash = system_tx_hash ledger_transaction, st_protocol_version = version,
         st_raw = transaction\<rparr>))"

fun make_transaction ::
    "tx_crates \<Rightarrow> (bytes \<Rightarrow> SubxtNodeError + bytes) \<Rightarrow> ProtocolVersion \<Rightarrow> RuntimeTransaction \<Rightarrow>
       SubxtNodeError + Transaction" where
  "make_transaction X get_contract_state version (RuntimeRegular transaction) =
     make_regular_transaction X get_contract_state version transaction"
| "make_transaction X get_contract_state version (RuntimeSystem transaction) =
     make_system_transaction X version transaction"

end
