(* ===== verification/NodeRuntimes.thy ===== *)
theory NodeRuntimes
  imports NodeTx
begin

text \<open>
  What the client reads of a block through the runtime of its node version
  (\<open>subxt_node/runtimes.rs\<close> and \<open>runtimes/v0_22_0.rs\<close> to \<open>v2_1_0.rs\<close>). The answers of
  the node at a block, decoded by the generated code of each runtime, are the record \<open>at_block\<close>: a
  value that is fetched and then decoded is an option in an option, \<open>None\<close> for the error. The
  files of nodes 0.22 and 1.0 have the same code, as have those of nodes 2.0 and 2.1; the code that two
  files share is written once and instantiated for each.
\<close>

section \<open>Answers of the node\<close>

record SubstrateHeader =
  sh_parent_hash :: hash32
  sh_logs :: "digest_item list"

text \<open>The calls that carry a time or a transaction; a call of these pallets without one is \<open>OtherCall\<close>.\<close>

datatype runtime_call =
    TimestampSet u64
  | SendMnTransaction bytes
  | SendMnSystemTransaction bytes
  | OtherCall

datatype cnight_event =
    CnightRegistration bytes29 bytes
  | CnightDeregistration bytes29 bytes
  | CnightMappingAdded bytes29 bytes bytes u32
  | CnightMappingRemoved bytes29 bytes bytes u32
  | CnightOther

datatype c2m_event =
    C2MUserTransfer hash32 u64 bytes hash32
  | C2MReserveTransfer hash32 u64 hash32
  | C2MInvalidTransfer hash32 u64 hash32
  | C2MUnapprovedTransfer hash32 u64 bytes hash32
  | C2MSubminimalFlushTransfer u64 u32 hash32

datatype runtime_event =
    NewSession
  | SystemTransactionApplied bytes
  | CNightObservation cnight_event
  | C2MBridge c2m_event
  | OtherEvent

datatype root_answer = RootValue bytes | RootIncompatibleCodegen | RootFailed

record mapping_entry =
  me_reward_address :: bytes29
  me_dust_public_key :: bytes
  me_utxo_tx_hash :: bytes
  me_utxo_index :: u32

record at_block =
  ab_hash :: hash32
  ab_number :: u64
  ab_header :: "SubstrateHeader option"
  ab_spec_version :: u32
  ab_consensus_engine_api :: bool
  ab_extrinsics :: "(NodeVersion \<Rightarrow> runtime_call option) option list option"
  ab_events :: "(NodeVersion \<Rightarrow> runtime_event option) option list option"
  ab_authorities :: "NodeVersion \<Rightarrow> hash32 list option option"
  ab_contract_state :: "NodeVersion \<Rightarrow> bytes \<Rightarrow> bytes option"
  ab_zswap_root :: "NodeVersion \<Rightarrow> root_answer"
  ab_ledger_root :: "NodeVersion \<Rightarrow> bytes option"
  ab_mappings :: "NodeVersion \<Rightarrow> mapping_entry list option list option"
  ab_mapping :: "NodeVersion \<Rightarrow> ((bytes29 \<times> bytes \<times> u32) option \<times> bytes option) list option"

text \<open>
  The node: its blocks by hash and by height, the genesis hash, the SCALE decoders of the client, and
  which of several concurrent requests that fail fails first.
\<close>

record node =
  nd_at_hash :: "hash32 \<Rightarrow> at_block option"
  nd_at_height :: "u64 \<Rightarrow> at_block option"
  nd_genesis_hash :: hash32
  nd_scale_u8 :: "bytes \<Rightarrow> (u8 \<times> bytes) option"
  nd_scale_u32 :: "bytes \<Rightarrow> (u32 \<times> bytes) option"
  nd_scale_slot :: "NodeVersion \<Rightarrow> bytes \<Rightarrow> u64 option"
  nd_first_error :: "SubxtNodeError list \<Rightarrow> SubxtNodeError"

definition node_at :: "node \<Rightarrow> hash32 \<Rightarrow> SubxtNodeError + at_block" where
  "node_at N hash = ok_or (GetOnlineClientAt hash) (nd_at_hash N hash)"

definition block_at_height :: "node \<Rightarrow> u64 \<Rightarrow> SubxtNodeError + at_block" where
  "block_at_height N height = ok_or (GetOnlineClientAtHeight height) (nd_at_height N height)"

definition block_header :: "at_block \<Rightarrow> SubxtNodeError + SubstrateHeader" where
  "block_header block = ok_or GetBlockHeader (ab_header block)"

section \<open>Block details\<close>

record BlockDetails =
  bd_timestamp :: "u64 option"
  bd_transactions :: "RuntimeTransaction list"
  bd_dust_registration_events :: "DustRegistrationEvent list"
  bd_bridge_events :: "BridgeEvent list"

fun relevant_call :: "runtime_call \<Rightarrow> bool" where
  "relevant_call OtherCall = False"
| "relevant_call _ = True"

text \<open>All extrinsics are decoded, in order; the first failure is the result.\<close>

definition block_calls :: "NodeVersion \<Rightarrow> at_block \<Rightarrow> SubxtNodeError + runtime_call list" where
  "block_calls v block =
     and_then (ok_or FetchExtrinsics (ab_extrinsics block)) (\<lambda>extrinsics.
     and_then (try_map (\<lambda>extrinsic. and_then (ok_or GetNextExtrinsic extrinsic)
                          (\<lambda>decode. ok_or DecodeExtrinsicAsCall (decode v))) extrinsics) (\<lambda>calls.
       Inr (filter relevant_call calls)))"

fun call_time :: "runtime_call \<Rightarrow> u64 option" where
  "call_time (TimestampSet now) = Some now"
| "call_time _ = None"

fun call_transaction :: "runtime_call \<Rightarrow> RuntimeTransaction option" where
  "call_transaction (SendMnTransaction midnight_tx) = Some (RuntimeRegular midnight_tx)"
| "call_transaction (SendMnSystemTransaction midnight_system_tx) = Some (RuntimeSystem midnight_system_tx)"
| "call_transaction _ = None"

fun find_map :: "('a \<Rightarrow> 'b option) \<Rightarrow> 'a list \<Rightarrow> 'b option" where
  "find_map f [] = None"
| "find_map f (x # xs) = (case f x of Some y \<Rightarrow> Some y | None \<Rightarrow> find_map f xs)"

text \<open>What the loop over the events changes: the authorities cache and three lists.\<close>

record event_state =
  es_authorities :: "hash32 list option"
  es_dust :: "DustRegistrationEvent list"
  es_system :: "RuntimeTransaction list"
  es_bridge :: "BridgeEvent list"

fun cnight_registration :: "cnight_event \<Rightarrow> DustRegistrationEvent option" where
  "cnight_registration (CnightRegistration key dust) = Some (Registration key dust)"
| "cnight_registration (CnightDeregistration key dust) = Some (Deregistration key dust)"
| "cnight_registration (CnightMappingAdded key dust utxo index) = Some (MappingAdded key dust utxo index)"
| "cnight_registration (CnightMappingRemoved key dust utxo index) = Some (MappingRemoved key dust utxo index)"
| "cnight_registration CnightOther = None"

fun c2m_bridge_event :: "c2m_event \<Rightarrow> SubxtNodeError + BridgeEvent" where
  "c2m_bridge_event (C2MUserTransfer mc amount recipient midnight) =
     and_then (map_err DecodeBridgeRecipient (bridge_recipient_new recipient)) (\<lambda>recipient.
       Inr (UserTransfer mc amount recipient midnight))"
| "c2m_bridge_event (C2MReserveTransfer mc amount midnight) = Inr (ReserveTransfer mc amount midnight)"
| "c2m_bridge_event (C2MInvalidTransfer mc amount midnight) = Inr (InvalidTransfer mc amount midnight)"
| "c2m_bridge_event (C2MUnapprovedTransfer mc amount recipient midnight) =
     and_then (map_err DecodeBridgeRecipient (bridge_recipient_new recipient)) (\<lambda>recipient.
       Inr (UnapprovedTransfer mc amount recipient midnight))"
| "c2m_bridge_event (C2MSubminimalFlushTransfer amount count midnight) =
     Inr (SubminimalFlushTransfer amount count midnight)"

text \<open>The body of the loop, without the bridge pallet (nodes 0.22 and 1.0) and with it.\<close>

fun event_step_v1 :: "event_state \<Rightarrow> runtime_event \<Rightarrow> SubxtNodeError + event_state" where
  "event_step_v1 s NewSession = Inr (s\<lparr>es_authorities := None\<rparr>)"
| "event_step_v1 s (SystemTransactionApplied tx) = Inr (s\<lparr>es_system := es_system s @ [RuntimeSystem tx]\<rparr>)"
| "event_step_v1 s (CNightObservation e) =
     Inr (case cnight_registration e of Some r \<Rightarrow> s\<lparr>es_dust := es_dust s @ [r]\<rparr> | None \<Rightarrow> s)"
| "event_step_v1 s (C2MBridge e) = Inr s"
| "event_step_v1 s OtherEvent = Inr s"

fun event_step_v2 :: "event_state \<Rightarrow> runtime_event \<Rightarrow> SubxtNodeError + event_state" where
  "event_step_v2 s NewSession = Inr (s\<lparr>es_authorities := None\<rparr>)"
| "event_step_v2 s (SystemTransactionApplied tx) = Inr (s\<lparr>es_system := es_system s @ [RuntimeSystem tx]\<rparr>)"
| "event_step_v2 s (CNightObservation e) =
     Inr (case cnight_registration e of Some r \<Rightarrow> s\<lparr>es_dust := es_dust s @ [r]\<rparr> | None \<Rightarrow> s)"
| "event_step_v2 s (C2MBridge e) =
     and_then (c2m_bridge_event e) (\<lambda>b. Inr (s\<lparr>es_bridge := es_bridge s @ [b]\<rparr>))"
| "event_step_v2 s OtherEvent = Inr s"

definition event_loop ::
    "(event_state \<Rightarrow> runtime_event \<Rightarrow> SubxtNodeError + event_state) \<Rightarrow> NodeVersion \<Rightarrow>
       hash32 list option \<Rightarrow> at_block \<Rightarrow> SubxtNodeError + event_state" where
  "event_loop step v authorities block =
     and_then (ok_or FetchEvents (ab_events block)) (\<lambda>events.
       try_fold (\<lambda>s event. and_then (ok_or GetNextEvent event) (\<lambda>decode.
           and_then (ok_or DecodeEvent (decode v)) (step s)))
         \<lparr>es_authorities = authorities, es_dust = [], es_system = [], es_bridge = []\<rparr> events)"

text \<open>System transactions of events stand before those of extrinsics.\<close>

definition block_details ::
    "(event_state \<Rightarrow> runtime_event \<Rightarrow> SubxtNodeError + event_state) \<Rightarrow> NodeVersion \<Rightarrow>
       hash32 list option \<Rightarrow> at_block \<Rightarrow> SubxtNodeError + hash32 list option \<times> BlockDetails" where
  "block_details step v authorities block =
     and_then (block_calls v block) (\<lambda>calls.
     let timestamp = find_map call_time calls; transactions = List.map_filter call_transaction calls
     in and_then (event_loop step v authorities block) (\<lambda>s.
        Inr (es_authorities s,
          \<lparr>bd_timestamp = timestamp, bd_transactions = es_system s @ transactions,
           bd_dust_registration_events = es_dust s, bd_bridge_events = es_bridge s\<rparr>)))"

definition make_block_details_v0_22 where "make_block_details_v0_22 = block_details event_step_v1 NV0_22"
definition make_block_details_v1_0 where "make_block_details_v1_0 = block_details event_step_v1 NV1_0"
definition make_block_details_v2_0 where "make_block_details_v2_0 = block_details event_step_v2 NV2_0"
definition make_block_details_v2_1 where "make_block_details_v2_1 = block_details event_step_v2 NV2_1"

fun make_block_details ::
    "hash32 list option \<Rightarrow> NodeVersion \<Rightarrow> at_block \<Rightarrow> SubxtNodeError + hash32 list option \<times> BlockDetails" where
  "make_block_details authorities NV0_22 block = make_block_details_v0_22 authorities block"
| "make_block_details authorities NV1_0 block = make_block_details_v1_0 authorities block"
| "make_block_details authorities NV2_0 block = make_block_details_v2_0 authorities block"
| "make_block_details authorities NV2_1 block = make_block_details_v2_1 authorities block"

section \<open>Reads of the block state\<close>

text \<open>Each version asks through its own generated query, the argument \<open>v\<close>.\<close>

definition authorities_at :: "NodeVersion \<Rightarrow> at_block \<Rightarrow> SubxtNodeError + hash32 list" where
  "authorities_at v block =
     and_then (ok_or FetchAuthorities (ab_authorities block v)) (\<lambda>value. ok_or DecodeAuthorities value)"

definition fetch_authorities_v0_22 where "fetch_authorities_v0_22 = authorities_at NV0_22"
definition fetch_authorities_v1_0 where "fetch_authorities_v1_0 = authorities_at NV1_0"
definition fetch_authorities_v2_0 where "fetch_authorities_v2_0 = authorities_at NV2_0"
definition fetch_authorities_v2_1 where "fetch_authorities_v2_1 = authorities_at NV2_1"

fun fetch_authorities :: "NodeVersion \<Rightarrow> at_block \<Rightarrow> SubxtNodeError + hash32 list" where
  "fetch_authorities NV0_22 block = fetch_authorities_v0_22 block"
| "fetch_authorities NV1_0 block = fetch_authorities_v1_0 block"
| "fetch_authorities NV2_0 block = fetch_authorities_v2_0 block"
| "fetch_authorities NV2_1 block = fetch_authorities_v2_1 block"

definition slot_at :: "NodeVersion \<Rightarrow> node \<Rightarrow> bytes \<Rightarrow> SubxtNodeError + u64" where
  "slot_at v N slot = ok_or NodeScaleDecode (nd_scale_slot N v slot)"

definition decode_slot_v0_22 where "decode_slot_v0_22 = slot_at NV0_22"
definition decode_slot_v1_0 where "decode_slot_v1_0 = slot_at NV1_0"
definition decode_slot_v2_0 where "decode_slot_v2_0 = slot_at NV2_0"
definition decode_slot_v2_1 where "decode_slot_v2_1 = slot_at NV2_1"

fun decode_slot :: "node \<Rightarrow> bytes \<Rightarrow> NodeVersion \<Rightarrow> SubxtNodeError + u64" where
  "decode_slot N slot NV0_22 = decode_slot_v0_22 N slot"
| "decode_slot N slot NV1_0 = decode_slot_v1_0 N slot"
| "decode_slot N slot NV2_0 = decode_slot_v2_0 N slot"
| "decode_slot N slot NV2_1 = decode_slot_v2_1 N slot"

definition contract_state_at :: "NodeVersion \<Rightarrow> bytes \<Rightarrow> at_block \<Rightarrow> SubxtNodeError + bytes" where
  "contract_state_at v address block = ok_or (NodeGetContractState address) (ab_contract_state block v address)"

definition get_contract_state_v0_22 where "get_contract_state_v0_22 = contract_state_at NV0_22"
definition get_contract_state_v1_0 where "get_contract_state_v1_0 = contract_state_at NV1_0"
definition get_contract_state_v2_0 where "get_contract_state_v2_0 = contract_state_at NV2_0"
definition get_contract_state_v2_1 where "get_contract_state_v2_1 = contract_state_at NV2_1"

fun get_contract_state :: "bytes \<Rightarrow> NodeVersion \<Rightarrow> at_block \<Rightarrow> SubxtNodeError + bytes" where
  "get_contract_state address NV0_22 block = get_contract_state_v0_22 address block"
| "get_contract_state address NV1_0 block = get_contract_state_v1_0 address block"
| "get_contract_state address NV2_0 block = get_contract_state_v2_0 address block"
| "get_contract_state address NV2_1 block = get_contract_state_v2_1 address block"

text \<open>The Zswap root is asked again at the parent when the generated code does not fit the block's metadata.\<close>

fun root_value :: "root_answer \<Rightarrow> SubxtNodeError + bytes" where
  "root_value (RootValue root) = Inr root"
| "root_value RootIncompatibleCodegen = Inl GetZswapStateRoot"
| "root_value RootFailed = Inl GetZswapStateRoot"

definition zswap_root_at :: "NodeVersion \<Rightarrow> node \<Rightarrow> at_block \<Rightarrow> SubxtNodeError + bytes" where
  "zswap_root_at v N block =
     (case ab_zswap_root block v of
        RootIncompatibleCodegen \<Rightarrow>
          and_then (block_header block) (\<lambda>header.
          and_then (node_at N (sh_parent_hash header)) (\<lambda>parent.
            root_value (ab_zswap_root parent v)))
      | other \<Rightarrow> root_value other)"

definition get_zswap_merkle_tree_root_v0_22 where "get_zswap_merkle_tree_root_v0_22 = zswap_root_at NV0_22"
definition get_zswap_merkle_tree_root_v1_0 where "get_zswap_merkle_tree_root_v1_0 = zswap_root_at NV1_0"
definition get_zswap_merkle_tree_root_v2_0 where "get_zswap_merkle_tree_root_v2_0 = zswap_root_at NV2_0"
definition get_zswap_merkle_tree_root_v2_1 where "get_zswap_merkle_tree_root_v2_1 = zswap_root_at NV2_1"

fun get_zswap_merkle_tree_root :: "NodeVersion \<Rightarrow> node \<Rightarrow> at_block \<Rightarrow> SubxtNodeError + bytes" where
  "get_zswap_merkle_tree_root NV0_22 N block = get_zswap_merkle_tree_root_v0_22 N block"
| "get_zswap_merkle_tree_root NV1_0 N block = get_zswap_merkle_tree_root_v1_0 N block"
| "get_zswap_merkle_tree_root NV2_0 N block = get_zswap_merkle_tree_root_v2_0 N block"
| "get_zswap_merkle_tree_root NV2_1 N block = get_zswap_merkle_tree_root_v2_1 N block"

definition ledger_root_at :: "NodeVersion \<Rightarrow> at_block \<Rightarrow> SubxtNodeError + bytes option" where
  "ledger_root_at v block = and_then (ok_or GetLedgerStateRoot (ab_ledger_root block v)) (\<lambda>root. Inr (Some root))"

definition get_ledger_state_root_v0_22 where "get_ledger_state_root_v0_22 = ledger_root_at NV0_22"
definition get_ledger_state_root_v1_0 where "get_ledger_state_root_v1_0 = ledger_root_at NV1_0"
definition get_ledger_state_root_v2_0 where "get_ledger_state_root_v2_0 = ledger_root_at NV2_0"
definition get_ledger_state_root_v2_1 where "get_ledger_state_root_v2_1 = ledger_root_at NV2_1"

fun get_ledger_state_root :: "NodeVersion \<Rightarrow> at_block \<Rightarrow> SubxtNodeError + bytes option" where
  "get_ledger_state_root NV0_22 block = get_ledger_state_root_v0_22 block"
| "get_ledger_state_root NV1_0 block = get_ledger_state_root_v1_0 block"
| "get_ledger_state_root NV2_0 block = get_ledger_state_root_v2_0 block"
| "get_ledger_state_root NV2_1 block = get_ledger_state_root_v2_1 block"

section \<open>Registrations at genesis\<close>

definition mapping_events :: "mapping_entry list \<Rightarrow> DustRegistrationEvent list" where
  "mapping_events mapping =
     (case mapping of
        [] \<Rightarrow> []
      | m # _ \<Rightarrow> [Registration (me_reward_address m) (me_dust_public_key m),
                    MappingAdded (me_reward_address m) (me_dust_public_key m) (me_utxo_tx_hash m) (me_utxo_index m)])"

text \<open>Ledger 8: one value per address, a list of mappings of which the first is taken.\<close>

definition genesis_mappings :: "NodeVersion \<Rightarrow> at_block \<Rightarrow> SubxtNodeError + DustRegistrationEvent list" where
  "genesis_mappings v block =
     and_then (ok_or FetchGenesisCnightRegistrations (ab_mappings block v)) (\<lambda>mappings.
       try_fold (\<lambda>events mapping. and_then (ok_or DecodeGenesisCnightRegistrations mapping)
           (\<lambda>mapping. Inr (events @ mapping_events mapping))) [] mappings)"

text \<open>Ledger 9: one entry per address and output, whose key and value are decoded in turn.\<close>

definition genesis_mapping :: "NodeVersion \<Rightarrow> at_block \<Rightarrow> SubxtNodeError + DustRegistrationEvent list" where
  "genesis_mapping v block =
     and_then (ok_or FetchGenesisCnightRegistrations (ab_mapping block v)) (\<lambda>entries.
       try_fold (\<lambda>events (key, value).
           and_then (ok_or DecodeGenesisCnightRegistrationKey key) (\<lambda>(cardano_stake_key, utxo_id, utxo_index).
           and_then (ok_or DecodeGenesisCnightRegistrations value) (\<lambda>dust_address.
             Inr (events @ [Registration cardano_stake_key dust_address,
                            MappingAdded cardano_stake_key dust_address utxo_id utxo_index])))) [] entries)"

definition fetch_genesis_cnight_registrations_v0_22 where
  "fetch_genesis_cnight_registrations_v0_22 = genesis_mappings NV0_22"
definition fetch_genesis_cnight_registrations_v1_0 where
  "fetch_genesis_cnight_registrations_v1_0 = genesis_mappings NV1_0"
definition fetch_genesis_cnight_registrations_v2_0 where
  "fetch_genesis_cnight_registrations_v2_0 = genesis_mapping NV2_0"
definition fetch_genesis_cnight_registrations_v2_1 where
  "fetch_genesis_cnight_registrations_v2_1 = genesis_mapping NV2_1"

fun fetch_genesis_cnight_registrations ::
    "NodeVersion \<Rightarrow> at_block \<Rightarrow> SubxtNodeError + DustRegistrationEvent list" where
  "fetch_genesis_cnight_registrations NV0_22 block = fetch_genesis_cnight_registrations_v0_22 block"
| "fetch_genesis_cnight_registrations NV1_0 block = fetch_genesis_cnight_registrations_v1_0 block"
| "fetch_genesis_cnight_registrations NV2_0 block = fetch_genesis_cnight_registrations_v2_0 block"
| "fetch_genesis_cnight_registrations NV2_1 block = fetch_genesis_cnight_registrations_v2_1 block"

end
