(* ===== verification/NodeClient.thy ===== *)
theory NodeClient
  imports NodeRuntimes
begin

text \<open>
  The node client (\<open>subxt_node.rs\<close>): the author of a block, making a block, the subscription to
  finalized blocks and the stream of blocks after a given one, which first catches up by height in
  chunks of concurrent requests, then by hash, and then follows the subscription. A stream of blocks
  is the list of the blocks it yields with how it goes on; the concurrent requests of a chunk are
  independent of each other, so that their results are computed one by one, and if several fail one
  of the errors is reported (\<open>nd_first_error\<close>). The loops that end only when the node answers
  properly are partial: \<open>None\<close> stands for a loop that never ends.
\<close>

section \<open>The author\<close>

definition AURA_ENGINE_ID :: bytes where "AURA_ENGINE_ID = [97, 117, 114, 97]"
definition BABE_ENGINE_ID :: bytes where "BABE_ENGINE_ID = [66, 65, 66, 69]"
definition CATCH_UP_CHUNK :: u64 where "CATCH_UP_CHUNK = 32"
definition FINALIZATION_SAFETY_MARGIN :: u64 where "FINALIZATION_SAFETY_MARGIN = 400"

definition decode_babe_authority_index :: "node \<Rightarrow> bytes \<Rightarrow> SubxtNodeError + u32" where
  "decode_babe_authority_index N pre_digest =
     and_then (ok_or NodeScaleDecode (nd_scale_u8 N pre_digest)) (\<lambda>(tag, pre_digest).
       if \<not> (1 \<le> tag \<and> tag \<le> 3) then Inl (InvalidBabePreDigestTag tag)
       else and_then (ok_or NodeScaleDecode (nd_scale_u32 N pre_digest)) (\<lambda>(index, _). Inr index))"

definition authority :: "hash32 list \<Rightarrow> nat \<Rightarrow> hash32 option" where
  "authority authorities index = (if index < length authorities then Some (authorities ! index) else None)"

definition babe_author :: "node \<Rightarrow> bytes \<Rightarrow> hash32 list \<Rightarrow> SubxtNodeError + hash32 option" where
  "babe_author N pre_digest authorities =
     and_then (decode_babe_authority_index N pre_digest) (\<lambda>index. Inr (authority authorities (unat index)))"

definition log_author ::
    "node \<Rightarrow> hash32 list \<Rightarrow> NodeVersion \<Rightarrow> bool \<Rightarrow> bytes \<Rightarrow> bytes \<Rightarrow> SubxtNodeError + hash32 option" where
  "log_author N authorities content_node_version babe_supported engine_id pre_digest =
     (if engine_id = AURA_ENGINE_ID then
        and_then (decode_slot N pre_digest content_node_version) (\<lambda>slot.
          Inr (authority authorities (unat slot mod length authorities)))
      else if engine_id = BABE_ENGINE_ID \<and> babe_supported then babe_author N pre_digest authorities
      else Inr None)"

fun authors_loop ::
    "node \<Rightarrow> digest_item list \<Rightarrow> hash32 list \<Rightarrow> NodeVersion \<Rightarrow> bool \<Rightarrow> SubxtNodeError + hash32 option" where
  "authors_loop N [] authorities content_node_version babe_supported = Inr None"
| "authors_loop N (PreRuntime engine_id pre_digest # logs) authorities content_node_version babe_supported =
     and_then (log_author N authorities content_node_version babe_supported engine_id pre_digest) (\<lambda>author.
       if author \<noteq> None then Inr author
       else authors_loop N logs authorities content_node_version babe_supported)"
| "authors_loop N (log # logs) authorities content_node_version babe_supported =
     authors_loop N logs authorities content_node_version babe_supported"

definition author_from_digest_logs ::
    "node \<Rightarrow> digest_item list \<Rightarrow> hash32 list \<Rightarrow> NodeVersion \<Rightarrow> bool \<Rightarrow> SubxtNodeError + hash32 option" where
  "author_from_digest_logs N logs authorities content_node_version babe_supported =
     (if authorities = [] then Inr None
      else authors_loop N logs authorities content_node_version babe_supported)"

definition extract_block_author ::
    "node \<Rightarrow> SubstrateHeader \<Rightarrow> hash32 list \<Rightarrow> NodeVersion \<Rightarrow> bool \<Rightarrow> SubxtNodeError + hash32 option" where
  "extract_block_author N header authorities content_node_version babe_supported =
     author_from_digest_logs N (sh_logs header) authorities content_node_version babe_supported"

section \<open>Making a block\<close>

text \<open>Requests made at the same time: all values, or one of the errors.\<close>

fun errors_of :: "'e + 'a \<Rightarrow> 'e list" where
  "errors_of (Inl e) = [e]"
| "errors_of (Inr a) = []"

definition try_join3 ::
    "node \<Rightarrow> SubxtNodeError + 'a \<Rightarrow> SubxtNodeError + 'b \<Rightarrow> SubxtNodeError + 'c \<Rightarrow> SubxtNodeError + 'a \<times> 'b \<times> 'c" where
  "try_join3 N a b c =
     (case errors_of a @ errors_of b @ errors_of c of
        [] \<Rightarrow> Inr (projr a, projr b, projr c)
      | errors \<Rightarrow> Inl (nd_first_error N errors))"

definition try_join_all :: "node \<Rightarrow> (SubxtNodeError + 'a) list \<Rightarrow> SubxtNodeError + 'a list" where
  "try_join_all N results =
     (case concat (map errors_of results) of
        [] \<Rightarrow> Inr (map projr results)
      | errors \<Rightarrow> Inl (nd_first_error N errors))"

text \<open>
  The block and the authorities cache after it, which is empty if the block holds a new session.
\<close>

definition make_block ::
    "('s, 't, 'v, 'y) ledger_crates \<Rightarrow> tx_crates \<Rightarrow> node \<Rightarrow> hash32 list option \<Rightarrow> at_block \<Rightarrow>
       SubxtNodeError + Block \<times> hash32 list option" where
  "make_block C X N authorities block =
     and_then (block_header block) (\<lambda>header.
     and_then (map_err NodeProtocolVersion (protocol_version (nd_scale_u32 N) (sh_logs header))) (\<lambda>pv.
     and_then (ok_or MissingProtocolVersionHeader pv) (\<lambda>protocol_version.
     let content_node_version = node_version protocol_version
     in and_then (map_err NodeProtocolVersion (try_from_u32 (ab_spec_version block))) (\<lambda>state_version.
     let state_node_version = node_version state_version
     in and_then (case authorities of Some cached \<Rightarrow> Inr cached
                  | None \<Rightarrow> fetch_authorities state_node_version block) (\<lambda>authorities.
     and_then (extract_block_author N header authorities content_node_version (ab_consensus_engine_api block))
       (\<lambda>author.
     and_then (try_join3 N (get_zswap_merkle_tree_root state_node_version N block)
                 (make_block_details (Some authorities) content_node_version block)
                 (get_ledger_state_root state_node_version block))
       (\<lambda>(zswap_root, (authorities, details), ledger_state_root).
     and_then (map_err NodeLedger (zswap_root_deserialize C zswap_root (ledger_version protocol_version)))
       (\<lambda>zswap_merkle_tree_root.
     and_then (if ab_number block = 0 then fetch_genesis_cnight_registrations state_node_version block else Inr [])
       (\<lambda>genesis_registrations.
     and_then (try_map (make_transaction X (\<lambda>address. get_contract_state address state_node_version block)
                 protocol_version) (bd_transactions details))
       (\<lambda>transactions.
        Inr (\<lparr>b_hash = ab_hash block, b_height = ab_number block, b_protocol_version = protocol_version,
              b_parent_hash = sh_parent_hash header, b_author = author,
              b_timestamp = (case bd_timestamp details of Some t \<Rightarrow> t | None \<Rightarrow> 0),
              b_zswap_merkle_tree_root = zswap_merkle_tree_root, b_ledger_state_root = ledger_state_root,
              b_transactions = transactions,
              b_dust_registration_events = bd_dust_registration_events details @ genesis_registrations,
              b_bridge_events = bd_bridge_events details\<rparr>, authorities)))))))))))"

section \<open>The subscription\<close>

record stream_block =
  sb_hash :: hash32
  sb_number :: u64
  sb_parent_hash :: hash32
  sb_at :: "at_block option"

datatype stream_item = StreamBlock stream_block | StreamDisconnected | StreamError

fun received_before :: "u64 \<Rightarrow> u64 option \<Rightarrow> bool" where
  "received_before height None = False"
| "received_before height (Some last_height) = (height \<le> last_height)"

text \<open>Duplicates and the error of a lost connection are left out.\<close>

fun subscribe_finalized_blocks :: "u64 option \<Rightarrow> stream_item list \<Rightarrow> (SubxtNodeError + stream_block) list" where
  "subscribe_finalized_blocks last_height [] = []"
| "subscribe_finalized_blocks last_height (StreamBlock block # items) =
     (if received_before (sb_number block) last_height then subscribe_finalized_blocks last_height items
      else Inr block # subscribe_finalized_blocks (Some (sb_number block)) items)"
| "subscribe_finalized_blocks last_height (StreamDisconnected # items) = subscribe_finalized_blocks last_height items"
| "subscribe_finalized_blocks last_height (StreamError # items) =
     Inl ReceiveBlock # subscribe_finalized_blocks last_height items"

definition highest_blocks :: "stream_item list \<Rightarrow> (SubxtNodeError + BlockRef) list" where
  "highest_blocks items =
     map (map_sum id (\<lambda>block. \<lparr>br_hash = sb_hash block, br_height = sb_number block\<rparr>))
       (subscribe_finalized_blocks None items)"

section \<open>Catching up by height\<close>

text \<open>The heights of a chunk, each made with its own copy of the cache.\<close>

definition heights :: "u64 \<Rightarrow> u64 \<Rightarrow> u64 list" where
  "heights a b = map word_of_nat [unat a..<unat b]"

definition make_chunk ::
    "('s, 't, 'v, 'y) ledger_crates \<Rightarrow> tx_crates \<Rightarrow> node \<Rightarrow> hash32 list option \<Rightarrow> u64 \<Rightarrow> u64 \<Rightarrow>
       SubxtNodeError + (Block \<times> hash32 list option) list" where
  "make_chunk C X N authorities height chunk_end =
     try_join_all N (map (\<lambda>h. and_then (block_at_height N h) (make_block C X N authorities)) (heights height chunk_end))"

definition wrong_parent :: "hash32 option \<Rightarrow> Block \<Rightarrow> hash32 option" where
  "wrong_parent last_forward_hash block =
     (case last_forward_hash of
        Some expected \<Rightarrow> if b_parent_hash block \<noteq> expected then Some expected else None
      | None \<Rightarrow> None)"

text \<open>
  A chunk in order: the blocks yielded, and an error or the last hash, the next height and the cache.
\<close>

fun consume_chunk ::
    "hash32 option \<Rightarrow> u64 \<Rightarrow> hash32 list option \<Rightarrow> (Block \<times> hash32 list option) list \<Rightarrow>
       Block list \<times> (SubxtNodeError + hash32 option \<times> u64 \<times> hash32 list option)" where
  "consume_chunk last_forward_hash height authorities [] = ([], Inr (last_forward_hash, height, authorities))"
| "consume_chunk last_forward_hash height authorities ((made_block, chunk_authorities) # chunk) =
     (case wrong_parent last_forward_hash made_block of
        Some expected \<Rightarrow>
          ([], Inl (ParentHashMismatch (b_height made_block) expected (b_parent_hash made_block)))
      | None \<Rightarrow>
          let last_forward_hash = Some (b_hash made_block);
              height = b_height made_block + 1;
              authorities = (if authorities = None then chunk_authorities else authorities)
          in if chunk_authorities = None
             then ([made_block], Inr (last_forward_hash, height, None))
             else let (blocks, r) = consume_chunk last_forward_hash height authorities chunk
                  in (made_block # blocks, r))"

partial_function (option) catch_up ::
    "('s, 't, 'v, 'y) ledger_crates \<Rightarrow> tx_crates \<Rightarrow> node \<Rightarrow> u64 \<Rightarrow> hash32 option \<Rightarrow> u64 \<Rightarrow> hash32 list option \<Rightarrow>
       Block list \<Rightarrow> (Block list \<times> (SubxtNodeError + hash32 option \<times> hash32 list option)) option" where
  "catch_up C X N safe_height last_forward_hash height authorities yielded =
     (if height < safe_height then
        (case make_chunk C X N authorities height (min (height + CATCH_UP_CHUNK) safe_height) of
           Inl e \<Rightarrow> Some (yielded, Inl e)
         | Inr chunk \<Rightarrow>
             (case consume_chunk last_forward_hash height authorities chunk of
                (blocks, Inl e) \<Rightarrow> Some (yielded @ blocks, Inl e)
              | (blocks, Inr (last_forward_hash, height, authorities)) \<Rightarrow>
                  catch_up C X N safe_height last_forward_hash height authorities (yielded @ blocks)))
      else Some (yielded, Inr (last_forward_hash, authorities)))"

section \<open>Catching up by hash\<close>

text \<open>The hashes from a parent back to the stop hash or the parent of genesis, the newest first.\<close>

partial_function (option) ancestors ::
    "node \<Rightarrow> hash32 \<Rightarrow> hash32 \<Rightarrow> hash32 \<Rightarrow> hash32 list \<Rightarrow> (SubxtNodeError + hash32 list) option" where
  "ancestors N stop_hash genesis_parent_hash parent_hash hashes =
     (if parent_hash = stop_hash \<or> parent_hash = genesis_parent_hash then Some (Inr hashes)
      else (case node_at N parent_hash of
              Inl e \<Rightarrow> Some (Inl e)
            | Inr parent \<Rightarrow>
                (case block_header parent of
                   Inl e \<Rightarrow> Some (Inl e)
                 | Inr header \<Rightarrow>
                     ancestors N stop_hash genesis_parent_hash (sh_parent_hash header) (hashes @ [ab_hash parent]))))"

fun make_blocks ::
    "('s, 't, 'v, 'y) ledger_crates \<Rightarrow> tx_crates \<Rightarrow> node \<Rightarrow> hash32 list option \<Rightarrow> hash32 list \<Rightarrow>
       Block list \<times> (SubxtNodeError + hash32 list option)" where
  "make_blocks C X N authorities [] = ([], Inr authorities)"
| "make_blocks C X N authorities (hash # hashes) =
     (case and_then (node_at N hash) (make_block C X N authorities) of
        Inl e \<Rightarrow> ([], Inl e)
      | Inr (made_block, authorities) \<Rightarrow>
          let (blocks, r) = make_blocks C X N authorities hashes in (made_block # blocks, r))"

section \<open>The stream of finalized blocks\<close>

text \<open>
  A subscription is what it delivers until it ends, or gets stuck (\<open>True\<close>) so that the client
  subscribes again after the last block it yielded; \<open>None\<close> is one that cannot be opened. The stream
  is cut after the subscriptions given. Before its first block there is no timeout.
\<close>

type_synonym subscription = "(stream_item list \<times> bool) option"

definition make_received ::
    "('s, 't, 'v, 'y) ledger_crates \<Rightarrow> tx_crates \<Rightarrow> node \<Rightarrow> hash32 list option \<Rightarrow> stream_block \<Rightarrow>
       SubxtNodeError + Block \<times> hash32 list option" where
  "make_received C X N authorities block =
     and_then (ok_or (GetOnlineClientAt (sb_hash block)) (sb_at block)) (make_block C X N authorities)"

fun live_items ::
    "('s, 't, 'v, 'y) ledger_crates \<Rightarrow> tx_crates \<Rightarrow> node \<Rightarrow> hash32 list option \<Rightarrow> u64 option \<Rightarrow>
       (SubxtNodeError + stream_block) list \<Rightarrow> Block list \<times> (SubxtNodeError + hash32 list option \<times> u64 option)" where
  "live_items C X N authorities last_yielded [] = ([], Inr (authorities, last_yielded))"
| "live_items C X N authorities last_yielded (Inl e # items) = ([], Inl e)"
| "live_items C X N authorities last_yielded (Inr block # items) =
     (case make_received C X N authorities block of
        Inl e \<Rightarrow> ([], Inl e)
      | Inr (made_block, authorities) \<Rightarrow>
          let (blocks, r) = live_items C X N authorities (Some (b_height made_block)) items
          in (made_block # blocks, r))"

fun live_blocks ::
    "('s, 't, 'v, 'y) ledger_crates \<Rightarrow> tx_crates \<Rightarrow> node \<Rightarrow> hash32 list option \<Rightarrow> u64 option \<Rightarrow>
       (SubxtNodeError + stream_block) list \<Rightarrow> bool \<Rightarrow> subscription list \<Rightarrow> (SubxtNodeError + Block) list" where
  "live_blocks C X N authorities last_yielded items stuck subscriptions =
     (case live_items C X N authorities last_yielded items of
        (blocks, Inl e) \<Rightarrow> map Inr blocks @ [Inl e]
      | (blocks, Inr (authorities, last_yielded)) \<Rightarrow>
          map Inr blocks @
          (case subscriptions of
             [] \<Rightarrow> []
           | subscription # subscriptions \<Rightarrow>
               if stuck
               then (case subscription of
                       None \<Rightarrow> [Inl SubscribeFinalizedBlocks]
                     | Some (items, stuck') \<Rightarrow>
                         live_blocks C X N authorities last_yielded
                           (subscribe_finalized_blocks last_yielded items) stuck' subscriptions)
               else []))"

text \<open>The earlier blocks and the first block received, with the cache.\<close>

definition backward ::
    "('s, 't, 'v, 'y) ledger_crates \<Rightarrow> tx_crates \<Rightarrow> node \<Rightarrow> hash32 \<Rightarrow> stream_block \<Rightarrow> hash32 list option \<Rightarrow>
       (Block list \<times> (SubxtNodeError + hash32 list option \<times> Block)) option" where
  "backward C X N stop_hash first_block authorities =
     (case and_then (node_at N (nd_genesis_hash N)) block_header of
        Inl e \<Rightarrow> Some ([], Inl e)
      | Inr genesis_header \<Rightarrow>
          map_option (\<lambda>found.
            case found of
              Inl e \<Rightarrow> ([], Inl e)
            | Inr hashes \<Rightarrow>
                (case make_blocks C X N authorities (rev hashes) of
                   (blocks, Inl e) \<Rightarrow> (blocks, Inl e)
                 | (blocks, Inr authorities) \<Rightarrow>
                     (case make_received C X N authorities first_block of
                        Inl e \<Rightarrow> (blocks, Inl e)
                      | Inr (made_block, authorities) \<Rightarrow> (blocks @ [made_block], Inr (authorities, made_block)))))
          (ancestors N stop_hash (sh_parent_hash genesis_header) (sb_parent_hash first_block) []))"

definition saturating_sub_u64 :: "u64 \<Rightarrow> u64 \<Rightarrow> u64" where
  "saturating_sub_u64 a b = (if b \<le> a then a - b else 0)"

definition start_height_after :: "BlockRef option \<Rightarrow> u64" where
  "start_height_after after = (case after of Some b \<Rightarrow> br_height b + 1 | None \<Rightarrow> 0)"

definition safe_height_for :: "u64 \<Rightarrow> u64 \<Rightarrow> u64" where
  "safe_height_for start_height end_height =
     max (saturating_sub_u64 end_height FINALIZATION_SAFETY_MARGIN) start_height"

definition earlier_blocks ::
    "('s, 't, 'v, 'y) ledger_crates \<Rightarrow> tx_crates \<Rightarrow> node \<Rightarrow> BlockRef option \<Rightarrow> stream_block \<Rightarrow>
       (Block list \<times> (SubxtNodeError + hash32 list option \<times> Block)) option" where
  "earlier_blocks C X N after first_block =
     (let start_height = start_height_after after;
          safe_height = safe_height_for start_height (sb_number first_block)
      in Option.bind (catch_up C X N safe_height (map_option br_hash after) start_height None [])
           (\<lambda>(forward, r).
              case r of
                Inl e \<Rightarrow> Some (forward, Inl e)
              | Inr (last_forward_hash, authorities) \<Rightarrow>
                  let stop_hash = (case last_forward_hash of Some h \<Rightarrow> h
                        | None \<Rightarrow> (case after of Some b \<Rightarrow> br_hash b | None \<Rightarrow> 0))
                  in map_option (\<lambda>(blocks, r). (forward @ blocks, r))
                       (backward C X N stop_hash first_block authorities)))"

fun finalized_blocks ::
    "('s, 't, 'v, 'y) ledger_crates \<Rightarrow> tx_crates \<Rightarrow> node \<Rightarrow> BlockRef option \<Rightarrow> subscription list \<Rightarrow>
       (SubxtNodeError + Block) list option" where
  "finalized_blocks C X N after [] = Some []"
| "finalized_blocks C X N after (None # subscriptions) = Some [Inl SubscribeFinalizedBlocks]"
| "finalized_blocks C X N after (Some (items, stuck) # subscriptions) =
     (case subscribe_finalized_blocks (map_option br_height after) items of
        [] \<Rightarrow> Some []
      | Inl e # _ \<Rightarrow> Some [Inl e]
      | Inr first_block # received \<Rightarrow>
          if sb_hash first_block \<noteq> (case after of Some b \<Rightarrow> br_hash b | None \<Rightarrow> 0)
          then map_option (\<lambda>(blocks, r).
                 map Inr blocks @
                 (case r of
                    Inl e \<Rightarrow> [Inl e]
                  | Inr (authorities, made_block) \<Rightarrow>
                      live_blocks C X N authorities (Some (b_height made_block)) received stuck subscriptions))
               (earlier_blocks C X N after first_block)
          else Some (live_blocks C X N None (map_option br_height after) received stuck subscriptions))"

section \<open>The genesis ledger state\<close>

text \<open>The system properties are a JSON object: a look-up, a parameter, as is the decoder of hex.\<close>

definition strip_0x :: "string \<Rightarrow> string" where
  "strip_0x s = (case s of a # b # rest \<Rightarrow> if [a, b] = ''0x'' then rest else s | _ \<Rightarrow> s)"

definition fetch_genesis_ledger_state ::
    "(string \<Rightarrow> string option) option \<Rightarrow> (string \<Rightarrow> bytes option) \<Rightarrow> SubxtNodeError + bytes" where
  "fetch_genesis_ledger_state properties hex_decode =
     and_then (ok_or FetchSystemProperties properties) (\<lambda>properties.
     and_then (ok_or GenesisLedgerStateNotFound (properties ''genesis_state'')) (\<lambda>genesis_ledger_state.
       ok_or HexDecodeGenesisLedgerState (hex_decode (strip_0x genesis_ledger_state))))"

end
