(* ===== verification/NodeFacts.thy ===== *)
theory NodeFacts
  imports NodeClient
begin

text \<open>
  Facts about making one block: which parts of the node's answers a block consists of, and that the
  authorities cache decides nothing but the author. On them rests the comparison of the chunked
  catch-up with making the blocks one after the other (\<open>NodeSync\<close>).
\<close>

section \<open>Concurrent requests\<close>

lemma try_join3_Inr_iff [result_simps]:
  "try_join3 N a b c = Inr (x, y, z) \<longleftrightarrow> a = Inr x \<and> b = Inr y \<and> c = Inr z"
  by (cases a; cases b; cases c) (auto simp: try_join3_def)

lemma try_join3_Inr [simp]: "try_join3 N (Inr x) (Inr y) (Inr z) = Inr (x, y, z)"
  by (simp add: try_join3_def)

lemma concat_nils: "concat (map (\<lambda>x. []) xs) = []"
  by (induction xs) simp_all

lemma try_join_all_Inr_iff: "try_join_all N rs = Inr xs \<longleftrightarrow> rs = map Inr xs"
proof -
  have "concat (map errors_of rs) = [] \<longleftrightarrow> (\<exists>xs. rs = map Inr xs)"
  proof (induction rs)
    case (Cons r rs)
    then show ?case by (cases r) (auto simp: Cons_eq_map_conv)
  qed simp
  moreover have "map projr (map Inr ys) = ys" for ys :: "'a list" by (simp add: comp_def)
  ultimately show ?thesis
    by (auto simp: try_join_all_def comp_def concat_nils split: list.splits)
qed

section \<open>Events\<close>

text \<open>The events of a block as a list, decoded for the version.\<close>

definition decoded_events :: "NodeVersion \<Rightarrow> at_block \<Rightarrow> runtime_event list \<Rightarrow> bool" where
  "decoded_events v block evs \<longleftrightarrow>
     (\<exists>events. ab_events block = Some events \<and> list_all2 (\<lambda>event ev. \<exists>decode. event = Some decode \<and> decode v = Some ev) events evs)"

fun system_transaction_of :: "runtime_event \<Rightarrow> RuntimeTransaction option" where
  "system_transaction_of (SystemTransactionApplied tx) = Some (RuntimeSystem tx)"
| "system_transaction_of _ = None"

fun registration_event_of :: "runtime_event \<Rightarrow> DustRegistrationEvent option" where
  "registration_event_of (CNightObservation e) = cnight_registration e"
| "registration_event_of _ = None"

fun bridge_event_of :: "runtime_event \<Rightarrow> BridgeEvent option" where
  "bridge_event_of (C2MBridge e) = (case c2m_bridge_event e of Inr b \<Rightarrow> Some b | Inl _ \<Rightarrow> None)"
| "bridge_event_of _ = None"

definition cache_after :: "runtime_event list \<Rightarrow> hash32 list option \<Rightarrow> hash32 list option" where
  "cache_after evs authorities = (if NewSession \<in> set evs then None else authorities)"

definition has_bridge :: "NodeVersion \<Rightarrow> bool" where
  "has_bridge v = (v \<in> {NV2_0, NV2_1})"

definition event_step_of :: "NodeVersion \<Rightarrow> event_state \<Rightarrow> runtime_event \<Rightarrow> SubxtNodeError + event_state" where
  "event_step_of v = (if has_bridge v then event_step_v2 else event_step_v1)"

lemma make_block_details_eq: "make_block_details authorities v block = block_details (event_step_of v) v authorities block"
  by (cases v) (simp_all add: event_step_of_def has_bridge_def make_block_details_v0_22_def
      make_block_details_v1_0_def make_block_details_v2_0_def make_block_details_v2_1_def)

lemma event_step_Inr:
  assumes "event_step_of v s ev = Inr s'"
  shows "s' = \<lparr>es_authorities = cache_after [ev] (es_authorities s),
     es_dust = es_dust s @ List.map_filter registration_event_of [ev],
     es_system = es_system s @ List.map_filter system_transaction_of [ev],
     es_bridge = es_bridge s @ (if has_bridge v then List.map_filter bridge_event_of [ev] else [])\<rparr>"
  using assms
  by (cases ev; cases s; cases "has_bridge v")
    (auto simp: event_step_of_def cache_after_def map_filter_simps result_simps split: option.splits)

lemma cache_after_Cons: "cache_after (ev # evs) a = cache_after evs (cache_after [ev] a)"
  by (simp add: cache_after_def)

lemma map_filter_Cons: "List.map_filter f (x # xs) = List.map_filter f [x] @ List.map_filter f xs"
  by (simp add: map_filter_simps split: option.splits)

lemma events_fold:
  assumes "try_fold (\<lambda>s event. and_then (ok_or GetNextEvent event) (\<lambda>decode.
      and_then (ok_or DecodeEvent (decode v)) (event_step_of v s))) s events = Inr s'"
  shows "\<exists>evs. list_all2 (\<lambda>event ev. \<exists>decode. event = Some decode \<and> decode v = Some ev) events evs
    \<and> s' = \<lparr>es_authorities = cache_after evs (es_authorities s),
     es_dust = es_dust s @ List.map_filter registration_event_of evs,
     es_system = es_system s @ List.map_filter system_transaction_of evs,
     es_bridge = es_bridge s @ (if has_bridge v then List.map_filter bridge_event_of evs else [])\<rparr>"
  using assms
proof (induction events arbitrary: s)
  case Nil
  then show ?case by (intro exI [of _ "[]"]) (auto simp: cache_after_def map_filter_simps)
next
  case (Cons event events)
  then obtain decode ev s1 where ev: "event = Some decode" "decode v = Some ev" "event_step_of v s ev = Inr s1"
    and rest: "try_fold (\<lambda>s event. and_then (ok_or GetNextEvent event) (\<lambda>decode.
      and_then (ok_or DecodeEvent (decode v)) (event_step_of v s))) s1 events = Inr s'"
    by (auto simp: result_simps)
  obtain evs where evs: "list_all2 (\<lambda>event ev. \<exists>decode. event = Some decode \<and> decode v = Some ev) events evs"
    "s' = \<lparr>es_authorities = cache_after evs (es_authorities s1),
     es_dust = es_dust s1 @ List.map_filter registration_event_of evs,
     es_system = es_system s1 @ List.map_filter system_transaction_of evs,
     es_bridge = es_bridge s1 @ (if has_bridge v then List.map_filter bridge_event_of evs else [])\<rparr>"
    using Cons.IH [OF rest] by blast
  show ?case
    using ev evs event_step_Inr [OF ev(3)]
    by (intro exI [of _ "ev # evs"])
      (simp add: cache_after_Cons [of ev evs] map_filter_simps split: option.splits)
qed

lemma block_details_Inr:
  assumes "make_block_details authorities v block = Inr (authorities', d)"
  obtains calls evs where "block_calls v block = Inr calls" and "decoded_events v block evs"
    and "authorities' = cache_after evs authorities" and "bd_timestamp d = find_map call_time calls"
    and "bd_transactions d = List.map_filter system_transaction_of evs @ List.map_filter call_transaction calls"
    and "bd_dust_registration_events d = List.map_filter registration_event_of evs"
    and "bd_bridge_events d = (if has_bridge v then List.map_filter bridge_event_of evs else [])"
proof -
  obtain calls s where c: "block_calls v block = Inr calls" "event_loop (event_step_of v) v authorities block = Inr s"
    and d: "authorities' = es_authorities s" "d = \<lparr>bd_timestamp = find_map call_time calls,
      bd_transactions = es_system s @ List.map_filter call_transaction calls,
      bd_dust_registration_events = es_dust s, bd_bridge_events = es_bridge s\<rparr>"
    using assms by (auto simp: make_block_details_eq block_details_def Let_def result_simps)
  obtain events where "ab_events block = Some events" and "try_fold (\<lambda>s event. and_then (ok_or GetNextEvent event) (\<lambda>decode.
      and_then (ok_or DecodeEvent (decode v)) (event_step_of v s)))
      \<lparr>es_authorities = authorities, es_dust = [], es_system = [], es_bridge = []\<rparr> events = Inr s"
    using c(2) by (auto simp: event_loop_def result_simps)
  with events_fold [OF this(2)] c(1) d show ?thesis
    by (auto simp: decoded_events_def intro!: that)
qed

section \<open>The cache decides only the author\<close>

lemma event_step_cache:
  assumes "event_step_of v s ev = Inr s'"
  shows "event_step_of v (s\<lparr>es_authorities := map_option (\<lambda>_. a) (es_authorities s)\<rparr>) ev
    = Inr (s'\<lparr>es_authorities := map_option (\<lambda>_. a) (es_authorities s')\<rparr>)"
  using assms
  by (cases ev; cases "has_bridge v") (auto simp: event_step_of_def result_simps split: option.splits)

lemma events_fold_cache:
  assumes "try_fold (\<lambda>s event. and_then (ok_or GetNextEvent event) (\<lambda>decode.
      and_then (ok_or DecodeEvent (decode v)) (event_step_of v s))) s events = Inr s'"
  shows "try_fold (\<lambda>s event. and_then (ok_or GetNextEvent event) (\<lambda>decode.
      and_then (ok_or DecodeEvent (decode v)) (event_step_of v s)))
      (s\<lparr>es_authorities := map_option (\<lambda>_. a) (es_authorities s)\<rparr>) events
    = Inr (s'\<lparr>es_authorities := map_option (\<lambda>_. a) (es_authorities s')\<rparr>)"
  using assms
proof (induction events arbitrary: s)
  case (Cons event events)
  then obtain decode ev s1 where ev: "event = Some decode" "decode v = Some ev" "event_step_of v s ev = Inr s1"
    and rest: "try_fold (\<lambda>s event. and_then (ok_or GetNextEvent event) (\<lambda>decode.
      and_then (ok_or DecodeEvent (decode v)) (event_step_of v s))) s1 events = Inr s'"
    by (auto simp: result_simps)
  from Cons.IH [OF rest] event_step_cache [OF ev(3), of a] ev(1,2) show ?case by simp
qed simp

lemma details_cache:
  assumes "make_block_details (Some a) v block = Inr (c, d)"
  shows "make_block_details (Some a') v block = Inr (map_option (\<lambda>_. a') c, d)"
proof -
  obtain calls s where c: "block_calls v block = Inr calls" "event_loop (event_step_of v) v (Some a) block = Inr s"
    and d: "c = es_authorities s" "d = \<lparr>bd_timestamp = find_map call_time calls,
      bd_transactions = es_system s @ List.map_filter call_transaction calls,
      bd_dust_registration_events = es_dust s, bd_bridge_events = es_bridge s\<rparr>"
    using assms by (auto simp: make_block_details_eq block_details_def Let_def result_simps)
  obtain events where e: "ab_events block = Some events" and f: "try_fold (\<lambda>s event. and_then (ok_or GetNextEvent event)
      (\<lambda>decode. and_then (ok_or DecodeEvent (decode v)) (event_step_of v s)))
      \<lparr>es_authorities = Some a, es_dust = [], es_system = [], es_bridge = []\<rparr> events = Inr s"
    using c(2) by (auto simp: event_loop_def result_simps)
  have "event_loop (event_step_of v) v (Some a') block = Inr (s\<lparr>es_authorities := map_option (\<lambda>_. a') (es_authorities s)\<rparr>)"
    using events_fold_cache [OF f, of a'] e by (simp add: event_loop_def)
  with c(1) d show ?thesis by (simp add: make_block_details_eq block_details_def Let_def)
qed

text \<open>What making a block reads, in one rule.\<close>

lemma make_block_Inr:
  assumes "make_block C X N cache block = Inr (b, cache')"
  obtains header pv sv a author zroot d lroot zsr gen txs where "ab_header block = Some header"
    and "protocol_version (nd_scale_u32 N) (sh_logs header) = Inr (Some pv)"
    and "try_from_u32 (ab_spec_version block) = Inr sv"
    and "(case cache of Some cached \<Rightarrow> Inr cached | None \<Rightarrow> fetch_authorities (node_version sv) block) = Inr a"
    and "extract_block_author N header a (node_version pv) (ab_consensus_engine_api block) = Inr author"
    and "get_zswap_merkle_tree_root (node_version sv) N block = Inr zroot"
    and "make_block_details (Some a) (node_version pv) block = Inr (cache', d)"
    and "get_ledger_state_root (node_version sv) block = Inr lroot"
    and "zswap_root_deserialize C zroot (ledger_version pv) = Inr zsr"
    and "(if ab_number block = 0 then fetch_genesis_cnight_registrations (node_version sv) block else Inr []) = Inr gen"
    and "try_map (make_transaction X (\<lambda>address. get_contract_state address (node_version sv) block) pv)
      (bd_transactions d) = Inr txs"
    and "b = \<lparr>b_hash = ab_hash block, b_height = ab_number block, b_protocol_version = pv,
      b_parent_hash = sh_parent_hash header, b_author = author,
      b_timestamp = (case bd_timestamp d of Some t \<Rightarrow> t | None \<Rightarrow> 0),
      b_zswap_merkle_tree_root = zsr, b_ledger_state_root = lroot, b_transactions = txs,
      b_dust_registration_events = bd_dust_registration_events d @ gen, b_bridge_events = bd_bridge_events d\<rparr>"
  using assms by (auto simp: make_block_def Let_def result_simps block_header_def)

lemma make_block_links:
  assumes "make_block C X N cache block = Inr (b, cache')"
  shows "b_hash b = ab_hash block" "b_height b = ab_number block"
    "\<exists>header. ab_header block = Some header \<and> b_parent_hash b = sh_parent_hash header"
  using assms by (auto elim!: make_block_Inr)

lemma make_block_fresh:
  assumes "make_block C X N None block = Inr r"
  shows "\<exists>sv a. try_from_u32 (ab_spec_version block) = Inr sv \<and> fetch_authorities (node_version sv) block = Inr a
    \<and> make_block C X N (Some a) block = Inr r"
proof (cases r)
  case (Pair b c)
  with assms have "make_block C X N None block = Inr (b, c)" by simp
  then show ?thesis
  proof (rule make_block_Inr)
    fix sv a
    assume r: "try_from_u32 (ab_spec_version block) = Inr sv"
      "(case None of Some cached \<Rightarrow> Inr cached | None \<Rightarrow> fetch_authorities (node_version sv) block) = Inr a"
    then have "make_block C X N (Some a) block = make_block C X N None block"
      by (simp add: make_block_def Let_def)
    with r assms show ?thesis by auto
  qed
qed

lemma make_block_cache:
  assumes "make_block C X N (Some a) block = Inr (b, c)" and "make_block C X N (Some a') block = Inr (b', c')"
  shows "c' = map_option (\<lambda>_. a') c \<and> b' = b\<lparr>b_author := b_author b'\<rparr> \<and> c \<in> {None, Some a}"
proof -
  obtain header pv sv author zroot d lroot zsr gen txs where 1: "ab_header block = Some header"
    "protocol_version (nd_scale_u32 N) (sh_logs header) = Inr (Some pv)" "try_from_u32 (ab_spec_version block) = Inr sv"
    "get_zswap_merkle_tree_root (node_version sv) N block = Inr zroot"
    "make_block_details (Some a) (node_version pv) block = Inr (c, d)"
    "get_ledger_state_root (node_version sv) block = Inr lroot"
    "zswap_root_deserialize C zroot (ledger_version pv) = Inr zsr"
    "(if ab_number block = 0 then fetch_genesis_cnight_registrations (node_version sv) block else Inr []) = Inr gen"
    "try_map (make_transaction X (\<lambda>address. get_contract_state address (node_version sv) block) pv)
      (bd_transactions d) = Inr txs"
    "b = \<lparr>b_hash = ab_hash block, b_height = ab_number block, b_protocol_version = pv,
      b_parent_hash = sh_parent_hash header, b_author = author,
      b_timestamp = (case bd_timestamp d of Some t \<Rightarrow> t | None \<Rightarrow> 0),
      b_zswap_merkle_tree_root = zsr, b_ledger_state_root = lroot, b_transactions = txs,
      b_dust_registration_events = bd_dust_registration_events d @ gen, b_bridge_events = bd_bridge_events d\<rparr>"
    using assms(1) by (rule make_block_Inr) (auto intro: that)
  obtain header' pv' sv' author' zroot' d' lroot' zsr' gen' txs' where 2: "ab_header block = Some header'"
    "protocol_version (nd_scale_u32 N) (sh_logs header') = Inr (Some pv')" "try_from_u32 (ab_spec_version block) = Inr sv'"
    "get_zswap_merkle_tree_root (node_version sv') N block = Inr zroot'"
    "make_block_details (Some a') (node_version pv') block = Inr (c', d')"
    "get_ledger_state_root (node_version sv') block = Inr lroot'"
    "zswap_root_deserialize C zroot' (ledger_version pv') = Inr zsr'"
    "(if ab_number block = 0 then fetch_genesis_cnight_registrations (node_version sv') block else Inr []) = Inr gen'"
    "try_map (make_transaction X (\<lambda>address. get_contract_state address (node_version sv') block) pv')
      (bd_transactions d') = Inr txs'"
    "b' = \<lparr>b_hash = ab_hash block, b_height = ab_number block, b_protocol_version = pv',
      b_parent_hash = sh_parent_hash header', b_author = author',
      b_timestamp = (case bd_timestamp d' of Some t \<Rightarrow> t | None \<Rightarrow> 0),
      b_zswap_merkle_tree_root = zsr', b_ledger_state_root = lroot', b_transactions = txs',
      b_dust_registration_events = bd_dust_registration_events d' @ gen', b_bridge_events = bd_bridge_events d'\<rparr>"
    using assms(2) by (rule make_block_Inr) (auto intro: that)
  have same: "header' = header" "sv' = sv" using 1(1,3) 2(1,3) by auto
  then have "pv' = pv" using 1(2) 2(2) by simp
  moreover have "c' = map_option (\<lambda>_. a') c \<and> d' = d"
    using details_cache [OF 1(5), of a'] 2(5) \<open>pv' = pv\<close> by simp
  moreover have "c \<in> {None, Some a}"
    using 1(5) by (rule block_details_Inr) (auto simp: cache_after_def)
  ultimately show ?thesis using 1 2 same by auto
qed

section \<open>The author\<close>

lemma authority_in: "authority as i = Some a \<Longrightarrow> a \<in> set as"
  by (auto simp: authority_def split: if_splits)

lemma log_author_in: "log_author N as v babe engine digest = Inr (Some a) \<Longrightarrow> a \<in> set as"
  by (auto simp: log_author_def babe_author_def result_simps authority_in split: if_splits dest: authority_in)

text \<open>The author is that of the first digest that yields one.\<close>

definition first_author ::
    "node \<Rightarrow> hash32 list \<Rightarrow> NodeVersion \<Rightarrow> bool \<Rightarrow> digest_item list \<Rightarrow> hash32 \<Rightarrow> bool" where
  "first_author N as v babe logs a \<longleftrightarrow>
     (\<exists>before engine digest after. logs = before @ PreRuntime engine digest # after
       \<and> log_author N as v babe engine digest = Inr (Some a)
       \<and> (\<forall>e d. PreRuntime e d \<in> set before \<longrightarrow> log_author N as v babe e d = Inr None))"

lemma first_author_Nil: "\<not> first_author N as v babe [] a"
  by (simp add: first_author_def)

lemma first_author_skip:
  assumes "\<And>e d. x = PreRuntime e d \<Longrightarrow> log_author N as v babe e d = Inr None"
  shows "first_author N as v babe (x # logs) a \<longleftrightarrow> first_author N as v babe logs a"
proof
  assume "first_author N as v babe (x # logs) a"
  then obtain before engine digest after where b: "x # logs = before @ PreRuntime engine digest # after"
    "log_author N as v babe engine digest = Inr (Some a)"
    "\<forall>e d. PreRuntime e d \<in> set before \<longrightarrow> log_author N as v babe e d = Inr None"
    unfolding first_author_def by blast
  then obtain before' where "before = x # before'" using assms by (cases before) auto
  with b show "first_author N as v babe logs a" unfolding first_author_def
    by (intro exI [of _ before'] exI [of _ engine] exI [of _ digest] exI [of _ after]) auto
next
  assume "first_author N as v babe logs a"
  then obtain before engine digest after where b: "logs = before @ PreRuntime engine digest # after"
    "log_author N as v babe engine digest = Inr (Some a)"
    "\<forall>e d. PreRuntime e d \<in> set before \<longrightarrow> log_author N as v babe e d = Inr None"
    unfolding first_author_def by blast
  then show "first_author N as v babe (x # logs) a"
    unfolding first_author_def using assms
    by (intro exI [of _ "x # before"] exI [of _ engine] exI [of _ digest] exI [of _ after]) auto
qed

lemma first_author_other:
  "first_author N as v babe (Consensus e d # logs) a = first_author N as v babe logs a"
  "first_author N as v babe (OtherDigest # logs) a = first_author N as v babe logs a"
  by (rule first_author_skip; simp)+

lemma first_author_head:
  assumes "log_author N as v babe engine digest \<noteq> Inr None"
  shows "first_author N as v babe (PreRuntime engine digest # logs) a \<longleftrightarrow>
    log_author N as v babe engine digest = Inr (Some a)"
proof
  assume "first_author N as v babe (PreRuntime engine digest # logs) a"
  then obtain before e d after where b: "PreRuntime engine digest # logs = before @ PreRuntime e d # after"
    "log_author N as v babe e d = Inr (Some a)"
    "\<forall>e d. PreRuntime e d \<in> set before \<longrightarrow> log_author N as v babe e d = Inr None"
    unfolding first_author_def by blast
  then have "before = []" using assms by (cases before) auto
  with b show "log_author N as v babe engine digest = Inr (Some a)" by simp
next
  assume "log_author N as v babe engine digest = Inr (Some a)"
  then show "first_author N as v babe (PreRuntime engine digest # logs) a"
    unfolding first_author_def by (intro exI [of _ "[]"] exI [of _ engine] exI [of _ digest] exI [of _ logs]) simp
qed

lemma authors_loop_iff: "authors_loop N logs as v babe = Inr (Some a) \<longleftrightarrow> first_author N as v babe logs a"
proof (induction N logs as v babe rule: authors_loop.induct)
  case (2 N engine digest logs as v babe)
  show ?case
  proof (cases "log_author N as v babe engine digest = Inr None")
    case True
    with "2.IH" [OF True] have "authors_loop N (PreRuntime engine digest # logs) as v babe = Inr (Some a)
        \<longleftrightarrow> first_author N as v babe logs a" by simp
    then show ?thesis using True by (subst first_author_skip) auto
  next
    case False
    then show ?thesis by (cases "log_author N as v babe engine digest") (auto simp: first_author_head)
  qed
qed (simp_all add: first_author_other first_author_Nil)

lemma extract_author_in:
  assumes "extract_block_author N header as v babe = Inr (Some a)"
  shows "a \<in> set as"
proof -
  have "authors_loop N (sh_logs header) as v babe = Inr (Some a)"
    using assms by (simp add: extract_block_author_def author_from_digest_logs_def split: if_splits)
  then obtain engine digest where "log_author N as v babe engine digest = Inr (Some a)"
    unfolding authors_loop_iff first_author_def by blast
  then show ?thesis by (rule log_author_in)
qed

section \<open>The block as the node built it\<close>

fun chain_raw :: "Transaction \<Rightarrow> RuntimeTransaction" where
  "chain_raw (RegularTx t) = RuntimeRegular (rt_raw t)"
| "chain_raw (SystemTx t) = RuntimeSystem (st_raw t)"

lemma make_transaction_raw: "make_transaction X get pv t = Inr t' \<Longrightarrow> chain_raw t' = t"
  by (cases t) (auto simp: make_regular_transaction_def make_system_transaction_def result_simps)

lemma make_transactions_raw: "try_map (make_transaction X get pv) ts = Inr ts' \<Longrightarrow> map chain_raw ts' = ts"
  by (auto simp: try_map_Inr_iff list_all2_conv_all_nth make_transaction_raw intro!: nth_equalityI)


end
