(* ===== verification/NodeSync.thy ===== *)
theory NodeSync
  imports NodeFacts
begin

text \<open>
  Catching up with the node. The reference is to make the blocks one after the other with one cache;
  the client makes them in chunks, each block with a copy of the cache from before the chunk, and near
  the tip by walking back over the parent hashes.
\<close>

section \<open>The reference\<close>

definition made_at ::
    "('s, 't, 'v, 'y) ledger_crates \<Rightarrow> tx_crates \<Rightarrow> node \<Rightarrow> hash32 list option \<Rightarrow> nat \<Rightarrow>
       SubxtNodeError + Block \<times> hash32 list option" where
  "made_at C X N cache n = and_then (block_at_height N (word_of_nat n)) (make_block C X N cache)"

fun sequential ::
    "('s, 't, 'v, 'y) ledger_crates \<Rightarrow> tx_crates \<Rightarrow> node \<Rightarrow> hash32 option \<Rightarrow> hash32 list option \<Rightarrow> nat list \<Rightarrow>
       Block list \<times> (SubxtNodeError + hash32 option \<times> hash32 list option)" where
  "sequential C X N last_hash cache [] = ([], Inr (last_hash, cache))"
| "sequential C X N last_hash cache (n # ns) =
     (case made_at C X N cache n of
        Inl e \<Rightarrow> ([], Inl e)
      | Inr (block, cache') \<Rightarrow>
          (case wrong_parent last_hash block of
             Some expected \<Rightarrow> ([], Inl (ParentHashMismatch (b_height block) expected (b_parent_hash block)))
           | None \<Rightarrow>
               let (blocks, r) = sequential C X N (Some (b_hash block)) cache' ns in (block # blocks, r)))"

lemma sequential_append:
  "sequential C X N h cache (ms @ ns) =
     (case sequential C X N h cache ms of
        (blocks, Inl e) \<Rightarrow> (blocks, Inl e)
      | (blocks, Inr (h', cache')) \<Rightarrow>
          (blocks @ fst (sequential C X N h' cache' ns), snd (sequential C X N h' cache' ns)))"
proof (induction ms arbitrary: h cache)
  case (Cons m ms)
  show ?case
  proof (cases "made_at C X N cache m")
    case (Inr p)
    obtain block cache' where p: "p = (block, cache')" by (cases p)
    show ?thesis
    proof (cases "wrong_parent h block")
      case None
      show ?thesis
        using Inr p None Cons.IH [of "Some (b_hash block)" cache']
        by (auto simp: case_prod_unfold Let_def split: sum.splits)
    qed (simp add: Inr p)
  qed simp
qed simp

section \<open>What is assumed of the node\<close>

text \<open>The node serves every height of a range, under its number, and every one of its blocks can be made.\<close>

definition served ::
    "('s, 't, 'v, 'y) ledger_crates \<Rightarrow> tx_crates \<Rightarrow> node \<Rightarrow> nat \<Rightarrow> nat \<Rightarrow> bool" where
  "served C X N lo hi \<longleftrightarrow> (\<forall>n. lo \<le> n \<and> n < hi \<longrightarrow> (\<exists>block. nd_at_height N (word_of_nat n) = Some block
     \<and> ab_number block = word_of_nat n \<and> (\<forall>cache. \<exists>made. make_block C X N cache block = Inr made)))"

definition new_session_at ::
    "('s, 't, 'v, 'y) ledger_crates \<Rightarrow> tx_crates \<Rightarrow> node \<Rightarrow> nat \<Rightarrow> bool" where
  "new_session_at C X N n \<longleftrightarrow> (\<exists>block. made_at C X N None n = Inr (block, None))"

definition authorities_in :: "node \<Rightarrow> nat \<Rightarrow> SubxtNodeError + hash32 list" where
  "authorities_in N n =
     and_then (block_at_height N (word_of_nat n)) (\<lambda>block.
     and_then (map_err NodeProtocolVersion (try_from_u32 (ab_spec_version block))) (\<lambda>sv.
       fetch_authorities (node_version sv) block))"

text \<open>The authority set in the state changes only at new sessions.\<close>

definition stable_authorities ::
    "('s, 't, 'v, 'y) ledger_crates \<Rightarrow> tx_crates \<Rightarrow> node \<Rightarrow> nat \<Rightarrow> nat \<Rightarrow> bool" where
  "stable_authorities C X N lo hi \<longleftrightarrow> (\<forall>n. lo \<le> n \<and> Suc n < hi \<and> \<not> new_session_at C X N (Suc n) \<longrightarrow>
     authorities_in N (Suc n) = authorities_in N n)"

text \<open>No new session shortly after the start or after another one: a chunk made without a cached set holds none.\<close>

definition sessions_apart ::
    "('s, 't, 'v, 'y) ledger_crates \<Rightarrow> tx_crates \<Rightarrow> node \<Rightarrow> nat \<Rightarrow> nat \<Rightarrow> bool" where
  "sessions_apart C X N lo hi \<longleftrightarrow> (\<forall>c s. lo \<le> c \<and> (c = lo \<or> new_session_at C X N (c - 1)) \<and> c < s \<and> s < c + 32 \<and> s < hi
     \<longrightarrow> \<not> new_session_at C X N s)"

lemma served_made:
  assumes "served C X N lo hi" and "lo \<le> n" and "n < hi"
  shows "\<exists>block cache'. made_at C X N cache n = Inr (block, cache')"
  using assms by (force simp: served_def made_at_def block_at_height_def)

lemma served_height:
  assumes "served C X N lo hi" and "lo \<le> n" and "n < hi" and "made_at C X N cache n = Inr (block, cache')"
  shows "b_height block = word_of_nat n"
  using assms by (fastforce simp: served_def made_at_def block_at_height_def result_simps dest: make_block_links)

lemma made_fresh:
  assumes "made_at C X N None n = Inr r"
  shows "\<exists>a. authorities_in N n = Inr a \<and> made_at C X N (Some a) n = Inr r"
  using assms by (fastforce simp: made_at_def authorities_in_def result_simps dest: make_block_fresh)

lemma made_cache:
  assumes "served C X N lo hi" and "lo \<le> n" and "n < hi" and "made_at C X N (Some a) n = Inr (block, cache')"
  shows "cache' = (if new_session_at C X N n then None else Some a)"
proof -
  obtain b c where f: "made_at C X N None n = Inr (b, c)" using served_made [OF assms(1-3)] by blast
  obtain a0 where "made_at C X N (Some a0) n = Inr (b, c)" using made_fresh [OF f] by blast
  then have "cache' = map_option (\<lambda>_. a) c"
    using assms(4) by (auto simp: made_at_def result_simps dest: make_block_cache)
  moreover have "new_session_at C X N n \<longleftrightarrow> c = None" using f by (auto simp: new_session_at_def)
  moreover have "c = None \<or> c = Some a0"
    using \<open>made_at C X N (Some a0) n = Inr (b, c)\<close> by (auto simp: made_at_def result_simps dest: make_block_cache)
  ultimately show ?thesis by auto
qed

section \<open>One chunk\<close>

text \<open>What a consumed chunk amounts to: the blocks from \<open>c\<close> up to \<open>m\<close>, in sequence.\<close>

definition consumed ::
    "('s, 't, 'v, 'y) ledger_crates \<Rightarrow> tx_crates \<Rightarrow> node \<Rightarrow> hash32 list \<Rightarrow> hash32 option \<Rightarrow> u64 \<Rightarrow> nat \<Rightarrow> nat \<Rightarrow>
       Block list \<times> (SubxtNodeError + hash32 option \<times> u64 \<times> hash32 list option) \<Rightarrow> bool" where
  "consumed C X N a h k c m res \<longleftrightarrow>
     sequential C X N h (Some a) [c..<m] = (fst res, map_sum id (\<lambda>(h', k', a'). (h', a')) (snd res))
     \<and> (\<forall>h' k' a'. snd res = Inr (h', k', a') \<longrightarrow> k' = (if c < m then word_of_nat m else k)
          \<and> (a' = Some a \<or> a' = None \<and> c < m \<and> new_session_at C X N (m - 1)))"

lemma consume_cached:
  assumes "served C X N lo hi" and "lo \<le> c" and "c \<le> e" and "e \<le> hi"
    and "\<And>n. c \<le> n \<Longrightarrow> n < e \<Longrightarrow> made_at C X N (Some a) n = Inr (chunk n)"
  shows "\<exists>m. c \<le> m \<and> m \<le> e \<and> (c < e \<longrightarrow> c < m)
    \<and> consumed C X N a h k c m (consume_chunk h k (Some a) (map chunk [c..<e]))"
  using assms(2,3,5)
proof (induction "e - c" arbitrary: c h k)
  case 0
  then show ?case by (intro exI [of _ c]) (simp add: consumed_def)
next
  case (Suc d)
  then have ce: "c < e" by simp
  obtain block cache' where ch: "chunk c = (block, cache')" by (cases "chunk c")
  have made: "made_at C X N (Some a) c = Inr (block, cache')" using Suc.prems(3) [of c] ce ch by simp
  have cache': "cache' = (if new_session_at C X N c then None else Some a)"
    and height: "b_height block + 1 = word_of_nat (Suc c)"
    using made_cache [OF assms(1) Suc.prems(1) _ made] served_height [OF assms(1) Suc.prems(1) _ made] ce assms(4)
    by simp_all
  have upt: "[c..<e] = c # [Suc c..<e]" using ce by (simp add: upt_rec)
  show ?case
  proof (cases "wrong_parent h block")
    case (Some expected)
    then show ?thesis
      using ce made ch by (intro exI [of _ "Suc c"]) (simp add: upt consumed_def)
  next
    case None
    show ?thesis
    proof (cases "new_session_at C X N c")
      case True
      then show ?thesis
        using ce made ch None cache' height by (intro exI [of _ "Suc c"]) (simp add: upt consumed_def)
    next
      case False
      let ?h = "Some (b_hash block)" and ?k = "b_height block + 1"
      have "\<exists>m. Suc c \<le> m \<and> m \<le> e \<and> (Suc c < e \<longrightarrow> Suc c < m)
          \<and> consumed C X N a ?h ?k (Suc c) m (consume_chunk ?h ?k (Some a) (map chunk [Suc c..<e]))"
        by (rule Suc.hyps(1)) (use Suc.hyps(2) Suc.prems ce in auto)
      then obtain m where m: "Suc c \<le> m" "m \<le> e"
        and r: "consumed C X N a ?h ?k (Suc c) m (consume_chunk ?h ?k (Some a) (map chunk [Suc c..<e]))" by blast
      have uptm: "[c..<m] = c # [Suc c..<m]" using m by (simp add: upt_rec)
      have at: "(if Suc c < m then word_of_nat m else ?k) = word_of_nat m" using m height by (auto simp: le_less)
      have "consumed C X N a h k c m (consume_chunk h k (Some a) (map chunk [c..<e]))"
        using m r made ch None cache' False unfolding consumed_def at
        by (auto simp: upt uptm case_prod_unfold Let_def)
      then show ?thesis using m by (intro exI [of _ m]) simp
    qed
  qed
qed

lemma authorities_until:
  assumes "stable_authorities C X N lo hi" and "lo \<le> c" and "\<And>s. c < s \<Longrightarrow> s < e \<Longrightarrow> \<not> new_session_at C X N s"
    and "c \<le> n" and "n < e" and "e \<le> hi"
  shows "authorities_in N n = authorities_in N c"
  using assms(4,5)
proof (induction n rule: dec_induct)
  case (step n)
  then have "authorities_in N (Suc n) = authorities_in N n"
    using assms(1,2,3,6) by (auto simp: stable_authorities_def)
  then show ?case using step by simp
qed simp

lemma consume_first:
  assumes "snd x \<in> {None, Some a}"
  shows "consume_chunk h k None (x # xs) = consume_chunk h k (Some a) (x # xs)"
  using assms by (cases x) (auto simp: Let_def split: option.splits)

lemma sequential_first:
  assumes "made_at C X N None c = made_at C X N (Some a) c" and "c < m"
  shows "sequential C X N h None [c..<m] = sequential C X N h (Some a) [c..<m]"
proof -
  have "[c..<m] = c # [Suc c..<m]" using assms(2) by (simp add: upt_rec)
  then show ?thesis using assms(1) by simp
qed

definition cache_ok ::
    "('s, 't, 'v, 'y) ledger_crates \<Rightarrow> tx_crates \<Rightarrow> node \<Rightarrow> nat \<Rightarrow> nat \<Rightarrow> hash32 list option \<Rightarrow> bool" where
  "cache_ok C X N lo c cache \<longleftrightarrow> (cache = None \<longrightarrow> c = lo \<or> new_session_at C X N (c - 1))"

lemma unat_u64: "n < 2 ^ 64 \<Longrightarrow> unat (word_of_nat n :: u64) = n"
  by (simp add: unsigned_of_nat take_bit_nat_eq_self)

lemma heights_upt:
  assumes "e < 2 ^ 64" and "c \<le> e"
  shows "heights (word_of_nat c) (word_of_nat e) = map word_of_nat [c..<e]"
  using assms by (simp add: heights_def unat_u64)

lemma make_chunk_served:
  assumes "served C X N lo hi" and "lo \<le> c" and "c \<le> e" and "e \<le> hi" and "hi < 2 ^ 64"
  shows "make_chunk C X N cache (word_of_nat c) (word_of_nat e) = Inr (map (\<lambda>n. projr (made_at C X N cache n)) [c..<e])"
    and "\<And>n. c \<le> n \<Longrightarrow> n < e \<Longrightarrow> made_at C X N cache n = Inr (projr (made_at C X N cache n))"
proof -
  show made: "made_at C X N cache n = Inr (projr (made_at C X N cache n))" if "c \<le> n" "n < e" for n
    using served_made [OF assms(1), of n cache] that assms(2,4) by fastforce
  have "map (\<lambda>h. and_then (block_at_height N h) (make_block C X N cache)) (map word_of_nat [c..<e])
      = map Inr (map (\<lambda>n. projr (made_at C X N cache n)) [c..<e])"
    using made by (auto simp: made_at_def)
  then show "make_chunk C X N cache (word_of_nat c) (word_of_nat e) = Inr (map (\<lambda>n. projr (made_at C X N cache n)) [c..<e])"
    using assms(3,4,5) by (simp add: make_chunk_def heights_upt try_join_all_Inr_iff)
qed

lemma chunk_step:
  assumes "served C X N lo hi" and "stable_authorities C X N lo hi" and "sessions_apart C X N lo hi"
    and "hi + 32 < 2 ^ 64" and "lo \<le> c" and "c < hi" and "cache_ok C X N lo c cache"
  obtains m chunk res where "c < m" and "m \<le> hi"
    and "make_chunk C X N cache (word_of_nat c) (min (word_of_nat c + CATCH_UP_CHUNK) (word_of_nat hi)) = Inr chunk"
    and "consume_chunk h (word_of_nat c) cache chunk = res"
    and "sequential C X N h cache [c..<m] = (fst res, map_sum id (\<lambda>(h', k', a'). (h', a')) (snd res))"
    and "\<And>h' k' a'. snd res = Inr (h', k', a') \<Longrightarrow> k' = word_of_nat m \<and> cache_ok C X N lo m a'"
proof -
  define e where "e = min (c + 32) hi"
  have e: "c < e" "e \<le> hi" "e \<le> c + 32" using assms(6) by (auto simp: e_def)
  have "word_of_nat c + CATCH_UP_CHUNK = word_of_nat (c + 32)" by (simp add: CATCH_UP_CHUNK_def)
  then have we: "min (word_of_nat c + CATCH_UP_CHUNK) (word_of_nat hi) = (word_of_nat e :: u64)"
    using assms(4,6) unat_u64 [of "c + 32"] unat_u64 [of hi]
    by (simp only: min_def e_def word_le_nat_alt) (simp split: if_splits)
  let ?chunk = "\<lambda>n. projr (made_at C X N cache n)"
  have hi: "hi < 2 ^ 64" using assms(4) by simp
  have mk: "make_chunk C X N cache (word_of_nat c) (word_of_nat e) = Inr (map ?chunk [c..<e])"
    and made: "\<And>n. c \<le> n \<Longrightarrow> n < e \<Longrightarrow> made_at C X N cache n = Inr (?chunk n)"
    using make_chunk_served [OF assms(1,5) _ e(2) hi] e(1) by auto
  have upt: "[c..<e] = c # [Suc c..<e]" using e by (simp add: upt_rec)
  obtain a where a: "\<And>n. c \<le> n \<Longrightarrow> n < e \<Longrightarrow> made_at C X N (Some a) n = Inr (?chunk n)"
    and eq: "consume_chunk h (word_of_nat c) cache (map ?chunk [c..<e]) = consume_chunk h (word_of_nat c) (Some a) (map ?chunk [c..<e])"
    and seq: "\<And>m. c < m \<Longrightarrow> sequential C X N h cache [c..<m] = sequential C X N h (Some a) [c..<m]"
  proof (cases cache)
    case None
    have none: "\<not> new_session_at C X N s" if "c < s" "s < e" for s
      by (rule assms(3) [unfolded sessions_apart_def, rule_format, of c s])
        (use None assms(5,7) e(2,3) that in \<open>auto simp: cache_ok_def\<close>)
    have stable: "authorities_in N n = authorities_in N c" if "c \<le> n" "n < e" for n
      by (rule authorities_until [OF assms(2,5) _ that e(2)]) (rule none)
    obtain a where "authorities_in N c = Inr a" using made_fresh [of C X N c "?chunk c"] made [of c] e(1) None by auto
    then have a: "made_at C X N (Some a) n = Inr (?chunk n)" if "c \<le> n" "n < e" for n
      using made_fresh [of C X N n "?chunk n"] made [OF that] stable [OF that] None by auto
    have "snd (?chunk c) \<in> {None, Some a}"
      using made_cache [OF assms(1,5), of a "fst (?chunk c)" "snd (?chunk c)"] a [of c] e(1) assms(6) by auto
    then have "consume_chunk h (word_of_nat c) cache (map ?chunk [c..<e]) = consume_chunk h (word_of_nat c) (Some a) (map ?chunk [c..<e])"
      unfolding upt None list.map by (rule consume_first)
    moreover have "sequential C X N h cache [c..<m] = sequential C X N h (Some a) [c..<m]" if "c < m" for m
      unfolding None by (rule sequential_first) (use that made [of c] a [of c] e(1) None in auto)
    ultimately show ?thesis using a by (rule_tac that)
  next
    case (Some a)
    then show ?thesis using made by (intro that [of a]) auto
  qed
  obtain m where m: "c < m" "m \<le> e"
    and r: "consumed C X N a h (word_of_nat c) c m (consume_chunk h (word_of_nat c) (Some a) (map ?chunk [c..<e]))"
    using consume_cached [OF assms(1,5) _ e(2) a] e(1) by (meson less_imp_le)
  show ?thesis
  proof (rule that [OF m(1) _ _ refl])
    show "m \<le> hi" using m(2) e(2) by simp
    show "make_chunk C X N cache (word_of_nat c) (min (word_of_nat c + CATCH_UP_CHUNK) (word_of_nat hi)) = Inr (map ?chunk [c..<e])"
      using mk we by simp
  qed (use r m(1) seq [OF m(1)] eq in \<open>auto simp: consumed_def cache_ok_def\<close>)
qed

section \<open>The whole catch-up by height\<close>

lemma catch_up_is_sequential:
  assumes "served C X N lo hi" and "stable_authorities C X N lo hi" and "sessions_apart C X N lo hi"
    and "hi + 32 < 2 ^ 64" and "lo \<le> c" and "c \<le> hi" and "cache_ok C X N lo c cache"
  shows "catch_up C X N (word_of_nat hi) h (word_of_nat c) cache ys =
    Some (ys @ fst (sequential C X N h cache [c..<hi]), snd (sequential C X N h cache [c..<hi]))"
  using assms(5-7)
proof (induction "hi - c" arbitrary: c h cache ys rule: less_induct)
  case less
  show ?case
  proof (cases "c = hi")
    case True
    then show ?thesis by (simp add: catch_up.simps)
  next
    case False
    then have c: "c < hi" using less.prems(2) by simp
    then have lt: "(word_of_nat c :: u64) < word_of_nat hi"
      using assms(4) by (simp add: word_less_nat_alt unat_u64)
    obtain m chunk res where m: "c < m" "m \<le> hi"
      and mk: "make_chunk C X N cache (word_of_nat c) (min (word_of_nat c + CATCH_UP_CHUNK) (word_of_nat hi)) = Inr chunk"
      and res: "consume_chunk h (word_of_nat c) cache chunk = res"
      and seq: "sequential C X N h cache [c..<m] = (fst res, map_sum id (\<lambda>(h', k', a'). (h', a')) (snd res))"
      and nxt: "\<And>h' k' a'. snd res = Inr (h', k', a') \<Longrightarrow> k' = word_of_nat m \<and> cache_ok C X N lo m a'"
      using chunk_step [OF assms(1-4) less.prems(1) c less.prems(3)] by blast
    have upt: "[c..<hi] = [c..<m] @ [m..<hi]" 
      using m upt_add_eq_append [of c m "hi - m"] by simp
    show ?thesis
    proof (cases "snd res")
      case (Inl e)
      then show ?thesis
        using lt mk res seq by (cases res) (simp add: catch_up.simps upt sequential_append)
    next
      case (Inr next_state)
      then obtain h' k' a' where n: "snd res = Inr (h', k', a')" by (cases next_state) auto
      have "catch_up C X N (word_of_nat hi) h' (word_of_nat m) a' (ys @ fst res) =
          Some ((ys @ fst res) @ fst (sequential C X N h' a' [m..<hi]), snd (sequential C X N h' a' [m..<hi]))"
        by (rule less.hyps) (use m c less.prems(1) nxt [OF n] in auto)
      then show ?thesis
        using lt mk res seq n nxt [OF n] by (cases res) (simp add: catch_up.simps [of _ _ _ _ h] upt sequential_append)
    qed
  qed
qed

section \<open>The canonical chain\<close>

definition hash_at :: "node \<Rightarrow> nat \<Rightarrow> hash32" where
  "hash_at N n = (case nd_at_height N (word_of_nat n) of Some block \<Rightarrow> ab_hash block | None \<Rightarrow> 0)"

definition parent_at :: "node \<Rightarrow> nat \<Rightarrow> hash32 option" where
  "parent_at N n = Option.bind (nd_at_height N (word_of_nat n)) (\<lambda>block. map_option sh_parent_hash (ab_header block))"

text \<open>The blocks of a range, asked for by hash or by height, are one chain of parent hashes.\<close>

definition chained :: "node \<Rightarrow> nat \<Rightarrow> nat \<Rightarrow> bool" where
  "chained N lo hi \<longleftrightarrow> (\<forall>n. lo \<le> n \<and> n \<le> hi \<longrightarrow> nd_at_hash N (hash_at N n) = nd_at_height N (word_of_nat n)
      \<and> (lo < n \<longrightarrow> parent_at N n = Some (hash_at N (n - 1))))"

fun linked_blocks :: "hash32 option \<Rightarrow> Block list \<Rightarrow> bool" where
  "linked_blocks h [] = True"
| "linked_blocks h (b # bs) = ((case h of None \<Rightarrow> True | Some p \<Rightarrow> b_parent_hash b = p) \<and> linked_blocks (Some (b_hash b)) bs)"

lemma linked_blocks_append:
  "linked_blocks h (xs @ ys) \<longleftrightarrow>
     linked_blocks h xs \<and> linked_blocks (if xs = [] then h else Some (b_hash (last xs))) ys"
  by (induction xs arbitrary: h) auto

lemma made_links:
  assumes "served C X N lo hi" and "lo \<le> n" and "n < hi" and "made_at C X N cache n = Inr (block, cache')"
  shows "b_hash block = hash_at N n" and "parent_at N n = Some (b_parent_hash block)" and "b_height block = word_of_nat n"
proof -
  obtain b where b: "nd_at_height N (word_of_nat n) = Some b" "make_block C X N cache b = Inr (block, cache')"
    using assms(4) by (auto simp: made_at_def block_at_height_def result_simps)
  note links = make_block_links [OF b(2)]
  show "b_hash block = hash_at N n" using links(1) b(1) by (simp add: hash_at_def)
  show "parent_at N n = Some (b_parent_hash block)" using links(3) b(1) by (auto simp: parent_at_def)
  show "b_height block = word_of_nat n" by (rule served_height [OF assms])
qed

text \<open>On the chain, making the blocks by hash is making them by height, and no parent is wrong.\<close>

lemma chain_blocks:
  assumes "served C X N lo (Suc hi)" and "chained N lo hi" and "lo \<le> c" and "c \<le> k" and "k \<le> Suc hi"
    and "\<And>p. h = Some p \<Longrightarrow> c \<le> hi \<Longrightarrow> parent_at N c = Some p"
  shows "\<exists>bs h' cache'. sequential C X N h cache [c..<k] = (bs, Inr (h', cache'))
    \<and> make_blocks C X N cache (map (hash_at N) [c..<k]) = (bs, Inr cache')
    \<and> map b_height bs = map word_of_nat [c..<k] \<and> linked_blocks h bs
    \<and> h' = (if c < k then Some (hash_at N (k - 1)) else h)"
  using assms(3-6)
proof (induction "k - c" arbitrary: c h cache)
  case 0
  then show ?case by simp
next
  case (Suc d)
  then have c: "c < k" "c \<le> hi" "c < Suc hi" by simp_all
  have upt: "[c..<k] = c # [Suc c..<k]" using c by (simp add: upt_rec)
  obtain block cache1 where made: "made_at C X N cache c = Inr (block, cache1)"
    using served_made [OF assms(1) Suc.prems(1) c(3)] by blast
  note links = made_links [OF assms(1) Suc.prems(1) c(3) made]
  have by_hash: "and_then (node_at N (hash_at N c)) (make_block C X N cache) = Inr (block, cache1)"
    using made assms(2) Suc.prems(1) c(2) by (auto simp: chained_def node_at_def made_at_def block_at_height_def result_simps)
  have ok: "wrong_parent h block = None"
    using Suc.prems(4) c(2) links(2) by (cases h) (auto simp: wrong_parent_def)
  have "\<exists>bs h' cache'. sequential C X N (Some (b_hash block)) cache1 [Suc c..<k] = (bs, Inr (h', cache'))
    \<and> make_blocks C X N cache1 (map (hash_at N) [Suc c..<k]) = (bs, Inr cache')
    \<and> map b_height bs = map word_of_nat [Suc c..<k] \<and> linked_blocks (Some (b_hash block)) bs
    \<and> h' = (if Suc c < k then Some (hash_at N (k - 1)) else Some (b_hash block))"
    by (rule Suc.hyps(1)) (use Suc.hyps(2) Suc.prems c links assms(2) in \<open>auto simp: chained_def\<close>)
  then obtain bs h' cache' where ih: "sequential C X N (Some (b_hash block)) cache1 [Suc c..<k] = (bs, Inr (h', cache'))"
    "make_blocks C X N cache1 (map (hash_at N) [Suc c..<k]) = (bs, Inr cache')"
    "map b_height bs = map word_of_nat [Suc c..<k]" "linked_blocks (Some (b_hash block)) bs"
    "h' = (if Suc c < k then Some (hash_at N (k - 1)) else Some (b_hash block))" by blast
  have "k - 1 = c" if "\<not> Suc c < k" using that c by simp
  then show ?case
    using made by_hash ok ih links c(1) Suc.prems(4) c(2)
    by (intro exI [of _ "block # bs"] exI [of _ h'] exI [of _ cache'])
      (auto simp: upt split: option.splits)
qed

text \<open>Walking back from the parent of \<open>k\<close> ends at the block that has a stop hash as its parent.\<close>

lemma ancestors_chain:
  assumes "chained N lo hi" and "lo \<le> c" and "c \<le> k" and "k \<le> hi"
    and "parent_at N c = Some p" and "p \<in> {stop, gp}"
    and "\<And>n. c \<le> n \<Longrightarrow> n \<le> hi \<Longrightarrow> hash_at N n \<notin> {stop, gp} \<and> parent_at N n \<noteq> None"
    and "parent_at N k = Some q"
  shows "ancestors N stop gp q acc = Some (Inr (acc @ rev (map (hash_at N) [c..<k])))"
  using assms(3,4,8)
proof (induction k arbitrary: q acc rule: dec_induct)
  case base
  then show ?case using assms(5,6) by (auto simp: ancestors.simps)
next
  case (step k)
  have q: "q = hash_at N k" using step.prems assms(1,2) step.hyps by (auto simp: chained_def)
  obtain r where r: "parent_at N k = Some r" using assms(7) [of k] step by auto
  then obtain block header where b: "nd_at_height N (word_of_nat k) = Some block" "ab_header block = Some header"
    "sh_parent_hash header = r"
    by (auto simp: parent_at_def bind_eq_Some_conv)
  then have h: "node_at N q = Inr block" "ab_hash block = q"
    using q b(1) assms(1) [unfolded chained_def, rule_format, of k] assms(2) step.hyps step.prems
    by (simp_all add: node_at_def) (simp add: hash_at_def)
  have "q \<notin> {stop, gp}" using assms(7) [of k] q step by auto
  then have "ancestors N stop gp q acc = ancestors N stop gp r (acc @ [q])"
    by (subst ancestors.simps) (use h b in \<open>simp add: block_header_def\<close>)
  also have "\<dots> = Some (Inr ((acc @ [q]) @ rev (map (hash_at N) [c..<k])))"
    using step.IH [OF _ r, of "acc @ [q]"] step.prems by simp
  finally show ?case using step.hyps q by simp
qed

end
