(* ===== verification/LedgerContracts.thy ===== *)
theory LedgerContracts
  imports LedgerApi
begin

text \<open>
  The facade \<open>ContractState\<close> (\<open>domain/ledger/contract_state.rs\<close>): the balances and the maintenance
  authority of a serialized contract state, for both versions of the runtime crate. Of a state the code
  reads the entries of its balance map and its maintenance authority; a key or token type that is only
  serialized stands for the outcome of its serialization.
\<close>

section \<open>States of the crates\<close>

datatype crate_token_type = UnshieldedToken hash32 | OtherToken "bytes option"

datatype VerifyingKeyKind = Schnorr | Ecdsa

record crate_contract_state =
  cs_balance :: "(crate_token_type \<times> u128) list"
  cs_committee :: "(VerifyingKeyKind \<times> bytes option) list"
  cs_threshold :: u32
  cs_counter :: u32

record contract_crates =
  cc_deserialize_v8 :: "bytes \<Rightarrow> crate_contract_state option"
  cc_deserialize_v9 :: "bytes \<Rightarrow> crate_contract_state option"

datatype ContractState = ContractStateV3 crate_contract_state | ContractStateV4 crate_contract_state

fun contract_state_deserialize :: "contract_crates \<Rightarrow> bytes \<Rightarrow> LedgerVersion \<Rightarrow> LedgerError + ContractState" where
  "contract_state_deserialize K raw LV8 =
     and_then (ok_or (DeserializeError ''ContractStateV8'') (cc_deserialize_v8 K raw)) (\<lambda>s. Inr (ContractStateV3 s))"
| "contract_state_deserialize K raw LV9 =
     and_then (ok_or (DeserializeError ''ContractStateV9'') (cc_deserialize_v9 K raw)) (\<lambda>s. Inr (ContractStateV4 s))"

section \<open>Balances\<close>

fun contract_balance :: "string \<Rightarrow> crate_token_type \<times> u128 \<Rightarrow> LedgerError + ContractBalance" where
  "contract_balance name (UnshieldedToken token_type, amount) =
     Inr \<lparr>cb_token_type = token_type, cb_amount = amount\<rparr>"
| "contract_balance name (OtherToken serialized, amount) =
     and_then (ok_or (SerializeError name) serialized) (\<lambda>token_type.
     and_then (map_err ByteArrayLen (byte_array_32_try_from token_type)) (\<lambda>token_type.
       Inr \<lparr>cb_token_type = token_type, cb_amount = amount\<rparr>))"

definition positive_balances :: "crate_contract_state \<Rightarrow> (crate_token_type \<times> u128) list" where
  "positive_balances s = filter (\<lambda>(token_type, amount). amount > 0) (cs_balance s)"

fun balances :: "ContractState \<Rightarrow> LedgerError + ContractBalance list" where
  "balances (ContractStateV3 s) = try_map (contract_balance ''TokenTypeV8'') (positive_balances s)"
| "balances (ContractStateV4 s) = try_map (contract_balance ''TokenTypeV9'') (positive_balances s)"

text \<open>What the pipeline calls: deserialization and then the balances.\<close>

definition contract_balances :: "contract_crates \<Rightarrow> bytes \<Rightarrow> LedgerVersion \<Rightarrow> LedgerError + ContractBalance list" where
  "contract_balances K raw version = and_then (contract_state_deserialize K raw version) balances"

section \<open>Maintenance authority\<close>

record ContractMaintenanceVerifyingKey =
  mk_kind :: VerifyingKeyKind
  mk_key :: bytes

record ContractMaintenanceAuthority =
  ma_committee :: "ContractMaintenanceVerifyingKey list"
  ma_threshold :: u32
  ma_counter :: u32

fun maintenance_authority :: "ContractState \<Rightarrow> LedgerError + ContractMaintenanceAuthority" where
  "maintenance_authority (ContractStateV3 s) =
     and_then (try_map (\<lambda>(_, key). and_then (ok_or (SerializeError ''VerifyingKeyV8'') key) (\<lambda>key.
         Inr \<lparr>mk_kind = Schnorr, mk_key = key\<rparr>)) (cs_committee s)) (\<lambda>committee.
       Inr \<lparr>ma_committee = committee, ma_threshold = cs_threshold s, ma_counter = cs_counter s\<rparr>)"
| "maintenance_authority (ContractStateV4 s) =
     and_then (try_map (\<lambda>(kind, key). and_then (ok_or (SerializeError ''VerifyingKeyV9'') key) (\<lambda>key.
         Inr \<lparr>mk_kind = kind, mk_key = key\<rparr>)) (cs_committee s)) (\<lambda>committee.
       Inr \<lparr>ma_committee = committee, ma_threshold = cs_threshold s, ma_counter = cs_counter s\<rparr>)"

end
