(* ===== verification/LedgerFacadeFacts.thy ===== *)
theory LedgerFacadeFacts
  imports LedgerFacade LedgerContracts RunFacts
begin

text \<open>
  What the facade promises the pipeline: the operations of \<open>LedgerApi\<close> made from it keep the ledger
  version, as the run loop assumes; what a regular transaction does to the state and the cost of the
  block; and that the end of a block fails only when the ledger refuses it.
\<close>

section \<open>The facade as the operations of the pipeline\<close>

definition facade_ops ::
    "('s, 't, 'v, 'y) ledger_crates \<Rightarrow> contract_crates \<Rightarrow> (bytes \<Rightarrow> hash32) \<Rightarrow> 's LedgerState ledger_ops" where
  "facade_ops C K sha =
     \<lparr>lo_new = ledger_state_new C, lo_from_genesis = from_genesis C, lo_load = ledger_state_load C,
      lo_translate = translate, lo_ledger_version = state_version, lo_root = ledger_state_root C,
      lo_persist = ledger_state_persist C, lo_apply_regular = apply_regular_transaction C,
      lo_apply_system = apply_system_transaction C, lo_finalize = finalize_apply_transactions C,
      lo_zswap_first_free = zswap_first_free C, lo_zswap_merkle_tree_root = zswap_merkle_tree_root C,
      lo_serialize_root = zswap_root_serialize C, lo_contract_balances = contract_balances K, lo_sha256 = sha\<rparr>"

fun crate_of :: "('s, 't, 'v, 'y) ledger_crates \<Rightarrow> LedgerVersion \<Rightarrow> ('s, 't, 'v, 'y) ledger_crate" where
  "crate_of C LV8 = cr_v8 C"
| "crate_of C LV9 = cr_v9 C"

fun inner_state :: "'s LedgerState \<Rightarrow> 's" where
  "inner_state (StateV8 s _) = s"
| "inner_state (StateV9 s _) = s"

fun fullness :: "'s LedgerState \<Rightarrow> SyntheticCost" where
  "fullness (StateV8 _ f) = f"
| "fullness (StateV9 _ f) = f"

section \<open>One transaction\<close>

definition cost_le :: "SyntheticCost \<Rightarrow> SyntheticCost \<Rightarrow> bool" where
  "cost_le c l \<longleftrightarrow> sc_read_time c \<le> sc_read_time l \<and> sc_compute_time c \<le> sc_compute_time l
     \<and> sc_block_usage c \<le> sc_block_usage l \<and> sc_bytes_written c \<le> sc_bytes_written l
     \<and> sc_bytes_churned c \<le> sc_bytes_churned l"

lemma failed_utxos:
  "make_unshielded_utxos_for_regular_transaction U t Failure s = ([], [])"
  "make_unshielded_utxos_for_regular_transaction_v8 U t Failure s = ([], [])"
  by (simp_all add: make_unshielded_utxos_for_regular_transaction_v8_def make_unshielded_utxos_for_regular_transaction_def)

lemma result_of_failure: "fst (result_of r) = Failure \<longleftrightarrow> \<not> snd (snd (result_of r))" "fst (result_of r) = Failure \<Longrightarrow> fst (snd (result_of r)) = []"
  by (cases r; simp)+

lemma no_events: "make_ledger_events_v8 [] = Inr []" "make_ledger_events_v9 [] = Inr []"
  by (simp_all add: make_ledger_events_v8_def make_ledger_events_v9_def)

text \<open>What both arms have in common, over the crate of the state's version.\<close>

lemma regular_parts:
  assumes "apply_regular_transaction C st raw p t pt w = Inr (st', out)"
  obtains tx cost verified s' r where "lc_deserialize_transaction (crate_of C (state_version st)) raw = Some tx"
    and "lc_cost (crate_of C (state_version st)) tx (inner_state st) = Some cost"
    and "lc_well_formed (crate_of C (state_version st)) tx (inner_state st) (block_seconds w) = Some verified"
    and "lc_apply (crate_of C (state_version st)) (inner_state st) verified (apply_context p t pt) = (s', r)"
    and "state_version st' = state_version st" and "inner_state st' = s'"
    and "fullness st' = (if snd (snd (result_of r)) then cm_add (cr_cost C) (fullness st) cost else fullness st)"
    and "ro_transaction_result out = fst (result_of r)"
    and "(ro_created_unshielded_utxos out, ro_spent_unshielded_utxos out)
      = make_unshielded_utxos_for_regular_transaction (lc_utxos (crate_of C (state_version st)))
          (lc_transaction (crate_of C (state_version st)) tx) (fst (result_of r)) s'"
    and "(case state_version st of LV8 \<Rightarrow> make_ledger_events_v8 | LV9 \<Rightarrow> make_ledger_events_v9) (fst (snd (result_of r)))
      = Inr (ro_ledger_events out)"
    and "ro_bridge_claim out = (case state_version st of LV8 \<Rightarrow> None
      | LV9 \<Rightarrow> bridge_claim_of (lc_utxos (cr_v9 C)) (lc_transaction (cr_v9 C) tx))"
    and "Some (ro_fees out) = (case state_version st of LV8 \<Rightarrow> lc_fees (cr_v8 C) tx (inner_state st)
      | LV9 \<Rightarrow> map_option (lc_overall_cost (cr_v9 C) (inner_state st))
          (cm_normalize (cr_cost C) cost (lc_block_limits (cr_v9 C) (inner_state st))))"
proof (cases st)
  case (StateV8 s f)
  with assms show ?thesis
    by (auto simp: apply_regular_v8_def Let_def result_simps make_unshielded_utxos_for_regular_transaction_v8_def
        case_prod_unfold intro!: that)
next
  case (StateV9 s f)
  with assms show ?thesis
    by (auto simp: apply_regular_v9_def Let_def result_simps case_prod_unfold intro!: that)
qed

text \<open>Of the errors only a malformed transaction depends on the time it is judged at.\<close>

definition judged_once :: "('s, 't, 'v, 'y) ledger_crate \<Rightarrow> bool" where
  "judged_once K \<longleftrightarrow> (\<forall>tx s a b va vb.
     lc_well_formed K tx s a = Some va \<longrightarrow> lc_well_formed K tx s b = Some vb \<longrightarrow> va = vb)"

lemma regular_other_time:
  assumes "apply_regular_transaction C st raw p t pt w = Inr r"
    and "judged_once (cr_v8 C)" "judged_once (cr_v9 C)"
  shows "apply_regular_transaction C st raw p t pt w' \<in> {Inr r, Inl MalformedTransaction}"
proof (cases st)
  case (StateV8 s f)
  then have run: "apply_regular_v8 C s f raw p t pt w = Inr r" using assms(1) by simp
  obtain tx v where tx: "lc_deserialize_transaction (cr_v8 C) raw = Some tx"
    and v: "lc_well_formed (cr_v8 C) tx s (block_seconds w) = Some v"
    using run by (auto simp: apply_regular_v8_def Let_def result_simps)
  show ?thesis
  proof (cases "lc_well_formed (cr_v8 C) tx s (block_seconds w')")
    case None
    then show ?thesis using run tx StateV8 by (auto simp: apply_regular_v8_def Let_def result_simps)
  next
    case (Some v')
    with v have "v' = v" using assms(2) unfolding judged_once_def by blast
    with Some v show ?thesis using run tx StateV8 by (simp add: apply_regular_v8_def Let_def)
  qed
next
  case (StateV9 s f)
  then have run: "apply_regular_v9 C s f raw p t pt w = Inr r" using assms(1) by simp
  obtain tx v where tx: "lc_deserialize_transaction (cr_v9 C) raw = Some tx"
    and v: "lc_well_formed (cr_v9 C) tx s (block_seconds w) = Some v"
    using run by (auto simp: apply_regular_v9_def Let_def result_simps)
  show ?thesis
  proof (cases "lc_well_formed (cr_v9 C) tx s (block_seconds w')")
    case None
    then show ?thesis using run tx StateV9 by (auto simp: apply_regular_v9_def Let_def result_simps)
  next
    case (Some v')
    with v have "v' = v" using assms(3) unfolding judged_once_def by blast
    with Some v show ?thesis using run tx StateV9 by (simp add: apply_regular_v9_def Let_def)
  qed
qed

text \<open>
  C32. A successful call keeps the ledger version. If the ledger rejects the transaction, its cost is not
  counted and it creates and spends no output and reports no event; otherwise exactly its cost is added
  to the fullness of the block. Only ledger 9 reports bridge claims, and it reports that of a reward
  claim whatever the result. Judging the transaction at another time gives the same state and outcome,
  or it is malformed.
\<close>

theorem regular_transaction_effects:
  assumes "apply_regular_transaction C st raw p t pt w = Inr (st', out)"
    and "judged_once (cr_v8 C)" and "judged_once (cr_v9 C)"
  shows "state_version st' = state_version st
    \<and> (ro_transaction_result out = Failure \<longrightarrow> fullness st' = fullness st
        \<and> ro_created_unshielded_utxos out = [] \<and> ro_spent_unshielded_utxos out = [] \<and> ro_ledger_events out = [])
    \<and> (ro_transaction_result out \<noteq> Failure \<longrightarrow> (\<exists>tx cost.
        lc_deserialize_transaction (crate_of C (state_version st)) raw = Some tx
        \<and> lc_cost (crate_of C (state_version st)) tx (inner_state st) = Some cost
        \<and> fullness st' = cm_add (cr_cost C) (fullness st) cost))
    \<and> (state_version st = LV8 \<longrightarrow> ro_bridge_claim out = None)
    \<and> (state_version st = LV9 \<longrightarrow> (\<forall>tx. lc_deserialize_transaction (cr_v9 C) raw = Some tx
        \<longrightarrow> ro_bridge_claim out = bridge_claim_of (lc_utxos (cr_v9 C)) (lc_transaction (cr_v9 C) tx)))
    \<and> (\<forall>w'. apply_regular_transaction C st raw p t pt w' \<in> {Inr (st', out), Inl MalformedTransaction})"
proof -
  obtain tx cost s' r where tx: "lc_deserialize_transaction (crate_of C (state_version st)) raw = Some tx"
    and cost: "lc_cost (crate_of C (state_version st)) tx (inner_state st) = Some cost"
    and ver: "state_version st' = state_version st"
    and full: "fullness st' = (if snd (snd (result_of r)) then cm_add (cr_cost C) (fullness st) cost else fullness st)"
    and res: "ro_transaction_result out = fst (result_of r)"
    and utxos: "(ro_created_unshielded_utxos out, ro_spent_unshielded_utxos out)
      = make_unshielded_utxos_for_regular_transaction (lc_utxos (crate_of C (state_version st)))
          (lc_transaction (crate_of C (state_version st)) tx) (fst (result_of r)) s'"
    and events: "(case state_version st of LV8 \<Rightarrow> make_ledger_events_v8 | LV9 \<Rightarrow> make_ledger_events_v9) (fst (snd (result_of r)))
      = Inr (ro_ledger_events out)"
    and claim: "ro_bridge_claim out = (case state_version st of LV8 \<Rightarrow> None
      | LV9 \<Rightarrow> bridge_claim_of (lc_utxos (cr_v9 C)) (lc_transaction (cr_v9 C) tx))"
    using regular_parts [OF assms(1)] by metis
  have failed: "fullness st' = fullness st \<and> ro_created_unshielded_utxos out = []
      \<and> ro_spent_unshielded_utxos out = [] \<and> ro_ledger_events out = []"
    if "ro_transaction_result out = Failure"
    using that full utxos events result_of_failure [of r] res
    by (auto simp: failed_utxos no_events split: LedgerVersion.splits)
  have passed: "fullness st' = cm_add (cr_cost C) (fullness st) cost" if "ro_transaction_result out \<noteq> Failure"
    using that full result_of_failure [of r] res by auto
  show ?thesis
    using ver failed passed tx cost claim regular_other_time [OF assms] by auto
qed

section \<open>The block, its persisted state, and the pipeline\<close>

lemma clamped_within: "cost_le (clamped_cost c l) l"
  by (simp add: cost_le_def clamped_cost_def)

lemma clamped_id: "cost_le c l \<Longrightarrow> clamped_cost c l = c"
  by (simp add: cost_le_def clamped_cost_def min_def)

definition normalizes :: "cost_model \<Rightarrow> bool" where
  "normalizes M \<longleftrightarrow> (\<forall>c l. cost_le c l \<longrightarrow> cm_normalize M c l \<noteq> None)"

text \<open>The arena: what is behind the key of a state is that state.\<close>

definition arena_ok :: "('s, 't, 'v, 'y) ledger_crate \<Rightarrow> bool" where
  "arena_ok K \<longleftrightarrow> (\<forall>s key. lc_key_of K s = Some key \<longrightarrow>
     (\<exists>k. lc_deserialize_key K key = Some k \<and> lc_get_lazy K k = Some s))"

lemma finalize_error:
  assumes "normalizes M"
    and "finalize_with K M s f t = Inl e"
  shows "e = BlockLimitExceeded"
proof -
  obtain n where "cm_normalize M (clamped_cost f (lc_block_limits K s)) (lc_block_limits K s) = Some n"
    using assms(1) clamped_within unfolding normalizes_def by blast
  with assms(2) show ?thesis
    by (cases "lc_post_block_update K s (block_seconds t) n (overall_fullness n)")
      (auto simp: finalize_with_def clamp_and_normalize_def)
qed

lemma facade_versions: "versions_ok (facade_ops C K sha)"
proof -
  have new: "ledger_state_new C n v = Inr s \<Longrightarrow> state_version s = v" for n v s by (cases v) auto
  have genesis: "from_genesis C r v = Inr s \<Longrightarrow> state_version s = v" for r v s
    by (cases v) (auto simp: result_simps)
  have trans: "translate s v = Inr s' \<Longrightarrow> state_version s' = v" for s v s' by (cases s; cases v) auto
  have regular: "apply_regular_transaction C s a b c d e = Inr (s', out) \<Longrightarrow> state_version s' = state_version s"
    for s a b c d e s' out
    by (erule regular_parts)
  have sys: "apply_system_transaction C s a b = Inr (s', out) \<Longrightarrow> state_version s' = state_version s" for s a b s' out
    by (cases s) (auto simp: apply_system_v8_def apply_system_v9_def Let_def result_simps)
  have fin: "finalize_apply_transactions C s t = Inr s' \<Longrightarrow> state_version s' = state_version s" for s t s'
    by (cases s) (auto simp: result_simps)
  have per: "ledger_state_persist C s = Inr (s', k) \<Longrightarrow> state_version s' = state_version s" for s s' k
    by (cases s) (auto simp: result_simps)
  show ?thesis
    unfolding versions_ok_def facade_ops_def
    by (auto dest: new genesis trans regular sys fin per)
qed

lemma translate_eq:
  "translate s v = (if v = state_version s then Inr s
     else if v = LV9 then Inl (UnsupportedLedgerStateTranslation LV8 LV9)
     else Inl (BackwardsLedgerStateTranslation LV9 LV8))"
  by (cases s; cases v) auto


section \<open>Witnesses\<close>

text \<open>A crate whose states are counters and whose only transaction is a bridge claim.\<close>

definition demo_cost :: "u64 \<Rightarrow> SyntheticCost" where
  "demo_cost n = \<lparr>sc_read_time = n, sc_compute_time = n, sc_block_usage = n, sc_bytes_written = n, sc_bytes_churned = n\<rparr>"

definition demo_model :: cost_model where
  "demo_model = \<lparr>cm_default = demo_cost 0,
     cm_add = (\<lambda>a b. demo_cost (sc_read_time a + sc_read_time b)),
     cm_normalize = (\<lambda>c l. if cost_le c l then Some \<lparr>nc_read_time = uint (sc_read_time c), nc_compute_time = 0,
       nc_block_usage = 0, nc_bytes_written = 0, nc_bytes_churned = 0\<rparr> else None)\<rparr>"

definition demo_utxo_crate :: "nat utxo_crate" where
  "demo_utxo_crate = \<lparr>uc_user_address = (\<lambda>_. 7), uc_mk_intent_hash = (\<lambda>_ _. 5), uc_night = 0,
     uc_default_token_type = 0, uc_persistent_commit = (\<lambda>i h. h + ucast i), uc_night_indices = (\<lambda>_ _. False),
     uc_utxo_ctime = (\<lambda>_ _. None)\<rparr>"

definition demo_facade_crate :: "(nat, u128, u128, unit) ledger_crate" where
  "demo_facade_crate =
     \<lparr>lc_utxos = demo_utxo_crate, lc_new = (\<lambda>_. 0), lc_deserialize_state = (\<lambda>_. Some 0),
      lc_deserialize_key = Some, lc_get_lazy = (\<lambda>k. Some (length k)), lc_key_of = (\<lambda>s. Some (replicate s 0)),
      lc_deserialize_transaction = (\<lambda>raw. case raw of [] \<Rightarrow> None | b # _ \<Rightarrow> Some (ucast b)),
      lc_transaction = (\<lambda>v. RewardClaim \<lparr>rc_owner = [], rc_value = v, rc_nonce = [], rc_cardano_bridge = True\<rparr>),
      lc_cost = (\<lambda>_ _. Some (demo_cost 3)), lc_fees = (\<lambda>_ _. Some 2), lc_overall_cost = (\<lambda>_ _. 2),
      lc_well_formed = (\<lambda>tx _ t. if t < 1000 then Some tx else None),
      lc_apply = (\<lambda>s tx _. if tx = 0 then (s, CrateFailure ''rejected'') else (Suc s, CrateSuccess [])),
      lc_deserialize_system = (\<lambda>_. None), lc_system_transaction = (\<lambda>_. OtherSystemTransaction),
      lc_system_cost = (\<lambda>_ _. demo_cost 1), lc_apply_system = (\<lambda>_ _ _. None), lc_block_limits = (\<lambda>_. demo_cost 10),
      lc_post_block_update = (\<lambda>s _ _ _. Some s), lc_zswap_first_free = (\<lambda>_. 0),
      lc_dust_commitments_first_free = (\<lambda>_. 0), lc_dust_generations_first_free = (\<lambda>_. 0), lc_coin_root = (\<lambda>_. []),
      lc_collapsed_update = (\<lambda>_ _ _. None), lc_dust_commitments_root = (\<lambda>_. None),
      lc_dust_generations_root = (\<lambda>_. None), lc_bridge_receiving = (\<lambda>_ _. None),
      lc_serialized_parameters = (\<lambda>_. None), lc_deserialize_digest = Some, lc_serialize_digest = Some\<rparr>"

definition demo_facade :: "(nat, u128, u128, unit) ledger_crates" where
  "demo_facade = \<lparr>cr_v8 = demo_facade_crate, cr_v9 = demo_facade_crate, cr_cost = demo_model\<rparr>"

lemma demo_judged: "judged_once (cr_v8 demo_facade)" "judged_once (cr_v9 demo_facade)"
  by (auto simp: judged_once_def demo_facade_def demo_facade_crate_def split: if_splits)

lemma demo_arena: "arena_ok (cr_v8 demo_facade)" "arena_ok (cr_v9 demo_facade)" "normalizes (cr_cost demo_facade)"
  by (auto simp: arena_ok_def normalizes_def demo_facade_def demo_facade_crate_def demo_model_def)

lemma demo_regular:
  "apply_regular_transaction demo_facade (StateV9 4 (demo_cost 1)) [9] 0 6000 0 6000 =
     Inr (StateV9 5 (demo_cost 4), \<lparr>ro_transaction_result = Success,
       ro_created_unshielded_utxos = [claim_utxo demo_utxo_crate 5
         \<lparr>rc_owner = [], rc_value = 9, rc_nonce = [], rc_cardano_bridge = True\<rparr>],
       ro_spent_unshielded_utxos = [], ro_ledger_events = [], ro_fees = 2,
       ro_bridge_claim = Some \<lparr>bc_recipient = 7, bc_amount = 9\<rparr>\<rparr>)"
  by (simp add: apply_regular_v9_def Let_def demo_facade_def demo_facade_crate_def demo_model_def block_seconds_def
      no_events make_unshielded_utxos_for_regular_transaction_def demo_utxo_crate_def apply_context_def demo_cost_def
      cost_le_def)

theorem regular_transaction_effects_witness:
  "(\<exists>tx cost. lc_deserialize_transaction (cr_v9 demo_facade) [9] = Some tx
      \<and> lc_cost (cr_v9 demo_facade) tx 4 = Some cost
      \<and> demo_cost 4 = cm_add (cr_cost demo_facade) (demo_cost 1) cost)
    \<and> apply_regular_transaction demo_facade (StateV9 4 (demo_cost 1)) [9] 0 6000 0 9000000
        \<in> {apply_regular_transaction demo_facade (StateV9 4 (demo_cost 1)) [9] 0 6000 0 6000, Inl MalformedTransaction}"
  using regular_transaction_effects [OF demo_regular demo_judged] unfolding demo_regular by auto

lemma demo_finalized:
  "finalize_apply_transactions demo_facade (StateV9 4 (demo_cost 50)) 0 = Inr (StateV9 4 (demo_cost 0))"
  "ledger_state_persist demo_facade (StateV9 4 (demo_cost 0)) = Inr (StateV9 4 (demo_cost 0), replicate 4 0)"
  by (auto simp: finalize_with_def clamp_and_normalize_def clamped_cost_def cost_le_def demo_facade_def
      demo_facade_crate_def demo_model_def demo_cost_def)


end
