(* ===== verification/NodeProps.thy ===== *)
theory NodeProps
  imports NodeSync LedgerFacadeFacts
begin

text \<open>
  The catch-up as a whole: what the client yields before it follows its subscription is what making the
  blocks one after the other gives, on a canonical chain whose sessions are apart from the start; and
  the case that is left out, a new session in the first chunk.
\<close>

section \<open>From the stored block to the first block received\<close>

definition canonical :: "node \<Rightarrow> BlockRef option \<Rightarrow> nat \<Rightarrow> nat \<Rightarrow> stream_block \<Rightarrow> bool" where
  "canonical N after lo hi first_block \<longleftrightarrow>
     lo \<le> hi \<and> chained N lo hi \<and> inj_on (hash_at N) {lo..hi}
     \<and> sb_number first_block = word_of_nat hi \<and> sb_hash first_block = hash_at N hi
     \<and> parent_at N hi = Some (sb_parent_hash first_block) \<and> sb_at first_block = nd_at_height N (word_of_nat hi)
     \<and> (case after of
          Some b \<Rightarrow> br_height b + 1 = word_of_nat lo \<and> parent_at N lo = Some (br_hash b) \<and> br_hash b \<notin> hash_at N ` {lo..hi}
        | None \<Rightarrow> lo = 0 \<and> 0 \<notin> hash_at N ` {lo..hi})
     \<and> (\<exists>genesis header. node_at N (nd_genesis_hash N) = Inr genesis \<and> ab_header genesis = Some header
          \<and> sh_parent_hash header \<notin> hash_at N ` {lo..hi}
          \<and> (after = None \<longrightarrow> parent_at N 0 = Some (sh_parent_hash header)))"

lemma served_mono: "served C X N lo hi \<Longrightarrow> k \<le> hi \<Longrightarrow> served C X N lo k"
  by (auto simp: served_def)

lemma stable_mono: "stable_authorities C X N lo hi \<Longrightarrow> k \<le> hi \<Longrightarrow> stable_authorities C X N lo k"
  unfolding stable_authorities_def by (meson less_le_trans)

lemma apart_mono: "sessions_apart C X N lo hi \<Longrightarrow> k \<le> hi \<Longrightarrow> sessions_apart C X N lo k"
  unfolding sessions_apart_def by (intro allI impI, elim conjE) (metis less_le_trans)

lemma safe_height_nat:
  assumes "hi < 2 ^ 64" and "lo \<le> hi"
  shows "safe_height_for (word_of_nat lo) (word_of_nat hi) = word_of_nat (max (hi - 400) lo)"
proof -
  have "unat (safe_height_for (word_of_nat lo) (word_of_nat hi)) = max (hi - 400) lo"
    using assms unat_u64 [of hi] unat_u64 [of lo]
    by (auto simp: safe_height_for_def saturating_sub_u64_def FINALIZATION_SAFETY_MARGIN_def max_def
        word_le_nat_alt unat_sub split: if_splits)
  then have "word_of_nat (unat (safe_height_for (word_of_nat lo) (word_of_nat hi))) = (word_of_nat (max (hi - 400) lo) :: u64)"
    by simp
  then show ?thesis by simp
qed

lemma make_received_made:
  assumes "sb_at first_block = nd_at_height N (word_of_nat n)" and "made_at C X N cache n = Inr r"
  shows "make_received C X N cache first_block = Inr r"
  using assms by (auto simp: make_received_def made_at_def block_at_height_def result_simps)

lemma backward_chain:
  assumes "served C X N lo (Suc hi)" and "canonical N after lo hi first_block"
    and "lo \<le> c" and "c \<le> hi" and "parent_at N c = Some p"
    and "p = stop \<or> (\<exists>genesis header. node_at N (nd_genesis_hash N) = Inr genesis \<and> ab_header genesis = Some header
          \<and> p = sh_parent_hash header)"
    and "stop \<notin> hash_at N ` {c..hi}" and "\<And>p. h = Some p \<Longrightarrow> parent_at N c = Some p"
    and "sequential C X N h cache [c..<Suc hi] = (bs, Inr (h', cache'))" and "linked_blocks h bs"
    and "map b_height bs = map word_of_nat [c..<Suc hi]"
  shows "backward C X N stop first_block cache = Some (bs, Inr (cache', last bs))"
proof -
  obtain genesis header where g: "node_at N (nd_genesis_hash N) = Inr genesis" "ab_header genesis = Some header"
    "sh_parent_hash header \<notin> hash_at N ` {lo..hi}"
    using assms(2) by (auto simp: canonical_def)
  note ch = assms(2) [unfolded canonical_def, THEN conjunct2, THEN conjunct1]
  have anc: "ancestors N stop (sh_parent_hash header) (sb_parent_hash first_block) [] = Some (Inr ([] @ rev (map (hash_at N) [c..<hi])))"
  proof (rule ancestors_chain [OF ch assms(3,4) le_refl assms(5)])
    show "p \<in> {stop, sh_parent_hash header}" using assms(6) g by auto
    show "parent_at N hi = Some (sb_parent_hash first_block)" using assms(2) by (simp add: canonical_def)
    fix n assume n: "c \<le> n" "n \<le> hi"
    then obtain b cc where "made_at C X N None n = Inr (b, cc)" using served_made [OF assms(1), of n] assms(3) by force
    then have "parent_at N n \<noteq> None" using made_links(2) [OF assms(1), of n] n assms(3) by force
    then show "hash_at N n \<notin> {stop, sh_parent_hash header} \<and> parent_at N n \<noteq> None"
      using g(3) assms(3,7) n by (metis (no_types, lifting) atLeastAtMost_iff empty_iff imageI insert_iff le_trans)
  qed
  obtain bs1 h1 cache1 where b1: "sequential C X N h cache [c..<hi] = (bs1, Inr (h1, cache1))"
    "make_blocks C X N cache (map (hash_at N) [c..<hi]) = (bs1, Inr cache1)"
    using chain_blocks [OF assms(1) ch assms(3,4) _ assms(8)] assms(4) by (metis le_SucI order_refl)
  have upt: "[c..<Suc hi] = [c..<hi] @ [hi]" using assms(4) by simp
  have "sequential C X N h1 cache1 [hi] = (drop (length bs1) bs, Inr (h', cache')) \<and> bs = bs1 @ drop (length bs1) bs"
    using assms(9) b1(1) unfolding upt sequential_append by (cases "sequential C X N h1 cache1 [hi]") auto
  then obtain b where b: "made_at C X N cache1 hi = Inr (b, cache')" "bs = bs1 @ [b]"
    by (auto simp: Let_def split: sum.splits option.splits prod.splits)
  have "make_received C X N cache1 first_block = Inr (b, cache')"
    using make_received_made [OF _ b(1)] assms(2) by (simp add: canonical_def)
  then show ?thesis
    using g(1,2) anc b1(2) b(2) by (simp add: backward_def block_header_def rev_map)
qed

text \<open>
  The point at which the backward walk stops: the last block the forward loop made, or the stored one.
\<close>

definition stop_hash :: "BlockRef option \<Rightarrow> hash32 option \<Rightarrow> hash32" where
  "stop_hash after h = (case h of Some h \<Rightarrow> h | None \<Rightarrow> (case after of Some b \<Rightarrow> br_hash b | None \<Rightarrow> 0))"

lemma canonical_start:
  assumes "canonical N after lo hi first_block"
  shows "start_height_after after = word_of_nat lo"
    and "map_option br_hash after = Some p \<Longrightarrow> parent_at N lo = Some p"
    and "sb_hash first_block \<noteq> stop_hash after None" and "stop_hash after None \<notin> hash_at N ` {lo..hi}"
proof -
  show n: "stop_hash after None \<notin> hash_at N ` {lo..hi}"
    using assms by (auto simp: canonical_def stop_hash_def split: option.splits)
  have "hash_at N hi \<in> hash_at N ` {lo..hi}" using assms by (auto simp: canonical_def)
  then show "sb_hash first_block \<noteq> stop_hash after None" using n assms unfolding canonical_def by metis
qed (use assms in \<open>auto simp: canonical_def start_height_after_def split: option.splits\<close>)

lemma stop_fresh:
  assumes can: "canonical N after lo hi first_block" and c: "lo \<le> c" "c \<le> hi"
    and h: "h = (if lo < c then Some (hash_at N (c - 1)) else map_option br_hash after)"
  shows "stop_hash after h \<notin> hash_at N ` {c..hi}"
proof (cases "lo < c")
  case True
  have inj: "inj_on (hash_at N) {lo..hi}" using can by (simp add: canonical_def)
  have before: "c - 1 \<in> {lo..hi}" "c - 1 < c" using True c by auto
  have "hash_at N (c - 1) \<noteq> hash_at N n" if n: "c \<le> n" "n \<le> hi" for n
    using inj_onD [OF inj _ before(1), of n] before(2) n c(1) by fastforce
  then have "hash_at N (c - 1) \<notin> hash_at N ` {c..hi}" unfolding image_iff Bex_def atLeastAtMost_iff by blast
  then show ?thesis using h True by (simp add: stop_hash_def)
next
  case False
  then have "stop_hash after h = stop_hash after None" "c = lo"
    using h c(1) by (auto simp: stop_hash_def split: option.splits)
  then show ?thesis using canonical_start(4) [OF can] by simp
qed

lemma stop_reached:
  assumes can: "canonical N after lo hi first_block" and "lo \<le> c" and p: "parent_at N c = Some p"
    and h: "h = (if lo < c then Some (hash_at N (c - 1)) else map_option br_hash after)"
    and parent: "\<And>p. h = Some p \<Longrightarrow> parent_at N c = Some p"
  shows "p = stop_hash after h \<or> (\<exists>genesis header. node_at N (nd_genesis_hash N) = Inr genesis
    \<and> ab_header genesis = Some header \<and> p = sh_parent_hash header)"
proof (cases h)
  case None
  then have "after = None" "c = lo" using h assms(2) by (auto split: if_splits)
  then have "parent_at N c = parent_at N 0" using can by (simp add: canonical_def)
  then show ?thesis using can \<open>after = None\<close> p by (auto simp: canonical_def)
next
  case (Some h')
  then show ?thesis using parent p by (simp add: stop_hash_def)
qed

lemma earlier_in_sequence:
  assumes "served C X N lo (Suc hi)" and "stable_authorities C X N lo (Suc hi)" and "sessions_apart C X N lo (Suc hi)"
    and "hi + 33 < 2 ^ 64" and can: "canonical N after lo hi first_block"
  shows "\<exists>blocks last_hash cache.
    sequential C X N (map_option br_hash after) None [lo..<Suc hi] = (blocks, Inr (last_hash, cache))
    \<and> earlier_blocks C X N after first_block = Some (blocks, Inr (cache, last blocks))"
proof -
  let ?h = "map_option br_hash after"
  note ch = can [unfolded canonical_def, THEN conjunct2, THEN conjunct1]
  note start = canonical_start(1,2) [OF can]
  have lo: "lo \<le> hi" and hi: "hi < 2 ^ 64" using assms(4) can by (auto simp: canonical_def)
  define c where "c = max (hi - 400) lo"
  have c: "lo \<le> c" "c \<le> hi" "c \<le> Suc hi" "c + 32 < 2 ^ 64" using lo assms(4) by (auto simp: c_def)
  obtain bs1 h1 cache1 where b1: "sequential C X N ?h None [lo..<c] = (bs1, Inr (h1, cache1))"
    "h1 = (if lo < c then Some (hash_at N (c - 1)) else ?h)"
    using chain_blocks [OF assms(1) ch order_refl c(1,3) start(2)] by blast
  have fwd: "catch_up C X N (word_of_nat c) ?h (word_of_nat lo) None [] = Some (bs1, Inr (h1, cache1))"
    using catch_up_is_sequential [OF served_mono [OF assms(1) c(3)] stable_mono [OF assms(2) c(3)]
        apart_mono [OF assms(3) c(3)] c(4) order_refl c(1), of None ?h "[]"] b1(1)
    by (simp add: cache_ok_def)
  have h1: "parent_at N c = Some p" if "h1 = Some p" for p
    using that b1(2) start(2) ch c by (cases "lo < c") (auto simp: chained_def le_less)
  obtain bs2 h2 cache2 where b2: "sequential C X N h1 cache1 [c..<Suc hi] = (bs2, Inr (h2, cache2))"
    "map b_height bs2 = map word_of_nat [c..<Suc hi]" "linked_blocks h1 bs2"
    using chain_blocks [OF assms(1) ch c(1,3) order_refl h1] by blast
  obtain p where p: "parent_at N c = Some p"
    using made_links(2) [OF assms(1) c(1)] served_made [OF assms(1) c(1), of None] c(2) by fastforce
  have bwd: "backward C X N (stop_hash after h1) first_block cache1 = Some (bs2, Inr (cache2, last bs2))"
    by (rule backward_chain [OF assms(1) can c(1,2) p stop_reached [OF can c(1) p b1(2) h1]
          stop_fresh [OF can c(1,2) b1(2)] h1 b2(1,3,2)])
  have "safe_height_for (word_of_nat lo) (sb_number first_block) = word_of_nat c"
    using safe_height_nat [OF hi lo] can by (simp add: canonical_def c_def)
  then have earlier: "earlier_blocks C X N after first_block = Some (bs1 @ bs2, Inr (cache2, last bs2))"
    using fwd bwd by (simp add: earlier_blocks_def start stop_hash_def Let_def)
  have "[lo..<Suc hi] = [lo..<c] @ [c..<Suc hi]" using c upt_add_eq_append [of lo c "Suc hi - c"] by simp
  then have "sequential C X N ?h None [lo..<Suc hi] = (bs1 @ bs2, Inr (h2, cache2))"
    using b1(1) b2(1) unfolding \<open>[lo..<Suc hi] = _\<close> sequential_append by simp
  moreover have "bs2 \<noteq> []" using b2(2) c(2) by auto
  ultimately show ?thesis using earlier by (auto simp del: upt_Suc)
qed

text \<open>
  C35. On a canonical chain, served by the node, whose sessions are apart from the start, the stream of
  finalized blocks after the stored block begins with every block up to the first one received, each
  once and in the order of heights, linked by parent hashes to the stored block, and made as if one after
  the other with one authorities cache; then it follows the subscription with the cache this leaves.
  The loops that fetch these blocks end.
\<close>

theorem catch_up_in_sequence:
  assumes "served C X N lo (Suc hi)" and "stable_authorities C X N lo (Suc hi)" and "sessions_apart C X N lo (Suc hi)"
    and "hi + 33 < 2 ^ 64" and "canonical N after lo hi first_block"
    and "subscribe_finalized_blocks (map_option br_height after) items = Inr first_block # received"
  shows "\<exists>blocks last_hash cache.
    sequential C X N (map_option br_hash after) None [lo..<Suc hi] = (blocks, Inr (last_hash, cache))
    \<and> finalized_blocks C X N after (Some (items, stuck) # subscriptions)
        = Some (map Inr blocks @ live_blocks C X N cache (Some (word_of_nat hi)) received stuck subscriptions)
    \<and> map b_height blocks = map word_of_nat [lo..<Suc hi] \<and> linked_blocks (map_option br_hash after) blocks"
proof -
  note ch = assms(5) [unfolded canonical_def, THEN conjunct2, THEN conjunct1]
  have lo: "lo \<le> hi" using assms(5) by (simp add: canonical_def)
  obtain blocks h cache where e: "sequential C X N (map_option br_hash after) None [lo..<Suc hi] = (blocks, Inr (h, cache))"
    "earlier_blocks C X N after first_block = Some (blocks, Inr (cache, last blocks))"
    using earlier_in_sequence [OF assms(1-5)] by blast
  then have whole: "map b_height blocks = map word_of_nat [lo..<Suc hi]" "linked_blocks (map_option br_hash after) blocks"
    using chain_blocks [OF assms(1) ch order_refl le_SucI [OF lo] order_refl canonical_start(2) [OF assms(5)], where cache = None and h = "map_option br_hash after"]
    by (auto simp del: upt_Suc)
  have "blocks \<noteq> []" using whole(1) lo by auto
  then have "b_height (last blocks) = last (map b_height blocks)" by (simp add: last_map)
  then have last: "b_height (last blocks) = word_of_nat hi" using whole(1) lo by simp
  have new: "sb_hash first_block \<noteq> (case after of Some b \<Rightarrow> br_hash b | None \<Rightarrow> 0)"
    using canonical_start(3) [OF assms(5)] by (simp add: stop_hash_def)
  show ?thesis using e(1,2) new last whole assms(6) by simp
qed

section \<open>A session in the first chunk\<close>

text \<open>
  A node that serves a chain of blocks: block \<open>n\<close> has hash \<open>n + 1\<close> and no transactions, its Aura
  slot is 0, and new sessions, each with its own authority, begin at the heights of a set.
\<close>

definition demo_authorities :: "(nat \<Rightarrow> bool) \<Rightarrow> nat \<Rightarrow> hash32 list" where
  "demo_authorities new_session n = [word_of_nat (length (filter new_session [0..<Suc n]))]"

definition demo_node_block :: "(nat \<Rightarrow> bool) \<Rightarrow> nat \<Rightarrow> at_block" where
  "demo_node_block new_session n =
     \<lparr>ab_hash = word_of_nat (Suc n), ab_number = word_of_nat n,
      ab_header = Some \<lparr>sh_parent_hash = word_of_nat n,
        sh_logs = [PreRuntime AURA_ENGINE_ID [], Consensus VERSION_ID []]\<rparr>,
      ab_spec_version = 22000, ab_consensus_engine_api = False, ab_extrinsics = Some [],
      ab_events = Some (if new_session n then [Some (\<lambda>_. Some NewSession)] else []),
      ab_authorities = (\<lambda>_. Some (Some (demo_authorities new_session n))), ab_contract_state = (\<lambda>_ _. None),
      ab_zswap_root = (\<lambda>_. RootValue []), ab_ledger_root = (\<lambda>_. Some []), ab_mappings = (\<lambda>_. Some []),
      ab_mapping = (\<lambda>_. None)\<rparr>"

definition demo_node :: "(nat \<Rightarrow> bool) \<Rightarrow> node" where
  "demo_node new_session =
     \<lparr>nd_at_hash = (\<lambda>h. if h = 0 then None else Some (demo_node_block new_session (unat h - 1))),
      nd_at_height = (\<lambda>h. Some (demo_node_block new_session (unat h))), nd_genesis_hash = 1,
      nd_scale_u8 = (\<lambda>_. None), nd_scale_u32 = (\<lambda>bs. Some (22000, bs)), nd_scale_slot = (\<lambda>_ _. Some 0),
      nd_first_error = hd\<rparr>"

definition demo_tx_crates :: tx_crates where
  "demo_tx_crates = \<lparr>xc_deserialize_v8 = (\<lambda>_. None), xc_deserialize_v9 = (\<lambda>_. None),
     xc_deserialize_system_v8 = (\<lambda>_. None), xc_deserialize_system_v9 = (\<lambda>_. None)\<rparr>"

definition demo_block_made :: "nat \<Rightarrow> hash32 list \<Rightarrow> Block" where
  "demo_block_made n authorities =
     \<lparr>b_hash = word_of_nat (Suc n), b_height = word_of_nat n, b_protocol_version = PV0_22 22000,
      b_parent_hash = word_of_nat n, b_author = (if authorities = [] then None else Some (hd authorities)),
      b_timestamp = 0, b_zswap_merkle_tree_root = ZRootV8 [], b_ledger_state_root = Some [], b_transactions = [],
      b_dust_registration_events = [], b_bridge_events = []\<rparr>"

lemma demo_author:
  "authors_loop (demo_node S) [PreRuntime AURA_ENGINE_ID [], Consensus VERSION_ID []] authorities v babe =
     Inr (if authorities = [] then None else Some (hd authorities))"
  by (cases v; cases authorities) (simp_all add: log_author_def demo_node_def authority_def decode_slot_v0_22_def
      decode_slot_v1_0_def decode_slot_v2_0_def decode_slot_v2_1_def slot_at_def)

lemma demo_make_block:
  "make_block demo_facade demo_tx_crates (demo_node S) cache (demo_node_block S n) =
     (let a = (case cache of Some cached \<Rightarrow> cached | None \<Rightarrow> demo_authorities S n)
      in Inr (demo_block_made n a, if S n then None else Some a))"
proof -
  have pv: "protocol_version (nd_scale_u32 (demo_node S)) [PreRuntime AURA_ENGINE_ID [], Consensus VERSION_ID []]
      = Inr (Some (PV0_22 22000))"
    by (simp add: protocol_version_def try_from_slice_def demo_node_def try_from_u32_def)
  have details: "make_block_details (Some a) NV0_22 (demo_node_block S n) = Inr (if S n then None else Some a,
      \<lparr>bd_timestamp = None, bd_transactions = [], bd_dust_registration_events = [], bd_bridge_events = []\<rparr>)" for a
    by (simp add: make_block_details_v0_22_def block_details_def block_calls_def event_loop_def demo_node_block_def
        map_filter_simps)
  have author: "extract_block_author (demo_node S) \<lparr>sh_parent_hash = p, sh_logs =
        [PreRuntime AURA_ENGINE_ID [], Consensus VERSION_ID []]\<rparr> a NV0_22 b = Inr (if a = [] then None else Some (hd a))" for p a b
    by (simp add: extract_block_author_def author_from_digest_logs_def demo_author del: authors_loop.simps)
  have fetch: "fetch_authorities NV0_22 (demo_node_block S n) = Inr (demo_authorities S n)"
    by (simp add: fetch_authorities_v0_22_def authorities_at_def demo_node_block_def)
  have roots: "get_zswap_merkle_tree_root NV0_22 (demo_node S) (demo_node_block S n) = Inr []"
    "get_ledger_state_root NV0_22 (demo_node_block S n) = Inr (Some [])"
    "fetch_genesis_cnight_registrations NV0_22 (demo_node_block S n) = Inr []"
    "zswap_root_deserialize demo_facade [] LV8 = Inr (ZRootV8 [])"
    by (simp_all add: get_zswap_merkle_tree_root_v0_22_def zswap_root_at_def get_ledger_state_root_v0_22_def
        ledger_root_at_def fetch_genesis_cnight_registrations_v0_22_def genesis_mappings_def demo_node_block_def
        demo_facade_def demo_facade_crate_def)
  have block: "ab_header (demo_node_block S n) = Some \<lparr>sh_parent_hash = word_of_nat n,
        sh_logs = [PreRuntime AURA_ENGINE_ID [], Consensus VERSION_ID []]\<rparr>"
    "try_from_u32 (ab_spec_version (demo_node_block S n)) = Inr (PV0_22 22000)"
    "ab_hash (demo_node_block S n) = word_of_nat (Suc n)" "ab_number (demo_node_block S n) = word_of_nat n"
    by (simp_all add: demo_node_block_def try_from_u32_def)
  show ?thesis
    by (cases cache) (simp_all add: make_block_def block_header_def Let_def pv details author fetch roots block
        demo_block_made_def del: fetch_authorities.simps get_zswap_merkle_tree_root.simps make_block_details.simps
        get_ledger_state_root.simps fetch_genesis_cnight_registrations.simps zswap_root_deserialize.simps)
qed

lemma demo_made_at:
  assumes "n < 2 ^ 64"
  shows "made_at demo_facade demo_tx_crates (demo_node S) cache n =
     (let a = (case cache of Some cached \<Rightarrow> cached | None \<Rightarrow> demo_authorities S n)
      in Inr (demo_block_made n a, if S n then None else Some a))"
proof -
  have "nd_at_height (demo_node S) (word_of_nat n) = Some (demo_node_block S n)"
    using assms by (simp add: demo_node_def unat_u64)
  then show ?thesis by (simp add: made_at_def block_at_height_def demo_make_block)
qed

lemma demo_session: "n < 2 ^ 64 \<Longrightarrow> new_session_at demo_facade demo_tx_crates (demo_node S) n = S n"
  by (auto simp: new_session_at_def demo_made_at Let_def)


section \<open>Witnesses\<close>


text \<open>A chain of 461 blocks with a session at height 40: 60 blocks by height, the others by hash.\<close>

definition demo_sessions :: "nat \<Rightarrow> bool" where
  "demo_sessions n = (n = 40)"

definition demo_first :: stream_block where
  "demo_first = \<lparr>sb_hash = word_of_nat 461, sb_number = word_of_nat 460, sb_parent_hash = word_of_nat 460,
     sb_at = Some (demo_node_block demo_sessions 460)\<rparr>"

lemma unat_hash: "n < 2 ^ 64 \<Longrightarrow> unat (word_of_nat (Suc n) :: hash32) = Suc n"
  by (simp add: unsigned_of_nat take_bit_nat_eq_self del: of_nat_Suc)

lemma demo_lookups:
  assumes "n < 2 ^ 64"
  shows "nd_at_height (demo_node S) (word_of_nat n) = Some (demo_node_block S n)"
    and "hash_at (demo_node S) n = word_of_nat (Suc n)"
    and "parent_at (demo_node S) n = Some (word_of_nat n)"
    and "nd_at_hash (demo_node S) (word_of_nat (Suc n)) = Some (demo_node_block S n)"
proof -
  show h: "nd_at_height (demo_node S) (word_of_nat n) = Some (demo_node_block S n)"
    using assms by (simp add: demo_node_def unat_u64)
  show "hash_at (demo_node S) n = word_of_nat (Suc n)" by (simp add: hash_at_def h) (simp add: demo_node_block_def)
  show "parent_at (demo_node S) n = Some (word_of_nat n)" by (simp add: parent_at_def h) (simp add: demo_node_block_def)
  have "(word_of_nat (Suc n) :: hash32) \<noteq> 0" using unat_hash [OF assms] by (metis Zero_not_Suc unsigned_0)
  then show "nd_at_hash (demo_node S) (word_of_nat (Suc n)) = Some (demo_node_block S n)"
    using unat_hash [OF assms] by (simp add: demo_node_def del: of_nat_Suc)
qed

lemma demo_served: "served demo_facade demo_tx_crates (demo_node S) 0 461"
  by (auto simp: served_def demo_lookups demo_make_block Let_def) (simp add: demo_node_block_def)

lemma demo_stable: "stable_authorities demo_facade demo_tx_crates (demo_node S) 0 461"
proof -
  have "authorities_in (demo_node S) n = Inr (demo_authorities S n)" if "n < 461" for n
    using that by (simp add: authorities_in_def block_at_height_def demo_lookups)
      (simp add: demo_node_block_def try_from_u32_def fetch_authorities_v0_22_def authorities_at_def)
  moreover have "demo_authorities S (Suc n) = demo_authorities S n" if "\<not> S (Suc n)" for n
    using that by (simp add: demo_authorities_def)
  ultimately show ?thesis by (auto simp: stable_authorities_def demo_session)
qed

lemma demo_apart: "sessions_apart demo_facade demo_tx_crates (demo_node demo_sessions) 0 461"
  by (auto simp: sessions_apart_def demo_session demo_sessions_def)

lemma demo_canonical: "canonical (demo_node demo_sessions) None 0 460 demo_first"
proof -
  let ?N = "demo_node demo_sessions"
  have chained: "chained ?N 0 460" by (simp add: chained_def demo_lookups del: of_nat_Suc)
  have inj: "inj_on (hash_at ?N) {0..460}"
  proof (rule inj_onI)
    fix a b assume ab: "a \<in> {0..460}" "b \<in> {0..460}" "hash_at ?N a = hash_at ?N b"
    then have lt: "a < 2 ^ 64" "b < 2 ^ 64" by simp_all
    have "word_of_nat (Suc a) = (word_of_nat (Suc b) :: hash32)"
      using ab(3) unfolding demo_lookups(2) [OF lt(1)] demo_lookups(2) [OF lt(2)] .
    then have "Suc a = Suc b" using unat_hash [OF lt(1)] unat_hash [OF lt(2)] by metis
    then show "a = b" by simp
  qed
  have zero: "0 \<notin> hash_at ?N ` {0..460}"
  proof
    assume "0 \<in> hash_at ?N ` {0..460}"
    then obtain n where n: "n \<le> 460" "hash_at ?N n = 0" by auto
    then have lt: "n < 2 ^ 64" by simp
    have "(word_of_nat (Suc n) :: hash32) = 0" using n(2) unfolding demo_lookups(2) [OF lt] .
    then show False using unat_hash [OF lt] by (metis Zero_not_Suc unsigned_0)
  qed
  have genesis: "node_at ?N (nd_genesis_hash ?N) = Inr (demo_node_block demo_sessions 0)"
    using demo_lookups(4) [of 0 demo_sessions] by (simp add: node_at_def) (simp add: demo_node_def)
  show ?thesis
    using chained inj zero genesis demo_lookups(1,2,3) [of 460 demo_sessions] demo_lookups(3) [of 0 demo_sessions]
    by (simp add: canonical_def demo_first_def) (simp add: demo_node_block_def)
qed

theorem catch_up_in_sequence_witness:
  "\<exists>blocks. finalized_blocks demo_facade demo_tx_crates (demo_node demo_sessions) None [Some ([StreamBlock demo_first], False)]
       = Some (map Inr blocks)
     \<and> map b_height blocks = map word_of_nat [0..<461]"
proof -
  have "subscribe_finalized_blocks (map_option br_height None) [StreamBlock demo_first] = Inr demo_first # []" by simp
  from catch_up_in_sequence [of demo_facade demo_tx_crates "demo_node demo_sessions" 0 460 None demo_first, OF _ _ _ _ demo_canonical this,
      of False "[]"] demo_served demo_stable demo_apart
  obtain blocks cache where b: "finalized_blocks demo_facade demo_tx_crates (demo_node demo_sessions) None [Some ([StreamBlock demo_first], False)]
      = Some (map Inr blocks @ live_blocks demo_facade demo_tx_crates (demo_node demo_sessions) cache (Some (word_of_nat 460)) [] False [])"
    "map b_height blocks = map word_of_nat [0..<Suc 460]"
    by (auto simp del: finalized_blocks.simps live_blocks.simps upt_Suc)
  have "live_blocks demo_facade demo_tx_crates (demo_node demo_sessions) cache (Some (word_of_nat 460)) [] False [] = []" by simp
  moreover have "Suc 460 = 461" by simp
  ultimately show ?thesis using b by (metis append_Nil2)
qed

end
