(* ===== verification/Measure.thy ===== *)
theory Measure
  imports Migrations "HOL-Library.Multiset"
begin

text \<open>
  The measurement of contract-state duplication that sizes the migration
  (\<open>nightfrost/src/measure.rs\<close>): one pass over the legacy actions of a store. The counters are 64-bit
  and wrap; SHA-256, the hex encoding and the order in which the hash map of the addresses is read, which
  is unspecified, are parameters. The report is what the records say, whatever that order is. Printing it
  is not modelled.
\<close>

record Report =
  rp_records :: u64
  rp_failed_actions :: u64
  rp_logical_bytes :: u64
  rp_unique_hashes :: u64
  rp_unique_bytes :: u64
  rp_histogram :: "(u64 \<times> u64) list"
  rp_top_addresses :: "(string \<times> u64 \<times> u64) list"

definition BUCKETS :: "u64 list" where
  "BUCKETS = [1024, 10240, 102400, 1048576, 10485760]"

text \<open>The local variables of the pass; \<open>ms_per_address\<close> is the map from an address to its number of
  actions and its state bytes.\<close>

record measuring =
  ms_records :: u64
  ms_failed :: u64
  ms_logical :: u64
  ms_unique :: u64
  ms_seen :: "hash32 list"
  ms_histogram :: "u64 list"
  ms_per_address :: "(bytes \<times> u64 \<times> u64) list"

definition measuring_initial :: measuring where
  "measuring_initial = \<lparr>ms_records = 0, ms_failed = 0, ms_logical = 0, ms_unique = 0, ms_seen = [],
     ms_histogram = replicate 6 0, ms_per_address = []\<rparr>"

fun position_below :: "u64 \<Rightarrow> u64 list \<Rightarrow> nat option" where
  "position_below len [] = None"
| "position_below len (b # bs) = (if len < b then Some 0 else map_option Suc (position_below len bs))"

definition bucket_of :: "u64 \<Rightarrow> nat" where
  "bucket_of len = (case position_below len BUCKETS of Some i \<Rightarrow> i | None \<Rightarrow> 5)"

text \<open>\<open>entry(address).or_default()\<close>, then both components added to.\<close>

fun add_address :: "bytes \<Rightarrow> u64 \<Rightarrow> (bytes \<times> u64 \<times> u64) list \<Rightarrow> (bytes \<times> u64 \<times> u64) list" where
  "add_address a len [] = [(a, 1, len)]"
| "add_address a len ((a', cnt, sum_len) # rest) =
     (if a' = a then (a, cnt + 1, sum_len + len) # rest else (a', cnt, sum_len) # add_address a len rest)"

definition measure_step :: "(bytes \<Rightarrow> hash32) \<Rightarrow> measuring \<Rightarrow> bytes \<times> store_value \<Rightarrow> rust_error + measuring" where
  "measure_step sha s entry =
     and_then (store_decode as_legacy_action (snd entry)) (\<lambda>record.
       let s = s\<lparr>ms_records := ms_records s + 1\<rparr>;
           len = (word_of_nat (length (la_state record)) :: u64)
       in if len = 0 then Inr (s\<lparr>ms_failed := ms_failed s + 1\<rparr>)
          else
            let bucket = bucket_of len;
                hash = sha (la_state record);
                s = s\<lparr>ms_logical := ms_logical s + len,
                     ms_histogram := (ms_histogram s)[bucket := ms_histogram s ! bucket + 1]\<rparr>;
                s = (if hash \<notin> set (ms_seen s)
                     then s\<lparr>ms_seen := ms_seen s @ [hash], ms_unique := ms_unique s + len\<rparr> else s)
            in Inr (s\<lparr>ms_per_address := add_address (la_address record) len (ms_per_address s)\<rparr>))"

definition measure_contract_states ::
    "(bytes \<Rightarrow> hash32) \<Rightarrow> (bytes \<Rightarrow> string)
       \<Rightarrow> ((bytes \<times> u64 \<times> u64) list \<Rightarrow> (bytes \<times> u64 \<times> u64) list) \<Rightarrow> Store \<Rightarrow> rust_error + Report" where
  "measure_contract_states sha to_hex hash_order st =
     and_then (try_fold (measure_step sha) measuring_initial (store_iter st (contract_actions st))) (\<lambda>s.
       let addresses = sort_key (\<lambda>(_, _, sum_len). - uint sum_len) (hash_order (ms_per_address s))
       in Inr \<lparr>rp_records = ms_records s, rp_failed_actions = ms_failed s, rp_logical_bytes = ms_logical s,
            rp_unique_hashes = word_of_nat (length (ms_seen s)), rp_unique_bytes = ms_unique s,
            rp_histogram = zip (BUCKETS @ [-1]) (ms_histogram s),
            rp_top_addresses = map (\<lambda>(a, cnt, sum_len). (to_hex a, cnt, sum_len)) (take 10 addresses)\<rparr>)"

section \<open>What has been counted\<close>

text \<open>The states of the actions that did not fail, with their addresses.\<close>

definition live_states :: "LegacyContractActionRecord list \<Rightarrow> (bytes \<times> bytes) list" where
  "live_states rs = map (\<lambda>r. (la_address r, la_state r)) (filter (\<lambda>r. la_state r \<noteq> []) rs)"

definition size_of :: "bytes \<Rightarrow> u64" where
  "size_of s = word_of_nat (length s)"

definition address_total :: "(bytes \<times> bytes) list \<Rightarrow> bytes \<Rightarrow> (u64 \<times> u64) option" where
  "address_total ls a =
     (let own = filter (\<lambda>(a', _). a' = a) ls
      in if own = [] then None else Some (word_of_nat (length own), sum_list (map (size_of \<circ> snd) own)))"

definition counted :: "(bytes \<Rightarrow> hash32) \<Rightarrow> LegacyContractActionRecord list \<Rightarrow> measuring \<Rightarrow> bool" where
  "counted sha rs s \<longleftrightarrow>
     (let ls = live_states rs; states = map snd ls
      in ms_records s = word_of_nat (length rs) \<and> ms_failed s = word_of_nat (length rs) - word_of_nat (length ls)
         \<and> ms_logical s = sum_list (map size_of states)
         \<and> distinct (ms_seen s) \<and> set (ms_seen s) = sha ` set states
         \<and> (inj_on sha (set states) \<longrightarrow> ms_unique s = sum size_of (set states))
         \<and> ms_histogram s = map (\<lambda>i. word_of_nat (length (filter (\<lambda>x. bucket_of (size_of x) = i) states))) [0..<6]
         \<and> map_of (ms_per_address s) = address_total ls \<and> distinct (map fst (ms_per_address s)))"

lemma add_address_map_of:
  "map_of (add_address a len m) = (map_of m)(a \<mapsto>
     (case map_of m a of None \<Rightarrow> (1, len) | Some (cnt, sum_len) \<Rightarrow> (cnt + 1, sum_len + len)))"
  by (induction m) (auto simp: fun_eq_iff)

lemma add_address_keys:
  "map fst (add_address a len m) = (if a \<in> set (map fst m) then map fst m else map fst m @ [a])"
  by (induction m) (auto, metis fst_conv image_eqI)

lemma add_address_distinct: "distinct (map fst m) \<Longrightarrow> distinct (map fst (add_address a len m))"
  by (simp add: add_address_keys)

lemma address_total_snoc:
  "address_total (ls @ [(a, s)]) = (address_total ls)(a \<mapsto>
     (case address_total ls a of None \<Rightarrow> (1, size_of s) | Some (cnt, sum_len) \<Rightarrow> (cnt + 1, sum_len + size_of s)))"
  by (auto simp: fun_eq_iff address_total_def Let_def)

lemma bucket_of_less: "bucket_of len < 6"
  by (auto simp: bucket_of_def BUCKETS_def split: option.splits)

lemma histogram_step:
  assumes "h = map (\<lambda>i. word_of_nat (length (filter (\<lambda>x. f x = i) xs)) :: u64) [0..<6]" and "f y < 6"
  shows "h[f y := h ! f y + 1] = map (\<lambda>i. word_of_nat (length (filter (\<lambda>x. f x = i) (xs @ [y])))) [0..<6]"
  using assms by (intro nth_equalityI) (auto simp: nth_list_update)

lemma live_snoc: "live_states (rs @ [r]) = live_states rs @ (if la_state r = [] then [] else [(la_address r, la_state r)])"
  by (simp add: live_states_def)

lemma measure_step_counted:
  assumes "counted sha rs s" and "v = VLegacyAction r" and "length (la_state r) < 2 ^ 64"
  shows "\<exists>s'. measure_step sha s (k, v) = Inr s' \<and> counted sha (rs @ [r]) s'"
proof (cases "la_state r = []")
  case True
  then show ?thesis
    using assms(1,2) by (simp add: measure_step_def store_decode_def counted_def live_snoc Let_def)
next
  case False
  let ?x = "la_state r"
  let ?states = "map snd (live_states rs)"
  have "unat (size_of ?x) = length ?x" using assms(3) by (simp add: size_of_def unat_of_nat take_bit_nat_eq_self)
  then have len: "size_of ?x \<noteq> 0" using False by (metis length_0_conv unat_0)
  note c = assms(1) [unfolded counted_def Let_def]
  let ?hist = "(ms_histogram s)[bucket_of (size_of ?x) := ms_histogram s ! bucket_of (size_of ?x) + 1]"
  have hist: "?hist = map (\<lambda>i. word_of_nat (length (filter (\<lambda>x. bucket_of (size_of x) = i) (?states @ [?x])))) [0..<6]"
    using c by (intro histogram_step [of _ "bucket_of \<circ> size_of" ?states ?x, unfolded comp_def]) (auto simp: bucket_of_less)
  have addr: "map_of (add_address (la_address r) (size_of ?x) (ms_per_address s))
      = address_total (live_states rs @ [(la_address r, ?x)])"
    using c by (simp add: add_address_map_of address_total_snoc)
  have unique: "(if sha ?x \<notin> sha ` set ?states then ms_unique s + size_of ?x else ms_unique s) = sum size_of (insert ?x (set ?states))"
    if inj: "inj_on sha (insert ?x (set ?states))"
  proof -
    have "sha ?x \<in> sha ` set ?states \<longleftrightarrow> ?x \<in> set ?states" using inj by (auto simp: inj_on_def)
    moreover have "ms_unique s = sum size_of (set ?states)" using c inj by (simp add: inj_on_insert)
    ultimately show ?thesis by (auto simp: insert_absorb add.commute)
  qed
  define s' where "s' = s\<lparr>ms_records := ms_records s + 1, ms_logical := ms_logical s + size_of ?x, ms_histogram := ?hist,
     ms_seen := ms_seen s @ (if sha ?x \<notin> set (ms_seen s) then [sha ?x] else []),
     ms_unique := (if sha ?x \<notin> set (ms_seen s) then ms_unique s + size_of ?x else ms_unique s),
     ms_per_address := add_address (la_address r) (size_of ?x) (ms_per_address s)\<rparr>"
  have "measure_step sha s (k, v) = Inr s'"
    using assms(2) len by (simp add: measure_step_def store_decode_def Let_def s'_def size_of_def [symmetric])
  moreover have "counted sha (rs @ [r]) s'"
    unfolding counted_def Let_def live_snoc s'_def
    using c False hist addr unique add_address_distinct by (auto simp: inj_on_insert)
  ultimately show ?thesis by blast
qed

lemma measure_counted:
  assumes "list_all2 (\<lambda>e r. snd e = VLegacyAction r) es rs" and "\<forall>r \<in> set rs. length (la_state r) < 2 ^ 64"
  shows "\<exists>s. try_fold (measure_step sha) measuring_initial es = Inr s \<and> counted sha rs s"
  using assms
proof (induction rs arbitrary: es rule: rev_induct)
  case Nil
  then show ?case
    by (auto simp: counted_def measuring_initial_def live_states_def address_total_def fun_eq_iff map_replicate_const)
next
  case (snoc r rs)
  then obtain es' k v where es: "es = es' @ [(k, v)]" "list_all2 (\<lambda>e r. snd e = VLegacyAction r) es' rs" "v = VLegacyAction r"
    by (auto simp: list_all2_append2 list_all2_Cons2)
  then obtain s where s: "try_fold (measure_step sha) measuring_initial es' = Inr s" "counted sha rs s"
    using snoc by auto
  obtain s' where "measure_step sha s (k, v) = Inr s'" "counted sha (rs @ [r]) s'"
    using measure_step_counted [OF s(2) es(3)] snoc(3) by auto
  then show ?case using es(1) s(1) by (auto simp: try_fold_append)
qed

lemma sorted_take_bound:
  assumes "x \<in> set (take n (sort_key f xs))" and "y \<in> set xs" and "y \<notin> set (take n (sort_key f xs))"
  shows "f x \<le> f y"
proof -
  let ?s = "sort_key f xs"
  have "sorted (map f (take n ?s @ drop n ?s))" by simp
  moreover have "y \<in> set (drop n ?s)"
    using assms(2,3) by (metis Un_iff append_take_drop_id set_append set_sort)
  ultimately show ?thesis using assms(1) by (auto simp only: map_append sorted_append set_map)
qed

text \<open>
  The measurement of a store returns, and its report is what the legacy actions say: how many there
  are and how many have no state, the bytes of all states and those of the different ones, the histogram
  of the sizes, and ten of the addresses with the most state bytes, each with its own numbers, in
  whatever order the map of the addresses is read.
\<close>

theorem measure_report:
  assumes "list_all2 (\<lambda>e r. snd e = VLegacyAction r) (store_iter st (contract_actions st)) rs"
    and "\<forall>r \<in> set rs. length (la_state r) < 2 ^ 64" and "\<And>m. mset (hash_order m) = mset m"
    and "inj_on sha (set (map snd (live_states rs)))"
  shows "\<exists>rep addresses. measure_contract_states sha to_hex hash_order st = Inr rep
    \<and> rp_records rep = word_of_nat (length rs)
    \<and> rp_failed_actions rep = rp_records rep - word_of_nat (length (live_states rs))
    \<and> rp_logical_bytes rep = sum_list (map (size_of \<circ> snd) (live_states rs))
    \<and> rp_unique_hashes rep = word_of_nat (card (snd ` set (live_states rs)))
    \<and> rp_unique_bytes rep = sum size_of (snd ` set (live_states rs))
    \<and> rp_histogram rep = zip (BUCKETS @ [-1])
         (map (\<lambda>i. word_of_nat (length (filter (\<lambda>(_, x). bucket_of (size_of x) = i) (live_states rs)))) [0..<6])
    \<and> rp_top_addresses rep = map (\<lambda>(a, n, b). (to_hex a, n, b)) addresses
    \<and> length addresses = min 10 (card (fst ` set (live_states rs))) \<and> distinct (map fst addresses)
    \<and> sorted_wrt (\<lambda>(_, _, b) (_, _, b'). b' \<le> b) addresses
    \<and> (\<forall>(a, n, b) \<in> set addresses. address_total (live_states rs) a = Some (n, b)
         \<and> (\<forall>a' n' b'. address_total (live_states rs) a' = Some (n', b') \<longrightarrow> (a', n', b') \<in> set addresses \<or> b' \<le> b))"
proof -
  let ?ls = "live_states rs"
  obtain s where s: "try_fold (measure_step sha) measuring_initial (store_iter st (contract_actions st)) = Inr s"
    and c: "counted sha rs s"
    using measure_counted [OF assms(1,2)] by blast
  note c = c [unfolded counted_def Let_def]
  let ?key = "\<lambda>(a :: bytes, n :: u64, b :: u64). - uint b"
  define m where "m = hash_order (ms_per_address s)"
  define addresses where "addresses = take 10 (sort_key ?key m)"
  have same: "mset m = mset (ms_per_address s)" by (simp add: m_def assms(3))
  then have m_set: "set m = set (ms_per_address s)" and m_distinct: "distinct (map fst m)"
    using c by (metis mset_eq_setD, metis mset_eq_imp_distinct_iff mset_map)
  have totals: "(a, n, b) \<in> set m \<longleftrightarrow> address_total ?ls a = Some (n, b)" for a n b
    using c m_set by (metis map_of_eq_Some_iff)
  have keys: "fst ` set m = fst ` set ?ls"
  proof -
    have "fst ` set m = {a. address_total ?ls a \<noteq> None}" using totals by force
    also have "\<dots> = fst ` set ?ls" by (force simp: address_total_def Let_def filter_empty_conv)
    finally show ?thesis .
  qed
  have "length m = card (fst ` set ?ls)"
    using m_distinct keys by (metis distinct_card length_map set_map)
  then have len: "length addresses = min 10 (card (fst ` set ?ls))" by (simp add: addresses_def min_def)
  have dist: "distinct (map fst addresses)"
  proof -
    have "mset (map fst (sort_key ?key m)) = mset (map fst m)" by simp
    then have "distinct (map fst (sort_key ?key m))" using m_distinct mset_eq_imp_distinct_iff by blast
    then show ?thesis by (simp add: addresses_def take_map [symmetric])
  qed
  have "sorted (map ?key addresses)" by (simp add: addresses_def take_map [symmetric])
  then have sorted: "sorted_wrt (\<lambda>(_, _, b) (_, _, b'). b' \<le> b) addresses"
    by (auto simp: sorted_map word_le_def elim!: sorted_wrt_mono_rel [rotated])
  have top: "address_total ?ls a = Some (n, b)
      \<and> (\<forall>a' n' b'. address_total ?ls a' = Some (n', b') \<longrightarrow> (a', n', b') \<in> set addresses \<or> b' \<le> b)"
    if "(a, n, b) \<in> set addresses" for a n b
  proof (intro conjI allI impI)
    have "(a, n, b) \<in> set m" using that by (auto simp: addresses_def dest: in_set_takeD)
    then show "address_total ?ls a = Some (n, b)" using totals by blast
    fix a' n' b' assume "address_total ?ls a' = Some (n', b')"
    then show "(a', n', b') \<in> set addresses \<or> b' \<le> b"
      using sorted_take_bound [of "(a, n, b)" 10 ?key m "(a', n', b')"] that totals
      by (auto simp: addresses_def word_le_def)
  qed
  then have top: "\<forall>(a, n, b) \<in> set addresses. address_total ?ls a = Some (n, b)
      \<and> (\<forall>a' n' b'. address_total ?ls a' = Some (n', b') \<longrightarrow> (a', n', b') \<in> set addresses \<or> b' \<le> b)"
    by blast
  have "card (set (ms_seen s)) = card (snd ` set ?ls)"
    using c assms(4) by (simp add: card_image)
  then have seen: "length (ms_seen s) = card (snd ` set ?ls)" using c by (metis distinct_card)
  show ?thesis
    unfolding measure_contract_states_def s and_then_simps Let_def
    using c assms(4) seen
    by (intro exI [of _ addresses] exI conjI refl len dist sorted top)
      (auto simp: m_def addresses_def comp_def filter_map split_def)
qed

end
