(* ===== verification/Text.thy ===== *)
theory Text
  imports Prelude
begin

text \<open>
  The operations of \<open>str\<close> that the command line uses. A string is the sequence of its UTF-8 bytes, so
  the white space of Unicode is a list of byte sequences, and trimming removes them from the ends for as
  long as one is found.
\<close>

section \<open>Trimming\<close>

text \<open>Remove affixes from the front for as long as one of them is there.\<close>

function strip_leading :: "string list \<Rightarrow> string \<Rightarrow> string" where
  "strip_leading ws s =
     (case find (\<lambda>w. w \<noteq> [] \<and> take (length w) s = w) ws of
        None \<Rightarrow> s
      | Some w \<Rightarrow> strip_leading ws (drop (length w) s))"
  by pat_completeness auto

termination
proof (relation "measure (length \<circ> snd)", goal_cases)
  case (2 ws s w)
  then have "w \<noteq> []" "take (length w) s = w" by (auto simp: find_Some_iff)
  then show ?case by (cases s) auto
qed simp

declare strip_leading.simps [simp del]

text \<open>\<open>char::is_whitespace\<close>: the property \<open>White_Space\<close> of Unicode.\<close>

definition white_space :: "string list" where
  "white_space =
     [[CHR 0x09], [CHR 0x0A], [CHR 0x0B], [CHR 0x0C], [CHR 0x0D], [CHR 0x20], [CHR 0xC2, CHR 0x85],
      [CHR 0xC2, CHR 0xA0], [CHR 0xE1, CHR 0x9A, CHR 0x80], [CHR 0xE2, CHR 0x80, CHR 0x80],
      [CHR 0xE2, CHR 0x80, CHR 0x81], [CHR 0xE2, CHR 0x80, CHR 0x82], [CHR 0xE2, CHR 0x80, CHR 0x83],
      [CHR 0xE2, CHR 0x80, CHR 0x84], [CHR 0xE2, CHR 0x80, CHR 0x85], [CHR 0xE2, CHR 0x80, CHR 0x86],
      [CHR 0xE2, CHR 0x80, CHR 0x87], [CHR 0xE2, CHR 0x80, CHR 0x88], [CHR 0xE2, CHR 0x80, CHR 0x89],
      [CHR 0xE2, CHR 0x80, CHR 0x8A], [CHR 0xE2, CHR 0x80, CHR 0xA8], [CHR 0xE2, CHR 0x80, CHR 0xA9],
      [CHR 0xE2, CHR 0x80, CHR 0xAF], [CHR 0xE2, CHR 0x81, CHR 0x9F], [CHR 0xE3, CHR 0x80, CHR 0x80]]"

definition str_trim_end :: "string list \<Rightarrow> string \<Rightarrow> string" where
  "str_trim_end ws s = rev (strip_leading (map rev ws) (rev s))"

definition str_trim :: "string \<Rightarrow> string" where
  "str_trim s = str_trim_end white_space (strip_leading white_space s)"

text \<open>\<open>trim_matches(c)\<close> and \<open>trim_end_matches(c)\<close> for a character.\<close>

definition trim_matches :: "char \<Rightarrow> string \<Rightarrow> string" where
  "trim_matches c s = str_trim_end [[c]] (strip_leading [[c]] s)"

definition trim_end_matches :: "char \<Rightarrow> string \<Rightarrow> string" where
  "trim_end_matches c s = str_trim_end [[c]] s"

section \<open>Splitting\<close>

fun split_on :: "char \<Rightarrow> string \<Rightarrow> string list" where
  "split_on c [] = [[]]"
| "split_on c (d # s) =
     (if d = c then [] # split_on c s
      else case split_on c s of [] \<Rightarrow> [[d]] | w # ws \<Rightarrow> (d # w) # ws)"

definition line_feed :: char where
  "line_feed = CHR 0x0A"

text \<open>\<open>str::lines\<close>: a line ends in a line feed or in a carriage return and a line feed; the line feed of
  the last line may be missing.\<close>

definition strip_cr :: "string \<Rightarrow> string" where
  "strip_cr s = (if s \<noteq> [] \<and> last s = CHR 0x0D then butlast s else s)"

definition str_lines :: "string \<Rightarrow> string list" where
  "str_lines s =
     (let parts = split_on line_feed s
      in map strip_cr (butlast parts) @ (if last parts = [] then [] else [last parts]))"

definition split_once :: "char \<Rightarrow> string \<Rightarrow> (string \<times> string) option" where
  "split_once c s = (if c \<in> set s then Some (takeWhile (\<lambda>d. d \<noteq> c) s, tl (dropWhile (\<lambda>d. d \<noteq> c) s)) else None)"

definition str_strip_prefix :: "string \<Rightarrow> string \<Rightarrow> string option" where
  "str_strip_prefix p s = (if take (length p) s = p then Some (drop (length p) s) else None)"

definition str_starts_with :: "string \<Rightarrow> string \<Rightarrow> bool" where
  "str_starts_with s p = (take (length p) s = p)"

definition str_ends_with :: "string \<Rightarrow> string \<Rightarrow> bool" where
  "str_ends_with s p = (length p \<le> length s \<and> drop (length s - length p) s = p)"

text \<open>\<open>split_whitespace\<close>: the non-empty pieces between white space, with the piece read so far.\<close>

function split_words :: "string \<Rightarrow> string \<Rightarrow> string list" where
  "split_words piece s =
     (let end_piece = (if piece = [] then [] else [piece])
      in case s of
           [] \<Rightarrow> end_piece
         | c # rest \<Rightarrow>
             (case find (\<lambda>w. w \<noteq> [] \<and> take (length w) s = w) white_space of
                None \<Rightarrow> split_words (piece @ [c]) rest
              | Some w \<Rightarrow> end_piece @ split_words [] (drop (length w) s)))"
  by pat_completeness auto

termination
proof (relation "measure (length \<circ> snd)", goal_cases)
  case (3 piece s end_piece c rest w)
  then have "w \<noteq> []" by (auto simp: find_Some_iff)
  with 3 show ?case by simp
qed simp_all

declare split_words.simps [simp del]

definition split_whitespace :: "string \<Rightarrow> string list" where
  "split_whitespace s = split_words [] s"

section \<open>Laws\<close>

lemma strip_leading_id:
  assumes "\<And>w. w \<in> set ws \<Longrightarrow> w = [] \<or> take (length w) s \<noteq> w"
  shows "strip_leading ws s = s"
proof -
  have "find (\<lambda>w. w \<noteq> [] \<and> take (length w) s = w) ws = None"
    using assms by (auto simp: find_None_iff)
  then show ?thesis by (simp add: strip_leading.simps [of ws s])
qed

lemma strip_leading_stripped:
  "w \<in> set ws \<Longrightarrow> w \<noteq> [] \<Longrightarrow> take (length w) (strip_leading ws s) \<noteq> w"
proof (induction ws s rule: strip_leading.induct)
  case (1 ws s)
  show ?case
  proof (cases "find (\<lambda>w. w \<noteq> [] \<and> take (length w) s = w) ws")
    case None
    then have "strip_leading ws s = s" by (simp add: strip_leading.simps [of ws s])
    then show ?thesis using None 1(2,3) by (auto simp: find_None_iff)
  next
    case (Some v)
    then show ?thesis using 1(1) [OF Some 1(2,3)] by (simp add: strip_leading.simps [of ws s])
  qed
qed

lemma strip_leading_subset: "set (strip_leading ws s) \<subseteq> set s"
proof (induction ws s rule: strip_leading.induct)
  case (1 ws s)
  then show ?case
    by (subst strip_leading.simps) (auto split: option.splits dest: in_set_dropD)
qed

lemma str_trim_subset: "set (str_trim s) \<subseteq> set s"
proof -
  have "set (str_trim s) \<subseteq> set (strip_leading white_space s)"
    unfolding str_trim_def str_trim_end_def set_rev
    using strip_leading_subset [of "map rev white_space" "rev (strip_leading white_space s)"] by simp
  then show ?thesis using strip_leading_subset by blast
qed

lemma str_trim_Nil [simp]: "str_trim [] = []"
  using str_trim_subset [of "[]"] by simp

lemma strip_leading_suffix: "\<exists>pre. s = pre @ strip_leading ws s"
proof (induction ws s rule: strip_leading.induct)
  case (1 ws s)
  show ?case
  proof (cases "find (\<lambda>w. w \<noteq> [] \<and> take (length w) s = w) ws")
    case None
    then show ?thesis by (simp add: strip_leading.simps [of ws s])
  next
    case (Some w)
    then obtain pre where "drop (length w) s = pre @ strip_leading ws (drop (length w) s)" using 1 by blast
    then have "s = (take (length w) s @ pre) @ strip_leading ws s"
      using Some append_take_drop_id [of "length w" s] by (simp add: strip_leading.simps [of ws s])
    then show ?thesis by blast
  qed
qed

lemma str_trim_infix: "\<exists>pre post. s = pre @ str_trim s @ post"
proof -
  let ?t = "strip_leading white_space s"
  obtain pre where "s = pre @ ?t" using strip_leading_suffix by blast
  moreover obtain post where "rev ?t = post @ strip_leading (map rev white_space) (rev ?t)"
    using strip_leading_suffix by blast
  then have "?t = rev (strip_leading (map rev white_space) (rev ?t)) @ rev post"
    by (metis rev_append rev_rev_ident)
  ultimately show ?thesis unfolding str_trim_def str_trim_end_def by metis
qed

text \<open>A trimmed text does not end in a white space character of one byte.\<close>

lemma str_trim_last:
  assumes "[c] \<in> set white_space" and "str_trim s \<noteq> []"
  shows "last (str_trim s) \<noteq> c"
proof -
  let ?r = "strip_leading (map rev white_space) (rev (strip_leading white_space s))"
  have "[c] \<in> set (map rev white_space)" using assms(1) by force
  then have "take 1 ?r \<noteq> [c]" using strip_leading_stripped [of "[c]" "map rev white_space"] by simp
  moreover have "?r \<noteq> []" using assms(2) by (simp add: str_trim_def str_trim_end_def)
  ultimately have "hd ?r \<noteq> c" by (cases ?r) auto
  then show ?thesis using \<open>?r \<noteq> []\<close> by (simp add: str_trim_def str_trim_end_def last_rev)
qed

lemma split_on_append:
  "c \<notin> set w \<Longrightarrow> split_on c (w @ c # s) = w # split_on c s"
  by (induction w) auto

lemma split_on_none: "c \<notin> set w \<Longrightarrow> split_on c w = [w]"
  by (induction w) auto

lemma split_on_nonempty [simp]: "split_on c s \<noteq> []"
  by (induction s) (auto split: list.splits)

text \<open>A text of lines, each with its line feed.\<close>

lemma str_lines_concat:
  assumes "\<And>l. l \<in> set ls \<Longrightarrow> line_feed \<notin> set l \<and> strip_cr l = l"
  shows "str_lines (concat (map (\<lambda>l. l @ [line_feed]) ls)) = ls"
proof -
  have parts: "split_on line_feed (concat (map (\<lambda>l. l @ [line_feed]) ls)) = ls @ [[]]"
    using assms by (induction ls) (auto simp: split_on_append)
  have "map strip_cr ls = ls" using assms by (induction ls) auto
  then show ?thesis by (simp add: str_lines_def parts)
qed

lemma split_once_append: "c \<notin> set k \<Longrightarrow> split_once c (k @ c # v) = Some (k, v)"
proof -
  assume "c \<notin> set k"
  then have "takeWhile (\<lambda>d. d \<noteq> c) (k @ c # v) = k" "dropWhile (\<lambda>d. d \<noteq> c) (k @ c # v) = c # v"
    by (induction k) auto
  then show ?thesis by (simp add: split_once_def)
qed

end
