(* ===== verification/Snapshot.thy ===== *)
theory Snapshot
  imports Text NodeTx
begin

text \<open>
  Saving and restoring the data directory (\<open>nightfrost/src/snapshot.rs\<close>). The file system and the
  programs \<open>tar\<close> and \<open>curl\<close> are the parameters \<open>os\<close> over an abstract world, which a failed
  operation may leave changed; paths are the lists of components that \<open>std::path\<close> compares. What is
  printed is left out. A published archive is fetched and unpacked only under names that cannot leave the
  directory; and a directory beside the destination that has the name of the one in the archive is taken.
\<close>

section \<open>Paths\<close>

datatype path_component = RootDir | CurDir | ParentDir | Normal string

type_synonym path = "path_component list"

definition component_of :: "string \<Rightarrow> path_component" where
  "component_of s = (if s = ''.'' then CurDir else if s = ''..'' then ParentDir else Normal s)"

text \<open>\<open>Path::new\<close>: repeated and final separators do not count, nor does a dot that is not the first part.\<close>

definition inner_components :: "string list \<Rightarrow> path" where
  "inner_components parts = filter (\<lambda>c. c \<noteq> CurDir) (map component_of (filter (\<lambda>s. s \<noteq> []) parts))"

definition path_new :: "string \<Rightarrow> path" where
  "path_new s =
     (if str_starts_with s ''/'' then RootDir # inner_components (split_on CHR ''/'' s)
      else (if hd (split_on CHR ''/'' s) = ''.'' then [CurDir] else []) @ inner_components (split_on CHR ''/'' s))"

definition path_parent :: "path \<Rightarrow> path option" where
  "path_parent p = (if p = [] \<or> last p = RootDir then None else Some (butlast p))"

definition path_file_name :: "path \<Rightarrow> string option" where
  "path_file_name p = (if p = [] then None else case last p of Normal n \<Rightarrow> Some n | _ \<Rightarrow> None)"

definition path_join :: "path \<Rightarrow> string \<Rightarrow> path" where
  "path_join p s =
     (if str_starts_with s ''/'' then path_new s
      else if p = [] then path_new s else p @ inner_components (split_on CHR ''/'' s))"

section \<open>The operating system\<close>

text \<open>A program returns whether it exited with success, and what it printed; \<open>None\<close> if it cannot be run.
  Opening and syncing a store, which the store component models, is one operation.\<close>

record 'w os =
  os_exists :: "'w \<Rightarrow> path \<Rightarrow> bool"
  os_create_dir_all :: "'w \<Rightarrow> path \<Rightarrow> (rust_error + unit) \<times> 'w"
  os_rename :: "'w \<Rightarrow> path \<Rightarrow> path \<Rightarrow> (rust_error + unit) \<times> 'w"
  os_remove_file :: "'w \<Rightarrow> path \<Rightarrow> (rust_error + unit) \<times> 'w"
  os_canonicalize :: "'w \<Rightarrow> path \<Rightarrow> path option"
  os_sync_store :: "'w \<Rightarrow> path \<Rightarrow> (rust_error + unit) \<times> 'w"
  os_tar_create :: "'w \<Rightarrow> string \<Rightarrow> path \<Rightarrow> string \<Rightarrow> bool option \<times> 'w"
  os_tar_list :: "'w \<Rightarrow> path \<Rightarrow> (bool \<times> bytes) option"
  os_tar_extract :: "'w \<Rightarrow> path \<Rightarrow> path \<Rightarrow> bool option \<times> 'w"
  os_curl_text :: "'w \<Rightarrow> string \<Rightarrow> (bool \<times> bytes) option"
  os_curl_download :: "'w \<Rightarrow> path \<Rightarrow> string \<Rightarrow> bool option \<times> 'w"

type_synonym ('w, 'a) io = "'w \<Rightarrow> (rust_error + 'a) \<times> 'w"

definition io_bind :: "('w, 'a) io \<Rightarrow> ('a \<Rightarrow> ('w, 'b) io) \<Rightarrow> ('w, 'b) io" where
  "io_bind m f = (\<lambda>w. case m w of (Inl e, w') \<Rightarrow> (Inl e, w') | (Inr a, w') \<Rightarrow> f a w')"

definition io_ok :: "rust_error + 'a \<Rightarrow> ('w, 'a) io" where
  "io_ok r = (\<lambda>w. (r, w))"

text \<open>A read of the world, and a program whose failure ends the run.\<close>

definition io_read :: "('w \<Rightarrow> rust_error + 'a) \<Rightarrow> ('w, 'a) io" where
  "io_read f = (\<lambda>w. (f w, w))"

definition io_command :: "string \<Rightarrow> string \<Rightarrow> ('w \<Rightarrow> bool option \<times> 'w) \<Rightarrow> ('w, unit) io" where
  "io_command context failure run =
     (\<lambda>w. case run w of
        (None, w') \<Rightarrow> (Inl (Fail context), w')
      | (Some success, w') \<Rightarrow> (ensure success (Fail failure), w'))"

lemma io_bind_Inr_iff [result_simps]:
  "io_bind m f w = (Inr b, w') \<longleftrightarrow> (\<exists>a w1. m w = (Inr a, w1) \<and> f a w1 = (Inr b, w'))"
  by (auto simp: io_bind_def split: prod.splits sum.splits)

lemma io_ok_iff [result_simps]: "io_ok r w = (Inr a, w') \<longleftrightarrow> r = Inr a \<and> w' = w"
  by (auto simp: io_ok_def)

lemma io_read_iff [result_simps]: "io_read f w = (Inr a, w') \<longleftrightarrow> f w = Inr a \<and> w' = w"
  by (auto simp: io_read_def)

lemma io_command_iff [result_simps]:
  "io_command c e run w = (Inr u, w') \<longleftrightarrow> run w = (Some True, w')"
  by (auto simp: io_command_def ensure_def split: prod.splits option.splits)

section \<open>Saving and restoring\<close>

definition save :: "'w os \<Rightarrow> string \<Rightarrow> string \<Rightarrow> ('w, unit) io" where
  "save Y data_dir output =
     io_bind (\<lambda>w. os_sync_store Y w (path_new data_dir)) (\<lambda>_.
     io_bind (io_read (\<lambda>w. ok_or (Fail ''resolve data dir'') (os_canonicalize Y w (path_new data_dir)))) (\<lambda>dir.
     io_bind (io_ok (ok_or (Fail ''data dir has no parent'') (path_parent dir))) (\<lambda>parent.
     io_bind (io_ok (ok_or (Fail ''data dir has no name'') (path_file_name dir))) (\<lambda>name.
       io_command ''run tar'' ''tar failed'' (\<lambda>w. os_tar_create Y w output parent name)))))"

definition fresh_data_dir :: "'w os \<Rightarrow> path \<Rightarrow> ('w, path) io" where
  "fresh_data_dir Y data_dir =
     io_bind (io_read (\<lambda>w. ensure (\<not> os_exists Y w data_dir) (Fail ''data dir already exists''))) (\<lambda>_.
       let parent = (case path_parent data_dir of
           Some p \<Rightarrow> if p \<noteq> [] then p else [CurDir] | None \<Rightarrow> [CurDir])
       in io_bind (\<lambda>w. os_create_dir_all Y w parent) (\<lambda>_. io_ok (Inr parent)))"

text \<open>The first part of the first line of the listing.\<close>

definition top_name_of :: "string \<Rightarrow> rust_error + string" where
  "top_name_of listing =
     (case str_lines listing of
        [] \<Rightarrow> Inl (Fail ''snapshot archive is empty'')
      | first_entry # _ \<Rightarrow>
          (let s = hd (split_on CHR ''/'' first_entry)
           in if s \<noteq> [] then Inr s else Inl (Fail ''malformed tar entry'')))"

definition restore :: "'w os \<Rightarrow> path \<Rightarrow> path \<Rightarrow> ('w, unit) io" where
  "restore Y input data_dir =
     io_bind (fresh_data_dir Y data_dir) (\<lambda>parent.
     io_bind (io_read (\<lambda>w. ok_or (Fail ''list tar contents'') (os_tar_list Y w input))) (\<lambda>(success, listing).
     io_bind (io_ok (ensure success (Fail ''tar -tf failed''))) (\<lambda>_.
     io_bind (io_ok (ok_or (Fail ''tar listing is not utf-8'') (from_utf8 listing))) (\<lambda>listing.
     io_bind (io_ok (top_name_of listing)) (\<lambda>top_name.
     io_bind (io_command ''run tar'' ''tar failed'' (\<lambda>w. os_tar_extract Y w input parent)) (\<lambda>_.
       let extracted = path_join parent top_name
       in if extracted \<noteq> data_dir then (\<lambda>w. os_rename Y w extracted data_dir) else io_ok (Inr ())))))))"

definition ascii_alphanumeric :: "char \<Rightarrow> bool" where
  "ascii_alphanumeric c =
     (let n = of_char c :: nat in 48 \<le> n \<and> n \<le> 57 \<or> 65 \<le> n \<and> n \<le> 90 \<or> 97 \<le> n \<and> n \<le> 122)"

definition network_name_ok :: "string \<Rightarrow> bool" where
  "network_name_ok network \<longleftrightarrow> network \<noteq> [] \<and> list_all (\<lambda>b. ascii_alphanumeric b \<or> b = CHR ''-'') network"

definition snapshot_name_ok :: "string \<Rightarrow> string \<Rightarrow> bool" where
  "snapshot_name_ok network name \<longleftrightarrow>
     str_starts_with name (''nightfrost-'' @ network @ ''-snap-'') \<and> str_ends_with name ''.tar.xz''
     \<and> list_all (\<lambda>b. ascii_alphanumeric b \<or> b = CHR ''-'' \<or> b = CHR ''.'' \<or> b = CHR ''_'') name"

definition restore_published :: "'w os \<Rightarrow> string \<Rightarrow> string \<Rightarrow> path \<Rightarrow> ('w, unit) io" where
  "restore_published Y base_url network data_dir =
     io_bind (io_ok (ensure (network_name_ok network) (Fail ''cannot name a published snapshot''))) (\<lambda>_.
     io_bind (fresh_data_dir Y data_dir) (\<lambda>parent.
       let base_url = trim_end_matches CHR ''/'' base_url;
           pointer_url = base_url @ ''/'' @ network @ ''/latest''
       in
     io_bind (io_read (\<lambda>w. ok_or (Fail ''run curl'') (os_curl_text Y w pointer_url))) (\<lambda>(success, stdout).
     io_bind (io_ok (ensure success (Fail ''could not fetch the pointer''))) (\<lambda>_.
     io_bind (io_ok (ok_or (Fail ''latest pointer is not utf-8'') (from_utf8 stdout))) (\<lambda>text.
       let name = str_trim text
       in
     io_bind (io_ok (ensure (snapshot_name_ok network name) (Fail ''unexpected snapshot name''))) (\<lambda>_.
       let archive_url = base_url @ ''/'' @ network @ ''/'' @ name;
           archive = path_join parent (''.'' @ name @ ''.download'')
       in
     io_bind (io_command ''run curl'' ''download failed; rerun to resume'' (\<lambda>w. os_curl_download Y w archive archive_url)) (\<lambda>_.
     io_bind (restore Y archive data_dir) (\<lambda>_.
       (\<lambda>w. os_remove_file Y w archive)))))))))"

section \<open>ASCII texts\<close>

lemma ascii_utf8:
  assumes "list_all (\<lambda>c. of_char c < (128 :: nat)) s"
  shows "from_utf8 (as_bytes s) = Some s"
proof -
  have small: "unat (word_of_nat (of_char c) :: u8) = of_char c" for c
    by (simp add: unat_of_nat)
  have "word_of_nat (of_char c) \<le> (0x7F :: u8)" if "of_char c < (128 :: nat)" for c
    using that small [of c] by (simp add: word_le_nat_alt)
  then have "valid_utf8 (as_bytes s)" using assms by (induction s) (auto simp: as_bytes_def)
  moreover have "map (\<lambda>b. char_of (unat b)) (as_bytes s) = s"
    by (simp add: as_bytes_def map_idI small comp_def)
  ultimately show ?thesis by (simp add: from_utf8_def)
qed

section \<open>Safe names\<close>

lemma fresh_data_dir_Inr:
  "fresh_data_dir Y data_dir w = (Inr parent, w1) \<longleftrightarrow>
     \<not> os_exists Y w data_dir \<and> os_create_dir_all Y w parent = (Inr (), w1)
     \<and> parent = (case path_parent data_dir of Some p \<Rightarrow> if p \<noteq> [] then p else [CurDir] | None \<Rightarrow> [CurDir])"
  by (auto simp: fresh_data_dir_def result_simps Let_def)

lemma parent_nonempty: "fresh_data_dir Y data_dir w = (Inr parent, w1) \<Longrightarrow> parent \<noteq> []"
  by (auto simp: fresh_data_dir_Inr split: option.splits)

lemma name_chars:
  assumes "snapshot_name_ok network name"
  shows "CHR ''/'' \<notin> set name"
proof
  assume "CHR ''/'' \<in> set name"
  then have "ascii_alphanumeric CHR ''/''" using assms by (auto simp: snapshot_name_ok_def list_all_iff)
  then show False by (simp add: ascii_alphanumeric_def Let_def)
qed

text \<open>A name without separators that is not a dot names a file of the directory.\<close>

lemma join_plain:
  assumes "p \<noteq> []" and "CHR ''/'' \<notin> set s" and "s \<notin> {[], ''.'', ''..''}"
  shows "path_join p s = p @ [Normal s]"
proof -
  have "\<not> str_starts_with s ''/''" using assms(2,3) by (cases s) (auto simp: str_starts_with_def)
  then show ?thesis
    using assms by (simp add: path_join_def split_on_none inner_components_def component_of_def)
qed

text \<open>
  The published snapshot is restored only for a network and a file name that consist of letters,
  digits and a few marks: nothing happens for another network or when the destination exists; what is
  downloaded comes from below the directory of the network and lies under its own name directly in the
  parent of the destination, and is removed after it has been restored.
\<close>

theorem restore_published_confined:
  fixes Y :: "'w os"
  shows "(\<not> network_name_ok network \<or> os_exists Y w data_dir \<longrightarrow>
      (\<exists>e. restore_published Y base_url network data_dir w = (Inl e, w)))
    \<and> (restore_published Y base_url network data_dir w = (Inr (), w') \<longrightarrow>
      (\<exists>parent w1 name w2 w3. fresh_data_dir Y data_dir w = (Inr parent, w1)
        \<and> CHR ''/'' \<notin> set name \<and> CHR ''/'' \<notin> set network \<and> str_starts_with name (''nightfrost-'' @ network @ ''-snap-'')
        \<and> os_curl_download Y w1 (parent @ [Normal (''.'' @ name @ ''.download'')])
            (trim_end_matches CHR ''/'' base_url @ ''/'' @ network @ ''/'' @ name) = (Some True, w2)
        \<and> restore Y (parent @ [Normal (''.'' @ name @ ''.download'')]) data_dir w2 = (Inr (), w3)
        \<and> os_remove_file Y w3 (parent @ [Normal (''.'' @ name @ ''.download'')]) = (Inr (), w')))"
proof (intro conjI impI)
  assume "\<not> network_name_ok network \<or> os_exists Y w data_dir"
  then show "\<exists>e. restore_published Y base_url network data_dir w = (Inl e, w)"
    by (auto simp: restore_published_def fresh_data_dir_def io_bind_def io_ok_def io_read_def ensure_def)
next
  assume "restore_published Y base_url network data_dir w = (Inr (), w')"
  then obtain parent w1 t name w2 w3 where r: "network_name_ok network"
      "fresh_data_dir Y data_dir w = (Inr parent, w1)" "name = str_trim t" "snapshot_name_ok network name"
      "os_curl_download Y w1 (path_join parent (''.'' @ name @ ''.download''))
         (trim_end_matches CHR ''/'' base_url @ ''/'' @ network @ ''/'' @ name) = (Some True, w2)"
      "restore Y (path_join parent (''.'' @ name @ ''.download'')) data_dir w2 = (Inr (), w3)"
      "os_remove_file Y w3 (path_join parent (''.'' @ name @ ''.download'')) = (Inr (), w')"
    by (auto simp: restore_published_def result_simps Let_def)
  have slash: "\<not> ascii_alphanumeric CHR ''/''" by (simp add: ascii_alphanumeric_def Let_def)
  then have net: "CHR ''/'' \<notin> set network" using r(1) by (auto simp: network_name_ok_def list_all_iff)
  have "path_join parent (''.'' @ name @ ''.download'') = parent @ [Normal (''.'' @ name @ ''.download'')]"
    using parent_nonempty [OF r(2)] name_chars [OF r(4)] by (intro join_plain) auto
  then show "\<exists>parent w1 name w2 w3. fresh_data_dir Y data_dir w = (Inr parent, w1)
      \<and> CHR ''/'' \<notin> set name \<and> CHR ''/'' \<notin> set network \<and> str_starts_with name (''nightfrost-'' @ network @ ''-snap-'')
      \<and> os_curl_download Y w1 (parent @ [Normal (''.'' @ name @ ''.download'')])
          (trim_end_matches CHR ''/'' base_url @ ''/'' @ network @ ''/'' @ name) = (Some True, w2)
      \<and> restore Y (parent @ [Normal (''.'' @ name @ ''.download'')]) data_dir w2 = (Inr (), w3)
      \<and> os_remove_file Y w3 (parent @ [Normal (''.'' @ name @ ''.download'')]) = (Inr (), w')"
    using r net name_chars [OF r(4)] by (auto simp: snapshot_name_ok_def)
qed

section \<open>The directory beside the destination\<close>

text \<open>What \<open>rename\<close> does: nothing is left under the old path.\<close>

definition renames :: "'w os \<Rightarrow> bool" where
  "renames Y \<longleftrightarrow> (\<forall>w p q w'. p \<noteq> q \<longrightarrow> os_rename Y w p q = (Inr (), w') \<longrightarrow> \<not> os_exists Y w' p)"


text \<open>A world of directories with their contents; the archive holds \<open>data/\<close> with the content \<open>old\<close>.\<close>

definition demo_os :: "(path \<Rightarrow> string option) os" where
  "demo_os =
     \<lparr>os_exists = (\<lambda>w p. w p \<noteq> None), os_create_dir_all = (\<lambda>w p. (Inr (), w(p \<mapsto> []))),
      os_rename = (\<lambda>w p q. if w p = None then (Inl (Fail ''rename''), w) else (Inr (), w(q := w p, p := None))),
      os_remove_file = (\<lambda>w p. (Inr (), w(p := None))), os_canonicalize = (\<lambda>_. Some),
      os_sync_store = (\<lambda>w _. (Inr (), w)), os_tar_create = (\<lambda>w _ _ _. (Some True, w)),
      os_tar_list = (\<lambda>_ _. Some (True, as_bytes ''data/'')),
      os_tar_extract = (\<lambda>w _ parent. (Some True, w(parent @ [Normal ''data''] \<mapsto> ''old''))),
      os_curl_text = (\<lambda>_ _. None), os_curl_download = (\<lambda>w _ _. (None, w))\<rparr>"


definition demo_curl_os :: "(path \<Rightarrow> string option) os" where
  "demo_curl_os = demo_os
     \<lparr>os_curl_text := (\<lambda>_ _. Some (True, as_bytes ''nightfrost-preview-snap-1.tar.xz'')),
      os_curl_download := (\<lambda>w p _. (Some True, w(p \<mapsto> ''archive'')))\<rparr>"

theorem restore_published_confined_witness:
  "(\<exists>e. restore_published demo_curl_os ''https://h/'' ''../x'' [CurDir, Normal ''copy''] Map.empty = (Inl e, Map.empty))
    \<and> (\<exists>name w1 w2. CHR ''/'' \<notin> set name
        \<and> os_curl_download demo_curl_os w1 [CurDir, Normal (''.'' @ name @ ''.download'')] (''https://h/preview/'' @ name)
            = (Some True, w2))"
proof -
  let ?name = "''nightfrost-preview-snap-1.tar.xz''"
  have name: "from_utf8 (as_bytes ?name) = Some ?name" by (rule ascii_utf8) simp
  have texts: "str_trim ?name = ?name" "snapshot_name_ok ''preview'' ?name"
    "network_name_ok ''preview''" "trim_end_matches CHR ''/'' ''https://h/'' = ''https://h''"
    by code_simp+
  have utf8: "from_utf8 (as_bytes ''data/'') = Some ''data/''" by (rule ascii_utf8) simp
  have listing: "top_name_of ''data/'' = Inr ''data''"
    "path_join [CurDir] ''data'' = [CurDir, Normal ''data'']" "\<not> network_name_ok ''../x''"
    by code_simp+
  obtain w' where run: "restore_published demo_curl_os ''https://h/'' ''preview'' [CurDir, Normal ''copy''] Map.empty = (Inr (), w')"
    by (simp add: restore_published_def restore_def fresh_data_dir_def path_parent_def io_bind_def io_ok_def io_read_def
        io_command_def demo_curl_os_def demo_os_def name texts utf8 listing join_plain Let_def)
  note facts = restore_published_confined [of _ demo_curl_os]
  show ?thesis
  proof (intro conjI)
    show "\<exists>e. restore_published demo_curl_os ''https://h/'' ''../x'' [CurDir, Normal ''copy''] Map.empty = (Inl e, Map.empty)"
      using facts [of "''../x''"] listing(3) by blast
    obtain parent w1 name w2 where p: "fresh_data_dir demo_curl_os [CurDir, Normal ''copy''] Map.empty = (Inr parent, w1)"
      "CHR ''/'' \<notin> set name" "os_curl_download demo_curl_os w1 (parent @ [Normal (''.'' @ name @ ''.download'')])
         (trim_end_matches CHR ''/'' ''https://h/'' @ ''/'' @ ''preview'' @ ''/'' @ name) = (Some True, w2)"
      using facts [of "''preview''", THEN conjunct2, rule_format, OF run] by blast
    have "parent = [CurDir]" using p(1) by (simp add: fresh_data_dir_Inr path_parent_def)
    then show "\<exists>name w1 w2. CHR ''/'' \<notin> set name
        \<and> os_curl_download demo_curl_os w1 [CurDir, Normal (''.'' @ name @ ''.download'')] (''https://h/preview/'' @ name)
            = (Some True, w2)"
      using p(2,3) texts(4) by auto
  qed
qed

end
