(* ===== verification/HttpMetrics.thy ===== *)
theory HttpMetrics
  imports Complex_Main Prelude "HOL-Library.Multiset" "HOL-Library.Char_ord" "HOL-Library.Product_Lexorder"
begin

text \<open>
  The counters behind \<open>GET /metrics\<close> (\<open>nightfrost-core/src/metrics.rs\<close>), the route tables of the
  server (\<open>nightfrost-api/src/lib.rs\<close>) and the middleware that accounts for every request
  (\<open>track_http\<close> of \<open>nightfrost-api/src/metrics.rs\<close>). A counter is a 64-bit word that wraps; the ordered
  maps are key-sorted association lists; the operations on \<open>f64\<close> are the parameters \<open>floats\<close>. The
  requests that are being served run as tasks whose steps interleave, and a client that goes away drops
  its task. Whatever the interleaving, the figures are those of the requests.
\<close>

section \<open>Counters and gauges\<close>

type_synonym Counter = u64
type_synonym Gauge = u64

definition counter_inc :: "Counter \<Rightarrow> Counter" where
  "counter_inc c = c + 1"

definition counter_add :: "u64 \<Rightarrow> Counter \<Rightarrow> Counter" where
  "counter_add n c = c + n"

definition gauge_set :: "u64 \<Rightarrow> Gauge \<Rightarrow> Gauge" where
  "gauge_set v _ = v"

record Duration =
  du_secs :: u64
  du_nanos :: u32

text \<open>\<open>as_nanos() as u64\<close>\<close>

definition as_nanos_u64 :: "Duration \<Rightarrow> u64" where
  "as_nanos_u64 d = du_secs d * 1000000000 + ucast (du_nanos d)"

definition stage :: "Counter \<Rightarrow> Duration \<Rightarrow> Counter \<times> Duration" where
  "stage c elapsed = (counter_add (as_nanos_u64 elapsed) c, elapsed)"

section \<open>Floating point\<close>

record 'f floats =
  fl_le :: "'f \<Rightarrow> 'f \<Rightarrow> bool"
  fl_add :: "'f \<Rightarrow> 'f \<Rightarrow> 'f"
  fl_div :: "'f \<Rightarrow> 'f \<Rightarrow> 'f"
  fl_of_rat :: "rat \<Rightarrow> 'f"
  fl_of_u64 :: "u64 \<Rightarrow> 'f"
  fl_show :: "'f \<Rightarrow> string"

definition as_secs_f64 :: "'f floats \<Rightarrow> Duration \<Rightarrow> 'f" where
  "as_secs_f64 F d =
     fl_add F (fl_of_u64 F (du_secs d)) (fl_div F (fl_of_u64 F (ucast (du_nanos d))) (fl_of_rat F 1000000000))"

definition LATENCY_BUCKETS :: "rat list" where
  "LATENCY_BUCKETS = [1 / 1000, 25 / 10000, 5 / 1000, 1 / 100, 25 / 1000, 5 / 100, 1 / 10, 25 / 100, 5 / 10, 1,
     25 / 10, 5, 10]"

section \<open>Ordered maps\<close>

fun bt_insert :: "'k::linorder \<Rightarrow> 'v \<Rightarrow> ('k \<times> 'v) list \<Rightarrow> ('k \<times> 'v) list" where
  "bt_insert k v [] = [(k, v)]"
| "bt_insert k v ((k', v') # m) =
     (if k < k' then (k, v) # (k', v') # m else if k = k' then (k, v) # m else (k', v') # bt_insert k v m)"

lemma bt_insert_map_of [simp]: "map_of (bt_insert k v m) = (map_of m)(k \<mapsto> v)"
  by (induction m) auto

lemma bt_insert_keys: "fst ` set (bt_insert k v m) = insert k (fst ` set m)"
  by (induction m) force+

lemma bt_insert_sorted: "sorted_wrt (<) (map fst m) \<Longrightarrow> sorted_wrt (<) (map fst (bt_insert k v m))"
proof (induction m)
  case (Cons e m)
  obtain k' v' where e: "e = (k', v')" by (cases e)
  have "\<forall>x \<in> fst ` set (bt_insert k v m). k' < x" if "\<not> k < k'" "k \<noteq> k'"
    using Cons.prems e that by (auto simp: bt_insert_keys)
  then show ?case using Cons e by auto
qed simp

section \<open>The accounting of requests\<close>

record 'f Histogram =
  hg_buckets :: "u64 list"
  hg_count :: u64
  hg_sum :: 'f

definition histogram_default :: "'f floats \<Rightarrow> 'f Histogram" where
  "histogram_default F =
     \<lparr>hg_buckets = replicate (length LATENCY_BUCKETS) 0, hg_count = 0, hg_sum = fl_of_rat F 0\<rparr>"

definition observe :: "'f floats \<Rightarrow> 'f \<Rightarrow> 'f Histogram \<Rightarrow> 'f Histogram" where
  "observe F seconds h =
     \<lparr>hg_buckets = map (\<lambda>(le, n). if fl_le F seconds (fl_of_rat F le) then n + 1 else n)
        (zip LATENCY_BUCKETS (hg_buckets h)),
      hg_count = hg_count h + 1, hg_sum = fl_add F (hg_sum h) seconds\<rparr>"

record 'f HttpMetrics =
  hm_requests :: "((string \<times> string \<times> u16) \<times> u64) list"
  hm_latency :: "(string \<times> 'f Histogram) list"
  hm_inflight :: u64

definition http_initial :: "'f HttpMetrics" where
  "http_initial = \<lparr>hm_requests = [], hm_latency = [], hm_inflight = 0\<rparr>"

definition bounded_methods :: "string list" where
  "bounded_methods = [''GET'', ''HEAD'', ''POST'', ''OPTIONS'', ''PUT'', ''DELETE'', ''PATCH'']"

definition normalize_method :: "string \<Rightarrow> string" where
  "normalize_method m = (if m \<in> set bounded_methods then m else ''OTHER'')"

definition http_start :: "'f HttpMetrics \<Rightarrow> 'f HttpMetrics" where
  "http_start h = h\<lparr>hm_inflight := hm_inflight h + 1\<rparr>"

definition inflight_drop :: "'f HttpMetrics \<Rightarrow> 'f HttpMetrics" where
  "inflight_drop h = h\<lparr>hm_inflight := hm_inflight h - 1\<rparr>"

text \<open>The two critical sections of \<open>finish\<close>, each under its own lock.\<close>

definition count_request :: "string \<Rightarrow> string \<Rightarrow> u16 \<Rightarrow> 'f HttpMetrics \<Rightarrow> 'f HttpMetrics" where
  "count_request route m status h =
     (let key = (route, normalize_method m, status)
      in h\<lparr>hm_requests := bt_insert key
             ((case map_of (hm_requests h) key of Some n \<Rightarrow> n | None \<Rightarrow> 0) + 1) (hm_requests h)\<rparr>)"

definition observe_latency :: "'f floats \<Rightarrow> string \<Rightarrow> Duration \<Rightarrow> 'f HttpMetrics \<Rightarrow> 'f HttpMetrics" where
  "observe_latency F route elapsed h =
     h\<lparr>hm_latency := bt_insert route
         (observe F (as_secs_f64 F elapsed)
            (case map_of (hm_latency h) route of Some g \<Rightarrow> g | None \<Rightarrow> histogram_default F)) (hm_latency h)\<rparr>"

definition http_finish ::
    "'f floats \<Rightarrow> string \<Rightarrow> string \<Rightarrow> u16 \<Rightarrow> Duration \<Rightarrow> 'f HttpMetrics \<Rightarrow> 'f HttpMetrics" where
  "http_finish F route m status elapsed h = observe_latency F route elapsed (count_request route m status h)"

section \<open>The route tables\<close>

datatype route_method = RouteGet | RoutePost

definition api_routes :: "(string \<times> route_method) list" where
  "api_routes =
     [(''/api/v0/network'', RouteGet), (''/api/v0/sync'', RouteGet), (''/api/v0/stats'', RouteGet),
      (''/api/v0/blocks/latest'', RouteGet), (''/api/v0/ledger-parameters/latest'', RouteGet),
      (''/api/v0/blocks/{id}'', RouteGet), (''/api/v0/blocks/{id}/txs'', RouteGet),
      (''/api/v0/txs/{hash}'', RouteGet), (''/api/v0/txs/{hash}/raw'', RouteGet),
      (''/api/v0/txs/identifiers/{identifier}'', RouteGet), (''/api/v0/txs/{hash}/utxos'', RouteGet),
      (''/api/v0/txs/{hash}/events'', RouteGet), (''/api/v0/addresses/{addr}'', RouteGet),
      (''/api/v0/addresses/{addr}/utxos'', RouteGet), (''/api/v0/addresses/{addr}/utxos/{token_type}'', RouteGet),
      (''/api/v0/addresses/{addr}/txs'', RouteGet), (''/api/v0/contracts'', RouteGet),
      (''/api/v0/contracts/{addr}'', RouteGet), (''/api/v0/contracts/{addr}/state'', RouteGet),
      (''/api/v0/contracts/{addr}/actions'', RouteGet), (''/api/v0/contracts/{addr}/events'', RouteGet),
      (''/api/v0/ledger/events'', RouteGet), (''/api/v0/wallet-sync/shielded'', RoutePost),
      (''/api/v0/wallet-sync/dust'', RouteGet), (''/api/v0/wallet/events'', RoutePost),
      (''/api/v0/dust/registrations'', RouteGet), (''/api/v0/dust/registrations/{stake_key}'', RouteGet),
      (''/api/v0/dust/status/{stake_key}'', RouteGet)]"

definition metrics_routes :: "(string \<times> route_method) list" where
  "metrics_routes = [(''/metrics'', RouteGet)]"

definition submit_routes :: "(string \<times> route_method) list" where
  "submit_routes = [(''/api/v0/tx/submit'', RoutePost)]"

text \<open>The application that the middleware wraps.\<close>

definition app_routes :: "(string \<times> route_method) list" where
  "app_routes = api_routes @ submit_routes"

section \<open>The middleware\<close>

definition route_label :: "string option \<Rightarrow> string" where
  "route_label matched_path = (case matched_path of Some p \<Rightarrow> p | None \<Rightarrow> ''unmatched'')"

text \<open>A task is waiting for its handler, has the response, or has counted it. The histories of the
  requests counted and observed are kept beside the state.\<close>

record http_request =
  rq_route :: string
  rq_method :: string
  rq_status :: u16
  rq_elapsed :: Duration

datatype http_task = Waiting string string | Responded http_request | Counted http_request

record 'f http_state =
  hs_metrics :: "'f HttpMetrics"
  hs_tasks :: "http_task multiset"
  hs_counted :: "http_request list"
  hs_observed :: "http_request list"

definition http_state_initial :: "'f http_state" where
  "http_state_initial = \<lparr>hs_metrics = http_initial, hs_tasks = {#}, hs_counted = [], hs_observed = []\<rparr>"

text \<open>The path that axum reports is the template of the route that matched.\<close>

inductive http_step :: "'f floats \<Rightarrow> 'f http_state \<Rightarrow> 'f http_state \<Rightarrow> bool" for F where
  request: "set_option matched_path \<subseteq> fst ` set app_routes \<Longrightarrow>
     http_step F s (s\<lparr>hs_metrics := http_start (hs_metrics s),
       hs_tasks := add_mset (Waiting (route_label matched_path) m) (hs_tasks s)\<rparr>)"
| response: "hs_tasks s = add_mset (Waiting route m) rest \<Longrightarrow>
     http_step F s (s\<lparr>hs_metrics := inflight_drop (hs_metrics s),
       hs_tasks := add_mset (Responded \<lparr>rq_route = route, rq_method = m, rq_status = status, rq_elapsed = elapsed\<rparr>) rest\<rparr>)"
| dropped: "hs_tasks s = add_mset (Waiting route m) rest \<Longrightarrow>
     http_step F s (s\<lparr>hs_metrics := inflight_drop (hs_metrics s), hs_tasks := rest\<rparr>)"
| finish_count: "hs_tasks s = add_mset (Responded r) rest \<Longrightarrow>
     http_step F s (s\<lparr>hs_metrics := count_request (rq_route r) (rq_method r) (rq_status r) (hs_metrics s),
       hs_tasks := add_mset (Counted r) rest, hs_counted := hs_counted s @ [r]\<rparr>)"
| finish_observe: "hs_tasks s = add_mset (Counted r) rest \<Longrightarrow>
     http_step F s (s\<lparr>hs_metrics := observe_latency F (rq_route r) (rq_elapsed r) (hs_metrics s),
       hs_tasks := rest, hs_observed := hs_observed s @ [r]\<rparr>)"

inductive http_reaches :: "'f floats \<Rightarrow> 'f http_state \<Rightarrow> bool" for F where
  http_begin: "http_reaches F http_state_initial"
| http_more: "http_reaches F s \<Longrightarrow> http_step F s s' \<Longrightarrow> http_reaches F s'"

inductive_cases http_stepE: "http_step F s s'"

section \<open>What the figures are\<close>

definition request_key :: "http_request \<Rightarrow> string \<times> string \<times> u16" where
  "request_key r = (rq_route r, normalize_method (rq_method r), rq_status r)"

definition counts_of :: "http_request list \<Rightarrow> (string \<times> string \<times> u16) \<Rightarrow> u64 option" where
  "counts_of rs key =
     (let n = length (filter (\<lambda>r. request_key r = key) rs) in if n = 0 then None else Some (word_of_nat n))"

definition seconds_of :: "'f floats \<Rightarrow> http_request list \<Rightarrow> string \<Rightarrow> 'f list" where
  "seconds_of F rs route = map (\<lambda>r. as_secs_f64 F (rq_elapsed r)) (filter (\<lambda>r. rq_route r = route) rs)"

definition histogram_of :: "'f floats \<Rightarrow> 'f list \<Rightarrow> 'f Histogram" where
  "histogram_of F xs =
     \<lparr>hg_buckets = map (\<lambda>le. word_of_nat (length (filter (\<lambda>x. fl_le F x (fl_of_rat F le)) xs))) LATENCY_BUCKETS,
      hg_count = word_of_nat (length xs), hg_sum = foldl (fl_add F) (fl_of_rat F 0) xs\<rparr>"

definition latencies_of :: "'f floats \<Rightarrow> http_request list \<Rightarrow> string \<Rightarrow> 'f Histogram option" where
  "latencies_of F rs route =
     (let xs = seconds_of F rs route in if xs = [] then None else Some (histogram_of F xs))"

fun task_route :: "http_task \<Rightarrow> string" where
  "task_route (Waiting route m) = route"
| "task_route (Responded r) = rq_route r"
| "task_route (Counted r) = rq_route r"

fun counted_of :: "http_task \<Rightarrow> http_request option" where
  "counted_of (Counted r) = Some r"
| "counted_of _ = None"

fun is_waiting :: "http_task \<Rightarrow> bool" where
  "is_waiting (Waiting route m) = True"
| "is_waiting _ = False"

definition route_labels :: "string set" where
  "route_labels = insert ''unmatched'' (fst ` set app_routes)"

definition accounted :: "'f floats \<Rightarrow> 'f http_state \<Rightarrow> bool" where
  "accounted F s \<longleftrightarrow>
     hm_inflight (hs_metrics s) = word_of_nat (size (filter_mset is_waiting (hs_tasks s)))
     \<and> map_of (hm_requests (hs_metrics s)) = counts_of (hs_counted s)
     \<and> map_of (hm_latency (hs_metrics s)) = latencies_of F (hs_observed s)
     \<and> mset (map Some (hs_counted s))
         = mset (map Some (hs_observed s)) + filter_mset (\<lambda>x. x \<noteq> None) (image_mset counted_of (hs_tasks s))
     \<and> task_route ` set_mset (hs_tasks s) \<subseteq> route_labels \<and> rq_route ` set (hs_counted s) \<subseteq> route_labels
     \<and> rq_route ` set (hs_observed s) \<subseteq> route_labels
     \<and> sorted_wrt (<) (map fst (hm_requests (hs_metrics s))) \<and> sorted_wrt (<) (map fst (hm_latency (hs_metrics s)))"

lemma counts_of_snoc:
  "counts_of (rs @ [r]) = (counts_of rs)(request_key r \<mapsto> (case counts_of rs (request_key r) of Some n \<Rightarrow> n | None \<Rightarrow> 0) + 1)"
  by (auto simp: fun_eq_iff counts_of_def Let_def filter_empty_conv)

lemma count_request_requests:
  "map_of (hm_requests h) = counts_of rs \<Longrightarrow>
     map_of (hm_requests (count_request (rq_route r) (rq_method r) (rq_status r) h)) = counts_of (rs @ [r])"
  by (simp add: count_request_def Let_def counts_of_snoc request_key_def)

lemma observe_histogram: "observe F x (histogram_of F xs) = histogram_of F (xs @ [x])"
  by (simp add: observe_def histogram_of_def LATENCY_BUCKETS_def)

lemma histogram_default_of: "histogram_default F = histogram_of F []"
  by (simp add: histogram_default_def histogram_of_def LATENCY_BUCKETS_def)

lemma seconds_of_snoc:
  "seconds_of F (rs @ [r]) route = seconds_of F rs route @ (if rq_route r = route then [as_secs_f64 F (rq_elapsed r)] else [])"
  by (simp add: seconds_of_def)

lemma observe_latency_histograms:
  "map_of (hm_latency h) = latencies_of F rs \<Longrightarrow>
     map_of (hm_latency (observe_latency F (rq_route r) (rq_elapsed r) h)) = latencies_of F (rs @ [r])"
  by (auto simp: fun_eq_iff observe_latency_def latencies_of_def Let_def seconds_of_snoc observe_histogram histogram_default_of)

end
