(* ===== verification/Exposition.thy ===== *)
theory Exposition
  imports HttpMetrics ApiCore StoreFacts Text
begin

text \<open>
  The text that \<open>GET /metrics\<close> answers with (\<open>metrics\<close> and \<open>process_stats\<close> of
  \<open>nightfrost-api/src/metrics.rs\<close>), group by group: the sync state is read from the store, the rest from
  the process-wide counters. What fjall reports of its files, the files of \<open>/proc\<close> and the version of the
  crate are parameters; only ASCII occurs in \<open>/proc/self/stat\<close>.
\<close>

section \<open>What is read\<close>

record 'f counters =
  ct_blocks_indexed :: Counter
  ct_stage_fetch_nanos :: Counter
  ct_stage_replay_nanos :: Counter
  ct_stage_roots_nanos :: Counter
  ct_stage_persist_nanos :: Counter
  ct_stage_write_nanos :: Counter
  ct_stage_gc_nanos :: Counter
  ct_last_block_indexed_unix_secs :: Gauge
  ct_last_block_chain_unix_secs :: Gauge
  ct_resubscribes :: Counter
  ct_node_reconnects :: Counter
  ct_node_duplicate_blocks :: Counter
  ct_node_stream_errors :: Counter
  ct_tx_submissions_accepted :: Counter
  ct_tx_submissions_rejected :: Counter
  ct_http :: "'f HttpMetrics"

record fjall_stats =
  fj_disk_space :: u64
  fj_partition_disk_space :: "part_id \<Rightarrow> u64"
  fj_partition_segments :: "part_id \<Rightarrow> u64"
  fj_journal_count :: u64
  fj_write_buffer_size :: u64

text \<open>The files of a Linux system; \<open>None\<close> elsewhere.\<close>

record proc_files =
  pf_read :: "string \<Rightarrow> string option"
  pf_entries :: "string \<Rightarrow> nat option"

fun part_name :: "part_id \<Rightarrow> string" where
  "part_name Meta = ''meta''"
| "part_name Blocks = ''blocks''"
| "part_name BlocksByHash = ''blocks_by_hash''"
| "part_name Txs = ''txs''"
| "part_name TxsByHash = ''txs_by_hash''"
| "part_name TxsByIdentifier = ''txs_by_identifier''"
| "part_name Utxos = ''utxos''"
| "part_name UtxosUnspentByOwner = ''utxos_unspent_by_owner''"
| "part_name Balances = ''balances''"
| "part_name AddrTxs = ''addr_txs''"
| "part_name ContractActionsV2 = ''contract_actions_v2''"
| "part_name LegacyContractActions = ''contract_actions''"
| "part_name ContractActionsByAddr = ''contract_actions_by_addr''"
| "part_name ContractStates = ''contract_states''"
| "part_name Contracts = ''contracts''"
| "part_name LedgerEvents = ''ledger_events''"
| "part_name WalletDustEvents = ''wallet_dust_events''"
| "part_name WalletTxIndices = ''wallet_tx_indices''"
| "part_name WalletRelevantTxs = ''wallet_relevant_txs''"
| "part_name WalletScanProgress = ''wallet_scan_progress''"
| "part_name EventsByContract = ''events_by_contract''"
| "part_name DustGeneration = ''dust_generation''"
| "part_name DustGenByOwner = ''dust_gen_by_owner''"
| "part_name CnightRegistrations = ''cnight_registrations''"
| "part_name LedgerDbNodes = ''ledger_db_nodes''"
| "part_name LedgerDbRoots = ''ledger_db_roots''"

definition partitions :: "Store \<Rightarrow> part_id list" where
  "partitions st =
     [Meta, Blocks, BlocksByHash, Txs, TxsByHash, TxsByIdentifier, Utxos, UtxosUnspentByOwner, Balances,
      AddrTxs, contract_actions st, ContractActionsByAddr, ContractStates, Contracts, LedgerEvents,
      WalletDustEvents, WalletTxIndices, WalletRelevantTxs, WalletScanProgress, EventsByContract,
      DustGeneration, DustGenByOwner, CnightRegistrations, LedgerDbNodes, LedgerDbRoots]"

section \<open>Lines\<close>

definition line :: "string \<Rightarrow> string" where
  "line s = s @ [line_feed]"

definition quoted :: "string \<Rightarrow> string" where
  "quoted s = [CHR 0x22] @ s @ [CHR 0x22]"

definition show_u64 :: "u64 \<Rightarrow> string" where
  "show_u64 n = dec_string (unat n)"

definition family :: "string \<Rightarrow> string \<Rightarrow> string \<Rightarrow> string" where
  "family name help kind =
     line (''# HELP '' @ name @ '' '' @ help) @ line (''# TYPE '' @ name @ '' '' @ kind)"

definition gauge :: "'f floats \<Rightarrow> string \<Rightarrow> string \<Rightarrow> 'f \<Rightarrow> string" where
  "gauge F name help v = family name help ''gauge'' @ line (name @ '' '' @ fl_show F v)"

definition counter :: "string \<Rightarrow> string \<Rightarrow> u64 \<Rightarrow> string" where
  "counter name help v = family name help ''counter'' @ line (name @ '' '' @ show_u64 v)"

definition labelled :: "string \<Rightarrow> (string \<times> string) list \<Rightarrow> string" where
  "labelled name labels =
     name @ ''{'' @ concat (map (\<lambda>(i, (k, v)). (if i = 0 then [] else '','') @ k @ ''='' @ quoted v) (enumerate (0 :: nat) labels)) @ ''}''"

section \<open>The groups\<close>

definition height_gauge :: "'f floats \<Rightarrow> u64 option \<Rightarrow> 'f" where
  "height_gauge F h = (case h of Some h \<Rightarrow> fl_of_u64 F h | None \<Rightarrow> fl_of_rat F (-1))"

definition metrics_caught_up :: "u64 option \<Rightarrow> u64 option \<Rightarrow> bool" where
  "metrics_caught_up indexed_height node_height =
     (case (indexed_height, node_height) of (Some i, Some n) \<Rightarrow> saturating_sub n i \<le> 10 | _ \<Rightarrow> False)"

definition sync_text ::
    "'f floats \<Rightarrow> u64 option \<Rightarrow> u64 option \<Rightarrow> u64 \<Rightarrow> u64 \<Rightarrow> u64 \<Rightarrow> string" where
  "sync_text F indexed_height node_height n_txs n_actions n_events =
     gauge F ''nightfrost_indexed_height'' ''Highest block height indexed'' (height_gauge F indexed_height)
     @ gauge F ''nightfrost_node_height'' ''Highest finalized block height seen on the node'' (height_gauge F node_height)
     @ gauge F ''nightfrost_caught_up'' ''1 when the indexer is within 10 blocks of the node tip''
         (fl_of_u64 F (if metrics_caught_up indexed_height node_height then 1 else 0))
     @ gauge F ''nightfrost_transactions_total'' ''Transactions indexed'' (fl_of_u64 F n_txs)
     @ gauge F ''nightfrost_contract_actions_total'' ''Contract actions indexed'' (fl_of_u64 F n_actions)
     @ gauge F ''nightfrost_ledger_events_total'' ''Ledger events indexed'' (fl_of_u64 F n_events)"

definition pipeline_text :: "'f floats \<Rightarrow> 'f counters \<Rightarrow> string" where
  "pipeline_text F c =
     counter ''nightfrost_blocks_indexed_total'' ''Blocks indexed since process start'' (ct_blocks_indexed c)
     @ gauge F ''nightfrost_last_block_indexed_timestamp_seconds''
         ''Wall-clock time the last block finished indexing (unix seconds; 0 before the first)''
         (fl_of_u64 F (ct_last_block_indexed_unix_secs c))
     @ gauge F ''nightfrost_last_block_timestamp_seconds''
         ''Chain timestamp of the last indexed block (unix seconds); time() minus this is the indexing lag''
         (fl_of_u64 F (ct_last_block_chain_unix_secs c))
     @ family ''nightfrost_pipeline_stage_seconds_total'' ''Wall time spent per indexing stage since process start'' ''counter''
     @ concat (map (\<lambda>(stage_name, n).
         line (labelled ''nightfrost_pipeline_stage_seconds_total'' [(''stage'', stage_name)] @ '' ''
           @ fl_show F (fl_div F (fl_of_u64 F n) (fl_of_rat F 1000000000))))
        [(''fetch'', ct_stage_fetch_nanos c), (''replay'', ct_stage_replay_nanos c), (''roots'', ct_stage_roots_nanos c),
         (''persist'', ct_stage_persist_nanos c), (''write'', ct_stage_write_nanos c), (''gc'', ct_stage_gc_nanos c)])
     @ counter ''nightfrost_pipeline_resubscribes_total''
         ''Times the block stream broke parent linkage and the pipeline re-subscribed'' (ct_resubscribes c)"

definition node_text :: "'f counters \<Rightarrow> string" where
  "node_text c =
     counter ''nightfrost_node_reconnects_total'' ''RPC client disconnect-and-reconnect events'' (ct_node_reconnects c)
     @ counter ''nightfrost_node_duplicate_blocks_total'' ''Blocks dropped as duplicates after a reconnect''
         (ct_node_duplicate_blocks c)
     @ counter ''nightfrost_node_stream_errors_total''
         ''Errors the finalized-block stream passed to the pipeline (timeouts, invalid block hash)'' (ct_node_stream_errors c)"

definition submissions_text :: "'f counters \<Rightarrow> string" where
  "submissions_text c =
     family ''nightfrost_tx_submissions_total''
       ''Transactions received on POST /api/v0/tx/submit since process start, by outcome'' ''counter''
     @ line (labelled ''nightfrost_tx_submissions_total'' [(''result'', ''accepted'')] @ '' '' @ show_u64 (ct_tx_submissions_accepted c))
     @ line (labelled ''nightfrost_tx_submissions_total'' [(''result'', ''rejected'')] @ '' '' @ show_u64 (ct_tx_submissions_rejected c))"

definition store_text :: "'f floats \<Rightarrow> fjall_stats \<Rightarrow> Store \<Rightarrow> string" where
  "store_text F j st =
     gauge F ''nightfrost_store_disk_bytes'' ''Disk space used by the fjall keyspace'' (fl_of_u64 F (fj_disk_space j))
     @ family ''nightfrost_store_partition_bytes'' ''Disk space used per fjall partition'' ''gauge''
     @ concat (map (\<lambda>p. line (labelled ''nightfrost_store_partition_bytes'' [(''partition'', part_name p)] @ '' ''
           @ show_u64 (fj_partition_disk_space j p))) (partitions st))
     @ family ''nightfrost_store_partition_segments''
         ''Disk segments per fjall partition; a climbing count with a flat size means compaction is behind'' ''gauge''
     @ concat (map (\<lambda>p. line (labelled ''nightfrost_store_partition_segments'' [(''partition'', part_name p)] @ '' ''
           @ show_u64 (fj_partition_segments j p))) (partitions st))
     @ gauge F ''nightfrost_store_journal_count''
         ''Journal files retained by the keyspace; grows when flushing falls behind writes'' (fl_of_u64 F (fj_journal_count j))
     @ gauge F ''nightfrost_store_write_buffer_bytes''
         (''Bytes in fjall'' @ [CHR 0x27] @ ''s in-memory write buffer awaiting flush'') (fl_of_u64 F (fj_write_buffer_size j))"

definition histogram_text :: "'f floats \<Rightarrow> string \<times> 'f Histogram \<Rightarrow> string" where
  "histogram_text F = (\<lambda>(route, h).
     concat (map (\<lambda>(le, n).
       line (labelled ''nightfrost_http_request_duration_seconds_bucket''
         [(''route'', route), (''le'', fl_show F (fl_of_rat F le))] @ '' '' @ show_u64 n)) (zip LATENCY_BUCKETS (hg_buckets h)))
     @ line (labelled ''nightfrost_http_request_duration_seconds_bucket'' [(''route'', route), (''le'', ''+Inf'')] @ '' ''
         @ show_u64 (hg_count h))
     @ line (labelled ''nightfrost_http_request_duration_seconds_sum'' [(''route'', route)] @ '' '' @ fl_show F (hg_sum h))
     @ line (labelled ''nightfrost_http_request_duration_seconds_count'' [(''route'', route)] @ '' '' @ show_u64 (hg_count h)))"

definition http_text :: "'f floats \<Rightarrow> 'f HttpMetrics \<Rightarrow> string" where
  "http_text F h =
     gauge F ''nightfrost_http_inflight_requests'' ''Requests currently being handled'' (fl_of_u64 F (hm_inflight h))
     @ family ''nightfrost_http_requests_total'' ''Requests handled, by matched route, method and status'' ''counter''
     @ concat (map (\<lambda>((route, m, status), n).
         line (labelled ''nightfrost_http_requests_total''
           [(''route'', route), (''method'', m), (''status'', dec_string (unat status))] @ '' '' @ show_u64 n))
        (hm_requests h))
     @ family ''nightfrost_http_request_duration_seconds'' ''Request latency by matched route'' ''histogram''
     @ concat (map (histogram_text F) (hm_latency h))"

section \<open>The process\<close>

record ProcessStats =
  ps_rss_bytes :: u64
  ps_cpu_seconds :: u64
  ps_threads :: u64
  ps_open_fds :: u64

definition rfind :: "char \<Rightarrow> string \<Rightarrow> nat option" where
  "rfind c s = (if c \<in> set s then Some (length s - 1 - length (takeWhile (\<lambda>d. d \<noteq> c) (rev s))) else None)"

definition field_u64 :: "string list \<Rightarrow> nat \<Rightarrow> u64 option" where
  "field_u64 ws i = (if i < length ws then parse_u64 (ws ! i) else None)"

text \<open>The slice behind the parenthesis panics when the text ends before it.\<close>

definition process_stats :: "proc_files option \<Rightarrow> ApiFailure + ProcessStats option" where
  "process_stats files =
     (case files of
        None \<Rightarrow> Inr None
      | Some f \<Rightarrow>
          (case Option.bind (pf_read f ''/proc/self/stat'') (\<lambda>stat. map_option (Pair stat) (rfind CHR '')'' stat)) of
             None \<Rightarrow> Inr None
           | Some (stat, i) \<Rightarrow>
               if length stat < i + 2 then Inl (ApiPanic ''begin index is out of range'')
               else
                 let pieces = split_whitespace (drop (i + 2) stat)
                 in Inr (
                   Option.bind (field_u64 pieces 11) (\<lambda>utime.
                   Option.bind (field_u64 pieces 12) (\<lambda>stime.
                   Option.bind (field_u64 pieces 17) (\<lambda>threads.
                   Option.bind (pf_read f ''/proc/self/statm'') (\<lambda>statm.
                   Option.bind (field_u64 (split_whitespace statm) 1) (\<lambda>rss_pages.
                   map_option (\<lambda>open_fds.
                     \<lparr>ps_rss_bytes = rss_pages * 4096, ps_cpu_seconds = (utime + stime) div 100, ps_threads = threads,
                      ps_open_fds = word_of_nat open_fds\<rparr>) (pf_entries f ''/proc/self/fd'')))))))))"

definition process_text :: "'f floats \<Rightarrow> string \<Rightarrow> ProcessStats option \<Rightarrow> string" where
  "process_text F version pstats =
     family ''nightfrost_build_info'' ''Build information'' ''gauge''
     @ line (labelled ''nightfrost_build_info'' [(''version'', version)] @ '' 1'')
     @ (case pstats of
          None \<Rightarrow> []
        | Some p \<Rightarrow>
            gauge F ''process_resident_memory_bytes'' ''Resident set size'' (fl_of_u64 F (ps_rss_bytes p))
            @ counter ''process_cpu_seconds_total'' ''User plus system CPU time consumed'' (ps_cpu_seconds p)
            @ gauge F ''process_threads'' ''OS threads in the process'' (fl_of_u64 F (ps_threads p))
            @ gauge F ''process_open_fds'' ''Open file descriptors'' (fl_of_u64 F (ps_open_fds p)))"

section \<open>The answer\<close>

definition metrics ::
    "'f floats \<Rightarrow> string \<Rightarrow> fjall_stats \<Rightarrow> proc_files option \<Rightarrow> 'f counters \<Rightarrow> ApiState \<Rightarrow> ApiFailure + string" where
  "metrics F version j files c s =
     and_then (db (last_indexed_height (ap_store s))) (\<lambda>indexed_height.
     and_then (db (next_id (ap_store s) NEXT_TX_ID)) (\<lambda>n_txs.
     and_then (db (next_id (ap_store s) NEXT_ACTION_ID)) (\<lambda>n_actions.
     and_then (db (next_id (ap_store s) NEXT_EVENT_ID)) (\<lambda>n_events.
     and_then (process_stats files) (\<lambda>pstats.
       Inr (sync_text F indexed_height (ap_highest_block s) n_txs n_actions n_events
         @ pipeline_text F c @ node_text c @ submissions_text c @ store_text F j (ap_store s)
         @ http_text F (ct_http c) @ process_text F version pstats))))))"

section \<open>Agreement with the endpoints\<close>

text \<open>The answer says caught up exactly when \<open>/sync\<close> does, and both report the same heights.\<close>

lemma metrics_agree_sync:
  assumes "sync_status V s = Inr r" and "last_indexed_height (ap_store s) = Inr indexed"
  shows "ss_caught_up (pt_results r) = metrics_caught_up indexed (ap_highest_block s)"
    and "ss_indexed_height (pt_results r) = indexed" and "ss_node_height (pt_results r) = ap_highest_block s"
  using assms by (auto simp: sync_status_def response_def result_simps metrics_caught_up_def Let_def)

lemma metrics_returns:
  assumes "store_ok (ap_store s)" and "process_stats files = Inr pstats"
  shows "\<exists>out. metrics F version j files c s = Inr out"
proof -
  have meta: "\<exists>x. meta_u64 (ap_store s) k = Inr x" if "k \<in> {LAST_HEIGHT, NEXT_TX_ID, NEXT_ACTION_ID, NEXT_EVENT_ID}" for k
    using meta_u64_total [OF assms(1), of k] that by (auto simp: meta_u64_keys_def)
  have nexts: "\<exists>n. next_id (ap_store s) k = Inr n" if k: "k \<in> {NEXT_TX_ID, NEXT_ACTION_ID, NEXT_EVENT_ID}" for k
  proof -
    obtain x where "meta_u64 (ap_store s) k = Inr x" using meta [of k] k by auto
    then show ?thesis by (simp add: next_id_def)
  qed
  obtain h where "last_indexed_height (ap_store s) = Inr h"
    using meta [of LAST_HEIGHT] by (auto simp: last_indexed_height_def)
  moreover obtain a where "next_id (ap_store s) NEXT_TX_ID = Inr a" using nexts [of NEXT_TX_ID] by auto
  moreover obtain b where "next_id (ap_store s) NEXT_ACTION_ID = Inr b" using nexts [of NEXT_ACTION_ID] by auto
  moreover obtain d where "next_id (ap_store s) NEXT_EVENT_ID = Inr d" using nexts [of NEXT_EVENT_ID] by auto
  ultimately show ?thesis using assms(2) by (simp add: metrics_def)
qed

end
