(* ===== verification/CommandLine.thy ===== *)
theory CommandLine
  imports Measure LedgerFacade Snapshot Exposition
begin

text \<open>
  The command line (\<open>nightfrost/src/main.rs\<close>): the dispatch to the snapshot commands, the start of a plain
  run with its maintenance modes up to the point where the pipeline and the server run, and the endpoint
  that submits transactions. A run is a function of the disk it opens; connecting to the node, parsing
  header values, the rotation of memtables and the ledger crates are parameters. Listening, task
  scheduling and signals are not modelled: of the race that ends the process only the result is.
\<close>

section \<open>Snapshots\<close>

datatype snapshot_command =
    SnapshotSave string string
  | SnapshotRestore "string option" string string

text \<open>The ledger treats an empty network id as mainnet.\<close>

fun snapshot_main :: "'w os \<Rightarrow> string \<Rightarrow> snapshot_command \<Rightarrow> ('w, unit) io" where
  "snapshot_main Y network_id (SnapshotSave data_dir output) = save Y data_dir output"
| "snapshot_main Y network_id (SnapshotRestore (Some input) snapshot_url data_dir) =
     restore Y (path_new input) (path_new data_dir)"
| "snapshot_main Y network_id (SnapshotRestore None snapshot_url data_dir) =
     (let network = (if network_id = [] then ''mainnet'' else network_id)
      in restore_published Y snapshot_url network (path_new data_dir))"

section \<open>A plain run\<close>

record run_args =
  ra_network_id :: string
  ra_cursor_secret :: "string option"
  ra_submit_cors_origin :: "string option"
  ra_backfill_contract_events :: bool
  ra_backfill_dust_generation :: bool
  ra_measure_contract_states :: bool
  ra_backfill_contract_states :: bool

record ('s, 't, 'v, 'y) cli_env =
  re_is_uppercase :: "char \<Rightarrow> bool"
  re_sha :: "bytes \<Rightarrow> hash32"
  re_to_hex :: "bytes \<Rightarrow> string"
  re_hash_order :: "(bytes \<times> u64 \<times> u64) list \<Rightarrow> (bytes \<times> u64 \<times> u64) list"
  re_unstick_flushing :: "Store \<Rightarrow> rust_error + unit"
  re_crates :: "('s, 't, 'v, 'y) ledger_crates"
  re_connect :: "rust_error + unit"
  re_header_value :: "string \<Rightarrow> bool"

text \<open>What the pipeline and the server are started with.\<close>

record serving =
  sv_store :: Store
  sv_network_id :: string
  sv_cursor_key :: string
  sv_submit_cors_origin :: "string option"

datatype outcome =
    StatesMigrated ContractStatesCounts
  | StatesMeasured Report
  | EventsBackfilled BackfillCounts
  | DustRebuilt DustBackfillCounts
  | Serving serving

definition wallet_sidecars ::
    "('s, 't, 'v, 'y) cli_env \<Rightarrow> Store \<Rightarrow> Store \<times> (rust_error + WalletSidecarCounts)" where
  "wallet_sidecars V st =
     (case ledger_state_window st of
        Inl e \<Rightarrow> (st, Inl e)
      | Inr window \<Rightarrow>
          if window = [] then backfill_wallet_sidecars st 0
          else
            case ledger_state_load (re_crates V) (fst (last window)) (stored_into (snd (last window))) of
              Inl e \<Rightarrow> (st, Inl (Fail ''load tip ledger state for wallet side-index backfill''))
            | Inr ledger_state \<Rightarrow> backfill_wallet_sidecars st (zswap_first_free (re_crates V) ledger_state))"

definition cursor_key_of :: "run_args \<Rightarrow> string" where
  "cursor_key_of a =
     (case ra_cursor_secret a of
        Some secret \<Rightarrow> secret
      | None \<Rightarrow> ''nightfrost-development-cursor-key:'' @ ra_network_id a)"

definition serve :: "('s, 't, 'v, 'y) cli_env \<Rightarrow> run_args \<Rightarrow> string \<Rightarrow> Store \<Rightarrow> Store \<times> (rust_error + outcome)" where
  "serve V a network_id st =
     (case wallet_sidecars V st of
        (st, Inl e) \<Rightarrow> (st, Inl e)
      | (st, Inr _) \<Rightarrow>
          (st, and_then (re_connect V) (\<lambda>_.
               and_then (ensure (\<forall>origin \<in> set_option (ra_submit_cors_origin a). re_header_value V origin)
                   (Fail ''parse NIGHTFROST_SUBMIT_CORS_ORIGIN'')) (\<lambda>_.
                 Inr (Serving \<lparr>sv_store = st, sv_network_id = network_id, sv_cursor_key = cursor_key_of a,
                   sv_submit_cors_origin = ra_submit_cors_origin a\<rparr>)))))"

definition run_opened ::
    "('s, 't, 'v, 'y) cli_env \<Rightarrow> run_args \<Rightarrow> string \<Rightarrow> Store \<Rightarrow> Store \<times> (rust_error + outcome)" where
  "run_opened V a network_id st =
     (case re_unstick_flushing V st of
        Inl e \<Rightarrow> (st, Inl e)
      | Inr _ \<Rightarrow>
     if ra_backfill_contract_states a then
       map_prod id (\<lambda>r. and_then r (\<lambda>counts. Inr (StatesMigrated counts))) (backfill_contract_states (re_sha V) st)
     else if ra_measure_contract_states a then
       (st, and_then (ensure (schema st < SCHEMA_CURRENT) (Fail ''store already migrated; nothing to measure'')) (\<lambda>_.
            and_then (measure_contract_states (re_sha V) (re_to_hex V) (re_hash_order V) st) (\<lambda>report.
              Inr (StatesMeasured report))))
     else
     case require_current_schema st of
       Inl e \<Rightarrow> (st, Inl e)
     | Inr _ \<Rightarrow>
     if ra_backfill_contract_events a then
       map_prod id (\<lambda>r. and_then r (\<lambda>counts. Inr (EventsBackfilled counts))) (backfill_contract_events st)
     else if ra_backfill_dust_generation a then
       map_prod id (\<lambda>r. and_then r (\<lambda>counts. Inr (DustRebuilt counts))) (backfill_dust_generation st)
     else serve V a network_id st)"

text \<open>The disk that is left, and what the run came to.\<close>

definition run_command :: "('s, 't, 'v, 'y) cli_env \<Rightarrow> run_args \<Rightarrow> Disk \<Rightarrow> Disk \<times> (rust_error + outcome)" where
  "run_command V a d =
     (case network_id_try_from (re_is_uppercase V) (ra_network_id a) of
        Inl _ \<Rightarrow> (d, Inl (Fail ''invalid network id (must be non-empty lowercase)''))
      | Inr network_id \<Rightarrow>
          (case store_open d of
             Inl e \<Rightarrow> (d, Inl e)
           | Inr st \<Rightarrow> map_prod disk id (run_opened V a network_id st)))"

text \<open>The race that ends a serving process: the first task to finish decides; the indexer may have panicked.\<close>

datatype finished =
    IndexerPanicked
  | IndexerFinished "rust_error + unit"
  | ApiFinished "rust_error + unit"
  | MetricsFinished "rust_error + unit"
  | Interrupted

fun run_result :: "finished \<Rightarrow> rust_error + unit" where
  "run_result IndexerPanicked = Inl (Fail ''indexer panicked'')"
| "run_result (IndexerFinished r) = map_err (\<lambda>_. Fail ''indexer failed'') r"
| "run_result (ApiFinished r) = map_err (\<lambda>_. Fail ''api failed'') r"
| "run_result (MetricsFinished r) = r"
| "run_result Interrupted = Inr ()"

section \<open>Submitting a transaction\<close>

text \<open>\<open>content_type\<close> is the value of the header when it is visible ASCII; \<open>const_hex::decode\<close> is a parameter.\<close>

definition submit_body :: "(string \<Rightarrow> bytes option) \<Rightarrow> string option \<Rightarrow> bytes \<Rightarrow> ApiError + bytes" where
  "submit_body from_hex content_type body =
     (let is_binary = (case content_type of
          Some v \<Rightarrow> str_starts_with v ''application/octet-stream'' | None \<Rightarrow> False)
      in if is_binary then Inr body
         else
           and_then (ok_or (bad_request ''expected hex body (or Content-Type: application/octet-stream for raw bytes)'')
               (from_utf8 body)) (\<lambda>t.
             let t = str_trim t;
                 t = (case str_strip_prefix ''0x'' t of Some rest \<Rightarrow> rest | None \<Rightarrow> t)
             in ok_or (bad_request ''invalid hex body'') (from_hex t)))"

definition submit_tx ::
    "(string \<Rightarrow> bytes option) \<Rightarrow> (bytes \<Rightarrow> string) \<Rightarrow> (bytes \<Rightarrow> rust_error + hash32) \<Rightarrow> string option \<Rightarrow> bytes
       \<Rightarrow> 'f counters \<Rightarrow> 'f counters \<times> (ApiError + string)" where
  "submit_tx from_hex to_hex submit_transaction content_type body c =
     (let rejected = c\<lparr>ct_tx_submissions_rejected := counter_inc (ct_tx_submissions_rejected c)\<rparr>
      in case submit_body from_hex content_type body of
           Inl e \<Rightarrow> (rejected, Inl e)
         | Inr raw \<Rightarrow>
             (case submit_transaction raw of
                Inl e \<Rightarrow> (rejected, Inl (bad_request ''submission failed''))
              | Inr hash \<Rightarrow>
                  (c\<lparr>ct_tx_submissions_accepted := counter_inc (ct_tx_submissions_accepted c)\<rparr>,
                   Inr (to_hex (hash_bytes hash)))))"

end
