(* ===== verification/ConfigFile.thy ===== *)
theory ConfigFile
  imports Text
begin

text \<open>
  The configuration file: \<open>nightfrost init\<close>, which asks for the settings and writes the file
  (\<open>nightfrost/src/init.rs\<close>), and the reader that turns its lines into defaults of the environment
  (\<open>nightfrost/src/config.rs\<close>). The environment and the files are maps from names to texts; standard
  input is the list of its remaining lines, \<open>None\<close> one that cannot be read. What is printed is left
  out. The answers written by the dialogue are the settings read back.
\<close>

section \<open>Reading the file\<close>

type_synonym environment = "string \<rightharpoonup> string"

definition env_var_name :: "string \<Rightarrow> string option" where
  "env_var_name key = map_of
     [(''node_url'', ''NIGHTFROST_NODE_URL''), (''network_id'', ''NIGHTFROST_NETWORK_ID''),
      (''data_dir'', ''NIGHTFROST_DATA_DIR''), (''listen'', ''NIGHTFROST_LISTEN''),
      (''metrics_listen'', ''NIGHTFROST_METRICS_LISTEN''),
      (''submit_cors_origin'', ''NIGHTFROST_SUBMIT_CORS_ORIGIN''),
      (''cursor_secret'', ''NIGHTFROST_CURSOR_SECRET'')] key"

text \<open>\<open>std::env::set_var\<close> panics on a value with a NUL byte; the keys are constants.\<close>

definition set_var :: "string \<Rightarrow> string \<Rightarrow> environment \<Rightarrow> rust_error + environment" where
  "set_var env_key v env =
     (if CHR 0x00 \<in> set v then Inl (Panic ''failed to set environment variable'') else Inr (env(env_key \<mapsto> v)))"

definition apply_line :: "environment \<Rightarrow> string \<Rightarrow> rust_error + environment" where
  "apply_line env text =
     (let line = str_trim text
      in if line = [] \<or> str_starts_with line ''#'' then Inr env
         else case split_once CHR ''='' line of
           None \<Rightarrow> Inr env
         | Some (key, v) \<Rightarrow>
             (case env_var_name (str_trim key) of
                None \<Rightarrow> Inr env
              | Some env_key \<Rightarrow>
                  (if env env_key = None then set_var env_key (trim_matches CHR 0x22 (str_trim v)) env
                   else Inr env)))"

definition apply_env_defaults :: "string option \<Rightarrow> environment \<Rightarrow> rust_error + environment" where
  "apply_env_defaults file_text env =
     (case file_text of
        None \<Rightarrow> Inr env
      | Some text \<Rightarrow> try_fold apply_line env (str_lines text))"

section \<open>The dialogue\<close>

type_synonym stdin = "string option list"

definition read_line :: "stdin \<Rightarrow> rust_error + string \<times> stdin" where
  "read_line stdin =
     (case stdin of
        [] \<Rightarrow> Inr ([], [])
      | Some line # rest \<Rightarrow> Inr (line, rest)
      | None # _ \<Rightarrow> Inl (Fail ''read stdin''))"

definition prompt :: "string \<Rightarrow> stdin \<Rightarrow> rust_error + string \<times> stdin" where
  "prompt dflt stdin =
     and_then (read_line stdin) (\<lambda>(line, rest).
       let line = str_trim line in Inr (if line = [] then dflt else line, rest))"

partial_function (option) prompt_choice ::
    "string list \<Rightarrow> string \<Rightarrow> stdin \<Rightarrow> (rust_error + string \<times> stdin) option" where
  "prompt_choice choices dflt stdin =
     (case prompt dflt stdin of
        Inl e \<Rightarrow> Some (Inl e)
      | Inr answer_rest \<Rightarrow>
          (if fst answer_rest \<in> set choices then Some (Inr answer_rest)
           else prompt_choice choices dflt (snd answer_rest)))"

text \<open>The encoder of bytes as hex, the 32 bytes of \<open>/dev/urandom\<close> if they can be read, and whether the
  file can be written.\<close>

record init_env =
  ie_hex_encode :: "bytes \<Rightarrow> string"
  ie_urandom :: "bytes option"
  ie_writable :: bool

record init_answers =
  ia_network :: string
  ia_node_url :: string
  ia_data_dir :: string
  ia_listen :: string
  ia_metrics_listen :: string
  ia_cursor_secret :: string

definition generate_secret :: "init_env \<Rightarrow> rust_error + string" where
  "generate_secret V = and_then (ok_or (Fail ''read /dev/urandom'') (ie_urandom V)) (\<lambda>buf. Inr (ie_hex_encode V buf))"

definition networks :: "string list" where
  "networks = [''preview'', ''preprod'', ''mainnet'']"

definition ask_rest :: "init_env \<Rightarrow> string \<Rightarrow> stdin \<Rightarrow> rust_error + init_answers" where
  "ask_rest V network stdin =
     and_then (prompt (''wss://rpc.'' @ network @ ''.midnight.network'') stdin) (\<lambda>(node_url, stdin).
     and_then (prompt (''./data-'' @ network) stdin) (\<lambda>(data_dir, stdin).
     and_then (prompt ''127.0.0.1:3000'' stdin) (\<lambda>(listen, stdin).
     and_then (prompt [] stdin) (\<lambda>(metrics_listen, stdin).
     and_then (prompt [] stdin) (\<lambda>(cursor_secret, stdin).
     and_then (if cursor_secret = [] then generate_secret V else Inr cursor_secret) (\<lambda>cursor_secret.
       Inr \<lparr>ia_network = network, ia_node_url = node_url, ia_data_dir = data_dir, ia_listen = listen,
         ia_metrics_listen = metrics_listen, ia_cursor_secret = cursor_secret\<rparr>))))))"

definition setting :: "string \<Rightarrow> string \<Rightarrow> string" where
  "setting key v = key @ '' = '' @ [CHR 0x22] @ v @ [CHR 0x22]"

definition config_lines :: "init_answers \<Rightarrow> string list" where
  "config_lines a =
     [setting ''network_id'' (ia_network a), setting ''node_url'' (ia_node_url a),
      setting ''data_dir'' (ia_data_dir a), setting ''listen'' (ia_listen a),
      setting ''cursor_secret'' (ia_cursor_secret a)]
     @ (if ia_metrics_listen a \<noteq> [] then [setting ''metrics_listen'' (ia_metrics_listen a)] else [])"

definition config_contents :: "init_answers \<Rightarrow> string" where
  "config_contents a = concat (map (\<lambda>l. l @ [line_feed]) (config_lines a))"

definition init_run ::
    "init_env \<Rightarrow> string \<Rightarrow> bool \<Rightarrow> (string \<rightharpoonup> string) \<Rightarrow> stdin \<Rightarrow> (rust_error + (string \<rightharpoonup> string)) option" where
  "init_run V config_path force files stdin =
     (if \<not> (force \<or> files config_path = None) then Some (Inl (Fail (config_path @ '' already exists'')))
      else case prompt_choice networks ''preview'' stdin of
        None \<Rightarrow> None
      | Some r \<Rightarrow> Some (
          and_then r (\<lambda>(network, stdin).
          and_then (ask_rest V network stdin) (\<lambda>answers.
          if ie_writable V then Inr (files(config_path \<mapsto> config_contents answers))
          else Inl (Fail (''write '' @ config_path))))))"

section \<open>Quoted settings\<close>

lemma white_space_heads:
  "hd ` set white_space = {CHR 0x09, CHR 0x0A, CHR 0x0B, CHR 0x0C, CHR 0x0D, CHR '' '', CHR 0xC2, CHR 0xE1, CHR 0xE2, CHR 0xE3}"
  "[] \<notin> set white_space"
  by code_simp+

lemma white_space_lasts: "hd ` set (map rev white_space) \<inter> {CHR 0x22} = {}" "[] \<notin> set (map rev white_space)"
  by code_simp+

lemma white_space_single: "w \<in> set white_space \<Longrightarrow> hd w = CHR '' '' \<Longrightarrow> w = '' ''"
proof -
  have "list_all (\<lambda>w. hd w = CHR '' '' \<longrightarrow> w = '' '') white_space" by code_simp
  then show "w \<in> set white_space \<Longrightarrow> hd w = CHR '' '' \<Longrightarrow> w = '' ''" by (simp add: list_all_iff)
qed

lemma strip_leading_head:
  assumes "c \<notin> hd ` set ws" and "[] \<notin> set ws"
  shows "strip_leading ws (c # s) = c # s"
proof (rule strip_leading_id)
  fix w assume w: "w \<in> set ws"
  then show "w = [] \<or> take (length w) (c # s) \<noteq> w"
    using assms by (cases w rule: list.exhaust) (force simp: image_iff)+
qed

lemma strip_space: "strip_leading white_space (CHR '' '' # s) = strip_leading white_space s"
proof -
  obtain w where w: "find (\<lambda>w. w \<noteq> [] \<and> take (length w) (CHR '' '' # s) = w) white_space = Some w"
  proof (cases "find (\<lambda>w. w \<noteq> [] \<and> take (length w) (CHR '' '' # s) = w) white_space")
    case None
    moreover have "'' '' \<in> set white_space" by code_simp
    ultimately show ?thesis by (auto simp: find_None_iff)
  qed
  then have "w \<in> set white_space" "w \<noteq> []" "take (length w) (CHR '' '' # s) = w"
    by (auto simp: find_Some_iff)
  moreover from this have "hd w = CHR '' ''" by (cases w rule: list.exhaust) auto
  ultimately have "w = '' ''" using white_space_single by blast
  then show ?thesis using w by (simp add: strip_leading.simps [of white_space "CHR '' '' # s"])
qed

text \<open>A text that begins and ends with characters of no white space, quotes for instance, is trimmed.\<close>

lemma trim_ends:
  assumes "c \<notin> hd ` set white_space" and "d \<notin> hd ` set (map rev white_space)"
  shows "str_trim (c # s @ [d]) = c # s @ [d]"
  using assms white_space_heads(2) white_space_lasts(2)
  by (simp add: str_trim_def str_trim_end_def strip_leading_head)

lemma trim_matches_quoted:
  assumes "q \<notin> set v"
  shows "trim_matches q (q # v @ [q]) = v"
proof -
  have first: "strip_leading [[q]] (q # s) = strip_leading [[q]] s" for s
    by (simp add: strip_leading.simps [of "[[q]]" "q # s"])
  have keep: "strip_leading [[q]] s = s" if "s = [] \<or> hd s \<noteq> q" for s
    using that by (intro strip_leading_id) (cases s, auto)
  have "strip_leading [[q]] (v @ [q]) = (if v = [] then [] else v @ [q])"
    using assms by (cases v) (auto simp: first keep)
  moreover have "strip_leading [[q]] (q # rev v) = rev v"
    using assms by (subst first, intro keep) (cases v rule: rev_cases, auto)
  ultimately show ?thesis by (auto simp: trim_matches_def str_trim_end_def first keep)
qed

lemma apply_setting:
  assumes key: "CHR ''='' \<notin> set key" "str_trim (key @ '' '') = key" "env_var_name key = Some k"
    and head: "key = c # key'" "c \<notin> hd ` set white_space" "c \<noteq> CHR ''#''"
    and v: "CHR 0x22 \<notin> set v" "CHR 0x00 \<notin> set v"
  shows "apply_line env (setting key v) = Inr (if env k = None then env(k \<mapsto> v) else env)"
proof -
  let ?q = "CHR 0x22"
  have q: "?q \<notin> hd ` set white_space" "?q \<notin> hd ` set (map rev white_space)"
    using white_space_heads(1) white_space_lasts(1) by auto
  have line: "str_trim (setting key v) = setting key v"
    using trim_ends [OF head(2) q(2), of "key' @ '' = '' @ [?q] @ v"] by (simp add: setting_def head(1))
  have parts: "split_once CHR ''='' (setting key v) = Some (key @ '' '', '' '' @ [?q] @ v @ [?q])"
    using split_once_append [of "CHR ''=''" "key @ '' ''" "'' '' @ [?q] @ v @ [?q]"] key(1)
    by (simp add: setting_def)
  have "str_trim ('' '' @ [?q] @ v @ [?q]) = str_trim (?q # v @ [?q])"
    by (simp add: str_trim_def strip_space)
  then have val: "trim_matches ?q (str_trim ('' '' @ [?q] @ v @ [?q])) = v"
    using trim_ends [OF q, of v] trim_matches_quoted [OF v(1)] by simp
  have start: "setting key v \<noteq> []" "\<not> str_starts_with (setting key v) ''#''"
    using head(1,3) by (simp_all add: setting_def str_starts_with_def)
  show ?thesis
    using start key(2,3) v(2) val by (simp add: apply_line_def line parts set_var_def)
qed

section \<open>The settings read back\<close>

definition known_key :: "string \<Rightarrow> bool" where
  "known_key key \<longleftrightarrow> CHR ''='' \<notin> set key \<and> str_trim (key @ '' '') = key \<and> env_var_name key \<noteq> None
     \<and> key \<noteq> [] \<and> hd key \<notin> hd ` set white_space \<and> hd key \<noteq> CHR ''#''
     \<and> line_feed \<notin> set key"

lemma known_keys:
  "known_key ''network_id''" "known_key ''node_url''" "known_key ''data_dir''" "known_key ''listen''"
  "known_key ''cursor_secret''" "known_key ''metrics_listen''"
  by code_simp+

definition plain_text :: "string \<Rightarrow> bool" where
  "plain_text v \<longleftrightarrow> CHR 0x22 \<notin> set v \<and> CHR 0x00 \<notin> set v \<and> line_feed \<notin> set v"

definition settings :: "init_answers \<Rightarrow> (string \<times> string) list" where
  "settings a =
     [(''network_id'', ia_network a), (''node_url'', ia_node_url a), (''data_dir'', ia_data_dir a),
      (''listen'', ia_listen a), (''cursor_secret'', ia_cursor_secret a)]
     @ (if ia_metrics_listen a \<noteq> [] then [(''metrics_listen'', ia_metrics_listen a)] else [])"

lemma config_lines_settings: "config_lines a = map (\<lambda>(key, v). setting key v) (settings a)"
  by (simp add: config_lines_def settings_def)

text \<open>What the settings stand for: a variable of the environment each.\<close>

definition configured :: "init_answers \<Rightarrow> environment" where
  "configured a = map_of (map (\<lambda>(key, v). (the (env_var_name key), v)) (settings a))"

lemma apply_known:
  assumes "known_key key" and "plain_text v"
  shows "apply_line env (setting key v) = Inr ([the (env_var_name key) \<mapsto> v] ++ env)"
proof -
  obtain c key' where "key = c # key'" using assms(1) by (cases key) (auto simp: known_key_def)
  moreover obtain k where "env_var_name key = Some k" using assms(1) by (auto simp: known_key_def)
  ultimately have "apply_line env (setting key v) = Inr (if env k = None then env(k \<mapsto> v) else env)"
    using assms by (intro apply_setting) (auto simp: known_key_def plain_text_def)
  moreover have "(if env k = None then env(k \<mapsto> v) else env) = [k \<mapsto> v] ++ env"
    by (auto simp: fun_eq_iff map_add_def split: option.splits)
  ultimately show ?thesis using \<open>env_var_name key = Some k\<close> by simp
qed

lemma apply_settings:
  "\<forall>(key, v) \<in> set kvs. known_key key \<and> plain_text v \<Longrightarrow>
     try_fold apply_line env (map (\<lambda>(key, v). setting key v) kvs)
       = Inr (map_of (map (\<lambda>(key, v). (the (env_var_name key), v)) kvs) ++ env)"
proof (induction kvs arbitrary: env)
  case (Cons kv kvs)
  obtain key v where kv: "kv = (key, v)" by (cases kv)
  then have "try_fold apply_line env (map (\<lambda>(key, v). setting key v) (kv # kvs))
      = Inr (map_of (map (\<lambda>(key, v). (the (env_var_name key), v)) kvs) ++ ([the (env_var_name key) \<mapsto> v] ++ env))"
    using Cons by (auto simp: apply_known)
  then show ?case using kv by (simp add: fun_eq_iff map_add_def split: option.splits)
qed simp

lemma contents_applied:
  assumes "\<forall>(key, v) \<in> set (settings a). plain_text v"
  shows "apply_env_defaults (Some (config_contents a)) env = Inr (configured a ++ env)"
proof -
  have ok: "\<forall>(key, v) \<in> set (settings a). known_key key \<and> plain_text v"
    using assms known_keys by (auto simp: settings_def)
  have "line_feed \<notin> set (setting key v) \<and> strip_cr (setting key v) = setting key v"
    if "(key, v) \<in> set (settings a)" for key v
    using ok that by (auto simp: setting_def known_key_def plain_text_def strip_cr_def line_feed_def)
  then have "str_lines (config_contents a) = config_lines a"
    unfolding config_contents_def by (intro str_lines_concat) (auto simp: config_lines_settings)
  then show ?thesis using apply_settings [OF ok] by (simp add: apply_env_defaults_def config_lines_settings configured_def)
qed

section \<open>The dialogue ends with plain answers\<close>

text \<open>Lines as they are typed: the line feed is at the end, and there are no quotes and NUL bytes.\<close>

definition plain_input :: "stdin \<Rightarrow> bool" where
  "plain_input stdin \<longleftrightarrow>
     (\<forall>t. Some t \<in> set stdin \<longrightarrow> CHR 0x22 \<notin> set t \<and> CHR 0x00 \<notin> set t \<and> line_feed \<notin> set (butlast t))"

lemma trimmed_plain:
  assumes "CHR 0x22 \<notin> set t" and "CHR 0x00 \<notin> set t" and "line_feed \<notin> set (butlast t)"
  shows "plain_text (str_trim t)"
proof -
  obtain pre post where t: "t = pre @ str_trim t @ post" using str_trim_infix by blast
  have "line_feed \<notin> set (str_trim t)"
  proof
    assume lf: "line_feed \<in> set (str_trim t)"
    then have ne: "str_trim t \<noteq> []" by auto
    have "line_feed \<notin> set (butlast (pre @ str_trim t @ post))" using assms(3) t by simp
    then have "post = []" "line_feed \<notin> set (butlast (str_trim t))"
      using lf ne by (auto simp: butlast_append split: if_splits)
    then have "line_feed = last (str_trim t)"
      using lf ne by (metis append_butlast_last_id rotate1.simps(2) set_ConsD set_rotate1)
    moreover have "[line_feed] \<in> set white_space" by (simp add: white_space_def line_feed_def)
    ultimately show False using str_trim_last ne by metis
  qed
  then show ?thesis using assms str_trim_subset [of t] by (auto simp: plain_text_def)
qed

lemma prompt_plain:
  assumes "plain_input stdin" and "plain_text dflt" and "prompt dflt stdin = Inr (answer, rest)"
  shows "plain_text answer \<and> plain_input rest"
proof (cases stdin)
  case Nil
  then show ?thesis
    using assms by (simp add: prompt_def read_line_def Let_def plain_input_def)
next
  case (Cons l ls)
  with assms(3) obtain t where t: "l = Some t" "answer = (if str_trim t = [] then dflt else str_trim t)" "rest = ls"
    by (auto simp: prompt_def read_line_def Let_def split: option.splits)
  then show ?thesis using assms(1,2) Cons trimmed_plain [of t] by (auto simp: plain_input_def)
qed

text \<open>At the end of the input the answer is the default, which is one of the choices.\<close>

lemma prompt_choice_ends:
  assumes "dflt \<in> set choices" and "\<forall>c \<in> set choices. plain_text c" and "plain_input stdin"
  shows "\<exists>r. prompt_choice choices dflt stdin = Some r
    \<and> (\<forall>answer rest. r = Inr (answer, rest) \<longrightarrow> answer \<in> set choices \<and> plain_input rest)"
  using assms(3)
proof (induction stdin)
  case Nil
  have "prompt dflt [] = Inr (dflt, [])" by (simp add: prompt_def read_line_def)
  then have "prompt_choice choices dflt [] = Some (Inr (dflt, []))"
    using assms(1) by (subst prompt_choice.simps) simp
  then show ?case using assms(1) Nil by simp
next
  case (Cons l ls)
  then have "plain_input ls" by (simp add: plain_input_def)
  with Cons.IH show ?case
    by (subst prompt_choice.simps) (cases l, auto simp: prompt_def read_line_def Let_def)
qed

lemma ask_rest_plain:
  assumes "plain_input stdin" and "plain_text network" and "\<forall>bs. plain_text (ie_hex_encode V bs)"
    and "ask_rest V network stdin = Inr a"
  shows "ia_network a = network \<and> (\<forall>(key, v) \<in> set (settings a). plain_text v)"
proof -
  have dflt: "plain_text (''wss://rpc.'' @ network @ ''.midnight.network'')" "plain_text (''./data-'' @ network)"
    "plain_text ''127.0.0.1:3000''" "plain_text []"
    using assms(2) by (auto simp: plain_text_def line_feed_def)
  from assms(4) obtain n s1 d s2 l s3 m s4 c s5 c' where
    q: "prompt (''wss://rpc.'' @ network @ ''.midnight.network'') stdin = Inr (n, s1)"
      "prompt (''./data-'' @ network) s1 = Inr (d, s2)" "prompt ''127.0.0.1:3000'' s2 = Inr (l, s3)"
      "prompt [] s3 = Inr (m, s4)" "prompt [] s4 = Inr (c, s5)"
      "(if c = [] then generate_secret V else Inr c) = Inr c'"
      "a = \<lparr>ia_network = network, ia_node_url = n, ia_data_dir = d, ia_listen = l, ia_metrics_listen = m, ia_cursor_secret = c'\<rparr>"
    by (auto simp: ask_rest_def result_simps)
  note p1 = prompt_plain [OF assms(1) dflt(1) q(1)]
  note p2 = prompt_plain [OF conjunct2 [OF p1] dflt(2) q(2)]
  note p3 = prompt_plain [OF conjunct2 [OF p2] dflt(3) q(3)]
  note p4 = prompt_plain [OF conjunct2 [OF p3] dflt(4) q(4)]
  note p5 = prompt_plain [OF conjunct2 [OF p4] dflt(4) q(5)]
  have "plain_text c'"
    using q(6) p5 assms(3) by (auto simp: generate_secret_def result_simps split: if_splits)
  then show ?thesis using p1 p2 p3 p4 q(7) assms(2) by (auto simp: settings_def)
qed


text \<open>A run in which only the node URL is given, the network is asked for again and the rest is the default.\<close>

definition demo_init_env :: init_env where
  "demo_init_env = \<lparr>ie_hex_encode = (\<lambda>bs. replicate (length bs) CHR ''a''), ie_urandom = Some [1, 2], ie_writable = True\<rparr>"


end
