(* ===== verification/CommandFacts.thy ===== *)
theory CommandFacts
  imports CommandLine ConfigFile BackfillProps LedgerFacadeFacts
begin

text \<open>
  What a start of the program guarantees: current-schema records are decoded only on a store of the
  current schema, a start that is refused leaves the store as it was opened, and a completed migration
  lets the next start pass. Each submission is counted once and passes on the bytes the body denotes.
\<close>

section \<open>The gate of a start\<close>

definition plain_start :: "run_args \<Rightarrow> bool" where
  "plain_start a \<longleftrightarrow> \<not> ra_backfill_contract_events a \<and> \<not> ra_backfill_dust_generation a
     \<and> \<not> ra_measure_contract_states a \<and> \<not> ra_backfill_contract_states a"

lemma serve_outcome: "snd (serve V a n st) = Inr o' \<Longrightarrow> \<exists>sv. o' = Serving sv"
  by (auto simp: serve_def result_simps split: prod.splits sum.splits)

lemma require_current: "require_current_schema st = Inr u \<longleftrightarrow> schema st = SCHEMA_CURRENT"
  by (auto simp: require_current_schema_def)

lemma run_opened_outcome:
  assumes "snd (run_opened V a n st) = Inr o'"
  shows "case o' of
       Serving sv \<Rightarrow> schema st = SCHEMA_CURRENT \<and> plain_start a
     | EventsBackfilled c \<Rightarrow> schema st = SCHEMA_CURRENT \<and> ra_backfill_contract_events a
     | DustRebuilt c \<Rightarrow> schema st = SCHEMA_CURRENT \<and> ra_backfill_dust_generation a
     | StatesMeasured r \<Rightarrow> schema st < SCHEMA_CURRENT \<and> fst (run_opened V a n st) = st
     | StatesMigrated c \<Rightarrow> ra_backfill_contract_states a"
  using assms
  by (auto simp: run_opened_def result_simps require_current plain_start_def ensure_def split: sum.splits if_splits
      dest: serve_outcome)


section \<open>Submissions\<close>

text \<open>Hex as \<open>const_hex::decode\<close> reads it: also behind a prefix \<open>0x\<close>.\<close>

definition hex_codec :: "(bytes \<Rightarrow> string) \<Rightarrow> (string \<Rightarrow> bytes option) \<Rightarrow> bool" where
  "hex_codec to_hex from_hex \<longleftrightarrow>
     (\<forall>bs. from_hex (to_hex bs) = Some bs \<and> list_all (\<lambda>c. c \<in> set ''0123456789abcdef'') (to_hex bs))"

lemma hex_chars:
  assumes "c \<in> set ''0123456789abcdef''"
  shows "c \<notin> hd ` set white_space" "c \<notin> hd ` set (map rev white_space)" "of_char c < (128 :: nat)" "c \<noteq> CHR ''x''"
proof -
  have "list_all (\<lambda>c. c \<notin> set (map hd white_space) \<and> c \<notin> set (map (\<lambda>w. hd (rev w)) white_space) \<and> of_char c < (128 :: nat)
      \<and> c \<noteq> CHR ''x'') ''0123456789abcdef''"
    by (simp add: white_space_def)
  with assms have "c \<notin> set (map hd white_space) \<and> c \<notin> set (map (\<lambda>w. hd (rev w)) white_space)
      \<and> of_char c < (128 :: nat) \<and> c \<noteq> CHR ''x''"
    by (simp only: list_all_iff) blast
  then show "c \<notin> hd ` set white_space" "c \<notin> hd ` set (map rev white_space)" "of_char c < (128 :: nat)" "c \<noteq> CHR ''x''"
    by (auto simp: image_image)
qed

lemma trim_hex:
  assumes "list_all (\<lambda>c. c \<in> set ''0123456789abcdef'') s"
  shows "str_trim s = s"
proof -
  have "strip_leading ws t = t" if "set t \<subseteq> set s" "\<And>c. c \<in> set s \<Longrightarrow> c \<notin> hd ` set ws" "[] \<notin> set ws" for ws t
    using that strip_leading_subset [of ws "[]"] by (cases t) (auto simp: strip_leading_head)
  from this [of s white_space] this [of "rev s" "map rev white_space"] show ?thesis
    using assms white_space_heads(2) white_space_lasts(2) hex_chars
    unfolding list_all_iff str_trim_def str_trim_end_def by simp
qed

text \<open>The body in either form denotes the bytes, also with white space around the text and a prefix.\<close>

lemma submit_body_denotes:
  assumes "hex_codec to_hex from_hex"
  shows "submit_body from_hex (Some (''application/octet-stream'' @ rest)) raw = Inr raw"
    and "submit_body from_hex None (as_bytes (to_hex raw)) = Inr raw"
    and "submit_body from_hex None (as_bytes (''0x'' @ to_hex raw)) = Inr raw"
proof -
  let ?h = "to_hex raw"
  have h: "from_hex ?h = Some raw" "list_all (\<lambda>c. c \<in> set ''0123456789abcdef'') ?h"
    using assms by (simp_all add: hex_codec_def)
  then have ascii: "list_all (\<lambda>c. of_char c < (128 :: nat)) ?h" unfolding list_all_iff using hex_chars(3) by blast
  show "submit_body from_hex (Some (''application/octet-stream'' @ rest)) raw = Inr raw"
    by (simp add: submit_body_def str_starts_with_def)
  have no_prefix: "str_strip_prefix ''0x'' ?h = None"
  proof (rule ccontr)
    assume "str_strip_prefix ''0x'' ?h \<noteq> None"
    then have "take 2 ?h = ''0x''" by (auto simp: str_strip_prefix_def numeral_2_eq_2 split: if_splits)
    then have "CHR ''x'' \<in> set ?h" by (metis in_set_takeD list.set_intros)
    then show False using h(2) hex_chars(4) unfolding list_all_iff by blast
  qed
  show "submit_body from_hex None (as_bytes ?h) = Inr raw"
    using ascii_utf8 [OF ascii] trim_hex [OF h(2)] no_prefix h(1) by (simp add: submit_body_def)
  have "from_utf8 (as_bytes (''0x'' @ ?h)) = Some (''0x'' @ ?h)" using ascii by (intro ascii_utf8) simp
  moreover have "str_trim (''0x'' @ ?h) = ''0x'' @ ?h"
  proof -
    have zero: "CHR ''0'' \<notin> hd ` set white_space" by (rule hex_chars) simp
    show ?thesis
    proof (cases ?h rule: rev_cases)
      case Nil
      have "CHR ''x'' \<notin> hd ` set (map rev white_space)" by (simp add: white_space_def)
      then show ?thesis using trim_ends [OF zero, of "CHR ''x''" "[]"] Nil by simp
    next
      case (snoc hs c)
      then have "c \<notin> hd ` set (map rev white_space)" using h(2) by (intro hex_chars) (simp add: list_all_iff)
      then show ?thesis using trim_ends [OF zero, of c "CHR ''x'' # hs"] snoc by simp
    qed
  qed
  ultimately show "submit_body from_hex None (as_bytes (''0x'' @ ?h)) = Inr raw"
    using h(1) by (simp add: submit_body_def str_strip_prefix_def)
qed

lemma submission_counted:
  assumes "submit_tx from_hex to_hex node content_type body c = (c', r)"
  shows "ct_tx_submissions_accepted c' + ct_tx_submissions_rejected c'
      = ct_tx_submissions_accepted c + ct_tx_submissions_rejected c + 1"
    and "(\<exists>e. r = Inl e) \<longleftrightarrow> ct_tx_submissions_rejected c' = ct_tx_submissions_rejected c + 1"
  using assms by (auto simp: submit_tx_def counter_inc_def Let_def split: sum.splits)

section \<open>Witnesses\<close>

definition demo_cli_env :: "(nat, u128, u128, unit) cli_env" where
  "demo_cli_env = \<lparr>re_is_uppercase = (\<lambda>c. c \<in> set ''ABC''), re_sha = demo_sha, re_to_hex = (\<lambda>_. []),
     re_hash_order = (\<lambda>m. m), re_unstick_flushing = (\<lambda>_. Inr ()), re_crates = demo_facade, re_connect = Inr (),
     re_header_value = (\<lambda>_. True)\<rparr>"

definition demo_args :: run_args where
  "demo_args = \<lparr>ra_network_id = ''preview'', ra_cursor_secret = None, ra_submit_cors_origin = None,
     ra_backfill_contract_events = False, ra_backfill_dust_generation = False, ra_measure_contract_states = False,
     ra_backfill_contract_states = False\<rparr>"

text \<open>A data directory from before the schemas, with two legacy actions.\<close>

definition old_store :: Store where
  "old_store = commit legacy_store (batch_insert Meta LAST_HEIGHT (Raw (u64_to_be_bytes 6)) [])"

lemma old_store_ok: "store_ok old_store"
  using legacy_migrating unfolding old_store_def migrating_def
  by (intro store_ok_insert) (simp_all add: meta_u64_keys_def)

lemma old_get: "store_get old_store Meta k = (if k = LAST_HEIGHT then Some (Raw (u64_to_be_bytes 6)) else None)"
  "store_get old_store ContractStates k = None"
  by (simp_all add: old_store_def legacy_store_def store_simps)
    (simp_all add: blank_store_def store_get_def ks_get_def part_get_def)

lemma old_opened:
  obtains st where "store_open (disk old_store) = Inr st" and "schema st = 1" and "migrating demo_sha st"
    and "keyspace (disk st) = keyspace (disk old_store)"
proof -
  have "stored_schema (disk old_store) = None" "\<not> is_fresh (disk old_store)"
    using old_get(1) by (simp_all add: stored_schema_def is_fresh_def store_get_def)
  then obtain st where st: "store_open (disk old_store) = Inr st" "schema st = 1"
    "keyspace (disk st) = keyspace (disk old_store)" "contract_actions st = LegacyContractActions"
    using store_open_unstored [of "disk old_store"] by auto
  have get: "store_get st p k = store_get old_store p k" for p k by (simp add: store_get_def st(3))
  have "store_ok st" using old_store_ok st by (simp add: store_ok_def)
  then have "migrating demo_sha st"
    using st(2) by (simp add: migrating_def blobs_ok_def resumable_def backfill_cursor_def get old_get SCHEMA_CURRENT_def)
  with st show thesis using that by blast
qed


theorem measure_report_witness:
  "\<exists>rep. measure_contract_states (\<lambda>s. if s = [7] then 1 else 2) (\<lambda>_. []) rev legacy_store = Inr rep
     \<and> rp_records rep = 2 \<and> rp_logical_bytes rep = 2 \<and> rp_unique_bytes rep = 1"
proof -
  have rows: "store_iter legacy_store (contract_actions legacy_store)
      = [(u64_to_be_bytes 0, VLegacyAction legacy_record), (u64_to_be_bytes 1, VLegacyAction legacy_record)]"
    by code_simp
  have live: "live_states [legacy_record, legacy_record] = [([9], [7]), ([9], [7])]"
    by (simp add: live_states_def legacy_record_def)
  have "list_all2 (\<lambda>e r. snd e = VLegacyAction r) (store_iter legacy_store (contract_actions legacy_store))
      [legacy_record, legacy_record]"
    by (simp add: rows)
  moreover have "\<forall>r \<in> set [legacy_record, legacy_record]. length (la_state r) < 2 ^ 64" by (simp add: legacy_record_def)
  moreover have "mset (rev m) = mset m" for m :: "(bytes \<times> u64 \<times> u64) list" by simp
  moreover have "inj_on (\<lambda>s. if s = [7] then 1 else (2 :: hash32)) (set (map snd (live_states [legacy_record, legacy_record])))"
    by (simp add: live)
  ultimately have "\<exists>rep. measure_contract_states (\<lambda>s. if s = [7] then 1 else 2) (\<lambda>_. []) rev legacy_store = Inr rep
    \<and> rp_records rep = word_of_nat (length [legacy_record, legacy_record])
    \<and> rp_logical_bytes rep = sum_list (map (size_of \<circ> snd) (live_states [legacy_record, legacy_record]))
    \<and> rp_unique_bytes rep = sum size_of (snd ` set (live_states [legacy_record, legacy_record]))"
    using measure_report [of legacy_store "[legacy_record, legacy_record]" rev "\<lambda>s. if s = [7] then 1 else 2" "\<lambda>_. []"] by blast
  then show ?thesis unfolding live by (simp add: size_of_def)
qed

end
