(* ===== verification/HttpFacts.thy ===== *)
theory HttpFacts
  imports HttpMetrics
begin

text \<open>
  The accounting is right in every reachable state: the invariant \<open>accounted\<close> of the state and of the
  histories is kept by every step, so the figures are those of the requests, the labels come from finite
  sets, and the buckets of a latency histogram are cumulative.
\<close>

section \<open>The invariant\<close>

lemma accounted_initial: "accounted F http_state_initial"
  by (auto simp: accounted_def http_state_initial_def http_initial_def counts_of_def latencies_of_def seconds_of_def fun_eq_iff)

lemma metrics_fields [simp]:
  "hm_requests (http_start h) = hm_requests h" "hm_latency (http_start h) = hm_latency h"
  "hm_inflight (http_start h) = hm_inflight h + 1"
  "hm_requests (inflight_drop h) = hm_requests h" "hm_latency (inflight_drop h) = hm_latency h"
  "hm_inflight (inflight_drop h) = hm_inflight h - 1"
  "hm_latency (count_request a m st h) = hm_latency h" "hm_inflight (count_request a m st h) = hm_inflight h"
  "hm_requests (observe_latency F a d h) = hm_requests h" "hm_inflight (observe_latency F a d h) = hm_inflight h"
  by (simp_all add: http_start_def inflight_drop_def count_request_def observe_latency_def Let_def)

lemma finish_sorted:
  "sorted_wrt (<) (map fst (hm_requests h)) \<Longrightarrow> sorted_wrt (<) (map fst (hm_requests (count_request a m st h)))"
  "sorted_wrt (<) (map fst (hm_latency h)) \<Longrightarrow> sorted_wrt (<) (map fst (hm_latency (observe_latency F a d h)))"
  by (simp_all add: count_request_def observe_latency_def Let_def bt_insert_sorted)

lemma route_label_in: "set_option p \<subseteq> fst ` set app_routes \<Longrightarrow> route_label p \<in> route_labels"
  by (auto simp: route_label_def route_labels_def split: option.splits)

lemma accounted_step:
  assumes "http_step F s s'" and acc: "accounted F s"
  shows "accounted F s'"
  using assms(1)
proof (cases rule: http_step.cases)
  case (request p m)
  then show ?thesis using acc route_label_in [of p] by (simp add: accounted_def)
next
  case (response route m rest status elapsed)
  then show ?thesis using acc by (simp add: accounted_def)
next
  case (dropped route m rest)
  then show ?thesis using acc by (simp add: accounted_def)
next
  case (finish_count r rest)
  then show ?thesis
    using acc count_request_requests [of "hs_metrics s" "hs_counted s" r] by (simp add: accounted_def finish_sorted)
next
  case (finish_observe r rest)
  then show ?thesis
    using acc observe_latency_histograms [of "hs_metrics s" F "hs_observed s" r] by (simp add: accounted_def finish_sorted)
qed

lemma reaches_accounted: "http_reaches F s \<Longrightarrow> accounted F s"
  by (induction rule: http_reaches.induct) (auto intro: accounted_initial accounted_step)

section \<open>Cumulative buckets\<close>

text \<open>A number that is at most the value of a literal is at most the value of a larger one.\<close>

definition literals_ordered :: "'f floats \<Rightarrow> bool" where
  "literals_ordered F \<longleftrightarrow> (\<forall>x p q. p \<le> q \<longrightarrow> fl_le F x (fl_of_rat F p) \<longrightarrow> fl_le F x (fl_of_rat F q))"

lemma buckets_sorted: "sorted LATENCY_BUCKETS"
  by (simp add: LATENCY_BUCKETS_def)

lemma length_filter_mono: "(\<And>x. P x \<Longrightarrow> Q x) \<Longrightarrow> length (filter P xs) \<le> length (filter Q xs)"
  by (induction xs) auto

lemma histogram_cumulative:
  assumes "literals_ordered F" and "length xs < 2 ^ 64"
  shows "sorted (map unat (hg_buckets (histogram_of F xs))) \<and>
    (\<forall>n \<in> set (hg_buckets (histogram_of F xs)). n \<le> hg_count (histogram_of F xs))"
proof -
  let ?n = "\<lambda>le. length (filter (\<lambda>x. fl_le F x (fl_of_rat F le)) xs)"
  have num: "unat (word_of_nat k :: u64) = k" if "k \<le> length xs" for k
    using assms(2) that by (simp add: unat_of_nat)
  have mono: "?n b \<le> ?n c" if "b \<le> c" for b c
    using assms(1) that unfolding literals_ordered_def by (intro length_filter_mono) blast
  have "sorted (map ?n LATENCY_BUCKETS)"
    using buckets_sorted mono by (auto simp: sorted_map elim!: sorted_wrt_mono_rel [rotated])
  moreover have "map unat (hg_buckets (histogram_of F xs)) = map ?n LATENCY_BUCKETS"
    by (simp add: histogram_of_def comp_def num)
  ultimately show ?thesis by (auto simp: histogram_of_def word_le_nat_alt num comp_def)
qed

lemma seconds_bound: "length (seconds_of F rs route) \<le> length rs"
  by (simp add: seconds_of_def)

section \<open>The figures\<close>


section \<open>Two requests\<close>

text \<open>Numbers of seconds as rationals.\<close>

definition demo_floats :: "rat floats" where
  "demo_floats = \<lparr>fl_le = (\<le>), fl_add = (+), fl_div = (/), fl_of_rat = id, fl_of_u64 = (\<lambda>n. of_int (uint n)),
     fl_show = (\<lambda>_. [])\<rparr>"

lemma demo_literals: "literals_ordered demo_floats"
  by (auto simp: literals_ordered_def demo_floats_def)

definition demo_request :: http_request where
  "demo_request = \<lparr>rq_route = ''/api/v0/sync'', rq_method = ''BREW'', rq_status = 405,
     rq_elapsed = \<lparr>du_secs = 1, du_nanos = 0\<rparr>\<rparr>"

definition demo_served :: "rat http_state" where
  "demo_served =
     (let h = count_request ''/api/v0/sync'' ''BREW'' 405 (inflight_drop (http_start (http_start http_initial)))
      in \<lparr>hs_metrics = observe_latency demo_floats ''/api/v0/sync'' \<lparr>du_secs = 1, du_nanos = 0\<rparr> h,
          hs_tasks = {#Waiting ''unmatched'' ''GET''#}, hs_counted = [demo_request], hs_observed = [demo_request]\<rparr>)"

lemma demo_served_reached: "http_reaches demo_floats demo_served"
proof -
  let ?F = demo_floats
  define s1 :: "rat http_state" where "s1 = http_state_initial\<lparr>hs_metrics := http_start http_initial,
    hs_tasks := {#Waiting ''/api/v0/sync'' ''BREW''#}\<rparr>"
  define s2 where "s2 = s1\<lparr>hs_metrics := http_start (hs_metrics s1),
    hs_tasks := {#Waiting ''unmatched'' ''GET'', Waiting ''/api/v0/sync'' ''BREW''#}\<rparr>"
  define s3 where "s3 = s2\<lparr>hs_metrics := inflight_drop (hs_metrics s2),
    hs_tasks := {#Responded demo_request, Waiting ''unmatched'' ''GET''#}\<rparr>"
  define s4 where "s4 = s3\<lparr>hs_metrics := count_request ''/api/v0/sync'' ''BREW'' 405 (hs_metrics s3),
    hs_tasks := {#Counted demo_request, Waiting ''unmatched'' ''GET''#}, hs_counted := [demo_request]\<rparr>"
  have "http_step ?F http_state_initial s1"
    using http_step.request [of "Some ''/api/v0/sync''" ?F http_state_initial "''BREW''"]
    by (simp add: s1_def http_state_initial_def route_label_def app_routes_def api_routes_def)
  moreover have "http_step ?F s1 s2"
    using http_step.request [of None ?F s1 "''GET''"] by (simp add: s2_def s1_def route_label_def)
  moreover have "http_step ?F s2 s3"
    using http_step.response [of s2 "''/api/v0/sync''" "''BREW''" "{#Waiting ''unmatched'' ''GET''#}" ?F 405
        "\<lparr>du_secs = 1, du_nanos = 0\<rparr>"]
    by (simp add: s3_def s2_def s1_def demo_request_def)
  moreover have "http_step ?F s3 s4"
    using http_step.finish_count [of s3 demo_request "{#Waiting ''unmatched'' ''GET''#}" ?F]
    by (simp add: s4_def s3_def s2_def s1_def demo_request_def http_state_initial_def)
  moreover have "http_step ?F s4 demo_served"
    using http_step.finish_observe [of s4 demo_request "{#Waiting ''unmatched'' ''GET''#}" ?F]
    by (simp add: s4_def s3_def s2_def s1_def demo_served_def demo_request_def http_state_initial_def Let_def)
  ultimately show ?thesis by (meson http_begin http_more)
qed


end
