(* ===== verification/Spec2Isabelle.thy ===== *)
theory Spec2Isabelle
  imports RunWitness WalletProps BackfillProps LogFacts LedgerEventFacts LedgerUtxoFacts NodeProps CommandFacts HttpFacts
begin

text \<open>
  Nightfrost is an indexer of the Midnight blockchain in one process. It follows a node over a
  subscription, replays every block through the Midnight ledger to obtain the ledger state, writes what
  the block contains and causes into an embedded key-value store (fjall), and serves that store over a
  read-only REST API. This development models the program from \<open>src/crates/\<close> as HOL functions and step
  relations, executable wherever the code is, and proves the properties listed below.

  \<^bold>\<open>How the parts interact.\<close> The node client yields finalized blocks in order. The run loop
  replays each one over the ledger facade and refuses it unless the roots agree with the node's; it then
  makes three durable moves in this order: the ledger state is persisted as a root of the arena, the batch
  of the block writer is committed to the store, and ledger states that leave the retention window are
  unpersisted. A handler of the API reads the store of one moment and binds its cursors to the tip it saw.
  The command line opens the store, runs the maintenance passes over a stopped index, and starts the run
  loop and the server only on a store of the current schema.
\<close>

section \<open>Which theory models what\<close>

text \<open>
  Paths are below \<open>src/crates/\<close>; \<open>core\<close>, \<open>chain\<close> and \<open>api\<close> stand for \<open>nightfrost-core/src\<close>,
  \<open>nightfrost-chain/src\<close> and \<open>nightfrost-api/src\<close>. Definitions keep the names of the code. A Rust struct
  is a record, an enum a datatype, a machine integer a word, a \<open>Result\<close> a sum whose left side is the
  error, and a panic an error of its own (\<open>Panic\<close>, in the API
  \<open>ApiPanic\<close>).

  \<^bold>\<open>Foundations.\<close>
  \<^item> \<open>Prelude\<close>: names of the integer types, results, and generic lemmas on lists, maps and words.
  \<^item> \<open>Bytes\<close>: big-endian integers and byte arrays (\<open>core/domain/bytes.rs\<close>).
  \<^item> \<open>Versions\<close>: protocol, ledger and node versions, the version digest of a header
    (\<open>core/domain/protocol_version.rs\<close>, \<open>chain/subxt_node/header.rs\<close>).
  \<^item> \<open>Domain\<close>: the domain types, the correlation of events with actions, bridge events
    (\<open>core/domain.rs\<close>, \<open>core/domain/dust.rs\<close>, \<open>core/domain/bridge.rs\<close>, \<open>chain/domain.rs\<close>).
  \<^item> \<open>Partition\<close>: a fjall partition as an ordered map, and the items of a batch
    (\<open>src/vendor/fjall/src/batch\<close>).
  \<^item> \<open>Store\<close>, \<open>StoreFacts\<close>: partitions, records, keys, schema detection, look-ups (\<open>core/store.rs\<close>).

  \<^bold>\<open>Indexing.\<close> All of \<open>chain/pipeline.rs\<close>.
  \<^item> \<open>LedgerApi\<close>: the operations of the ledger facade that the pipeline calls, as a record of functions.
  \<^item> \<open>WriteBlock\<close>: \<open>write_block\<close> and \<open>apply_registration_event\<close>. \<open>WriteFacts\<close> says part by part what
    the batch of a block contains; on it rest \<open>UtxoFacts\<close>, \<open>EventIndex\<close>, \<open>ActionFacts\<close>,
    \<open>RegistrationFacts\<close>, \<open>BlockFacts\<close> and \<open>BlockTotal\<close>; \<open>BlockWitness\<close> is a concrete block.
  \<^item> \<open>IndexBlock\<close>, \<open>IndexFacts\<close>: \<open>apply_transaction\<close>, \<open>index_block\<close>, the \<open>node_blocks\<close> follower.
  \<^item> \<open>LedgerDb\<close>, \<open>RootCounts\<close>: the node database of the arena (\<open>core/ledger_db.rs\<close>), and the roots in it:
    persisting, unpersisting, the repair at startup, the walk over a root's DAG
    (\<open>core/domain/ledger/ledger_state.rs\<close>).
  \<^item> \<open>RunLoop\<close>, \<open>RunFacts\<close>, \<open>RunWitness\<close>: \<open>run\<close> as a step relation with crashes.

  \<^bold>\<open>The ledger facade.\<close> \<open>core/domain/ledger.rs\<close> and \<open>core/domain/ledger/\<close>.
  \<^item> \<open>LedgerFacade\<close>, \<open>LedgerContracts\<close>, \<open>LedgerFacadeFacts\<close>: \<open>LedgerState\<close> and \<open>ContractState\<close>.
  \<^item> \<open>LedgerUtxos\<close>, \<open>LedgerUtxoFacts\<close>: unshielded outputs created and spent.
  \<^item> \<open>LedgerEvents\<close>, \<open>LedgerEventFacts\<close>: domain events of a transaction.
  \<^item> \<open>LogDecode\<close>, \<open>LogFacts\<close>: the decoder of contract logs.
  \<^item> \<open>LedgerTx\<close>, \<open>NodeTx\<close>: the transaction facade as the wallet endpoints and the node client use it
    (\<open>core/domain/ledger/transaction.rs\<close>).

  \<^bold>\<open>The node client.\<close> \<open>chain/subxt_node.rs\<close> and \<open>chain/subxt_node/\<close>.
  \<^item> \<open>NodeRuntimes\<close>: the four runtimes of the node versions.
  \<^item> \<open>NodeClient\<close>: making a block, the subscription filter, the catch-up by height and by hash.
  \<^item> \<open>NodeFacts\<close>, \<open>NodeSync\<close>, \<open>NodeProps\<close>: what a made block consists of, and the catch-up against
    making the blocks one after the other.

  \<^bold>\<open>The REST API.\<close>
  \<^item> \<open>Pagination\<close>, \<open>PaginationFacts\<close>: errors and signed cursors (\<open>api/error.rs\<close>, \<open>api/pagination.rs\<close>).
  \<^item> \<open>ApiCore\<close>: server state, network, status, blocks, ledger parameters (\<open>api/routes.rs\<close>).
  \<^item> \<open>ApiTxs\<close>, \<open>ApiFeeds\<close>, \<open>ApiWallet\<close>: every handler of \<open>api/routes/entities.rs\<close>.
  \<^item> \<open>ApiPages\<close>, \<open>FeedFacts\<close>, \<open>EventFeeds\<close>, \<open>AddressFeeds\<close>, \<open>FeedProps\<close>: the page protocol, its
    instances and what a client collects.
  \<^item> \<open>WalletFacts\<close>, \<open>DustFacts\<close>, \<open>WalletDemo\<close>, \<open>WalletProps\<close>: relevance scan, shielded and DUST sync.
  \<^item> \<open>HttpMetrics\<close>, \<open>HttpFacts\<close>, \<open>Exposition\<close>: counters, the accounting middleware over the route tables,
    and the text of the metrics endpoint (\<open>core/metrics.rs\<close>, \<open>api/lib.rs\<close>, \<open>api/metrics.rs\<close>).

  \<^bold>\<open>The command line.\<close> \<open>nightfrost/src/\<close>.
  \<^item> \<open>Backfill\<close>, \<open>Migrations\<close>, and \<open>BackfillFacts\<close>, \<open>RebuildFacts\<close>, \<open>StatesFacts\<close>,
    \<open>BackfillProps\<close>: the four maintenance passes (\<open>backfill.rs\<close>).
  \<^item> \<open>Text\<close>, \<open>ConfigFile\<close>: the operations of \<open>str\<close> used, and the configuration file and the dialogue
    that writes it (\<open>config.rs\<close>, \<open>init.rs\<close>).
  \<^item> \<open>Snapshot\<close>: saving and restoring the data directory (\<open>snapshot.rs\<close>).
  \<^item> \<open>Measure\<close>: the measurement of duplicated contract states (\<open>measure.rs\<close>).
  \<^item> \<open>CommandLine\<close>, \<open>CommandFacts\<close>: the dispatch, the schema gate and submissions (\<open>main.rs\<close>).
\<close>

section \<open>What the theorems show\<close>

text \<open>
  \<^bold>\<open>A block and the store.\<close> \<open>write_block\<close> refines an abstract UTXO ledger (\<open>UtxoFacts\<close>: the
  abstraction of the store after the block is the abstract ledger's answer for the block), keeps the event
  log append-only with an exact index by contract (\<open>EventIndex\<close>), keeps contract pointers, actions and
  content-addressed states in agreement (\<open>ActionFacts\<close>), stores the block so that a restart resumes from
  it (\<open>BlockFacts\<close>), keeps the store well typed, and returns for every block the abstract ledger accepts
  (\<open>BlockTotal\<close>). The registrations of a block are right when no two of its events concern the same stake
  key and address; a theorem of \<open>RegistrationFacts\<close> gives the case that goes wrong.

  \<^bold>\<open>The run.\<close> By induction over the steps, crashes included: the committed blocks are a hash chain
  whose tip the store names, every ledger state of the stored window is persisted as often as it occurs, a
  restart resumes at the last committed block, and the bookkeeping of roots cannot fail (\<open>RunFacts\<close>). The
  repair at startup raises counts and never lowers one; the DAG walk decides reachability (\<open>RootCounts\<close>).

  \<^bold>\<open>The ledger facade.\<close> It satisfies what the pipeline assumes of it (\<open>LedgerFacadeFacts\<close>);
  created and spent outputs are those of the successful segments (\<open>LedgerUtxoFacts\<close>); contract logs decode
  to what was encoded (\<open>LogFacts\<close>). Two theorems show where the code loses data: a nullifier that ends in
  a zero byte, and an event that does not serialize.

  \<^bold>\<open>The node client.\<close> The chunked catch-up equals the sequential one on a canonical chain
  (\<open>NodeProps\<close>); a new session in the first chunk gives a block the wrong author.

  \<^bold>\<open>The API.\<close> A token is accepted exactly when the server would issue it (\<open>PaginationFacts\<close>); a
  client that follows cursors while the indexer goes on writing collects every row up to the tip of its
  first page once and in order (\<open>FeedProps\<close>); the scan and the sync endpoints leave no gap
  (\<open>WalletProps\<close>); under every interleaving the HTTP counters are those of the requests (\<open>HttpFacts\<close>).

  \<^bold>\<open>The command line.\<close> Each maintenance pass leaves what the event log determines, wherever it is
  interrupted (\<open>BackfillFacts\<close>, \<open>RebuildFacts\<close>, \<open>StatesFacts\<close>); a start decodes records only under the
  current schema (\<open>CommandFacts\<close>); the configuration that is written is read back (\<open>ConfigFile\<close>); what a
  restore may overwrite (\<open>Snapshot\<close>).
\<close>

section \<open>Interfaces\<close>

text \<open>
  \<^item> \<open>fixed_codec\<close> (\<open>Bytes\<close>): an order-preserving encoding of fixed width. Interpreted for the four
    widths of integers, 32-byte hashes and 29-byte stake keys; keys and their ranges rest on it.
  \<^item> \<open>ordered_kv\<close> (\<open>Partition\<close>): what fjall promises of a partition, interpreted by a sorted
    association list.
  \<^item> \<open>root_ledger\<close> (\<open>RootCounts\<close>): counted roots that are raised, lowered and flushed, interpreted by
    the arena over the node database; the window lemmas behind \<open>RunFacts\<close> are proved in it.
  \<^item> \<open>text_coding\<close> (\<open>PaginationFacts\<close>): a canonical text encoding, interpreted by the hex digits.
  \<^item> \<open>paged_handler\<close> (\<open>ApiPages\<close>): the page protocol. \<open>range_handler\<close> (\<open>FeedFacts\<close>), a handler over
    one index range, is a sublocale of it, interpreted for contracts, events, events of a contract and
    outputs of an address.

  Versions are instances of \<open>linorder\<close> in the order the code derives.
\<close>

section \<open>Loops, bounds and parameters\<close>

text \<open>
  There is no fuel. Loops over data are recursive functions; those that are not structural
  (\<open>dag_walk\<close>, \<open>robin\<close>, \<open>strip_leading\<close>, \<open>split_words\<close>) have a measure. Loops that depend on the
  outside (\<open>scan_batches\<close>, \<open>catch_up\<close>, \<open>ancestors\<close>, \<open>prompt_choice\<close>) are partial functions whose value
  \<open>None\<close> is not returning, and each is proved to return where a property speaks of what it returns. The run
  loop and the accounting of requests are inductive step relations.

  Integers have the width of the code and wrap as in a release build. Where a result needs that a counter
  does not overflow, this is a hypothesis of the property: ids and heights that leave room in 64 bits for
  what the operation adds, balances inside \<open>i128\<close>. A root count outside \<open>u32\<close> is the panic of the code. The largest
  page and the longest cursor are the constants of the code.

  Parameters of the model are the Midnight crates (ledger, transactions, Zswap, events), the decoders subxt
  generates and the answers of the node, SHA-256, HMAC and base64, the internals of
  fjall, the operating system with \<open>tar\<close> and \<open>curl\<close>, the environment, and floating-point arithmetic. A
  hash map that the code iterates is an association list, or its order is a parameter. What is required of
  a parameter is a predicate or an assumption with a name, met by a concrete instance in a witness.
\<close>

section \<open>Not modelled\<close>

text \<open>
  \<^item> The HTTP server, the matching of paths, CORS, body limits, and JSON in both directions: third-party
    code that the program configures. Handlers are functions of their decoded arguments.
  \<^item> Argument parsing (clap), logging, and what commands print.
  \<^item> Sockets, signals, tasks and the watchers of a serving process: a run is reduced to the result that
    ends it, and requests to the interleaving of their accounting.
  \<^item> fjall beyond the semantics of partitions and batches: LSM tree, journal, memtables, back-pressure,
    I/O errors. A commit is atomic and durable, as fjall documents.
  \<^item> The locks around the arena and its garbage collection; the memory order of atomics; the wall clock.
  \<^item> Connecting to the node, reconnecting, and the construction of an extrinsic for submission: calls into
    subxt with nothing of the program's own in between.
\<close>

end
